(* ===== verification/Prelude.thy ===== *)
theory Prelude
  imports Main "HOL-Library.Word" "HOL-Library.AList" "HOL-Library.Char_ord"
    "HOL-Library.List_Lexorder" "HOL-Library.Multiset"
begin

text \<open>
  Shared vocabulary of the development: Go byte slices, strings and maps, the result type of
  fallible code, decimal printing and parsing, and the lemmas about them that the component
  theories use.

  A Go \<open>string\<close> is a list of characters (one per byte). The case conversions and
  \<open>TrimSpace\<close> are those of Go's \<open>strings\<close> package on ASCII text; a byte above 127 is left
  as it is. Strings are compared bytewise, which is the lexicographic order of
  \<open>List_Lexorder\<close> over \<open>Char_ord\<close>. A Go map is an association list read through \<open>map_of\<close>;
  code that ranges over a map is given the list in an arbitrary order.
\<close>

unbundle bit_operations_syntax

named_theorems tg_defs \<open>definitions unfolded when a concrete input is evaluated\<close>

type_synonym byte = "8 word"
type_synonym 'v gomap = "(string \<times> 'v) list"
type_synonym ('e, 'a) result = "'e + 'a"

subsection \<open>Results\<close>

definition bindE :: "('e, 'a) result \<Rightarrow> ('a \<Rightarrow> ('e, 'b) result) \<Rightarrow> ('e, 'b) result" where
  "bindE r f = (case r of Inl e \<Rightarrow> Inl e | Inr x \<Rightarrow> f x)"

definition guardE :: "bool \<Rightarrow> 'e \<Rightarrow> ('e, 'a) result \<Rightarrow> ('e, 'a) result" where
  "guardE c e k = (if c then Inl e else k)"

definition mapErr :: "('e \<Rightarrow> 'f) \<Rightarrow> ('e, 'a) result \<Rightarrow> ('f, 'a) result" where
  "mapErr h r = (case r of Inl e \<Rightarrow> Inl (h e) | Inr x \<Rightarrow> Inr x)"

lemma bindE_simps [simp]: "bindE (Inl e) f = Inl e" "bindE (Inr x) f = f x"
  by (simp_all add: bindE_def)

lemma guardE_simps [simp]: "guardE True e k = Inl e" "guardE False e k = k"
  by (simp_all add: guardE_def)

lemma mapErr_simps [simp]: "mapErr h (Inl e) = Inl (h e)" "mapErr h (Inr x) = Inr x"
  by (simp_all add: mapErr_def)

lemma bindE_Inr_iff: "bindE r f = Inr y \<longleftrightarrow> (\<exists>x. r = Inr x \<and> f x = Inr y)"
  by (cases r) auto

lemma guardE_Inr_iff: "guardE c e k = Inr y \<longleftrightarrow> \<not> c \<and> k = Inr y"
  by (cases c) auto

lemma mapErr_Inr_iff: "mapErr h r = Inr y \<longleftrightarrow> r = Inr y"
  by (cases r) auto

lemmas result_iffs = bindE_Inr_iff guardE_Inr_iff mapErr_Inr_iff

subsection \<open>Strings\<close>

abbreviation nl :: char where "nl \<equiv> CHR 0x0A"

definition has_prefix :: "string \<Rightarrow> string \<Rightarrow> bool" where
  "has_prefix s p \<longleftrightarrow> take (length p) s = p"

definition has_suffix :: "string \<Rightarrow> string \<Rightarrow> bool" where
  "has_suffix s p \<longleftrightarrow> length p \<le> length s \<and> drop (length s - length p) s = p"

definition trim_prefix :: "string \<Rightarrow> string \<Rightarrow> string" where
  "trim_prefix s p = (if has_prefix s p then drop (length p) s else s)"

definition trim_suffix :: "string \<Rightarrow> string \<Rightarrow> string" where
  "trim_suffix s p = (if has_suffix s p then take (length s - length p) s else s)"

definition is_space :: "char \<Rightarrow> bool" where
  "is_space c \<longleftrightarrow>
     c = CHR '' '' \<or> c = CHR 0x09 \<or> c = nl \<or> c = CHR 0x0B \<or> c = CHR 0x0C \<or> c = CHR 0x0D"

definition trim_space :: "string \<Rightarrow> string" where
  "trim_space s = rev (dropWhile is_space (rev (dropWhile is_space s)))"

definition upper_alphabet :: string where
  "upper_alphabet = ''ABCDEFGHIJKLMNOPQRSTUVWXYZ''"

definition lower_alphabet :: string where
  "lower_alphabet = ''abcdefghijklmnopqrstuvwxyz''"

definition digit_alphabet :: string where
  "digit_alphabet = ''0123456789''"

definition translate_char :: "string \<Rightarrow> string \<Rightarrow> char \<Rightarrow> char" where
  "translate_char src dst c = (case map_of (zip src dst) c of None \<Rightarrow> c | Some d \<Rightarrow> d)"

definition to_lower_char :: "char \<Rightarrow> char" where
  "to_lower_char = translate_char upper_alphabet lower_alphabet"

definition to_upper_char :: "char \<Rightarrow> char" where
  "to_upper_char = translate_char lower_alphabet upper_alphabet"

definition to_lower :: "string \<Rightarrow> string" where
  "to_lower = map to_lower_char"

definition to_upper :: "string \<Rightarrow> string" where
  "to_upper = map to_upper_char"

definition is_lower_alnum :: "char \<Rightarrow> bool" where
  "is_lower_alnum c \<longleftrightarrow> c \<in> set lower_alphabet \<or> c \<in> set digit_alphabet"

lemmas string_defs [tg_defs] = has_prefix_def has_suffix_def trim_prefix_def trim_suffix_def
  is_space_def trim_space_def to_lower_def to_upper_def to_lower_char_def to_upper_char_def
  translate_char_def upper_alphabet_def lower_alphabet_def digit_alphabet_def is_lower_alnum_def

lemma has_prefix_append [simp]: "has_prefix (p @ s) p"
  by (simp add: has_prefix_def)

lemma has_prefix_Nil [simp]: "has_prefix s []"
  by (simp add: has_prefix_def)

lemma has_prefixE: assumes "has_prefix s p" obtains t where "s = p @ t"
  using assms by (metis append_take_drop_id has_prefix_def)

lemma has_prefix_iff: "has_prefix s p \<longleftrightarrow> (\<exists>t. s = p @ t)"
  by (auto elim: has_prefixE)

lemma has_suffix_append [simp]: "has_suffix (s @ p) p"
  by (simp add: has_suffix_def)

lemma has_suffix_iff: "has_suffix s p \<longleftrightarrow> (\<exists>t. s = t @ p)"
  by (metis append_take_drop_id has_suffix_append has_suffix_def)

lemma trim_suffix_append [simp]: "trim_suffix (s @ p) p = s"
  by (simp add: trim_suffix_def)

lemma trim_prefix_append [simp]: "trim_prefix (p @ s) p = s"
  by (simp add: trim_prefix_def)

lemma trim_suffix_eq_iff: "p \<noteq> [] \<Longrightarrow> trim_suffix s p = s \<longleftrightarrow> \<not> has_suffix s p"
proof -
  assume "p \<noteq> []"
  then have "has_suffix s p \<Longrightarrow> length (take (length s - length p) s) \<noteq> length s"
    by (auto simp: has_suffix_def)
  then show ?thesis by (metis trim_suffix_def)
qed

lemma trim_space_id: "\<forall>c \<in> set s. \<not> is_space c \<Longrightarrow> trim_space s = s"
proof -
  assume a: "\<forall>c \<in> set s. \<not> is_space c"
  then have "dropWhile is_space s = s"
    by (cases s) auto
  moreover from a have "dropWhile is_space (rev s) = rev s"
    by (cases "rev s") (auto simp: rev_eq_Cons_iff)
  ultimately show ?thesis by (simp add: trim_space_def)
qed

lemma length_to_lower [simp]: "length (to_lower s) = length s"
  by (simp add: to_lower_def)

lemma length_to_upper [simp]: "length (to_upper s) = length s"
  by (simp add: to_upper_def)

lemma to_lower_append [simp]: "to_lower (s @ t) = to_lower s @ to_lower t"
  by (simp add: to_lower_def)

lemma translate_char_nth:
  assumes "distinct src" "length src = length dst" "i < length src"
  shows "translate_char src dst (src ! i) = dst ! i"
  using assms by (simp add: translate_char_def map_of_zip_nth)

lemma translate_char_inverse:
  assumes "distinct src" "distinct dst" "length src = length dst" "c \<in> set src"
  shows "translate_char dst src (translate_char src dst c) = c"
  using assms by (metis in_set_conv_nth translate_char_nth)

lemma translate_char_image:
  assumes "distinct src" "length src = length dst" "c \<in> set src"
  shows "translate_char src dst c \<in> set dst"
  using assms by (metis in_set_conv_nth translate_char_nth nth_mem)

lemma translate_char_fixed:
  "length src = length dst \<Longrightarrow> c \<notin> set src \<Longrightarrow> translate_char src dst c = c"
  by (auto simp: translate_char_def split: option.splits dest!: map_of_SomeD in_set_zipE)

lemma alphabets:
  "distinct upper_alphabet" "distinct lower_alphabet" "length upper_alphabet = 26"
  "length lower_alphabet = 26"
  by (simp_all add: upper_alphabet_def lower_alphabet_def)

lemma to_lower_upper_char: "c \<in> set upper_alphabet \<Longrightarrow> to_upper_char (to_lower_char c) = c"
  by (simp add: to_lower_char_def to_upper_char_def translate_char_inverse alphabets)

lemma to_lower_char_fixed: "c \<notin> set upper_alphabet \<Longrightarrow> to_lower_char c = c"
  by (simp add: to_lower_char_def translate_char_fixed alphabets)

lemma to_upper_char_fixed: "c \<notin> set lower_alphabet \<Longrightarrow> to_upper_char c = c"
  by (simp add: to_upper_char_def translate_char_fixed alphabets)

lemma to_lower_char_in_lower: "c \<in> set upper_alphabet \<Longrightarrow> to_lower_char c \<in> set lower_alphabet"
  by (simp add: to_lower_char_def translate_char_image alphabets)

lemma lower_notin_upper: "c \<in> set lower_alphabet \<Longrightarrow> c \<notin> set upper_alphabet"
  by (auto simp: upper_alphabet_def lower_alphabet_def)

lemma to_lower_idem [simp]: "to_lower (to_lower s) = to_lower s"
proof -
  have "to_lower_char (to_lower_char c) = to_lower_char c" for c
    by (metis lower_notin_upper to_lower_char_fixed to_lower_char_in_lower)
  then show ?thesis by (simp add: to_lower_def)
qed

subsection \<open>Bytes\<close>

definition bytes_of :: "string \<Rightarrow> byte list" where
  "bytes_of s = map of_char s"

definition string_of :: "byte list \<Rightarrow> string" where
  "string_of bs = map (\<lambda>b. char_of (unat b)) bs"

lemma length_bytes_of [simp]: "length (bytes_of s) = length s"
  by (simp add: bytes_of_def)

lemma length_string_of [simp]: "length (string_of b) = length b"
  by (simp add: string_of_def)

lemma of_char_lt_256: "(of_char c :: nat) < 256"
  by simp

lemma string_of_bytes_of [simp]: "string_of (bytes_of s) = s"
proof -
  have "char_of (unat (of_char c :: byte)) = c" for c :: char
  proof -
    have "unat (of_nat (of_char c) :: byte) = of_char c"
      by (rule of_nat_inverse [OF refl]) (simp add: of_char_lt_256)
    then show ?thesis by (simp add: of_nat_of_char)
  qed
  then show ?thesis by (simp add: string_of_def bytes_of_def map_idI)
qed

subsection \<open>Decimal numbers\<close>

text \<open>
  \<open>fmt.Sprintf("%d", n)\<close> and \<open>strconv.Itoa\<close> on non-negative and signed numbers, and
  \<open>strconv.Atoi\<close>, which accepts an optional sign and at least one digit and fails outside the
  range of a 64-bit \<open>int\<close>.
\<close>

definition digit_char :: "nat \<Rightarrow> char" where
  "digit_char d = digit_alphabet ! d"

definition digit_value :: "char \<Rightarrow> nat option" where
  "digit_value c = map_of (zip digit_alphabet [0..<10]) c"

fun show_nat :: "nat \<Rightarrow> string" where
  "show_nat n = (if n < 10 then [digit_char n] else show_nat (n div 10) @ [digit_char (n mod 10)])"

declare show_nat.simps [simp del]

definition show_int :: "int \<Rightarrow> string" where
  "show_int i = (if i < 0 then CHR ''-'' # show_nat (nat (- i)) else show_nat (nat i))"

fun parse_digits :: "nat \<Rightarrow> string \<Rightarrow> nat option" where
  "parse_digits acc [] = Some acc"
| "parse_digits acc (c # cs) =
     (case digit_value c of None \<Rightarrow> None | Some d \<Rightarrow> parse_digits (acc * 10 + d) cs)"

definition parse_nat :: "string \<Rightarrow> nat option" where
  "parse_nat s = (if s = [] then None else parse_digits 0 s)"

definition atoi :: "string \<Rightarrow> int option" where
  "atoi s =
     (let (neg, ds) = (case s of [] \<Rightarrow> (False, [])
                       | c # cs \<Rightarrow> if c = CHR ''-'' then (True, cs)
                                  else if c = CHR ''+'' then (False, cs) else (False, s))
      in case parse_nat ds of None \<Rightarrow> None
         | Some n \<Rightarrow> let v = (if neg then - int n else int n)
                    in if - (2 ^ 63) \<le> v \<and> v < 2 ^ 63 then Some v else None)"

lemma digit_value_char [simp]: "d < 10 \<Longrightarrow> digit_value (digit_char d) = Some d"
proof -
  assume d: "d < 10"
  have "distinct digit_alphabet" "length digit_alphabet = 10"
    by (simp_all add: digit_alphabet_def)
  then have "map_of (zip digit_alphabet [0..<10]) (digit_alphabet ! d) = Some ([0..<10] ! d)"
    using d by (simp add: map_of_zip_nth)
  then show ?thesis using d by (simp add: digit_value_def digit_char_def)
qed

lemma digit_char_not_sign: "d < 10 \<Longrightarrow> digit_char d \<noteq> CHR ''-'' \<and> digit_char d \<noteq> CHR ''+''"
proof -
  assume "d < 10"
  moreover have "digit_value CHR ''-'' = None" "digit_value CHR ''+'' = None"
    by (simp_all add: digit_value_def digit_alphabet_def upt_rec)
  ultimately show ?thesis by (metis digit_value_char option.distinct(1))
qed

lemma show_nat_nonempty [simp]: "show_nat n \<noteq> []"
  by (subst show_nat.simps) simp

lemma show_nat_digits: "c \<in> set (show_nat n) \<Longrightarrow> \<exists>d < 10. c = digit_char d"
proof (induction n rule: show_nat.induct)
  case (1 n)
  then show ?case by (subst (asm) (2) show_nat.simps) (auto split: if_splits intro: exI [of _ "n mod 10"])
qed

lemma parse_digits_append:
  "parse_digits acc (s @ t) = Option.bind (parse_digits acc s) (\<lambda>a. parse_digits a t)"
  by (induction s arbitrary: acc) (auto split: option.splits)

lemma parse_digits_show: "parse_digits 0 (show_nat n) = Some n"
proof (induction n rule: show_nat.induct)
  case (1 n)
  then show ?case
    by (subst show_nat.simps) (auto simp: parse_digits_append)
qed

lemma parse_nat_show [simp]: "parse_nat (show_nat n) = Some n"
  by (simp add: parse_nat_def parse_digits_show)

lemma show_nat_no_sign: "show_nat n = c # cs \<Longrightarrow> c \<noteq> CHR ''-'' \<and> c \<noteq> CHR ''+''"
  by (metis digit_char_not_sign list.set_intros(1) show_nat_digits)

lemma atoi_show_nat: "int n < 2 ^ 63 \<Longrightarrow> atoi (show_nat n) = Some (int n)"
  using parse_nat_show [of n] show_nat_no_sign [of n]
  by (cases "show_nat n") (auto simp: atoi_def Let_def)

lemma show_nat_inject [simp]: "show_nat m = show_nat n \<longleftrightarrow> m = n"
  by (metis option.inject parse_nat_show)

definition is_digit :: "char \<Rightarrow> bool" where
  "is_digit c \<longleftrightarrow> digit_value c \<noteq> None"

lemma show_nat_all_digits: "\<forall>c \<in> set (show_nat n). is_digit c"
  using show_nat_digits by (fastforce simp: is_digit_def)

lemma parse_digits_all_digits: "parse_digits a s = Some v \<Longrightarrow> \<forall>c \<in> set s. is_digit c"
  by (induction s arbitrary: a) (auto simp: is_digit_def split: option.splits)

lemma not_digit: "\<not> is_digit CHR ''-''" "\<not> is_digit CHR ''+''"
  by (simp_all add: is_digit_def digit_value_def digit_alphabet_def upt_rec)

subsection \<open>Go maps as association lists\<close>

lemma map_of_filter_key:
  "map_of (filter (\<lambda>p. P (fst p)) m) k = (if P k then map_of m k else None)"
  by (induction m) auto

lemma map_of_eq_None_iff_keys: "map_of m k = None \<longleftrightarrow> k \<notin> fst ` set m"
  by (simp add: map_of_eq_None_iff)

text \<open>
  \<open>sort.Strings\<close> over the keys of a map: the result does not depend on the order in which the map
  was ranged over.
\<close>

lemma sort_mset_eq: "mset xs = mset ys \<Longrightarrow> sort xs = sort (ys :: 'a::linorder list)"
  by (metis mset_sort properties_for_sort sorted_sort)

lemma sort_keys_permute:
  fixes m m' :: "('a::linorder \<times> 'v) list"
  shows "mset m = mset m' \<Longrightarrow> sort (map fst m) = sort (map fst m')"
  by (metis mset_map sort_mset_eq)

lemma map_of_permute:
  assumes "distinct (map fst m)" "mset m = mset m'"
  shows "map_of m = map_of m'"
proof -
  have "distinct (map fst m')"
    using assms by (metis mset_eq_imp_distinct_iff mset_map)
  moreover have "set m = set m'" using assms(2) by (rule mset_eq_setD)
  ultimately show ?thesis using assms(1) by (simp add: map_of_inject_set)
qed

end
