(* ===== verification/Digests.thy ===== *)
theory Digests
  imports Prelude
begin

text \<open>
  The two digests the program takes from Go's standard library, as the standards define them:
  SHA3-256 (FIPS 202, \<open>crypto/sha3\<close>), the checksum inside an onion address, and SHA-512
  (FIPS 180-4, \<open>crypto/sha512\<close>), which expands an ed25519 seed. Both are executable.
  The component theories use only the lengths of the digests; everything proved about addresses
  and keys holds of these functions and of no particular output of theirs.
\<close>

subsection \<open>Splitting a list into blocks\<close>

fun blocks :: "nat \<Rightarrow> 'a list \<Rightarrow> 'a list list" where
  "blocks n xs = (if n = 0 \<or> xs = [] then [] else take n xs # blocks n (drop n xs))"

declare blocks.simps [simp del]

subsection \<open>SHA3-256\<close>

type_synonym lane = "64 word"

definition keccak_rc :: "lane list" where
  "keccak_rc =
    [0x0000000000000001, 0x0000000000008082, 0x800000000000808a, 0x8000000080008000,
     0x000000000000808b, 0x0000000080000001, 0x8000000080008081, 0x8000000000008009,
     0x000000000000008a, 0x0000000000000088, 0x0000000080008009, 0x000000008000000a,
     0x000000008000808b, 0x800000000000008b, 0x8000000000008089, 0x8000000000008003,
     0x8000000000008002, 0x8000000000000080, 0x000000000000800a, 0x800000008000000a,
     0x8000000080008081, 0x8000000000008080, 0x0000000080000001, 0x8000000080008008]"

definition keccak_rho :: "nat list" where
  "keccak_rho =
    [0, 1, 62, 28, 27,
     36, 44, 6, 55, 20,
     3, 10, 43, 25, 39,
     41, 45, 15, 21, 8,
     18, 2, 61, 56, 14]"

definition keccak_theta :: "lane list \<Rightarrow> lane list" where
  "keccak_theta a =
     (let c = map (\<lambda>x. foldl (XOR) 0 (map (\<lambda>y. a ! (x + 5 * y)) [0..<5])) [0..<5];
          d = map (\<lambda>x. (c ! ((x + 4) mod 5)) XOR word_rotl 1 (c ! ((x + 1) mod 5))) [0..<5]
      in map (\<lambda>i. (a ! i) XOR (d ! (i mod 5))) [0..<25])"

text \<open>Lane \<open>(x, y)\<close> moves to \<open>(y, 2x + 3y)\<close>; written from the target \<open>(x', y')\<close>, whose source is
  \<open>(x' + 3y', x')\<close>.\<close>

definition keccak_rho_pi :: "lane list \<Rightarrow> lane list" where
  "keccak_rho_pi a =
     map (\<lambda>i. let x = i mod 5; y = i div 5; j = (x + 3 * y) mod 5 + 5 * x
              in word_rotl (keccak_rho ! j) (a ! j)) [0..<25]"

definition keccak_chi :: "lane list \<Rightarrow> lane list" where
  "keccak_chi b =
     map (\<lambda>i. let x = i mod 5; r = 5 * (i div 5)
              in (b ! i) XOR (NOT (b ! ((x + 1) mod 5 + r)) AND (b ! ((x + 2) mod 5 + r)))) [0..<25]"

definition keccak_round :: "lane list \<Rightarrow> lane \<Rightarrow> lane list" where
  "keccak_round a rc =
     (let b = keccak_chi (keccak_rho_pi (keccak_theta a)) in b[0 := (b ! 0) XOR rc])"

definition keccak_f :: "lane list \<Rightarrow> lane list" where
  "keccak_f a = foldl keccak_round a keccak_rc"

definition lane_of_bytes :: "byte list \<Rightarrow> lane" where
  "lane_of_bytes bs = foldr (\<lambda>b acc. push_bit 8 acc OR ucast b) bs 0"

definition bytes_of_lane :: "lane \<Rightarrow> byte list" where
  "bytes_of_lane w = map (\<lambda>i. ucast (drop_bit (8 * i) w)) [0..<8]"

definition sha3_rate :: nat where "sha3_rate = 136"

definition sha3_pad :: "byte list \<Rightarrow> byte list" where
  "sha3_pad m =
     (let q = sha3_rate - length m mod sha3_rate
      in m @ (if q = 1 then [0x86] else 0x06 # replicate (q - 2) 0 @ [0x80]))"

definition sha3_absorb :: "lane list \<Rightarrow> byte list \<Rightarrow> lane list" where
  "sha3_absorb a blk =
     (let ls = map lane_of_bytes (blocks 8 blk)
      in keccak_f (map (\<lambda>i. if i < length ls then (a ! i) XOR (ls ! i) else a ! i) [0..<25]))"

definition sha3_256 :: "byte list \<Rightarrow> byte list" where
  "sha3_256 m =
     (let a = foldl sha3_absorb (replicate 25 0) (blocks sha3_rate (sha3_pad m))
      in concat (map (\<lambda>i. bytes_of_lane (a ! i)) [0..<4]))"

lemma length_bytes_of_lane [simp]: "length (bytes_of_lane w) = 8"
  by (simp add: bytes_of_lane_def)

lemma length_sha3_256 [simp]: "length (sha3_256 m) = 32"
  by (simp add: sha3_256_def Let_def upt_rec)

subsection \<open>SHA-512\<close>

text \<open>
  The constants are the first 64 bits of the fractional parts of the square roots of the first 8
  primes and of the cube roots of the first 80. A root is found bit by bit from the top.
\<close>

fun root_bits :: "nat \<Rightarrow> int \<Rightarrow> nat \<Rightarrow> int \<Rightarrow> int" where
  "root_bits e x 0 r = r"
| "root_bits e x (Suc k) r =
     (let r' = r + 2 ^ k in root_bits e x k (if r' ^ e \<le> x then r' else r))"

definition root_fraction :: "nat \<Rightarrow> nat \<Rightarrow> lane" where
  "root_fraction e p = word_of_int (root_bits e (int p * 2 ^ (64 * e)) 69 0)"

definition small_prime :: "nat \<Rightarrow> bool" where
  "small_prime n \<longleftrightarrow> 1 < n \<and> list_all (\<lambda>d. n mod d \<noteq> 0) [2..<n]"

definition sha512_h0 :: "lane list" where
  "sha512_h0 = map (root_fraction 2) (take 8 (filter small_prime [0..<410]))"

definition sha512_k :: "lane list" where
  "sha512_k = map (root_fraction 3) (take 80 (filter small_prime [0..<410]))"

definition be_bytes :: "nat \<Rightarrow> nat \<Rightarrow> byte list" where
  "be_bytes n v = rev (map (\<lambda>i. word_of_nat (v div 256 ^ i)) [0..<n])"

definition be_lane :: "byte list \<Rightarrow> lane" where
  "be_lane bs = lane_of_bytes (rev bs)"

definition sha512_pad :: "byte list \<Rightarrow> byte list" where
  "sha512_pad m =
     m @ [0x80] @ replicate ((239 - length m mod 128) mod 128) 0 @ be_bytes 16 (8 * length m)"

definition rotr :: "nat \<Rightarrow> lane \<Rightarrow> lane" where
  "rotr = word_rotr"

fun sha512_extend :: "nat \<Rightarrow> lane list \<Rightarrow> lane list" where
  "sha512_extend 0 w = w"
| "sha512_extend (Suc n) w =
     (let t = length w;
          a = w ! (t - 15); b = w ! (t - 2);
          s0 = rotr 1 a XOR rotr 8 a XOR drop_bit 7 a;
          s1 = rotr 19 b XOR rotr 61 b XOR drop_bit 6 b
      in sha512_extend n (w @ [w ! (t - 16) + s0 + w ! (t - 7) + s1]))"

fun sha512_round :: "lane list \<Rightarrow> lane \<times> lane \<Rightarrow> lane list" where
  "sha512_round [a, b, c, d, e, f, g, h] (k, w) =
     (let t1 = h + (rotr 14 e XOR rotr 18 e XOR rotr 41 e) + ((e AND f) XOR (NOT e AND g)) + k + w;
          t2 = (rotr 28 a XOR rotr 34 a XOR rotr 39 a) + ((a AND b) XOR (a AND c) XOR (b AND c))
      in [t1 + t2, a, b, c, d + t1, e, f, g])"
| "sha512_round hs _ = hs"

definition sha512_block :: "lane list \<Rightarrow> byte list \<Rightarrow> lane list" where
  "sha512_block hs blk =
     (let w = sha512_extend 64 (map be_lane (blocks 8 blk));
          r = foldl sha512_round hs (zip sha512_k w)
      in map (\<lambda>i. hs ! i + r ! i) [0..<8])"

definition sha512 :: "byte list \<Rightarrow> byte list" where
  "sha512 m =
     (let hs = foldl sha512_block sha512_h0 (blocks 128 (sha512_pad m))
      in concat (map (\<lambda>i. rev (bytes_of_lane (hs ! i))) [0..<8]))"

lemma length_sha512 [simp]: "length (sha512 m) = 64"
  by (simp add: sha512_def Let_def upt_rec)

end
