(* ===== verification/Base32.thy ===== *)
theory Base32
  imports Digests
begin

text \<open>
  Go's \<open>base32.StdEncoding.WithPadding(base32.NoPadding)\<close>, the codec of onion addresses: five
  bytes become eight symbols of the RFC 4648 alphabet. Decoding drops line breaks, refuses any
  other character outside the alphabet, and reads a short last quantum the way Go's decoder does.
  The lemmas show that the two directions are inverse on whole quanta, which is the only case an
  onion address needs (35 bytes, 56 symbols).
\<close>

subsection \<open>Bit lists, most significant bit first\<close>

fun val_of :: "nat \<Rightarrow> bool list \<Rightarrow> nat" where
  "val_of acc [] = acc"
| "val_of acc (b # bs) = val_of (2 * acc + of_bool b) bs"

fun bits_of :: "nat \<Rightarrow> nat \<Rightarrow> bool list" where
  "bits_of 0 v = []"
| "bits_of (Suc n) v = bits_of n (v div 2) @ [odd v]"

lemma length_bits_of [simp]: "length (bits_of n v) = n"
  by (induction n arbitrary: v) auto

lemma val_of_append: "val_of acc (xs @ ys) = val_of (val_of acc xs) ys"
  by (induction xs arbitrary: acc) auto

lemma val_of_bits_of: "v < 2 ^ n \<Longrightarrow> val_of 0 (bits_of n v) = v"
proof (induction n arbitrary: v)
  case (Suc n)
  then have "val_of 0 (bits_of n (v div 2)) = v div 2" by auto
  then show ?case by (simp add: val_of_append)
qed simp

lemma bits_of_val_of: "bits_of (length bs) (val_of 0 bs) = bs"
  by (induction bs rule: rev_induct) (auto simp: val_of_append)

lemma val_of_bound: "val_of 0 bs < 2 ^ length bs"
proof (induction bs rule: rev_induct)
  case (snoc b bs)
  then show ?case by (cases b) (simp_all add: val_of_append)
qed simp

definition byte_bits :: "byte \<Rightarrow> bool list" where
  "byte_bits b = bits_of 8 (unat b)"

definition byte_of_bits :: "bool list \<Rightarrow> byte" where
  "byte_of_bits bs = word_of_nat (val_of 0 bs)"

lemma length_byte_bits [simp]: "length (byte_bits b) = 8"
  by (simp add: byte_bits_def)

lemma byte_of_byte_bits [simp]: "byte_of_bits (byte_bits b) = b"
proof -
  have "unat b < 2 ^ 8" using unsigned_less [of b] by simp
  then show ?thesis by (simp add: byte_of_bits_def byte_bits_def val_of_bits_of del: power_numeral)
qed

lemma byte_bits_of_bits: "length bs = 8 \<Longrightarrow> byte_bits (byte_of_bits bs) = bs"
proof -
  assume l: "length bs = 8"
  have "unat (word_of_nat (val_of 0 bs) :: byte) = val_of 0 bs"
    using val_of_bound [of bs] l by (intro of_nat_inverse [OF refl]) simp
  then show ?thesis
    using bits_of_val_of [of bs] l by (simp add: byte_bits_def byte_of_bits_def)
qed

subsection \<open>Blocks\<close>

lemma blocks_Nil [simp]: "blocks n [] = []"
  by (subst blocks.simps) simp

lemma blocks_append: "0 < n \<Longrightarrow> length xs = n \<Longrightarrow> blocks n (xs @ ys) = xs # blocks n ys"
  by (subst blocks.simps) auto

lemma blocks_concat: "0 < n \<Longrightarrow> \<forall>xs \<in> set xss. length xs = n \<Longrightarrow> blocks n (concat xss) = xss"
  by (induction xss) (auto simp: blocks_append)

lemma concat_blocks: "0 < n \<Longrightarrow> concat (blocks n xs) = xs"
proof (induction n xs rule: blocks.induct)
  case (1 n xs)
  then show ?case by (subst blocks.simps) auto
qed

lemma length_in_blocks: "0 < n \<Longrightarrow> n dvd length xs \<Longrightarrow> b \<in> set (blocks n xs) \<Longrightarrow> length b = n"
proof (induction n xs rule: blocks.induct)
  case (1 n xs)
  show ?case
  proof (cases "xs = []")
    case False
    then have "n \<le> length xs" using "1.prems" by (simp add: dvd_imp_le)
    moreover from this have "n dvd length (drop n xs)" using "1.prems" by (simp add: dvd_diff_nat)
    moreover have "b = take n xs \<or> b \<in> set (blocks n (drop n xs))"
      using "1.prems" False by (subst (asm) blocks.simps) auto
    ultimately show ?thesis using "1.IH" "1.prems" False by auto
  qed (use "1.prems" in simp)
qed

lemma set_in_blocks: "0 < n \<Longrightarrow> b \<in> set (blocks n xs) \<Longrightarrow> set b \<subseteq> set xs"
  by (metis concat_blocks set_concat Union_upper image_eqI)

lemma length_blocks: "0 < n \<Longrightarrow> n dvd length xs \<Longrightarrow> n * length (blocks n xs) = length xs"
proof -
  assume a: "0 < n" "n dvd length xs"
  have "length (concat (blocks n xs)) = (\<Sum>b \<leftarrow> blocks n xs. n)"
    using length_in_blocks [OF a] by (simp add: length_concat cong: map_cong)
  then show ?thesis using a by (simp add: concat_blocks sum_list_triv)
qed

subsection \<open>The codec\<close>

definition base32_alphabet :: string where
  "base32_alphabet = ''ABCDEFGHIJKLMNOPQRSTUVWXYZ234567''"

definition symbol_value :: "char \<Rightarrow> nat option" where
  "symbol_value c = map_of (zip base32_alphabet [0..<32]) c"

definition pad5 :: "bool list \<Rightarrow> bool list" where
  "pad5 bs = bs @ replicate ((5 - length bs mod 5) mod 5) False"

definition enc_symbols :: "byte list \<Rightarrow> nat list" where
  "enc_symbols q = map (val_of 0) (blocks 5 (pad5 (concat (map byte_bits q))))"

definition base32_encode :: "byte list \<Rightarrow> string" where
  "base32_encode bs = map (\<lambda>i. base32_alphabet ! i) (concat (map enc_symbols (blocks 5 bs)))"

text \<open>Bytes in a quantum of \<open>k\<close> symbols.\<close>

definition quantum_bytes :: "nat \<Rightarrow> nat" where
  "quantum_bytes k =
     (if k = 8 then 5 else if k = 7 then 4 else if k = 5 then 3 else if k = 4 then 2
      else if k = 2 then 1 else 0)"

definition dec_symbols :: "nat list \<Rightarrow> byte list" where
  "dec_symbols q =
     take (quantum_bytes (length q)) (map byte_of_bits (blocks 8 (concat (map (bits_of 5) q))))"

definition base32_decode :: "string \<Rightarrow> byte list option" where
  "base32_decode s =
     (case those (map symbol_value (filter (\<lambda>c. c \<noteq> nl \<and> c \<noteq> CHR 0x0D) s)) of
        None \<Rightarrow> None
      | Some syms \<Rightarrow> Some (concat (map dec_symbols (blocks 8 syms))))"

lemma enc_symbols_full:
  assumes "length q = 5"
  shows "length (enc_symbols q) = 8" and "\<forall>i \<in> set (enc_symbols q). i < 32"
    and "dec_symbols (enc_symbols q) = q"
proof -
  let ?bits = "concat (map byte_bits q)"
  have l: "length ?bits = 40" using assms by (simp add: length_concat comp_def sum_list_triv)
  then have e: "enc_symbols q = map (val_of 0) (blocks 5 ?bits)"
    by (simp add: enc_symbols_def pad5_def)
  have n: "length (blocks 5 ?bits) = 8" using length_blocks [of 5 ?bits] l by simp
  then show len: "length (enc_symbols q) = 8" by (simp add: e)
  have b5: "length b = 5" if "b \<in> set (blocks 5 ?bits)" for b
    using length_in_blocks [of 5 ?bits b] l that by simp
  have "val_of 0 b < 32" if "b \<in> set (blocks 5 ?bits)" for b
    using b5 [OF that] val_of_bound [of b] by simp
  then show "\<forall>i \<in> set (enc_symbols q). i < 32" by (simp add: e)
  have "bits_of 5 (val_of 0 b) = b" if "b \<in> set (blocks 5 ?bits)" for b
    using b5 [OF that] bits_of_val_of [of b] by simp
  then have "map (bits_of 5) (enc_symbols q) = blocks 5 ?bits"
    by (simp add: e map_idI)
  then have "dec_symbols (enc_symbols q) = take 5 (map byte_of_bits (blocks 8 ?bits))"
    using len by (simp add: dec_symbols_def quantum_bytes_def concat_blocks)
  also have "blocks 8 ?bits = map byte_bits q" by (rule blocks_concat) auto
  finally show "dec_symbols (enc_symbols q) = q" using assms by (simp add: comp_def)
qed

lemma dec_symbols_full:
  assumes "length q = 8" "\<forall>i \<in> set q. i < 32"
  shows "length (dec_symbols q) = 5" and "enc_symbols (dec_symbols q) = q"
proof -
  let ?bits = "concat (map (bits_of 5) q)"
  have l: "length ?bits = 40" using assms by (simp add: length_concat comp_def sum_list_triv)
  have n: "length (blocks 8 ?bits) = 5" using length_blocks [of 8 ?bits] l by simp
  have d: "dec_symbols q = map byte_of_bits (blocks 8 ?bits)"
    using assms n by (simp add: dec_symbols_def quantum_bytes_def)
  then show "length (dec_symbols q) = 5" by (simp add: n)
  have "map byte_bits (dec_symbols q) = blocks 8 ?bits"
    using length_in_blocks [of 8 ?bits] l
    by (auto simp: d comp_def byte_bits_of_bits intro: map_idI)
  then have "enc_symbols (dec_symbols q) = map (val_of 0) (blocks 5 ?bits)"
    using l by (simp add: enc_symbols_def pad5_def concat_blocks)
  also have "blocks 5 ?bits = map (bits_of 5) q" by (rule blocks_concat) auto
  finally show "enc_symbols (dec_symbols q) = q"
    using assms(2) val_of_bits_of [of _ 5] by (simp add: comp_def map_idI)
qed

subsection \<open>Whole quanta round trip\<close>

lemma symbol_value_nth [simp]: "i < 32 \<Longrightarrow> symbol_value (base32_alphabet ! i) = Some i"
proof -
  assume i: "i < 32"
  have "distinct base32_alphabet" "length base32_alphabet = 32"
    by (simp_all add: base32_alphabet_def)
  then show ?thesis using i by (simp add: symbol_value_def map_of_zip_nth)
qed

lemma symbol_value_Some: "symbol_value c = Some i \<Longrightarrow> i < 32 \<and> base32_alphabet ! i = c"
proof -
  assume "symbol_value c = Some i"
  then have "(c, i) \<in> set (zip base32_alphabet [0..<32])"
    by (simp add: symbol_value_def map_of_SomeD)
  then show ?thesis by (auto simp: set_zip base32_alphabet_def)
qed

lemma those_map_Some: "\<forall>x \<in> set xs. f (g x) = Some x \<Longrightarrow> those (map f (map g xs)) = Some xs"
  by (induction xs) auto

lemma those_Some_map: "those (map f xs) = Some ys \<Longrightarrow> map f xs = map Some ys"
  by (induction xs arbitrary: ys) (auto split: option.splits)

lemma alphabet_not_newline: "i < 32 \<Longrightarrow> base32_alphabet ! i \<noteq> nl \<and> base32_alphabet ! i \<noteq> CHR 0x0D"
proof -
  assume "i < 32"
  moreover have "symbol_value nl = None" "symbol_value CHR 0x0D = None"
    by (simp_all add: symbol_value_def base32_alphabet_def upt_rec)
  ultimately show ?thesis by (metis option.distinct(1) symbol_value_nth)
qed

lemma enc_blocks:
  assumes "5 dvd length bs" "q \<in> set (blocks 5 bs)"
  shows "length (enc_symbols q) = 8" "\<forall>i \<in> set (enc_symbols q). i < 32"
    "dec_symbols (enc_symbols q) = q"
  using enc_symbols_full [of q] length_in_blocks [OF _ assms] by simp_all

lemma symbols_bound:
  "5 dvd length bs \<Longrightarrow> i \<in> set (concat (map enc_symbols (blocks 5 bs))) \<Longrightarrow> i < 32"
  using enc_blocks by fastforce

lemma length_base32_encode: "5 dvd length bs \<Longrightarrow> 5 * length (base32_encode bs) = 8 * length bs"
proof -
  assume d: "5 dvd length bs"
  have "length (base32_encode bs) = (\<Sum>q \<leftarrow> blocks 5 bs. 8)"
    using enc_blocks(1) [OF d] by (simp add: base32_encode_def length_concat comp_def cong: map_cong)
  then show ?thesis using length_blocks [OF _ d] by (simp add: sum_list_triv)
qed

lemma set_base32_encode:
  "5 dvd length bs \<Longrightarrow> c \<in> set (base32_encode bs) \<Longrightarrow> c \<in> set base32_alphabet"
proof -
  assume "5 dvd length bs" "c \<in> set (base32_encode bs)"
  then obtain i where "c = base32_alphabet ! i" "i < 32"
    using symbols_bound by (auto simp: base32_encode_def simp del: set_concat)
  moreover have "length base32_alphabet = 32" by (simp add: base32_alphabet_def)
  ultimately show ?thesis by simp
qed

lemma base32_decode_encode:
  assumes "5 dvd length bs"
  shows "base32_decode (base32_encode bs) = Some bs"
proof -
  let ?syms = "concat (map enc_symbols (blocks 5 bs))"
  have b: "\<forall>i \<in> set ?syms. i < 32" using symbols_bound [OF assms] by blast
  have "filter (\<lambda>c. c \<noteq> nl \<and> c \<noteq> CHR 0x0D) (base32_encode bs) = base32_encode bs"
    using b alphabet_not_newline by (force simp: base32_encode_def filter_id_conv)
  moreover have "those (map symbol_value (base32_encode bs)) = Some ?syms"
    unfolding base32_encode_def using b by (intro those_map_Some) simp
  moreover have "blocks 8 ?syms = map enc_symbols (blocks 5 bs)"
    using enc_blocks(1) [OF assms] by (intro blocks_concat) auto
  moreover have "map (dec_symbols \<circ> enc_symbols) (blocks 5 bs) = blocks 5 bs"
    using enc_blocks(3) [OF assms] by (intro map_idI) simp
  ultimately show ?thesis by (simp add: base32_decode_def concat_blocks)
qed

lemma base32_encode_decode:
  assumes "base32_decode s = Some bs" "8 dvd length s" "\<forall>c \<in> set s. c \<noteq> nl \<and> c \<noteq> CHR 0x0D"
  shows "base32_encode bs = s" and "8 * length bs = 5 * length s"
proof -
  have "filter (\<lambda>c. c \<noteq> nl \<and> c \<noteq> CHR 0x0D) s = s" using assms(3) by (simp add: filter_id_conv)
  then obtain syms where "those (map symbol_value s) = Some syms"
    and bs: "bs = concat (map dec_symbols (blocks 8 syms))"
    using assms(1) by (auto simp: base32_decode_def split: option.splits)
  then have m: "map symbol_value s = map Some syms" by (intro those_Some_map)
  then have len: "length syms = length s" by (metis length_map)
  have sv: "symbol_value (s ! i) = Some (syms ! i)" if "i < length s" for i
    using m len that by (metis nth_map)
  then have s: "map ((!) base32_alphabet) syms = s"
    using len symbol_value_Some by (intro nth_equalityI) auto
  have b: "\<forall>i \<in> set syms. i < 32"
    using sv len symbol_value_Some by (metis in_set_conv_nth)
  have d: "8 dvd length syms" using assms(2) len by simp
  have q: "length (dec_symbols q) = 5 \<and> enc_symbols (dec_symbols q) = q" if "q \<in> set (blocks 8 syms)" for q
    using dec_symbols_full [of q] length_in_blocks [OF _ d that] set_in_blocks [OF _ that] b by auto
  have "blocks 5 bs = map dec_symbols (blocks 8 syms)"
    unfolding bs using q by (intro blocks_concat) auto
  moreover have "map (enc_symbols \<circ> dec_symbols) (blocks 8 syms) = blocks 8 syms"
    using q by (intro map_idI) simp
  ultimately show "base32_encode bs = s" by (simp add: base32_encode_def concat_blocks s)
  have "length bs = 5 * length (blocks 8 syms)"
    using q by (simp add: bs length_concat comp_def sum_list_triv cong: map_cong)
  then show "8 * length bs = 5 * length s"
    using length_blocks [OF _ d] len by simp
qed

end
