(* ===== verification/Onion_Address.thy ===== *)
theory Onion_Address
  imports Base32
begin

text \<open>
  \<open>internal/tor/onion.go\<close>: derivation, printing and parsing of v3 onion addresses. An address is
  the 32-byte ed25519 public key; its text is the lowercase base32 form of key, checksum and
  version, followed by \<open>.onion\<close>. The central fact is that parsing succeeds
  exactly on the texts that are, up to surrounding white space and letter case, the printed form
  of a 32-byte key.
\<close>

definition public_key_size :: nat where "public_key_size = 32"
definition onion_address_version :: byte where "onion_address_version = 3"
definition onion_magic :: string where "onion_magic = ''.onion checksum''"
definition onion_suffix :: string where "onion_suffix = ''.onion''"
definition onion_address_body_len :: nat where "onion_address_body_len = public_key_size + 2 + 1"
definition onion_address_base32_len :: nat where "onion_address_base32_len = 56"

lemmas onion_consts [tg_defs] = public_key_size_def onion_address_version_def onion_magic_def
  onion_suffix_def onion_address_body_len_def onion_address_base32_len_def

record onion_address = pub_key :: "byte list"

text \<open>The invalid zero value \<open>OnionAddress{}\<close>.\<close>

definition zero_address :: onion_address where
  "zero_address = \<lparr>pub_key = []\<rparr>"

datatype onion_error =
    BadKeyLength nat
  | MissingOnionSuffix
  | BadBodyLength nat
  | BadBase32
  | BadDecodedLength nat
  | BadVersion byte
  | ChecksumMismatch

definition address_from_public_key :: "byte list \<Rightarrow> (onion_error, onion_address) result" where
  "address_from_public_key pub =
     guardE (length pub \<noteq> public_key_size) (BadKeyLength (length pub)) (Inr \<lparr>pub_key = pub\<rparr>)"

definition onion_checksum :: "byte list \<Rightarrow> byte list" where
  "onion_checksum pub = take 2 (sha3_256 (bytes_of onion_magic @ pub @ [onion_address_version]))"

definition onion_body :: "byte list \<Rightarrow> byte list" where
  "onion_body pub = pub @ onion_checksum pub @ [onion_address_version]"

definition onion_string :: "onion_address \<Rightarrow> string" where
  "onion_string a =
     (if length (pub_key a) \<noteq> public_key_size then []
      else to_lower (base32_encode (onion_body (pub_key a))) @ onion_suffix)"

definition public_key :: "onion_address \<Rightarrow> byte list" where
  "public_key a = pub_key a"

definition parse_address :: "string \<Rightarrow> (onion_error, onion_address) result" where
  "parse_address addr =
     (let lower = to_lower (trim_space addr);
          stripped = trim_suffix lower onion_suffix
      in guardE (stripped = lower) MissingOnionSuffix
        (guardE (length stripped \<noteq> onion_address_base32_len) (BadBodyLength (length stripped))
          (case base32_decode (to_upper stripped) of
             None \<Rightarrow> Inl BadBase32
           | Some raw \<Rightarrow>
               guardE (length raw \<noteq> onion_address_body_len) (BadDecodedLength (length raw))
                (guardE (raw ! 34 \<noteq> onion_address_version) (BadVersion (raw ! 34))
                  (let pub = take public_key_size raw
                   in guardE (onion_checksum pub \<noteq> take 2 (drop 32 raw)) ChecksumMismatch
                        (Inr \<lparr>pub_key = pub\<rparr>))))))"

subsection \<open>Lengths and letters\<close>

lemma length_onion_checksum [simp]: "length (onion_checksum pub) = 2"
  by (simp add: onion_checksum_def)

lemma length_onion_body: "length (onion_body pub) = length pub + 3"
  by (simp add: onion_body_def)

lemma length_base32_body:
  "length pub = 32 \<Longrightarrow> length (base32_encode (onion_body pub)) = 56"
  using length_base32_encode [of "onion_body pub"] by (simp add: length_onion_body)

lemma base32_alphabet_cases:
  "c \<in> set base32_alphabet \<Longrightarrow> c \<in> set upper_alphabet \<or> c \<in> set ''234567''"
  by (simp add: base32_alphabet_def upper_alphabet_def)

lemma to_upper_to_lower_alphabet:
  "\<forall>c \<in> set s. c \<in> set base32_alphabet \<Longrightarrow> to_upper (to_lower s) = s"
proof -
  assume a: "\<forall>c \<in> set s. c \<in> set base32_alphabet"
  have d: "to_upper_char (to_lower_char c) = c" if "c \<in> set ''234567''" for c
  proof -
    have "c \<notin> set upper_alphabet" "c \<notin> set lower_alphabet"
      using that by (auto simp: upper_alphabet_def lower_alphabet_def)
    then show ?thesis by (simp add: to_lower_char_fixed to_upper_char_fixed)
  qed
  have "to_upper_char (to_lower_char c) = c" if "c \<in> set s" for c
    using a that d to_lower_upper_char base32_alphabet_cases by blast
  then show ?thesis by (simp add: to_upper_def to_lower_def map_idI)
qed

lemma to_lower_to_upper_lower: "to_lower (to_upper (to_lower s)) = to_lower s"
proof -
  have "to_lower_char (to_upper_char (to_lower_char c)) = to_lower_char c" for c
    by (metis alphabets(1,2,3,4) lower_notin_upper to_lower_char_def to_lower_char_fixed
        to_lower_char_in_lower to_upper_char_def to_upper_char_fixed translate_char_inverse)
  then show ?thesis by (simp add: to_lower_def to_upper_def)
qed

definition lower_base32 :: string where
  "lower_base32 = lower_alphabet @ ''234567''"

lemma to_lower_base32_chars:
  "\<forall>c \<in> set s. c \<in> set base32_alphabet \<Longrightarrow> \<forall>c \<in> set (to_lower s). c \<in> set lower_base32"
proof
  fix c assume a: "\<forall>c \<in> set s. c \<in> set base32_alphabet" and "c \<in> set (to_lower s)"
  then obtain d where d: "d \<in> set base32_alphabet" "c = to_lower_char d"
    by (auto simp: to_lower_def)
  show "c \<in> set lower_base32"
  proof (cases "d \<in> set upper_alphabet")
    case True
    then have "c \<in> set lower_alphabet" using d(2) by (simp add: to_lower_char_in_lower)
    then show ?thesis by (simp add: lower_base32_def)
  next
    case False
    then have "c \<in> set ''234567''"
      using d base32_alphabet_cases by (auto simp: to_lower_char_fixed)
    then show ?thesis by (auto simp: lower_base32_def)
  qed
qed

lemma lower_base32_plain: "c \<in> set lower_base32 \<Longrightarrow> \<not> is_space c \<and> c \<notin> set upper_alphabet"
  by (auto simp: lower_base32_def lower_alphabet_def is_space_def upper_alphabet_def)

lemma to_lower_fixed: "\<forall>c \<in> set s. c \<in> set lower_base32 \<Longrightarrow> to_lower s = s"
  using lower_base32_plain by (simp add: to_lower_def to_lower_char_fixed map_idI)

lemma onion_suffix_plain: "to_lower onion_suffix = onion_suffix" "\<forall>c \<in> set onion_suffix. \<not> is_space c"
proof -
  have "\<forall>c \<in> set onion_suffix. c \<in> set lower_base32 \<or> c = CHR ''.''"
    by (simp add: onion_suffix_def lower_base32_def lower_alphabet_def)
  moreover have "to_lower_char CHR ''.'' = CHR ''.''"
    by (rule to_lower_char_fixed) (simp add: upper_alphabet_def)
  ultimately show "to_lower onion_suffix = onion_suffix"
    using lower_base32_plain by (auto simp: to_lower_def to_lower_char_fixed intro!: map_idI)
qed (simp add: onion_suffix_def is_space_def)

subsection \<open>The printed form\<close>

lemma onion_string_valid:
  "length (pub_key a) = 32 \<Longrightarrow>
     onion_string a = to_lower (base32_encode (onion_body (pub_key a))) @ onion_suffix"
  by (simp add: onion_string_def public_key_size_def)

lemma body_dvd: "length pub = 32 \<Longrightarrow> 5 dvd length (onion_body pub)"
  by (simp add: length_onion_body)

lemma onion_string_chars:
  assumes "length (pub_key a) = 32"
  shows "\<forall>c \<in> set (to_lower (base32_encode (onion_body (pub_key a)))). c \<in> set lower_base32"
  using set_base32_encode [OF body_dvd [OF assms]] by (intro to_lower_base32_chars) blast

lemma onion_string_fixed:
  assumes "length (pub_key a) = 32"
  shows "to_lower (onion_string a) = onion_string a" "\<forall>c \<in> set (onion_string a). \<not> is_space c"
  using onion_string_chars [OF assms] onion_suffix_plain to_lower_fixed lower_base32_plain
  by (auto simp: onion_string_valid [OF assms])

lemma length_onion_string: "length (pub_key a) = 32 \<Longrightarrow> length (onion_string a) = 62"
  by (simp add: onion_string_valid length_base32_body onion_suffix_def)

subsection \<open>Parsing\<close>

lemma parse_onion_string:
  assumes "length (pub_key a) = 32" "to_lower (trim_space s) = onion_string a"
  shows "parse_address s = Inr a"
proof -
  let ?pub = "pub_key a"
  let ?enc = "base32_encode (onion_body ?pub)"
  have str: "onion_string a = to_lower ?enc @ onion_suffix" using assms(1) by (rule onion_string_valid)
  have up: "to_upper (to_lower ?enc) = ?enc"
    using set_base32_encode [OF body_dvd [OF assms(1)]] by (intro to_upper_to_lower_alphabet) blast
  have dec: "base32_decode ?enc = Some (onion_body ?pub)"
    by (rule base32_decode_encode [OF body_dvd [OF assms(1)]])
  have body: "onion_body ?pub ! 34 = 3" "take 32 (onion_body ?pub) = ?pub"
    "take 2 (drop 32 (onion_body ?pub)) = onion_checksum ?pub"
    using assms(1) by (simp_all add: onion_body_def nth_append onion_address_version_def)
  have "onion_suffix \<noteq> []" by (simp add: onion_suffix_def)
  then show ?thesis
    using assms body length_base32_body [OF assms(1)] length_onion_body [of ?pub]
    by (simp add: parse_address_def str up dec onion_consts Let_def del: onion_suffix_def)
qed

lemma quantum_bytes_bound: "8 * quantum_bytes k \<le> 5 * k"
  by (simp add: quantum_bytes_def)

lemma length_base32_decode:
  assumes "base32_decode s = Some raw"
  shows "8 * length raw \<le> 5 * length (filter (\<lambda>c. c \<noteq> nl \<and> c \<noteq> CHR 0x0D) s)"
proof -
  let ?t = "filter (\<lambda>c. c \<noteq> nl \<and> c \<noteq> CHR 0x0D) s"
  obtain syms where "those (map symbol_value ?t) = Some syms"
    and raw: "raw = concat (map dec_symbols (blocks 8 syms))"
    using assms by (auto simp: base32_decode_def split: option.splits)
  then have len: "length syms = length ?t" by (auto dest!: those_Some_map dest: arg_cong [where f = length])
  have "8 * length (dec_symbols q) \<le> 5 * length q" for q
    using quantum_bytes_bound [of "length q"] by (simp add: dec_symbols_def)
  then have "8 * length (concat (map dec_symbols qs)) \<le> 5 * length (concat qs)" for qs
    by (induction qs) (simp_all add: add_mono distrib_left)
  from this [of "blocks 8 syms"] show ?thesis by (simp add: raw len concat_blocks)
qed

lemma parse_address_string:
  assumes "parse_address s = Inr a"
  shows "length (pub_key a) = 32 \<and> to_lower (trim_space s) = onion_string a"
proof -
  let ?lower = "to_lower (trim_space s)"
  let ?body = "trim_suffix ?lower onion_suffix"
  obtain raw where len: "length ?body = 56" and suf: "?body \<noteq> ?lower"
    and dec: "base32_decode (to_upper ?body) = Some raw" and raw: "length raw = 35" "raw ! 34 = 3"
    and sum: "onion_checksum (take 32 raw) = take 2 (drop 32 raw)" and a: "a = \<lparr>pub_key = take 32 raw\<rparr>"
    using assms by (auto simp: parse_address_def result_iffs Let_def public_key_size_def
        onion_address_version_def onion_address_body_len_def onion_address_base32_len_def
        split: option.splits)
  have pub: "length (pub_key a) = 32" using raw by (simp add: a)
  have "length (filter (\<lambda>c. c \<noteq> nl \<and> c \<noteq> CHR 0x0D) (to_upper ?body)) \<ge> length (to_upper ?body)"
    using length_base32_decode [OF dec] raw len by simp
  then have "\<forall>c \<in> set (to_upper ?body). c \<noteq> nl \<and> c \<noteq> CHR 0x0D"
    using length_filter_less [of _ "to_upper ?body" "\<lambda>c. c \<noteq> nl \<and> c \<noteq> CHR 0x0D"] by fastforce
  then have enc: "base32_encode raw = to_upper ?body"
    using base32_encode_decode [OF dec] len by simp
  have "take 2 (drop 32 raw) @ drop 2 (drop 32 raw) = drop 32 raw" by (rule append_take_drop_id)
  then have "drop 32 raw = take 2 (drop 32 raw) @ drop 34 raw" by simp
  then have "raw = take 32 raw @ take 2 (drop 32 raw) @ drop 34 raw"
    by (metis append_take_drop_id)
  moreover have "drop 34 raw = [3]"
    using raw Cons_nth_drop_Suc [of 34 raw] by simp
  ultimately have "onion_body (pub_key a) = raw"
    by (simp add: a onion_body_def sum onion_address_version_def)
  then have "onion_string a = to_lower (to_upper ?body) @ onion_suffix"
    using pub by (simp add: onion_string_valid enc)
  moreover have "?lower = ?body @ onion_suffix"
    using suf by (metis append_take_drop_id has_suffix_def trim_suffix_def)
  moreover from this have "to_lower ?body = ?body"
    by (metis append_eq_append_conv length_to_lower to_lower_append to_lower_idem)
  ultimately show ?thesis using pub by (metis to_lower_to_upper_lower)
qed

lemma parse_address_trim:
  "length (pub_key a) = 32 \<Longrightarrow> parse_address (onion_string a) = Inr a"
  using onion_string_fixed by (simp add: parse_onion_string trim_space_id)

lemma trim_space_newline:
  assumes "\<forall>c \<in> set s. \<not> is_space c"
  shows "trim_space (s @ [nl]) = s"
proof (cases s)
  case Nil
  then show ?thesis by (simp add: trim_space_def is_space_def)
next
  case (Cons c cs)
  then have "dropWhile is_space (s @ [nl]) = s @ [nl]" using assms by simp
  moreover have "dropWhile is_space (rev s) = rev s"
    using assms by (cases "rev s") (auto simp: rev_eq_Cons_iff)
  ultimately show ?thesis by (simp add: trim_space_def is_space_def)
qed

lemma parse_address_newline:
  "length (pub_key a) = 32 \<Longrightarrow> parse_address (onion_string a @ [nl]) = Inr a"
  using onion_string_fixed by (simp add: parse_onion_string trim_space_newline)

lemma parse_address_length: "parse_address s = Inr a \<Longrightarrow> length (pub_key a) = 32"
  using parse_address_string by blast

lemma onion_string_inject:
  "length (pub_key a) = 32 \<Longrightarrow> length (pub_key b) = 32 \<Longrightarrow>
     onion_string a = onion_string b \<longleftrightarrow> a = b"
  by (metis parse_address_trim sum.inject(2))

lemma onion_string_eq_Nil [simp]: "onion_string a = [] \<longleftrightarrow> length (pub_key a) \<noteq> 32"
  by (simp add: onion_string_def public_key_size_def onion_suffix_def)

text \<open>
  C9: Parsing and printing of onion addresses are exact inverses. Parsing a text succeeds with
  address \<open>a\<close> if and only if \<open>a\<close> carries a 32-byte key and the text, trimmed of surrounding white
  space and lowercased, is the canonical text of \<open>a\<close>; in particular a wrong length, symbol,
  version or checksum is always refused and two different keys never share a text.
\<close>

theorem parse_address_iff:
  "parse_address s = Inr a \<longleftrightarrow>
     length (pub_key a) = 32 \<and> to_lower (trim_space s) = onion_string a"
  using parse_address_string parse_onion_string by blast

text \<open>
  The text that parsing accepts need not be the text that printing gives back: an address
  followed by a line break parses, and is printed without it.
\<close>

lemma parse_address_not_verbatim:
  "\<exists>s a. parse_address s = Inr a \<and> onion_string a \<noteq> s"
proof -
  let ?a = "\<lparr>pub_key = replicate 32 0\<rparr> :: onion_address"
  have "parse_address (onion_string ?a @ [nl]) = Inr ?a" by (rule parse_address_newline) simp
  then show ?thesis by blast
qed

end
