(* ===== verification/Hs_Keys.thy ===== *)
theory Hs_Keys
  imports Onion_Address
begin

text \<open>
  \<open>internal/tor/keys.go\<close> and \<open>internal/tor/master_key.go\<close>: hidden-service key pairs, the two key
  files of a HiddenServiceDir, and the validation of an onionbalance master key Secret.

  The scalar multiplication of the ed25519 base point comes from a package outside this
  repository (\<open>filippo.io/edwards25519\<close>, which Go's \<open>crypto/ed25519\<close> also uses): it is the
  parameter \<open>bm\<close>, from the 32 clamped scalar bytes to the 32-byte encoded point. Its one
  documented property used below is the length of its result.
\<close>

subsection \<open>Key files\<close>

definition tag_secret :: string where "tag_secret = ''== ed25519v1-secret: type0 ==''"
definition tag_public :: string where "tag_public = ''== ed25519v1-public: type0 ==''"
definition header_len :: nat where "header_len = 32"
definition expanded_secret_len :: nat where "expanded_secret_len = 64"
definition secret_key_file_size :: nat where "secret_key_file_size = header_len + expanded_secret_len"
definition public_key_file_size :: nat where "public_key_file_size = header_len + public_key_size"
definition file_secret_key_name :: string where "file_secret_key_name = ''hs_ed25519_secret_key''"
definition file_public_key_name :: string where "file_public_key_name = ''hs_ed25519_public_key''"
definition file_hostname_name :: string where "file_hostname_name = ''hostname''"

lemmas key_consts [tg_defs] = header_len_def expanded_secret_len_def secret_key_file_size_def
  public_key_file_size_def public_key_size_def

lemmas key_names [tg_defs] = file_secret_key_name_def file_public_key_name_def file_hostname_name_def

record key_pair =
  kp_public :: "byte list"
  kp_expanded :: "byte list"

datatype key_error =
    GenerateFailed
  | SecretFileSize nat
  | SecretMagic
  | NotClamped
  | PublicFileSize nat
  | PublicMagic

text \<open>\<open>header\<close> panics on a tag longer than 32 bytes, which is \<open>None\<close>; \<open>copy\<close> into a zeroed
  32-byte slice is the padding. Both tags of the package are short enough.\<close>

definition header :: "string \<Rightarrow> byte list option" where
  "header tag =
     (if header_len < length tag then None
      else Some (bytes_of tag @ replicate (header_len - length tag) 0))"

definition magic :: "string \<Rightarrow> byte list" where
  "magic tag = the (header tag)"

definition secret_key_file :: "key_pair \<Rightarrow> byte list" where
  "secret_key_file k = magic tag_secret @ kp_expanded k"

definition public_key_file :: "key_pair \<Rightarrow> byte list" where
  "public_key_file k = magic tag_public @ kp_public k"

definition key_onion_address :: "key_pair \<Rightarrow> onion_address" where
  "key_onion_address k =
     (case address_from_public_key (kp_public k) of Inl _ \<Rightarrow> zero_address | Inr a \<Rightarrow> a)"

definition hostname_file :: "key_pair \<Rightarrow> byte list" where
  "hostname_file k = bytes_of (onion_string (key_onion_address k) @ [nl])"

definition looks_clamped :: "byte list \<Rightarrow> bool" where
  "looks_clamped body \<longleftrightarrow>
     expanded_secret_len \<le> length body \<and> (body ! 0) AND 0x07 = 0 \<and> (body ! 31) AND 0xC0 = 0x40"

definition parse_secret_key :: "byte list \<Rightarrow> (key_error, byte list) result" where
  "parse_secret_key d =
     guardE (length d \<noteq> secret_key_file_size) (SecretFileSize (length d))
      (guardE (take header_len d \<noteq> magic tag_secret) SecretMagic
        (let body = drop header_len d in guardE (\<not> looks_clamped body) NotClamped (Inr body)))"

definition parse_public_key :: "byte list \<Rightarrow> (key_error, byte list) result" where
  "parse_public_key d =
     guardE (length d \<noteq> public_key_file_size) (PublicFileSize (length d))
      (guardE (take header_len d \<noteq> magic tag_public) PublicMagic (Inr (drop header_len d)))"

definition parse_files :: "byte list \<Rightarrow> byte list \<Rightarrow> (key_error, key_pair) result" where
  "parse_files secret public =
     bindE (parse_secret_key secret) (\<lambda>expanded.
       bindE (parse_public_key public) (\<lambda>pub.
         Inr \<lparr>kp_public = pub, kp_expanded = expanded\<rparr>))"

subsection \<open>Generation\<close>

definition clamp :: "byte list \<Rightarrow> byte list" where
  "clamp h = h[0 := (h ! 0) AND 248, 31 := ((h ! 31) AND 127) OR 64]"

text \<open>\<open>expandSeed\<close> panics unless the seed has 32 bytes.\<close>

definition expand_seed :: "byte list \<Rightarrow> byte list option" where
  "expand_seed seed = (if length seed \<noteq> 32 then None else Some (clamp (sha512 seed)))"

text \<open>
  \<open>ed25519.GenerateKey\<close> reads 32 bytes of entropy (\<open>None\<close> when the reader fails) as the seed; the
  public key is the base point times the clamped first half of the seed's SHA-512.
\<close>

definition generate_key_pair ::
    "(byte list \<Rightarrow> byte list) \<Rightarrow> byte list option \<Rightarrow> (key_error, key_pair) result" where
  "generate_key_pair bm entropy =
     (case entropy of
        None \<Rightarrow> Inl GenerateFailed
      | Some seed \<Rightarrow>
          (case expand_seed seed of
             None \<Rightarrow> Inl GenerateFailed
           | Some expanded \<Rightarrow>
               Inr \<lparr>kp_public = bm (take 32 (clamp (sha512 seed))), kp_expanded = expanded\<rparr>))"

subsection \<open>Master key Secrets\<close>

datatype master_error =
    MissingSecret
  | MissingPublic
  | MasterParse key_error
  | MasterScalar
  | MasterMismatch

definition data_entry :: "byte list gomap \<Rightarrow> string \<Rightarrow> byte list" where
  "data_entry d k = (case map_of d k of None \<Rightarrow> [] | Some v \<Rightarrow> v)"

definition validate_master_key_secret ::
    "(byte list \<Rightarrow> byte list) \<Rightarrow> byte list gomap \<Rightarrow> (master_error, key_pair) result" where
  "validate_master_key_secret bm d =
     guardE (data_entry d file_secret_key_name = []) MissingSecret
      (guardE (data_entry d file_public_key_name = []) MissingPublic
        (bindE (mapErr MasterParse
            (parse_files (data_entry d file_secret_key_name) (data_entry d file_public_key_name)))
          (\<lambda>kp. guardE (length (take 32 (kp_expanded kp)) \<noteq> 32) MasterScalar
             (let derived = bm (clamp (take 32 (kp_expanded kp)));
                  supplied = drop header_len (data_entry d file_public_key_name)
              in guardE (derived \<noteq> supplied) MasterMismatch (Inr kp)))))"

definition master_onion_from_secret ::
    "(byte list \<Rightarrow> byte list) \<Rightarrow> byte list gomap \<Rightarrow> (master_error, onion_address) result" where
  "master_onion_from_secret bm d =
     bindE (validate_master_key_secret bm d) (\<lambda>kp. Inr (key_onion_address kp))"

subsection \<open>Well-formed key pairs\<close>

definition wf_key_pair :: "key_pair \<Rightarrow> bool" where
  "wf_key_pair k \<longleftrightarrow> length (kp_public k) = 32 \<and> length (kp_expanded k) = 64 \<and>
     looks_clamped (kp_expanded k)"

lemma length_magic [simp]:
  "length (magic tag_secret) = 32" "length (magic tag_public) = 32"
  by (simp_all add: magic_def header_def tag_secret_def tag_public_def header_len_def)

lemma header_no_panic: "header tag_secret \<noteq> None" "header tag_public \<noteq> None"
  by (simp_all add: header_def tag_secret_def tag_public_def header_len_def)

lemma and_248_and_7: "((x :: byte) AND 248) AND 7 = 0"
  by (simp add: and.assoc)

lemma clamp_top: "(((x :: byte) AND 127) OR 64) AND 0xC0 = 0x40"
proof -
  have "(((x AND 127) OR 64) AND 0xC0) = ((x AND (127 AND 0xC0)) OR (64 AND 0xC0))"
    by (simp only: bit.conj_disj_distrib2 and.assoc)
  then show ?thesis by simp
qed

lemma length_clamp [simp]: "length (clamp h) = length h"
  by (simp add: clamp_def)

lemma looks_clamped_clamp: "length h = 64 \<Longrightarrow> looks_clamped (clamp h)"
  by (simp add: looks_clamped_def clamp_def expanded_secret_len_def and_248_and_7 clamp_top)

lemma byte_and_255: "(x :: byte) AND 255 = x"
proof -
  have "(255 :: byte) = - 1" by simp
  then show ?thesis by (simp only: and.right_neutral)
qed

lemma and_248_id: "(x :: byte) AND 7 = 0 \<Longrightarrow> x AND 248 = x"
proof -
  assume "x AND 7 = 0"
  moreover have "x AND (248 OR 7) = (x AND 248) OR (x AND 7)" by (rule bit.conj_disj_distrib)
  ultimately show ?thesis by (simp add: byte_and_255)
qed

lemma and_127_or_64_id: "(y :: byte) AND 0xC0 = 0x40 \<Longrightarrow> (y AND 127) OR 64 = y"
proof -
  assume a: "y AND 0xC0 = 0x40"
  have "y = y AND (63 OR 0xC0)" by (simp add: byte_and_255)
  also have "\<dots> = (y AND 63) OR 64" by (simp only: bit.conj_disj_distrib a)
  finally have y: "y = (y AND 63) OR 64" .
  have "(y AND 127) OR 64 = (y AND (127 AND 63)) OR 64"
    by (subst y) (simp add: bit.conj_disj_distrib2 and.assoc or.assoc)
  then show ?thesis using y by simp
qed

lemma clamp_fixed: "looks_clamped body \<Longrightarrow> clamp (take 32 body) = take 32 body"
  by (auto simp: looks_clamped_def clamp_def expanded_secret_len_def and_248_id and_127_or_64_id
      list_update_id intro!: nth_equalityI simp: nth_list_update)

lemma clamp_idem: "length h = 64 \<Longrightarrow> take 32 (clamp (clamp h)) = take 32 (clamp h)"
  using looks_clamped_clamp [of h] clamp_fixed [of "clamp h"]
  by (simp add: clamp_def take_update_swap)

lemma parse_secret_key_iff:
  "parse_secret_key d = Inr e \<longleftrightarrow>
     d = magic tag_secret @ e \<and> length e = 64 \<and> looks_clamped e"
proof
  assume "parse_secret_key d = Inr e"
  then have d: "length d = 96" "take 32 d = magic tag_secret" "looks_clamped e" and e: "e = drop 32 d"
    by (auto simp: parse_secret_key_def result_iffs key_consts Let_def)
  then have "magic tag_secret @ e = d" by (metis append_take_drop_id)
  then show "d = magic tag_secret @ e \<and> length e = 64 \<and> looks_clamped e" using d e by simp
qed (auto simp: parse_secret_key_def key_consts Let_def)

lemma parse_public_key_iff:
  "parse_public_key d = Inr p \<longleftrightarrow> d = magic tag_public @ p \<and> length p = 32"
proof
  assume "parse_public_key d = Inr p"
  then have d: "length d = 64" "take 32 d = magic tag_public" and p: "p = drop 32 d"
    by (auto simp: parse_public_key_def result_iffs key_consts)
  then have "magic tag_public @ p = d" by (metis append_take_drop_id)
  then show "d = magic tag_public @ p \<and> length p = 32" using d p by simp
qed (auto simp: parse_public_key_def key_consts)

lemma parse_files_Inr:
  "parse_files s p = Inr k \<longleftrightarrow> wf_key_pair k \<and> s = secret_key_file k \<and> p = public_key_file k"
  by (cases k) (auto simp: parse_files_def bindE_Inr_iff parse_secret_key_iff parse_public_key_iff
      wf_key_pair_def secret_key_file_def public_key_file_def)

text \<open>
  C10: The two key files and key pairs are in exact correspondence: a pair of files parses to a key
  pair if and only if that key pair is well formed (32-byte public key, 64-byte clamped secret)
  and the files are byte for byte the ones written for it. Every truncated, padded, mislabelled or
  unclamped file is refused.
\<close>

theorem parse_files_iff:
  "parse_files s p = Inr k \<longleftrightarrow>
     wf_key_pair k \<and> s = secret_key_file k \<and> p = public_key_file k"
  by (rule parse_files_Inr)

lemma generated_well_formed:
  assumes "generate_key_pair bm entropy = Inr k" "\<And>s. length (bm s) = 32"
  shows "wf_key_pair k" "bm (clamp (take 32 (kp_expanded k))) = kp_public k"
  using assms looks_clamped_clamp clamp_idem
  by (auto simp: generate_key_pair_def expand_seed_def wf_key_pair_def clamp_fixed
      split: option.splits if_splits)

lemma key_onion_address_wf [simp]:
  "wf_key_pair k \<Longrightarrow> key_onion_address k = \<lparr>pub_key = kp_public k\<rparr>"
  by (simp add: key_onion_address_def address_from_public_key_def public_key_size_def wf_key_pair_def)

lemma secret_key_file_nonempty [simp]: 
  "secret_key_file k \<noteq> []" "public_key_file k \<noteq> []" "[] \<noteq> secret_key_file k" "[] \<noteq> public_key_file k"
  using length_magic by (auto simp: secret_key_file_def public_key_file_def simp del: length_magic)

text \<open>The Secret data the operator writes for a key pair (\<open>BuildKeySecret\<close>).\<close>

definition key_secret_data :: "key_pair \<Rightarrow> byte list gomap" where
  "key_secret_data kp =
     [(file_secret_key_name, secret_key_file kp), (file_public_key_name, public_key_file kp),
      (file_hostname_name, hostname_file kp)]"

lemma data_entry_key_secret [simp]:
  "data_entry (key_secret_data kp) file_secret_key_name = secret_key_file kp"
  "data_entry (key_secret_data kp) file_public_key_name = public_key_file kp"
  "data_entry (key_secret_data kp) file_hostname_name = hostname_file kp"
  by (simp_all add: data_entry_def key_secret_data_def key_names)

lemma validate_master_key_secret_iff:
  "validate_master_key_secret bm d = Inr k \<longleftrightarrow>
     wf_key_pair k \<and> data_entry d file_secret_key_name = secret_key_file k \<and>
     data_entry d file_public_key_name = public_key_file k \<and>
     bm (clamp (take 32 (kp_expanded k))) = kp_public k"
proof -
  have "length (take 32 (kp_expanded k)) = 32" "drop header_len (public_key_file k) = kp_public k"
    if "wf_key_pair k"
    using that by (simp_all add: wf_key_pair_def public_key_file_def header_len_def)
  then show ?thesis
    by (auto simp: validate_master_key_secret_def result_iffs parse_files_Inr Let_def)
qed

text \<open>
  A master key Secret is accepted exactly when its two files are those of a well-formed key
  pair whose public half really is the base point multiplied by its secret scalar; a Secret that
  pairs one key's secret file with another key's public file is refused.
\<close>

lemma validate_master_key_sound:
  "validate_master_key_secret bm d = Inr k \<longleftrightarrow>
     wf_key_pair k \<and> bm (clamp (take 32 (kp_expanded k))) = kp_public k \<and>
     data_entry d file_secret_key_name = secret_key_file k \<and>
     data_entry d file_public_key_name = public_key_file k"
  using validate_master_key_secret_iff by blast

text \<open>
  C11: Every key pair the program generates is a usable key: the Secret built from it parses back
  to the same pair, passes master-key validation, and its \<open>hostname\<close> entry, line break included,
  parses to the address of the pair. The hypothesis is the documented size of an encoded point.
\<close>

theorem generated_key_accepted:
  assumes "generate_key_pair bm entropy = Inr k" "\<And>s. length (bm s) = 32"
  shows "parse_files (secret_key_file k) (public_key_file k) = Inr k
    \<and> validate_master_key_secret bm (key_secret_data k) = Inr k
    \<and> parse_address (string_of (hostname_file k)) = Inr (key_onion_address k)"
  using generated_well_formed [OF assms]
  by (simp add: parse_files_Inr validate_master_key_secret_iff hostname_file_def parse_address_newline)
    (simp add: wf_key_pair_def parse_address_newline)

theorem generated_key_accepted_witness:
  "\<exists>k. generate_key_pair (\<lambda>_. replicate 32 7) (Some (replicate 32 1)) = Inr k
    \<and> validate_master_key_secret (\<lambda>_. replicate 32 7) (key_secret_data k) = Inr k"
proof -
  let ?bm = "\<lambda>_ :: byte list. replicate 32 (7 :: byte)"
  obtain k where k: "generate_key_pair ?bm (Some (replicate 32 1)) = Inr k"
    by (simp add: generate_key_pair_def expand_seed_def)
  have "length (?bm s) = 32" for s by simp
  from generated_key_accepted [OF k this] k show ?thesis by blast
qed

text \<open>
  The sizes that the OnionBalancePolicy documentation gives for the two entries of a master
  key Secret (64 and 32 bytes) are the sizes without the 32-byte file headers: a Secret with a
  64-byte secret key entry, or with a 32-byte public key entry, is never accepted.
\<close>

lemma documented_master_sizes_rejected:
  "\<not> (length (data_entry d file_secret_key_name) = 64 \<and> validate_master_key_secret bm d = Inr k)
   \<and> \<not> (length (data_entry d file_public_key_name) = 32 \<and> validate_master_key_secret bm d = Inr k)"
  by (auto simp: validate_master_key_secret_iff wf_key_pair_def secret_key_file_def
      public_key_file_def)

end
