(* ===== verification/Permissions.thy ===== *)
theory Permissions
  imports Hs_Keys
begin

text \<open>
  \<open>internal/tor/permissions.go\<close>: the check and the repair of the file modes Tor demands of a
  HiddenServiceDir. A directory tree is a \<open>node\<close>; a mode is its nine permission bits. The
  parameter \<open>can_read\<close> says which directory modes let the calling process open and list a directory (it
  depends on the user the container runs as); listing a directory it refuses is the walk error. The parameter
  \<open>may_chmod\<close> says of which paths, relative to the root, it may change the mode (those it owns).
  Entries are listed in the order of the walk. Symbolic links and entries that vanish during the walk are
  outside the model.
\<close>

type_synonym perm = "9 word"

definition hidden_service_dir_mode :: perm where "hidden_service_dir_mode = 0x1C0"
definition secret_key_mode :: perm where "secret_key_mode = 0x180"
definition public_key_max_mode :: perm where "public_key_max_mode = 0x1A4"
definition authorized_clients_dir_mode :: perm where "authorized_clients_dir_mode = 0x1C0"
definition authorized_clients_subdir :: string where "authorized_clients_subdir = ''authorized_clients''"

lemmas mode_consts [tg_defs] = hidden_service_dir_mode_def secret_key_mode_def
  public_key_max_mode_def authorized_clients_dir_mode_def

datatype node = File perm | Dir perm "(string \<times> node) list"

record violation =
  v_path :: string
  v_got :: perm
  v_want :: perm

datatype perm_error =
    NotADirectory
  | OpenFailed
  | ChmodFailed string
  | WalkFailed
  | PermissionError "violation list"

definition is_permission_error :: "perm_error \<Rightarrow> bool" where
  "is_permission_error e = (case e of PermissionError _ \<Rightarrow> True | _ \<Rightarrow> False)"

definition join_path :: "string \<Rightarrow> string \<Rightarrow> string" where
  "join_path d n = d @ ''/'' @ n"

definition violation_unless :: "bool \<Rightarrow> string \<Rightarrow> perm \<Rightarrow> perm \<Rightarrow> violation list" where
  "violation_unless ok p got want = (if ok then [] else [\<lparr>v_path = p, v_got = got, v_want = want\<rparr>])"

subsection \<open>The check\<close>

definition dir_violations :: "string \<Rightarrow> string \<Rightarrow> perm \<Rightarrow> violation list" where
  "dir_violations p n m =
     (if n = authorized_clients_subdir
      then violation_unless (m = authorized_clients_dir_mode) p m authorized_clients_dir_mode
      else [])"

definition file_violations :: "string \<Rightarrow> string \<Rightarrow> perm \<Rightarrow> violation list" where
  "file_violations p n m =
     (if n = file_secret_key_name then violation_unless (m = secret_key_mode) p m secret_key_mode
      else violation_unless (m AND NOT public_key_max_mode = 0) p m public_key_max_mode)"

fun check_node ::
    "(perm \<Rightarrow> bool) \<Rightarrow> string \<Rightarrow> string \<Rightarrow> node \<Rightarrow> (perm_error, violation list) result"
  and check_entries ::
    "(perm \<Rightarrow> bool) \<Rightarrow> string \<Rightarrow> (string \<times> node) list \<Rightarrow> (perm_error, violation list) result" where
  "check_node can_read p n (File m) = Inr (file_violations p n m)"
| "check_node can_read p n (Dir m es) =
     guardE (\<not> can_read m) WalkFailed
      (bindE (check_entries can_read p es) (\<lambda>vs. Inr (dir_violations p n m @ vs)))"
| "check_entries can_read p [] = Inr []"
| "check_entries can_read p ((n, nd) # es) =
     bindE (check_node can_read (join_path p n) n nd) (\<lambda>v.
       bindE (check_entries can_read p es) (\<lambda>vs. Inr (v @ vs)))"

definition check_permissions :: "(perm \<Rightarrow> bool) \<Rightarrow> string \<Rightarrow> node \<Rightarrow> (perm_error, unit) result" where
  "check_permissions can_read p root =
     (case root of
        File _ \<Rightarrow> Inl NotADirectory
      | Dir m es \<Rightarrow>
          let top = violation_unless (m = hidden_service_dir_mode) p m hidden_service_dir_mode
          in guardE (\<not> can_read m) WalkFailed
              (bindE (check_entries can_read p es) (\<lambda>vs.
                guardE (top @ vs \<noteq> []) (PermissionError (sort_key v_path (top @ vs))) (Inr ()))))"

subsection \<open>The repair\<close>

definition fix_file_mode :: "string \<Rightarrow> perm \<Rightarrow> perm" where
  "fix_file_mode n m =
     (if n = file_secret_key_name then secret_key_mode
      else if m AND NOT public_key_max_mode \<noteq> 0 then m AND public_key_max_mode else m)"

definition fix_dir_mode :: "string \<Rightarrow> perm \<Rightarrow> perm" where
  "fix_dir_mode n m = (if n = authorized_clients_subdir then authorized_clients_dir_mode else m)"

definition file_needs_chmod :: "string \<Rightarrow> perm \<Rightarrow> bool" where
  "file_needs_chmod n m \<longleftrightarrow> n = file_secret_key_name \<or> m AND NOT public_key_max_mode \<noteq> 0"

definition walk_path :: "string \<Rightarrow> string \<Rightarrow> string" where
  "walk_path d n = (if d = ''.'' then n else join_path d n)"

text \<open>The repaired tree comes with the error that stopped the walk, if any: the modes changed
  before it stay changed.\<close>

fun fix_node ::
    "(perm \<Rightarrow> bool) \<Rightarrow> (string \<Rightarrow> bool) \<Rightarrow> string \<Rightarrow> string \<Rightarrow> node \<Rightarrow> node \<times> perm_error option"
  and fix_entries ::
    "(perm \<Rightarrow> bool) \<Rightarrow> (string \<Rightarrow> bool) \<Rightarrow> string \<Rightarrow> (string \<times> node) list \<Rightarrow>
     (string \<times> node) list \<times> perm_error option" where
  "fix_node can_read may_chmod p n (File m) =
     (if file_needs_chmod n m \<and> \<not> may_chmod p then (File m, Some (ChmodFailed p))
      else (File (fix_file_mode n m), None))"
| "fix_node can_read may_chmod p n (Dir m es) =
     (if n = authorized_clients_subdir \<and> \<not> may_chmod p then (Dir m es, Some (ChmodFailed p))
      else let m' = fix_dir_mode n m
      in if \<not> can_read m' then (Dir m' es, Some WalkFailed)
         else case fix_entries can_read may_chmod p es of (es', e) \<Rightarrow> (Dir m' es', e))"
| "fix_entries can_read may_chmod p [] = ([], None)"
| "fix_entries can_read may_chmod p ((n, nd) # es) =
     (case fix_node can_read may_chmod (walk_path p n) n nd of
        (nd', Some e) \<Rightarrow> ((n, nd') # es, Some e)
      | (nd', None) \<Rightarrow>
          (case fix_entries can_read may_chmod p es of (es', e) \<Rightarrow> ((n, nd') # es', e)))"

text \<open>The root is opened first, with the mode it has; then it gets its mode, and is walked.\<close>

definition fix_permissions ::
    "(perm \<Rightarrow> bool) \<Rightarrow> (string \<Rightarrow> bool) \<Rightarrow> node \<Rightarrow> node \<times> perm_error option" where
  "fix_permissions can_read may_chmod root =
     (case root of
        File m \<Rightarrow> (File m, Some NotADirectory)
      | Dir m es \<Rightarrow>
          if \<not> can_read m then (Dir m es, Some OpenFailed)
          else if \<not> may_chmod ''.'' then (Dir m es, Some (ChmodFailed ''.''))
          else if \<not> can_read hidden_service_dir_mode then (Dir hidden_service_dir_mode es, Some WalkFailed)
          else case fix_entries can_read may_chmod ''.'' es of (es', e) \<Rightarrow> (Dir hidden_service_dir_mode es', e))"

subsection \<open>A repaired tree passes the check\<close>

lemma violation_unless_Nil [simp]: "violation_unless ok p g w = [] \<longleftrightarrow> ok"
  by (simp add: violation_unless_def)

lemma and_max_mode: "(m AND public_key_max_mode) AND NOT public_key_max_mode = 0"
  by (simp add: and.assoc)

lemma file_violations_fixed: "file_violations p n (fix_file_mode n m) = []"
  by (auto simp: file_violations_def fix_file_mode_def and_max_mode)

lemma dir_violations_fixed: "dir_violations p n (fix_dir_mode n m) = []"
  by (auto simp: dir_violations_def fix_dir_mode_def)

lemma check_fixed:
  "fix_node can_read may_chmod r n nd = (nd', None) \<Longrightarrow> check_node can_read p n nd' = Inr []"
  "fix_entries can_read may_chmod r es = (es', None) \<Longrightarrow> check_entries can_read q es' = Inr []"
  by (induction can_read may_chmod r n nd and can_read may_chmod r es arbitrary: nd' p and es' q
      rule: fix_node_fix_entries.induct)
    (auto simp: file_violations_fixed dir_violations_fixed Let_def split: prod.splits option.splits
      if_splits)

lemma fix_file_mode_idem [simp]: "fix_file_mode n (fix_file_mode n m) = fix_file_mode n m"
  by (simp add: fix_file_mode_def and_max_mode)

lemma fix_dir_mode_idem [simp]: "fix_dir_mode n (fix_dir_mode n m) = fix_dir_mode n m"
  by (simp add: fix_dir_mode_def)

lemma file_fixed_needs: "file_needs_chmod n (fix_file_mode n m) \<Longrightarrow> file_needs_chmod n m"
  by (auto simp: file_needs_chmod_def fix_file_mode_def and_max_mode split: if_splits)

lemma fix_idem:
  "fix_node can_read may_chmod r n nd = (nd', None) \<Longrightarrow> fix_node can_read may_chmod r n nd' = (nd', None)"
  "fix_entries can_read may_chmod r es = (es', None) \<Longrightarrow> fix_entries can_read may_chmod r es' = (es', None)"
  by (induction can_read may_chmod r n nd and can_read may_chmod r es arbitrary: nd' and es'
      rule: fix_node_fix_entries.induct)
    (auto simp: Let_def dest: file_fixed_needs split: prod.splits option.splits if_splits)

subsection \<open>What the check means and what the repair may change\<close>

text \<open>All entries of a tree in walk order: name, whether it is a directory, mode.\<close>

fun node_modes :: "string \<Rightarrow> node \<Rightarrow> (string \<times> bool \<times> perm) list"
  and entries_modes :: "(string \<times> node) list \<Rightarrow> (string \<times> bool \<times> perm) list" where
  "node_modes n (File m) = [(n, False, m)]"
| "node_modes n (Dir m es) = (n, True, m) # entries_modes es"
| "entries_modes [] = []"
| "entries_modes ((n, nd) # es) = node_modes n nd @ entries_modes es"

definition tree_modes :: "node \<Rightarrow> (string \<times> bool \<times> perm) list" where
  "tree_modes t = node_modes ''.'' t"

definition entry_compliant :: "(perm \<Rightarrow> bool) \<Rightarrow> string \<times> bool \<times> perm \<Rightarrow> bool" where
  "entry_compliant can_read e =
     (case e of (n, d, m) \<Rightarrow>
        if d then can_read m \<and> (n = authorized_clients_subdir \<longrightarrow> m = 0x1C0)
        else if n = file_secret_key_name then m = 0x180
        else m AND NOT 0x1A4 = 0)"

lemma check_node_iff:
  "check_node can_read p n nd = Inr [] \<longleftrightarrow> list_all (entry_compliant can_read) (node_modes n nd)"
  "check_entries can_read q es = Inr [] \<longleftrightarrow> list_all (entry_compliant can_read) (entries_modes es)"
  by (induction n nd and es arbitrary: p and q rule: node_modes_entries_modes.induct)
    (auto simp: entry_compliant_def bindE_Inr_iff guardE_Inr_iff file_violations_def
      dir_violations_def mode_consts)

text \<open>
  The mode that each entry is to have: 0700 for the root and every \<open>authorized_clients\<close>, 0600 for a secret key,
  and for any other file what it has within 0644. An entry may only get this mode; it keeps the old one only
  when the walk was stopped, and group and other users never get more than they had.
\<close>

definition required_mode :: "string \<Rightarrow> bool \<Rightarrow> perm \<Rightarrow> perm" where
  "required_mode n d m =
     (if d then if n = ''.'' \<or> n = ''authorized_clients'' then 0x1C0 else m
      else if n = ''hs_ed25519_secret_key'' then 0x180 else m AND 0x1A4)"

definition repaired :: "bool \<Rightarrow> string \<times> bool \<times> perm \<Rightarrow> string \<times> bool \<times> perm \<Rightarrow> bool" where
  "repaired stopped e e' =
     (case (e, e') of ((n, d, m), (n', d', m')) \<Rightarrow>
        n' = n \<and> d' = d \<and> (m' = required_mode n d m \<or> stopped \<and> m' = m) \<and> (m' AND 0x3F) AND NOT m = 0)"

lemma mask_not_self [simp]: "((m :: perm) AND k) AND NOT m = 0" "((m AND j) AND k) AND NOT m = 0"
  by (rule bit_eqI, auto simp: bit_simps)+

lemma within_max: "m AND NOT public_key_max_mode = 0 \<Longrightarrow> m AND public_key_max_mode = m"
proof -
  assume "m AND NOT public_key_max_mode = 0"
  then have "m AND public_key_max_mode = (m AND public_key_max_mode) OR (m AND NOT public_key_max_mode)" by simp
  also have "\<dots> = m" by (rule bit_eqI) (auto simp: bit_simps)
  finally show ?thesis .
qed

lemma fix_file_required: "fix_file_mode n m = required_mode n False m"
  using within_max [of m]
  by (auto simp: fix_file_mode_def required_mode_def file_secret_key_name_def mode_consts)

lemma repaired_file [simp]:
  "repaired stopped (n, False, m) (n, False, fix_file_mode n m)"
  by (simp add: repaired_def fix_file_required) (simp add: required_mode_def)

lemma repaired_dir [simp]: "n \<noteq> ''.'' \<Longrightarrow> repaired stopped (n, True, m) (n, True, fix_dir_mode n m)"
  by (simp add: repaired_def required_mode_def fix_dir_mode_def mode_consts authorized_clients_subdir_def)

lemma repaired_same [simp]: "repaired True e e"
  by (cases e) (simp add: repaired_def)

lemma repaired_same_list [simp]: "list_all2 (repaired True) xs xs"
  by (rule list_all2_refl) simp

lemma repaired_stopped: "repaired stopped e e' \<Longrightarrow> repaired True e e'"
  by (auto simp: repaired_def split: prod.splits)

text \<open>No entry of a directory is called \<open>.\<close>.\<close>

fun named_node :: "node \<Rightarrow> bool" and named_entries :: "(string \<times> node) list \<Rightarrow> bool" where
  "named_node (File m) = True"
| "named_node (Dir m es) = named_entries es"
| "named_entries [] = True"
| "named_entries ((n, nd) # es) = (n \<noteq> ''.'' \<and> named_node nd \<and> named_entries es)"

lemma fix_repaired:
  "n \<noteq> ''.'' \<Longrightarrow> named_node nd \<Longrightarrow> fix_node can_read may_chmod r n nd = (nd', e) \<Longrightarrow>
     list_all2 (repaired (e \<noteq> None)) (node_modes n nd) (node_modes n nd')"
  "named_entries es \<Longrightarrow> fix_entries can_read may_chmod r es = (es', e) \<Longrightarrow>
     list_all2 (repaired (e \<noteq> None)) (entries_modes es) (entries_modes es')"
proof (induction can_read may_chmod r n nd and can_read may_chmod r es arbitrary: nd' e and es' e
    rule: fix_node_fix_entries.induct)
  case (4 can_read may_chmod p n nd es)
  obtain nd1 e1 where nd1: "fix_node can_read may_chmod (walk_path p n) n nd = (nd1, e1)" by fastforce
  have first: "list_all2 (repaired (e1 \<noteq> None)) (node_modes n nd) (node_modes n nd1)"
    using "4.IH"(1) [OF _ _ nd1] "4.prems"(1) by simp
  show ?case
  proof (cases e1)
    case None
    then obtain es2 where es2: "fix_entries can_read may_chmod p es = (es2, e)" "es' = (n, nd1) # es2"
      using "4.prems"(2) nd1 by (auto split: prod.splits)
    have "list_all2 (repaired (e \<noteq> None)) (entries_modes es) (entries_modes es2)"
      using "4.IH"(2) [OF nd1 [symmetric] None _ es2(1)] "4.prems"(1) by simp
    moreover have "list_all2 (repaired (e \<noteq> None)) (node_modes n nd) (node_modes n nd1)"
      using first None repaired_stopped by (cases e) (auto elim: list_all2_mono)
    ultimately show ?thesis by (simp add: es2(2) list_all2_appendI)
  next
    case (Some x)
    then have "es' = (n, nd1) # es" "e = Some x" using "4.prems"(2) nd1 by auto
    with first Some show ?thesis by (auto intro: list_all2_appendI)
  qed
qed (auto simp: Let_def split: prod.splits if_splits)

text \<open>
  A tree that \<open>FixPermissions\<close> repairs without error passes \<open>CheckPermissions\<close>, for every
  process and directory, and repairing it again changes nothing: the init container and the check
  enforce the same policy.
\<close>

lemma fixed_tree_passes_check:
  assumes "fix_permissions can_read may_chmod t = (t', None)"
  shows "check_permissions can_read p t' = Inr () \<and> fix_permissions can_read may_chmod t' = (t', None)"
proof (cases t)
  case (File m)
  then show ?thesis using assms by (simp add: fix_permissions_def)
next
  case (Dir m es)
  then obtain es' where "fix_entries can_read may_chmod ''.'' es = (es', None)" "can_read hidden_service_dir_mode"
    and t': "t' = Dir hidden_service_dir_mode es'" "may_chmod ''.''"
    using assms by (auto simp: fix_permissions_def split: if_splits prod.splits)
  then show ?thesis
    using check_fixed(2) fix_idem(2)
    by (simp add: check_permissions_def fix_permissions_def)
qed

text \<open>
  \<open>CheckPermissions\<close> accepts a tree exactly when it is a 0700 directory in which every
  \<open>authorized_clients\<close> directory at any depth is 0700, every secret key file is 0600, and every
  other file has no permission beyond 0644 (and every directory can be listed): one violation
  anywhere is always reported.
\<close>

lemma check_permissions_iff:
  "check_permissions can_read p t = Inr () \<longleftrightarrow>
     (\<exists>es. t = Dir 0x1C0 es \<and> can_read 0x1C0 \<and>
        list_all (entry_compliant can_read) (entries_modes es))"
  using check_node_iff(2) [of can_read p]
  by (cases t) (auto simp: check_permissions_def bindE_Inr_iff guardE_Inr_iff mode_consts Let_def)

text \<open>
  C12: \<open>FixPermissions\<close> gives every entry exactly the mode it is to have, 0700, 0600 or what it has within 0644
  by its kind, and no other: no permission beyond that mode, and to group and other users none that they did
  not have. An entry keeps its old mode only when an error stopped the walk (a directory that cannot be opened or
  listed, a mode that may not be changed), and names and kinds of entries never change.
\<close>

theorem fix_never_widens:
  assumes "fix_permissions can_read may_chmod t = (t', e)" "named_node t"
  shows "list_all2 (repaired (e \<noteq> None)) (tree_modes t) (tree_modes t')"
proof (cases t)
  case (Dir m es)
  have root: "repaired b (''.'', True, m) (''.'', True, hidden_service_dir_mode)" for b
    by (simp add: repaired_def required_mode_def hidden_service_dir_mode_def)
  show ?thesis
    using assms fix_repaired(2) [of es can_read may_chmod "''.''"]
    by (auto simp: Dir tree_modes_def fix_permissions_def root split: prod.splits if_splits)
qed (use assms in \<open>auto simp: tree_modes_def fix_permissions_def\<close>)

definition sample_tree :: node where
  "sample_tree = Dir 0x1ED [(''authorized_clients'', Dir 0x1ED [(''a.auth'', File 0x1B6)]),
     (''hostname'', File 0x1FF), (''hs_ed25519_secret_key'', File 0x124)]"

theorem fix_never_widens_witness:
  "case fix_permissions (\<lambda>_. True) (\<lambda>_. True) sample_tree of (t', e) \<Rightarrow>
     e = None \<and> list_all2 (repaired False) (tree_modes sample_tree) (tree_modes t') \<and>
     tree_modes t' = [(''.'', True, 0x1C0), (''authorized_clients'', True, 0x1C0), (''a.auth'', False, 0x1A4),
       (''hostname'', False, 0x1A4), (''hs_ed25519_secret_key'', False, 0x180)]"
proof -
  let ?t = "Dir 0x1C0 [(''authorized_clients'', Dir 0x1C0 [(''a.auth'', File 0x1A4)]),
      (''hostname'', File 0x1A4), (''hs_ed25519_secret_key'', File 0x180)]"
  have fixed: "fix_permissions (\<lambda>_. True) (\<lambda>_. True) sample_tree = (?t, None)"
    by (simp add: fix_permissions_def sample_tree_def fix_file_mode_def fix_dir_mode_def mode_consts
        authorized_clients_subdir_def file_secret_key_name_def Let_def)
  then show ?thesis
    using fix_never_widens [OF fixed] by (simp add: sample_tree_def tree_modes_def)
qed

end
