(* ===== verification/Torrc.thy ===== *)
theory Torrc
  imports Permissions
begin

text \<open>
  \<open>internal/tor/torrc.go\<close>: the typed torrc configuration, its validation and its rendering. The
  parts of Go's \<open>net\<close> and \<open>path\<close> packages the validation calls (\<open>net.ParseIP\<close>,
  \<open>IP.IsLoopback\<close>, \<open>path.IsAbs\<close>, \<open>path.Join\<close>) are modelled first. The lemmas determine the
  rendered text line by line, and which directives can occur in it.
\<close>

subsection \<open>IP addresses\<close>

text \<open>Split at a separator character; \<open>n\<close> separators give \<open>n + 1\<close> fields.\<close>

fun split_on :: "char \<Rightarrow> string \<Rightarrow> string list" where
  "split_on sep [] = [[]]"
| "split_on sep (c # cs) =
     (if c = sep then [] # split_on sep cs
      else case split_on sep cs of [] \<Rightarrow> [[c]] | f # fs \<Rightarrow> (c # f) # fs)"

text \<open>A field of a dotted address: one to three digits, no leading zero, at most 255.\<close>

definition ipv4_field :: "string \<Rightarrow> nat option" where
  "ipv4_field f =
     (if f = [] \<or> (1 < length f \<and> hd f = CHR ''0'') then None
      else case parse_nat f of None \<Rightarrow> None | Some v \<Rightarrow> if v \<le> 255 then Some v else None)"

definition parse_ipv4 :: "string \<Rightarrow> nat list option" where
  "parse_ipv4 s =
     (case those (map ipv4_field (split_on CHR ''.'' s)) of
        None \<Rightarrow> None
      | Some q \<Rightarrow> if length q = 4 then Some q else None)"

definition hex_value :: "char \<Rightarrow> nat option" where
  "hex_value c =
     (case map_of (zip ''0123456789abcdef'' [0..<16]) (to_lower_char c) of
        None \<Rightarrow> None | Some v \<Rightarrow> Some v)"

definition hex_number :: "string \<Rightarrow> nat" where
  "hex_number ds = foldl (\<lambda>a c. 16 * a + (case hex_value c of None \<Rightarrow> 0 | Some v \<Rightarrow> v)) 0 ds"

text \<open>
  The field loop of \<open>netip.parseIPv6\<close>: at most \<open>k\<close> more 16-bit fields, the bytes read so far, the
  place of the \<open>::\<close>, and the rest of the text.
\<close>

fun parse_ipv6_fields ::
    "nat \<Rightarrow> nat list \<Rightarrow> nat option \<Rightarrow> string \<Rightarrow> (nat list \<times> nat option \<times> string) option" where
  "parse_ipv6_fields 0 acc ell s = Some (acc, ell, s)"
| "parse_ipv6_fields (Suc k) acc ell s =
     (let ds = takeWhile (\<lambda>c. hex_value c \<noteq> None) s;
          rest = drop (length ds) s;
          acc' = acc @ [hex_number ds div 256, hex_number ds mod 256]
      in if ds = [] \<or> 4 < length ds then None
         else case rest of
           [] \<Rightarrow> Some (acc', ell, [])
         | c # cs \<Rightarrow>
             if c = CHR ''.'' then
               (if (ell = None \<and> length acc \<noteq> 12) \<or> 16 < length acc + 4 then None
                else case parse_ipv4 s of None \<Rightarrow> None | Some q \<Rightarrow> Some (acc @ q, ell, []))
             else if c \<noteq> CHR '':'' \<or> cs = [] then None
             else if hd cs = CHR '':'' then
               (if ell \<noteq> None then None
                else if tl cs = [] then Some (acc', Some (length acc'), [])
                else parse_ipv6_fields k acc' (Some (length acc')) (tl cs))
             else parse_ipv6_fields k acc' ell cs)"

definition parse_ipv6 :: "string \<Rightarrow> nat list option" where
  "parse_ipv6 s =
     (let (ell0, s0) = (if has_prefix s ''::'' then (Some 0, drop 2 s) else (None, s))
      in if ell0 \<noteq> None \<and> s0 = [] then Some (replicate 16 0)
         else case parse_ipv6_fields 8 [] ell0 s0 of
           None \<Rightarrow> None
         | Some (acc, ell, rest) \<Rightarrow>
             if rest \<noteq> [] then None
             else case ell of
               None \<Rightarrow> if length acc = 16 then Some acc else None
             | Some e \<Rightarrow>
                 if length acc < 16
                 then Some (take e acc @ replicate (16 - length acc) 0 @ drop e acc) else None)"

text \<open>\<open>net.ParseIP\<close> as 16 bytes; a zone (\<open>%\<close>) is refused.\<close>

definition parse_ip :: "string \<Rightarrow> nat list option" where
  "parse_ip s =
     (case filter (\<lambda>c. c = CHR ''.'' \<or> c = CHR '':'' \<or> c = CHR ''%'') s of
        [] \<Rightarrow> None
      | c # _ \<Rightarrow>
          if c = CHR ''.'' then
            (case parse_ipv4 s of None \<Rightarrow> None
             | Some q \<Rightarrow> Some (replicate 10 0 @ [255, 255] @ q))
          else if CHR ''%'' \<in> set s then None
          else parse_ipv6 s)"

definition is_loopback :: "nat list \<Rightarrow> bool" where
  "is_loopback ip =
     (if take 12 ip = replicate 10 0 @ [255, 255] then ip ! 12 = 127
      else ip = replicate 15 0 @ [1])"

subsection \<open>Paths\<close>

definition is_abs :: "string \<Rightarrow> bool" where
  "is_abs p \<longleftrightarrow> p \<noteq> [] \<and> hd p = CHR ''/''"

text \<open>\<open>path.Clean\<close> of an absolute path: empty and \<open>.\<close> elements vanish, \<open>..\<close> drops one.\<close>

definition clean_step :: "string list \<Rightarrow> string \<Rightarrow> string list" where
  "clean_step acc e =
     (if e = [] \<or> e = ''.'' then acc else if e = ''..'' then butlast acc else acc @ [e])"

definition clean_abs :: "string \<Rightarrow> string" where
  "clean_abs p =
     (case foldl clean_step [] (split_on CHR ''/'' p) of
        [] \<Rightarrow> ''/''
      | es \<Rightarrow> concat (map (\<lambda>e. CHR ''/'' # e) es))"

definition path_join_abs :: "string \<Rightarrow> string \<Rightarrow> string" where
  "path_join_abs d e = clean_abs (d @ ''/'' @ e)"

lemmas net_defs [tg_defs] = ipv4_field_def parse_ipv4_def hex_value_def hex_number_def
  parse_ipv6_def parse_ip_def is_loopback_def is_abs_def clean_step_def clean_abs_def
  path_join_abs_def parse_nat_def digit_value_def

subsection \<open>Configuration and validation\<close>

record port_mapping =
  virtual_port :: int
  target_host :: string
  target_port :: int

record torrc_config =
  hidden_service_dir :: string
  hidden_service_port :: port_mapping
  log_level :: string
  data_directory :: string
  pow_defenses_enabled :: bool
  client_auth_dir :: string
  metrics_port :: int
  metrics_port_policy :: string
  extra_directives :: "string gomap"
  onionbalance_instance :: bool
  testing_network_include :: string

datatype torrc_error =
    NilConfig
  | HiddenServiceDirRelative string
  | DataDirectoryRelative string
  | VirtualPortRange int
  | TargetPortRange int
  | TargetHostNotLoopback string
  | InvalidLogLevel string
  | ClientAuthDirRelative string
  | ClientAuthDirMismatch string string
  | MetricsPortRange int
  | MetricsPolicyMissing
  | InvalidDirectiveKey string

definition log_levels :: "string list" where
  "log_levels = [''debug'', ''info'', ''notice'', ''warn'', ''err'']"

definition valid_log_level :: "string \<Rightarrow> bool" where
  "valid_log_level l \<longleftrightarrow> l \<in> set log_levels"

definition invalid_directive_key :: "string \<Rightarrow> bool" where
  "invalid_directive_key k \<longleftrightarrow>
     (\<exists>c \<in> set k. c \<in> {CHR '' '', CHR 0x09, CHR 0x0D, nl}) \<or> k = []"

definition port_out_of_range :: "int \<Rightarrow> int \<Rightarrow> bool" where
  "port_out_of_range lo p \<longleftrightarrow> p < lo \<or> 65535 < p"

definition host_is_loopback :: "string \<Rightarrow> bool" where
  "host_is_loopback h = (case parse_ip h of None \<Rightarrow> False | Some ip \<Rightarrow> is_loopback ip)"

definition validate_torrc :: "torrc_config option \<Rightarrow> (torrc_error, unit) result" where
  "validate_torrc co =
     (case co of
        None \<Rightarrow> Inl NilConfig
      | Some c \<Rightarrow>
          let pm = hidden_service_port c;
              want = path_join_abs (hidden_service_dir c) ''authorized_clients'' in
          guardE (\<not> is_abs (hidden_service_dir c)) (HiddenServiceDirRelative (hidden_service_dir c))
         (guardE (\<not> is_abs (data_directory c)) (DataDirectoryRelative (data_directory c))
         (guardE (port_out_of_range 1 (virtual_port pm)) (VirtualPortRange (virtual_port pm))
         (guardE (port_out_of_range 1 (target_port pm)) (TargetPortRange (target_port pm))
         (guardE (\<not> host_is_loopback (target_host pm)) (TargetHostNotLoopback (target_host pm))
         (guardE (log_level c \<noteq> [] \<and> \<not> valid_log_level (log_level c)) (InvalidLogLevel (log_level c))
         (guardE (client_auth_dir c \<noteq> [] \<and> \<not> is_abs (client_auth_dir c))
            (ClientAuthDirRelative (client_auth_dir c))
         (guardE (client_auth_dir c \<noteq> [] \<and> client_auth_dir c \<noteq> want)
            (ClientAuthDirMismatch want (client_auth_dir c))
         (guardE (port_out_of_range 0 (metrics_port c)) (MetricsPortRange (metrics_port c))
         (guardE (0 < metrics_port c \<and> metrics_port_policy c = []) MetricsPolicyMissing
         (case filter (\<lambda>kv. invalid_directive_key (fst kv)) (extra_directives c) of
            [] \<Rightarrow> Inr ()
          | (k, _) # _ \<Rightarrow> Inl (InvalidDirectiveKey k))))))))))))"

subsection \<open>Rendering\<close>

definition out_line :: "string \<Rightarrow> string" where
  "out_line l = l @ [nl]"

definition effective_level :: "torrc_config \<Rightarrow> string" where
  "effective_level c = (if log_level c = [] then ''notice'' else log_level c)"

definition extra_line :: "string gomap \<Rightarrow> string \<Rightarrow> string" where
  "extra_line m k =
     (let v = (case map_of m k of None \<Rightarrow> [] | Some v \<Rightarrow> v)
      in if v = [] then k else k @ '' '' @ v)"

definition torrc_text :: "torrc_config \<Rightarrow> string" where
  "torrc_text c =
     (let pm = hidden_service_port c in
      out_line ''# Rendered by tor-gateway; do not edit by hand.'' @
      [nl] @
      out_line (''DataDirectory '' @ data_directory c) @
      out_line (''Log '' @ effective_level c @ '' stdout'') @
      out_line ''SocksPort 0'' @
      out_line ''ClientUseIPv4 1'' @
      out_line ''ClientUseIPv6 1'' @
      [nl] @
      (if testing_network_include c = [] then []
       else testing_network_include c @
         (if has_suffix (testing_network_include c) [nl] then [] else [nl])) @
      out_line (''HiddenServiceDir '' @ hidden_service_dir c) @
      out_line ''HiddenServiceVersion 3'' @
      out_line (''HiddenServicePort '' @ show_int (virtual_port pm) @ '' '' @ target_host pm @ '':'' @
        show_int (target_port pm)) @
      (if onionbalance_instance c then out_line ''HiddenServiceOnionbalanceInstance 1'' else []) @
      (if pow_defenses_enabled c \<and> \<not> onionbalance_instance c
       then out_line ''HiddenServiceEnableIntroDoSDefense 1'' @
         out_line ''HiddenServicePoWDefensesEnabled 1''
       else []) @
      (if 0 < metrics_port c
       then out_line (''MetricsPort 0.0.0.0:'' @ show_int (metrics_port c)) @
         out_line (''MetricsPortPolicy '' @ metrics_port_policy c)
       else []) @
      (if client_auth_dir c \<noteq> []
       then out_line ''# client authorization enabled (authorized_clients/*.auth)'' else []) @
      (if extra_directives c \<noteq> []
       then [nl] @ out_line ''# extra directives'' @
         concat (map (\<lambda>k. out_line (extra_line (extra_directives c) k))
           (sort (map fst (extra_directives c))))
       else []))"

definition render_torrc :: "torrc_config option \<Rightarrow> (torrc_error, string) result" where
  "render_torrc co =
     bindE (validate_torrc co) (\<lambda>_. Inr (case co of None \<Rightarrow> [] | Some c \<Rightarrow> torrc_text c))"

text \<open>\<open>MustRender\<close> panics on an error, which is \<open>None\<close>.\<close>

definition must_render :: "torrc_config option \<Rightarrow> string option" where
  "must_render co = (case render_torrc co of Inl _ \<Rightarrow> None | Inr t \<Rightarrow> Some t)"

subsection \<open>The lines of a rendered torrc\<close>

text \<open>The same output as a list of lines, for a configuration without a testing include.\<close>

definition torrc_lines :: "torrc_config \<Rightarrow> string list" where
  "torrc_lines c =
     (let pm = hidden_service_port c in
      [''# Rendered by tor-gateway; do not edit by hand.'', [],
       ''DataDirectory '' @ data_directory c,
       ''Log '' @ effective_level c @ '' stdout'',
       ''SocksPort 0'', ''ClientUseIPv4 1'', ''ClientUseIPv6 1'', [],
       ''HiddenServiceDir '' @ hidden_service_dir c,
       ''HiddenServiceVersion 3'',
       ''HiddenServicePort '' @ show_int (virtual_port pm) @ '' '' @ target_host pm @ '':'' @
         show_int (target_port pm)] @
      (if onionbalance_instance c then [''HiddenServiceOnionbalanceInstance 1''] else []) @
      (if pow_defenses_enabled c \<and> \<not> onionbalance_instance c
       then [''HiddenServiceEnableIntroDoSDefense 1'', ''HiddenServicePoWDefensesEnabled 1''] else []) @
      (if 0 < metrics_port c
       then [''MetricsPort 0.0.0.0:'' @ show_int (metrics_port c),
             ''MetricsPortPolicy '' @ metrics_port_policy c] else []) @
      (if client_auth_dir c \<noteq> []
       then [''# client authorization enabled (authorized_clients/*.auth)''] else []) @
      (if extra_directives c \<noteq> []
       then [[], ''# extra directives''] @
         map (extra_line (extra_directives c)) (sort (map fst (extra_directives c))) else []))"

lemma torrc_text_lines:
  "testing_network_include c = [] \<Longrightarrow> torrc_text c = concat (map out_line (torrc_lines c))"
  by (simp add: torrc_text_def torrc_lines_def Let_def out_line_def comp_def)

fun text_lines :: "string \<Rightarrow> string list" where
  "text_lines [] = []"
| "text_lines (c # cs) =
     (if c = nl then [] # text_lines cs
      else case text_lines cs of [] \<Rightarrow> [[c]] | l # ls \<Rightarrow> (c # l) # ls)"

lemma text_lines_line: "nl \<notin> set l \<Longrightarrow> text_lines (out_line l @ t) = l # text_lines t"
  by (induction l) (auto simp: out_line_def)

lemma text_lines_concat: "\<forall>l \<in> set ls. nl \<notin> set l \<Longrightarrow> text_lines (concat (map out_line ls)) = ls"
  by (induction ls) (auto simp: text_lines_line)

lemma show_nat_no_newline [simp]: "nl \<notin> set (show_nat n)"
proof
  assume "nl \<in> set (show_nat n)"
  then obtain d where "d < 10" "digit_char d = nl" by (metis show_nat_digits)
  moreover have "digit_value nl = None" by (simp add: digit_value_def digit_alphabet_def upt_rec)
  ultimately show False by (metis digit_value_char option.distinct(1))
qed

lemma show_int_no_newline [simp]: "nl \<notin> set (show_int n)"
  by (simp add: show_int_def)

definition plain_config :: "torrc_config \<Rightarrow> bool" where
  "plain_config c \<longleftrightarrow>
     nl \<notin> set (hidden_service_dir c) \<and> nl \<notin> set (data_directory c) \<and>
     nl \<notin> set (metrics_port_policy c) \<and> list_all (\<lambda>kv. nl \<notin> set (snd kv)) (extra_directives c) \<and>
     testing_network_include c = []"

lemma hex_value_no_newline: "hex_value nl = None"
  by (simp add: hex_value_def to_lower_char_def translate_char_def upper_alphabet_def
      lower_alphabet_def upt_rec)

subsection \<open>Accepted values cannot break a line\<close>

lemma split_on_chars: "c \<in> set s \<Longrightarrow> c = sep \<or> (\<exists>f \<in> set (split_on sep s). c \<in> set f)"
  by (induction s) (auto split: list.splits if_splits)

lemma parse_digits_chars: "parse_digits a s = Some v \<Longrightarrow> c \<in> set s \<Longrightarrow> digit_value c \<noteq> None"
  by (induction s arbitrary: a) (auto split: option.splits)

lemma digit_value_no_newline: "digit_value nl = None"
  by (simp add: digit_value_def digit_alphabet_def upt_rec)

lemma parse_ipv4_no_newline:
  assumes "parse_ipv4 s = Some q"
  shows "nl \<notin> set s"
proof
  assume "nl \<in> set s"
  then obtain f where f: "f \<in> set (split_on CHR ''.'' s)" "nl \<in> set f"
    using split_on_chars [of nl s "CHR ''.''"] by auto
  obtain vs where "those (map ipv4_field (split_on CHR ''.'' s)) = Some vs"
    using assms by (auto simp: parse_ipv4_def split: option.splits)
  then have "map ipv4_field (split_on CHR ''.'' s) = map Some vs" by (rule those_Some_map)
  then have "ipv4_field f \<in> Some ` set vs" using f(1) by (metis image_eqI list.set_map)
  then obtain v where "parse_digits 0 f = Some v"
    by (auto simp: ipv4_field_def parse_nat_def split: if_splits option.splits)
  then show False using parse_digits_chars [OF _ f(2)] digit_value_no_newline by blast
qed

lemma takeWhile_hex_no_newline: "nl \<notin> set (takeWhile (\<lambda>c. hex_value c \<noteq> None) s)"
  using hex_value_no_newline by (auto dest: set_takeWhileD)

lemma parse_ipv6_fields_rest:
  assumes "parse_ipv6_fields (Suc k) acc ell s = Some (acc', ell', [])"
    "drop (length (takeWhile (\<lambda>c. hex_value c \<noteq> None) s)) s = c # cs"
  shows "(c = CHR ''.'' \<and> parse_ipv4 s \<noteq> None) \<or>
    (c = CHR '':'' \<and> (\<exists>a e. cs = '':'' \<or> parse_ipv6_fields k a e cs = Some (acc', ell', []) \<or>
       (\<exists>ds. cs = CHR '':'' # ds \<and> parse_ipv6_fields k a e ds = Some (acc', ell', []))))"
proof (cases cs)
  case Nil
  then show ?thesis using assms by (simp add: Let_def split: if_splits option.splits)
next
  case (Cons d ds)
  then show ?thesis using assms
    by (simp add: Let_def split: if_splits option.splits) blast+
qed

lemma parse_ipv6_fields_no_newline:
  "parse_ipv6_fields k acc ell s = Some (acc', ell', []) \<Longrightarrow> nl \<notin> set s"
proof (induction k arbitrary: acc ell s)
  case (Suc k)
  let ?ds = "takeWhile (\<lambda>c. hex_value c \<noteq> None) s"
  have "s = ?ds @ drop (length ?ds) s"
    by (metis append_take_drop_id takeWhile_eq_take)
  then have split: "set s = set ?ds \<union> set (drop (length ?ds) s)"
    by (metis set_append)
  have "nl \<notin> set (drop (length ?ds) s)"
  proof (cases "drop (length ?ds) s")
    case (Cons c cs)
    have "nl \<notin> set s \<or> nl \<notin> set (c # cs)"
      using parse_ipv6_fields_rest [OF Suc.prems Cons] parse_ipv4_no_newline Suc.IH
      by (elim disjE conjE exE) auto
    then show ?thesis using Cons by (metis in_set_dropD)
  qed simp
  then show ?case
    using takeWhile_hex_no_newline [of s] split by blast
qed simp

lemma parse_ipv6_no_newline:
  assumes "parse_ipv6 s = Some ip"
  shows "nl \<notin> set s"
proof (cases "has_prefix s ''::''")
  case True
  then obtain t where s: "s = ''::'' @ t" by (rule has_prefixE)
  then show ?thesis
    using assms parse_ipv6_fields_no_newline [of 8 "[]" "Some 0" t]
    by (auto simp: parse_ipv6_def has_prefix_def split: option.splits if_splits)
next
  case False
  then show ?thesis
    using assms parse_ipv6_fields_no_newline [of 8 "[]" None s]
    by (auto simp: parse_ipv6_def split: option.splits if_splits)
qed

lemma parse_ip_no_newline: "parse_ip s = Some ip \<Longrightarrow> nl \<notin> set s"
  using parse_ipv4_no_newline [of s] parse_ipv6_no_newline [of s]
  by (simp add: parse_ip_def split: list.splits option.splits if_splits)

lemma log_level_no_newline: "valid_log_level l \<Longrightarrow> nl \<notin> set l \<and> CHR '' '' \<notin> set l"
  by (auto simp: valid_log_level_def log_levels_def)

lemma validate_torrcD:
  assumes "validate_torrc (Some c) = Inr ()"
  shows "valid_log_level (effective_level c)" "nl \<notin> set (target_host (hidden_service_port c))"
    "list_all (\<lambda>kv. \<not> invalid_directive_key (fst kv)) (extra_directives c)"
proof -
  have v: "log_level c \<noteq> [] \<longrightarrow> valid_log_level (log_level c)"
    "host_is_loopback (target_host (hidden_service_port c))"
    "filter (\<lambda>kv. invalid_directive_key (fst kv)) (extra_directives c) = []"
    using assms by (auto simp: validate_torrc_def guardE_Inr_iff Let_def split: list.splits)
  show "valid_log_level (effective_level c)"
    using v(1) by (simp add: effective_level_def valid_log_level_def log_levels_def)
  show "nl \<notin> set (target_host (hidden_service_port c))"
    using v(2) parse_ip_no_newline by (auto simp: host_is_loopback_def split: option.splits)
  show "list_all (\<lambda>kv. \<not> invalid_directive_key (fst kv)) (extra_directives c)"
    using v(3) by (simp add: filter_empty_conv list_all_iff)
qed

lemma extra_line_no_newline:
  assumes "list_all (\<lambda>kv. nl \<notin> set (snd kv)) m" "list_all (\<lambda>kv. \<not> invalid_directive_key (fst kv)) m"
    "k \<in> fst ` set m"
  shows "nl \<notin> set (extra_line m k)"
  using assms by (auto simp: extra_line_def invalid_directive_key_def list_all_iff Let_def
      dest!: map_of_SomeD split: option.splits)

lemma torrc_lines_no_newline:
  assumes "validate_torrc (Some c) = Inr ()" "plain_config c"
  shows "\<forall>l \<in> set (torrc_lines c). nl \<notin> set l"
  using validate_torrcD [OF assms(1)] assms(2) log_level_no_newline extra_line_no_newline
  by (auto simp: torrc_lines_def plain_config_def Let_def)

lemma render_torrc_lines:
  assumes "render_torrc (Some c) = Inr t" "plain_config c"
  shows "text_lines t = torrc_lines c"
proof -
  have v: "validate_torrc (Some c) = Inr ()" and t: "t = torrc_text c"
    using assms(1) by (auto simp: render_torrc_def bindE_Inr_iff)
  have "t = concat (map out_line (torrc_lines c))"
    using assms(2) by (simp add: t torrc_text_lines plain_config_def)
  then show ?thesis
    using text_lines_concat [OF torrc_lines_no_newline [OF v assms(2)]] by simp
qed

subsection \<open>Directives\<close>

definition keyword :: "string \<Rightarrow> string" where
  "keyword l = takeWhile (\<lambda>c. c \<noteq> CHR '' '') l"

text \<open>The first words the renderer writes itself.\<close>

definition torrc_keywords :: "string list" where
  "torrc_keywords =
     [[], ''#'', ''DataDirectory'', ''Log'', ''SocksPort'', ''ClientUseIPv4'', ''ClientUseIPv6'',
      ''HiddenServiceDir'', ''HiddenServiceVersion'', ''HiddenServicePort'',
      ''HiddenServiceOnionbalanceInstance'', ''HiddenServiceEnableIntroDoSDefense'',
      ''HiddenServicePoWDefensesEnabled'', ''MetricsPort'', ''MetricsPortPolicy'']"

lemma keyword_prefix [simp]:
  assumes "CHR '' '' \<notin> set k"
  shows "keyword (k @ CHR '' '' # v) = k"
proof -
  have "takeWhile (\<lambda>c. c \<noteq> CHR '' '') (k @ CHR '' '' # v) = k @ takeWhile (\<lambda>c. c \<noteq> CHR '' '') (CHR '' '' # v)"
    using assms by (intro takeWhile_append2) auto
  then show ?thesis by (simp add: keyword_def)
qed

lemma keyword_id: "CHR '' '' \<notin> set k \<Longrightarrow> keyword k = k"
  unfolding keyword_def takeWhile_eq_all_conv by blast

lemma valid_key_no_space: "\<not> invalid_directive_key k \<Longrightarrow> CHR '' '' \<notin> set k"
  unfolding invalid_directive_key_def by blast

lemma keyword_extra_line: "\<not> invalid_directive_key k \<Longrightarrow> keyword (extra_line m k) = k"
  using valid_key_no_space [of k] by (simp add: extra_line_def Let_def keyword_id)

lemma keyword_Cons: "keyword (c # cs) = (if c = CHR '' '' then [] else c # keyword cs)"
  by (simp add: keyword_def)

lemma keyword_Nil [simp]: "keyword [] = []"
  by (simp add: keyword_def)

lemma torrc_line_keywords:
  assumes "validate_torrc (Some c) = Inr ()" "l \<in> set (torrc_lines c)"
  shows "keyword l \<in> set torrc_keywords \<union> fst ` set (extra_directives c)"
proof (cases "l \<in> extra_line (extra_directives c) ` fst ` set (extra_directives c)")
  case True
  then obtain k where k: "k \<in> fst ` set (extra_directives c)" "l = extra_line (extra_directives c) k"
    by auto
  then have "keyword l = k"
    using validate_torrcD(3) [OF assms(1)] by (auto simp: list_all_iff keyword_extra_line)
  then show ?thesis using k by simp
next
  case False
  then have "keyword l \<in> set torrc_keywords"
    using assms(2)
    by (auto simp: torrc_lines_def Let_def keyword_Cons torrc_keywords_def image_image
        split: if_splits)
  then show ?thesis by simp
qed

text \<open>
  When a configuration whose directories, metrics policy and directive values contain no line break renders,
  the text consists of exactly the lines of \<open>torrc_lines\<close>, and the first word of every line is one the renderer
  writes itself or a key of the operator-trusted extra directives. Log level, target host and directive keys
  need no hypothesis: validation already excludes the bad ones. The others are not validated: a
  \<open>DataDirectory\<close> with a line break does add a directive (\<open>Resources_Ha\<close> shows that the operator sets none).
\<close>

lemma rendered_torrc_lines:
  assumes "render_torrc (Some c) = Inr t" "plain_config c"
  shows "text_lines t = torrc_lines c
    \<and> keyword ` set (text_lines t) \<subseteq> set torrc_keywords \<union> fst ` set (extra_directives c)
    \<and> ''SocksPort 0'' \<in> set (text_lines t)"
proof -
  have v: "validate_torrc (Some c) = Inr ()"
    using assms(1) by (auto simp: render_torrc_def bindE_Inr_iff)
  have "''SocksPort 0'' \<in> set (torrc_lines c)" by (simp add: torrc_lines_def Let_def)
  then show ?thesis
    using render_torrc_lines [OF assms] torrc_line_keywords [OF v] by auto
qed

text \<open>
  A torrc rendered for an onionbalance backend instance never turns the proof-of-work defences
  on, whatever \<open>PoWDefensesEnabled\<close> says, and always declares the instance; outside that mode the
  two defences are on exactly when the flag is.
\<close>

lemma torrc_pow_lines:
  assumes "extra_directives c = []"
  shows "(''HiddenServicePoWDefensesEnabled 1'' \<in> set (torrc_lines c)
            \<longleftrightarrow> pow_defenses_enabled c \<and> \<not> onionbalance_instance c)
    \<and> (''HiddenServiceEnableIntroDoSDefense 1'' \<in> set (torrc_lines c)
            \<longleftrightarrow> pow_defenses_enabled c \<and> \<not> onionbalance_instance c)
    \<and> (''HiddenServiceOnionbalanceInstance 1'' \<in> set (torrc_lines c) \<longleftrightarrow> onionbalance_instance c)"
  using assms by (simp add: torrc_lines_def Let_def)

text \<open>
  Rendering is deterministic: the order in which the map of extra directives is ranged over
  never changes the text.
\<close>

lemma torrc_text_order_independent:
  assumes "distinct (map fst m)" "mset m = mset m'"
  shows "torrc_text (c\<lparr>extra_directives := m\<rparr>) = torrc_text (c\<lparr>extra_directives := m'\<rparr>)"
proof -
  have "sort (map fst m) = sort (map fst m')" using assms(2) by (rule sort_keys_permute)
  moreover have "map_of m = map_of m'" using assms by (rule map_of_permute)
  moreover from this have "extra_line m = extra_line m'" by (intro ext) (simp add: extra_line_def)
  moreover have "m = [] \<longleftrightarrow> m' = []" using assms(2) by auto
  ultimately show ?thesis by (simp add: torrc_text_def Let_def effective_level_def)
qed

text \<open>
  An IPv6 loopback target passes validation and is rendered without the brackets Tor's
  \<open>address:port\<close> syntax needs.
\<close>

lemma ipv6_target_unbracketed:
  "host_is_loopback ''::1'' \<and>
   ''HiddenServicePort 80 ::1:9080'' \<in> set (torrc_lines (sample_config\<lparr>hidden_service_port :=
      \<lparr>virtual_port = 80, target_host = ''::1'', target_port = 9080\<rparr>\<rparr>))"
proof -
  have hx: "hex_value CHR ''1'' = Some 1"
    by (simp add: hex_value_def string_defs upt_rec)
  have "parse_ipv6_fields (Suc 7) [] (Some 0) ''1'' = Some ([0, 1], Some 0, [])"
    unfolding parse_ipv6_fields.simps by (simp add: hx hex_number_def del: One_nat_def)
  moreover have "Suc 7 = 8" by simp
  ultimately have "parse_ipv6_fields 8 [] (Some 0) ''1'' = Some ([0, 1], Some 0, [])" by metis
  then have "parse_ipv6 ''::1'' = Some (replicate 14 0 @ [0, 1])"
    by (simp add: parse_ipv6_def has_prefix_def)
  then have "parse_ip ''::1'' = Some (replicate 14 0 @ [0, 1])"
    by (simp add: parse_ip_def)
  moreover have "is_loopback (replicate 14 0 @ [0, 1])"
    by (simp add: is_loopback_def numeral_eq_Suc)
  ultimately have "host_is_loopback ''::1''" by (simp add: host_is_loopback_def)
  moreover have "show_int 80 = ''80''" "show_int 9080 = ''9080''"
    by (simp_all add: show_int_def show_nat.simps digit_char_def digit_alphabet_def)
  ultimately show ?thesis by (simp add: torrc_lines_def Let_def)
qed

end
