(* ===== verification/Client_Auth.thy ===== *)
theory Client_Auth
  imports Torrc
begin

text \<open>
  \<open>internal/tor/clientauth.go\<close>: the \<open>authorized_clients\<close> files of v3 client authorization. The
  directory is a map from file name to content; \<open>mkdir_ok\<close> and \<open>can_write\<close> say which file-system
  calls succeed. The theorems show that a bad entry is skipped without touching the others, and
  that no label can name a file outside the directory.
\<close>

definition auth_file_suffix :: string where "auth_file_suffix = ''.auth''"

datatype auth_error = InvalidLabel string | InvalidPubkey

datatype clients_error =
    OutDirRequired
  | MkdirFailed
  | WriteFailed string
  | EntriesRejected "(string \<times> auth_error) list"

text \<open>The two regular expressions.\<close>

definition client_label_pattern :: "string \<Rightarrow> bool" where
  "client_label_pattern s \<longleftrightarrow>
     s \<noteq> [] \<and> length s \<le> 64 \<and> is_lower_alnum (hd s) \<and> is_lower_alnum (last s) \<and>
     list_all (\<lambda>c. is_lower_alnum c \<or> c = CHR ''-'') s"

definition pubkey_pattern :: "string \<Rightarrow> bool" where
  "pubkey_pattern s \<longleftrightarrow> length s = 52 \<and> list_all (\<lambda>c. c \<in> set base32_alphabet) s"

definition validate_auth_entry :: "string \<Rightarrow> string \<Rightarrow> (auth_error, unit) result" where
  "validate_auth_entry label pubkey =
     guardE (\<not> client_label_pattern label) (InvalidLabel label)
      (guardE (\<not> pubkey_pattern (to_upper pubkey)) InvalidPubkey (Inr ()))"

definition auth_content :: "string \<Rightarrow> string" where
  "auth_content raw = ''descriptor:x25519:'' @ raw @ [nl]"

text \<open>The loop over the sorted labels; a failed write returns at once.\<close>

fun write_clients ::
    "(string \<Rightarrow> bool) \<Rightarrow> string gomap \<Rightarrow> string list \<Rightarrow> string gomap \<Rightarrow> (string \<times> auth_error) list
     \<Rightarrow> string gomap \<times> clients_error option" where
  "write_clients can_write clients [] dir rejected =
     (dir, if rejected \<noteq> [] then Some (EntriesRejected rejected) else None)"
| "write_clients can_write clients (label # labels) dir rejected =
     (let raw = trim_space (case map_of clients label of None \<Rightarrow> [] | Some v \<Rightarrow> v)
      in case validate_auth_entry label raw of
           Inl e \<Rightarrow> write_clients can_write clients labels dir (rejected @ [(label, e)])
         | Inr _ \<Rightarrow>
             let path = label @ auth_file_suffix
             in if \<not> can_write path then (dir, Some (WriteFailed path))
                else write_clients can_write clients labels
                       (AList.update path (auth_content raw) dir) rejected)"

definition write_authorized_clients ::
    "bool \<Rightarrow> (string \<Rightarrow> bool) \<Rightarrow> string \<Rightarrow> string gomap \<Rightarrow> string gomap
     \<Rightarrow> string gomap \<times> clients_error option" where
  "write_authorized_clients mkdir_ok can_write out_dir clients dir =
     (if out_dir = [] then (dir, Some OutDirRequired)
      else if \<not> mkdir_ok then (dir, Some MkdirFailed)
      else write_clients can_write clients (sort (map fst clients)) dir [])"

subsection \<open>Loading the projected Secret\<close>

datatype entry_kind = Regular | Symlink | OtherKind

text \<open>A directory entry; \<open>entry_body\<close> is \<open>None\<close> when reading it fails.\<close>

record dir_entry =
  entry_name :: string
  entry_kind :: entry_kind
  entry_body :: "string option"

fun load_clients :: "dir_entry list \<Rightarrow> string gomap \<Rightarrow> (string, string gomap) result" where
  "load_clients [] out = Inr out"
| "load_clients (e # es) out =
     (if has_prefix (entry_name e) ''..'' then load_clients es out
      else if entry_kind e = OtherKind then load_clients es out
      else case entry_body e of
        None \<Rightarrow> Inl (entry_name e)
      | Some body \<Rightarrow> load_clients es (AList.update (entry_name e) (trim_space body) out))"

definition load_authorized_clients :: "dir_entry list option \<Rightarrow> (string, string gomap) result" where
  "load_authorized_clients entries =
     (case entries of None \<Rightarrow> Inl [] | Some es \<Rightarrow> load_clients es [])"

subsection \<open>Properties of the write loop\<close>

definition client_raw :: "string gomap \<Rightarrow> string \<Rightarrow> string" where
  "client_raw clients label = trim_space (case map_of clients label of None \<Rightarrow> [] | Some v \<Rightarrow> v)"

definition entry_ok :: "string gomap \<Rightarrow> string \<Rightarrow> bool" where
  "entry_ok clients label \<longleftrightarrow> validate_auth_entry label (client_raw clients label) = Inr ()"

definition entry_error :: "string gomap \<Rightarrow> string \<Rightarrow> auth_error option" where
  "entry_error clients label =
     (case validate_auth_entry label (client_raw clients label) of Inl e \<Rightarrow> Some e | Inr _ \<Rightarrow> None)"

lemma write_clients_dir:
  assumes "\<And>p. can_write p"
  shows "map_of (fst (write_clients can_write clients labels dir rejected)) f =
    (if \<exists>l \<in> set labels. f = l @ auth_file_suffix \<and> entry_ok clients l
     then Some (auth_content (client_raw clients (take (length f - length auth_file_suffix) f)))
     else map_of dir f)"
  using assms
proof (induction can_write clients labels dir rejected rule: write_clients.induct)
  case (2 can_write clients label labels dir rejected)
  then show ?case
    by (cases "validate_auth_entry label (client_raw clients label)")
      (auto simp: Let_def client_raw_def [symmetric] entry_ok_def update_conv' split: if_splits)
qed simp

lemma write_clients_error:
  assumes "\<And>p. can_write p"
  shows "snd (write_clients can_write clients labels dir rejected) =
    (let bad = rejected @ List.map_filter (\<lambda>l. map_option (Pair l) (entry_error clients l)) labels
     in if bad = [] then None else Some (EntriesRejected bad))"
  using assms
proof (induction can_write clients labels dir rejected rule: write_clients.induct)
  case (2 can_write clients label labels dir rejected)
  then show ?case
    by (cases "validate_auth_entry label (client_raw clients label)")
      (auto simp: Let_def client_raw_def [symmetric] entry_error_def map_filter_simps)
qed (simp add: map_filter_simps)

lemma entry_error_None_iff: "entry_error clients l = None \<longleftrightarrow> entry_ok clients l"
  by (auto simp: entry_error_def entry_ok_def split: sum.splits)

lemma map_filter_pair_Nil:
  "List.map_filter (\<lambda>l. map_option (Pair l) (g l)) ls = [] \<longleftrightarrow> (\<forall>l \<in> set ls. g l = None)"
  by (induction ls) (auto simp: map_filter_simps split: option.splits)

lemma label_chars:
  assumes "client_label_pattern l" "c \<in> set l"
  shows "c \<noteq> CHR ''/'' \<and> c \<noteq> CHR ''.'' \<and> c \<noteq> nl"
proof -
  have "is_lower_alnum c \<or> c = CHR ''-''"
    using assms by (simp add: client_label_pattern_def list_all_iff)
  then show ?thesis
    by (auto simp: is_lower_alnum_def lower_alphabet_def digit_alphabet_def)
qed

text \<open>
  C14: One malformed client never locks the others out. With a writable directory, for any set of
  clients: every well-formed entry gets its file with exactly the line
  \<open>descriptor:x25519:<key>\<close>, every other file of the directory is left as it was (so a malformed
  entry writes nothing), and the call reports an error exactly when some entry is malformed,
  listing those entries in label order.
\<close>

theorem write_clients_partial:
  assumes "\<And>p. can_write p" "out_dir \<noteq> []"
  shows "map_of (fst (write_authorized_clients True can_write out_dir clients dir)) (l @ ''.auth'') =
      (if l \<in> fst ` set clients \<and> entry_ok clients l
       then Some (auth_content (client_raw clients l)) else map_of dir (l @ ''.auth''))
    \<and> snd (write_authorized_clients True can_write out_dir clients dir) =
      (if \<forall>k \<in> fst ` set clients. entry_ok clients k then None
       else Some (EntriesRejected (List.map_filter (\<lambda>k. map_option (Pair k) (entry_error clients k))
              (sort (map fst clients)))))"
proof -
  have s: "l @ ''.auth'' = l @ auth_file_suffix" by (simp add: auth_file_suffix_def)
  have "map_of (fst (write_authorized_clients True can_write out_dir clients dir)) (l @ ''.auth'') =
      (if l \<in> fst ` set clients \<and> entry_ok clients l
       then Some (auth_content (client_raw clients l)) else map_of dir (l @ ''.auth''))"
    unfolding s using assms
    by (auto simp: write_authorized_clients_def write_clients_dir)
  moreover have "List.map_filter (\<lambda>k. map_option (Pair k) (entry_error clients k))
      (sort (map fst clients)) = [] \<longleftrightarrow> (\<forall>k \<in> fst ` set clients. entry_ok clients k)"
    by (simp add: map_filter_pair_Nil entry_error_None_iff)
  ultimately show ?thesis
    using assms by (auto simp: write_authorized_clients_def write_clients_error Let_def)
qed

definition sample_key :: string where
  "sample_key = replicate 52 CHR ''A''"

lemma sample_entry_ok:
  "entry_ok [(''bob'', ''short''), (''alice'', sample_key)] ''alice''"
  "\<not> entry_ok [(''bob'', ''short''), (''alice'', sample_key)] ''bob''"
proof -
  have t: "trim_space sample_key = sample_key" "trim_space ''short'' = ''short''"
    by (simp_all add: trim_space_id sample_key_def is_space_def)
  have u: "to_upper sample_key = sample_key"
    by (simp add: sample_key_def to_upper_def to_upper_char_fixed lower_alphabet_def)
  have p: "pubkey_pattern sample_key"
    by (simp add: pubkey_pattern_def sample_key_def base32_alphabet_def list_all_iff)
  have q: "\<not> pubkey_pattern (to_upper ''short'')"
    by (simp add: pubkey_pattern_def to_upper_def)
  have l: "client_label_pattern ''alice''"
    by (simp add: client_label_pattern_def is_lower_alnum_def lower_alphabet_def)
  show "entry_ok [(''bob'', ''short''), (''alice'', sample_key)] ''alice''"
    by (simp add: entry_ok_def client_raw_def validate_auth_entry_def t u p l guardE_def)
  show "\<not> entry_ok [(''bob'', ''short''), (''alice'', sample_key)] ''bob''"
    by (simp add: entry_ok_def client_raw_def validate_auth_entry_def t q guardE_def)
qed

theorem write_clients_partial_witness:
  "map_of (fst (write_authorized_clients True (\<lambda>_. True) ''/hs''
       [(''bob'', ''short''), (''alice'', sample_key)] [])) (''alice'' @ ''.auth'')
     = Some (''descriptor:x25519:'' @ sample_key @ [nl])
   \<and> snd (write_authorized_clients True (\<lambda>_. True) ''/hs''
       [(''bob'', ''short''), (''alice'', sample_key)] []) \<noteq> None"
proof -
  let ?c = "[(''bob'', ''short''), (''alice'', sample_key)]"
  have "client_raw ?c ''alice'' = sample_key"
    by (simp add: client_raw_def trim_space_id sample_key_def is_space_def)
  then show ?thesis
    using write_clients_partial [where can_write = "\<lambda>_. True" and out_dir = "''/hs''" and clients = ?c
        and dir = "[]" and l = "''alice''"] sample_entry_ok
    by (simp add: auth_content_def)
qed

text \<open>
  A client label that validation accepts is a plain file name: it is not empty, has at most 64
  characters, and contains no path separator, no dot and no line break, so the file written for it
  lies inside \<open>authorized_clients\<close>, whatever keys the clients Secret holds.
\<close>

lemma accepted_label_safe:
  assumes "validate_auth_entry label pubkey = Inr ()"
  shows "label \<noteq> [] \<and> length label \<le> 64 \<and> CHR ''/'' \<notin> set label \<and> CHR ''.'' \<notin> set label
    \<and> nl \<notin> set label"
proof -
  have "client_label_pattern label"
    using assms by (simp add: validate_auth_entry_def guardE_Inr_iff)
  then show ?thesis
    using label_chars [of label] by (auto simp: client_label_pattern_def)
qed

text \<open>
  Validation upcases a key before matching it, but the file receives the key as it was given: a
  lowercase key is accepted and written in lowercase, outside the alphabet the file format names.
\<close>

lemma lowercase_key_written_verbatim:
  "validate_auth_entry ''alice'' (replicate 52 CHR ''a'') = Inr ()
   \<and> \<not> pubkey_pattern (replicate 52 CHR ''a'')"
proof -
  have "to_upper_char CHR ''a'' = CHR ''A''"
    by (simp add: to_upper_char_def translate_char_def upper_alphabet_def lower_alphabet_def)
  then have "to_upper (replicate 52 CHR ''a'') = sample_key"
    by (simp add: to_upper_def sample_key_def)
  then show ?thesis
    by (simp add: validate_auth_entry_def client_label_pattern_def pubkey_pattern_def
        sample_key_def base32_alphabet_def is_lower_alnum_def lower_alphabet_def list_all_iff)
qed

end
