(* ===== verification/Gateway_Api.thy ===== *)
theory Gateway_Api
  imports Prelude
begin

text \<open>
  The Kubernetes and Gateway API objects the program reads and writes, as records of the fields its
  code uses (the types themselves come from \<open>k8s.io/apimachinery\<close> and
  \<open>sigs.k8s.io/gateway-api\<close>). An optional pointer field is an \<open>option\<close>; the API constants are the
  strings of the API.
\<close>

subsection \<open>Metadata and conditions\<close>

text \<open>A namespace and a name.\<close>

type_synonym nsname = "string \<times> string"

type_synonym time = nat

record condition =
  cond_type :: string
  cond_status :: string
  cond_generation :: int
  cond_transition :: time
  cond_reason :: string
  cond_message :: string

abbreviation condition_true :: string where "condition_true \<equiv> ''True''"
abbreviation condition_false :: string where "condition_false \<equiv> ''False''"

abbreviation gateway_group :: string where "gateway_group \<equiv> ''gateway.networking.k8s.io''"

text \<open>The value of an optional field, or its default.\<close>

fun deref :: "'a \<Rightarrow> 'a option \<Rightarrow> 'a" where
  "deref d None = d"
| "deref d (Some x) = x"

subsection \<open>HTTPRoutes\<close>

record parent_ref =
  pr_group :: "string option"
  pr_kind :: "string option"
  pr_namespace :: "string option"
  pr_name :: string
  pr_section :: "string option"
  pr_port :: "int option"

record route_parent_status =
  ps_parent :: parent_ref
  ps_controller :: string
  ps_conditions :: "condition list"

record http_path_match =
  hp_type :: "string option"
  hp_value :: "string option"

text \<open>Of a match the program reads the path; the other fields are there because a client sets them.\<close>

record http_match =
  hm_path :: "http_path_match option"
  hm_headers :: "(string \<times> string) list"
  hm_method :: "string option"

record backend_ref =
  br_group :: "string option"
  br_kind :: "string option"
  br_namespace :: "string option"
  br_name :: string
  br_port :: "int option"

record http_rule =
  hr_matches :: "http_match list"
  hr_backends :: "backend_ref list"

record http_route =
  rt_ns :: string
  rt_name :: string
  rt_generation :: int
  rt_parent_refs :: "parent_ref list"
  rt_rules :: "http_rule list"
  rt_parents :: "route_parent_status list"

subsection \<open>Policies' target references\<close>

record target_ref =
  tr_group :: string
  tr_kind :: string
  tr_name :: string

end
