(* ===== verification/Selection.thy ===== *)
theory Selection
  imports Prelude
begin

text \<open>
  The loop by which the program picks one of several candidates: keep the candidate in hand unless
  the next one is strictly better. The router picks the most specific match this way, and the
  controllers pick the policy with the lexically first name. The locale states what the loop
  promises; its clients interpret it with their own loops and orders.
\<close>

definition keep_better :: "('a \<Rightarrow> 'a \<Rightarrow> bool) \<Rightarrow> 'a option \<Rightarrow> 'a \<Rightarrow> 'a option" where
  "keep_better better m x =
     (case m of None \<Rightarrow> Some x | Some y \<Rightarrow> if better x y then Some x else Some y)"

locale first_best =
  fixes pick :: "'a list \<Rightarrow> 'a option" and better :: "'a \<Rightarrow> 'a \<Rightarrow> bool"
  assumes pick_Nil: "pick [] = None"
    and pick_snoc: "pick (xs @ [x]) = keep_better better (pick xs) x"
    and better_irrefl: "\<not> better x x"
    and better_trans: "better x y \<Longrightarrow> better y z \<Longrightarrow> better x z"
    and better_split: "better x z \<Longrightarrow> better x y \<or> better y z"

context first_best
begin

definition first_maximal :: "'a list \<Rightarrow> 'a \<Rightarrow> bool" where
  "first_maximal zs x \<longleftrightarrow>
     (\<exists>xs ys. zs = xs @ x # ys \<and> (\<forall>y \<in> set xs. better x y) \<and> (\<forall>y \<in> set ys. \<not> better y x))"

lemma pick_None_iff: "pick xs = None \<longleftrightarrow> xs = []"
  by (cases xs rule: rev_cases)
    (auto simp: pick_Nil pick_snoc keep_better_def split: option.splits)

lemma first_maximal_in: "first_maximal xs x \<Longrightarrow> x \<in> set xs"
  by (auto simp: first_maximal_def)

lemma first_maximalE:
  assumes "first_maximal zs x"
  obtains xs ys where "zs = xs @ x # ys" "\<And>y. y \<in> set xs \<Longrightarrow> better x y"
    "\<And>y. y \<in> set ys \<Longrightarrow> \<not> better y x"
  using assms unfolding first_maximal_def by blast

lemma first_maximal_max:
  assumes "first_maximal zs x" "y \<in> set zs" shows "\<not> better y x"
proof -
  from assms(1) obtain xs ys where d: "zs = xs @ x # ys"
    "\<And>y. y \<in> set xs \<Longrightarrow> better x y" "\<And>y. y \<in> set ys \<Longrightarrow> \<not> better y x"
    using first_maximalE by blast
  from assms(2) d(1) consider "y \<in> set xs" | "y = x" | "y \<in> set ys" by auto
  then show ?thesis
    by cases (use d better_irrefl better_trans in blast)+
qed

lemma pick_first_maximal: "pick zs = Some x \<Longrightarrow> first_maximal zs x"
proof (induction zs arbitrary: x rule: rev_induct)
  case Nil
  then show ?case by (simp add: pick_Nil)
next
  case (snoc z zs)
  show ?case
  proof (cases "pick zs")
    case None
    with snoc.prems have "zs = []" "x = z"
      by (auto simp: pick_snoc keep_better_def pick_None_iff)
    then have "zs @ [z] = [] @ x # []" by simp
    then show ?thesis unfolding first_maximal_def by fastforce
  next
    case (Some y)
    from snoc.IH [OF this] obtain xs ys where d: "zs = xs @ y # ys"
      "\<forall>u \<in> set xs. better y u" "\<forall>u \<in> set ys. \<not> better u y"
      by (auto simp: first_maximal_def)
    show ?thesis
    proof (cases "better z y")
      case True
      with Some snoc.prems have "x = z" by (simp add: pick_snoc keep_better_def)
      moreover have "\<forall>u \<in> set zs. better z u"
        using d True better_trans better_split by (auto dest: better_split)
      ultimately show ?thesis unfolding first_maximal_def by fastforce
    next
      case False
      with Some snoc.prems have "x = y" by (simp add: pick_snoc keep_better_def)
      with d False have "zs @ [z] = xs @ x # (ys @ [z])" "\<forall>u \<in> set xs. better x u"
        "\<forall>u \<in> set (ys @ [z]). \<not> better u x"
        by auto
      then show ?thesis unfolding first_maximal_def by blast
    qed
  qed
qed

lemma first_maximal_unique:
  assumes x: "first_maximal zs x" and y: "first_maximal zs y" shows "x = y"
proof -
  from x obtain xs ys where d: "zs = xs @ x # ys" "\<And>u. u \<in> set xs \<Longrightarrow> better x u"
    by (rule first_maximalE) blast
  from y obtain us vs where e: "zs = us @ y # vs" "\<And>u. u \<in> set us \<Longrightarrow> better y u"
    by (rule first_maximalE) blast
  have ni: "y \<notin> set xs" "x \<notin> set us"
    using d(2) e(2) first_maximal_max [OF x first_maximal_in [OF y]]
      first_maximal_max [OF y first_maximal_in [OF x]] by blast+
  from d(1) e(1) have "us @ y # vs = xs @ x # ys" by simp
  then obtain w where "us @ w = xs \<and> y # vs = w @ x # ys \<or> us = xs @ w \<and> w @ y # vs = x # ys"
    by (auto simp: append_eq_append_conv2)
  with ni show ?thesis by (cases w) auto
qed

theorem pick_iff: "pick zs = Some x \<longleftrightarrow> first_maximal zs x"
proof
  assume x: "first_maximal zs x"
  from x have "zs \<noteq> []" by (simp add: first_maximal_def) blast
  then obtain y where "pick zs = Some y"
    by (cases "pick zs") (simp_all add: pick_None_iff)
  with x show "pick zs = Some x"
    using first_maximal_unique pick_first_maximal by blast
qed (rule pick_first_maximal)

text \<open>Without ties the choice depends only on which candidates there are, not on their order.\<close>

lemma pick_unique:
  assumes "x \<in> set zs" "\<And>y. y \<in> set zs \<Longrightarrow> \<not> better y x"
    and "\<And>y. y \<in> set zs \<Longrightarrow> y \<noteq> x \<Longrightarrow> better x y"
  shows "pick zs = Some x"
proof -
  obtain y where y: "pick zs = Some y"
    using assms(1) pick_None_iff by (cases "pick zs") auto
  then have "first_maximal zs y" by (rule pick_first_maximal)
  with assms first_maximal_max first_maximal_in have "y = x" by blast
  with y show ?thesis by simp
qed

end

text \<open>Every fold of \<open>keep_better\<close> over a strict weak order keeps the promise.\<close>

lemma first_best_fold:
  assumes "\<And>x. \<not> better x x" "\<And>x y z. better x y \<Longrightarrow> better y z \<Longrightarrow> better x z"
    and "\<And>x y z. better x z \<Longrightarrow> better x y \<or> better y z"
  shows "first_best (foldl (keep_better better) None) better"
proof
  show "better x z \<Longrightarrow> better x y \<or> better y z" for x y z by (rule assms(3))
  show "better x y \<Longrightarrow> better y z \<Longrightarrow> better x z" for x y z by (rule assms(2))
qed (simp_all add: assms(1))

end
