(* ===== verification/Router.thy ===== *)
theory Router
  imports Gateway_Api Torrc Selection "HOL-Library.Sublist"
begin

text \<open>
  \<open>internal/router\<close>: the in-pod HTTP router. \<open>httproute.go\<close> and \<open>aggregate.go\<close> compile HTTPRoutes
  into rules, \<open>match.go\<close> picks the backend of a request, \<open>resolver.go\<close> names its URL, and
  \<open>proxy.go\<close>, \<open>sync.go\<close> and \<open>router.go\<close> keep the table up to date while requests are served: a
  state machine whose state is the active table. The theorems relate the score-based match to the
  precedence rules of the Gateway API, and show that a request only ever reaches a backend that a
  route of this Gateway lists and, across namespaces, that the controller has authorized.
\<close>

subsection \<open>Matching\<close>

type_synonym path_match_type = string

definition path_exact :: path_match_type where "path_exact = ''Exact''"
definition path_prefix :: path_match_type where "path_prefix = ''PathPrefix''"

record path_match =
  pm_type :: path_match_type
  pm_value :: string

record route_match =
  m_path :: path_match

record backend =
  b_ns :: string
  b_name :: string
  b_port :: int

record rule =
  r_matches :: "route_match list"
  r_backends :: "backend list"

type_synonym route_table = "rule list"

definition path_matches :: "path_match \<Rightarrow> string \<Rightarrow> bool" where
  "path_matches p req =
     (if pm_type p = path_exact then req = pm_value p
      else if pm_type p = path_prefix then
        (if req = pm_value p then True
         else let pre = (if pm_value p \<noteq> ''/'' then pm_value p @ ''/'' else pm_value p)
              in length pre \<le> length req \<and> take (length pre) req = pre)
      else False)"

definition path_score :: "path_match \<Rightarrow> int" where
  "path_score p =
     (if pm_type p = path_exact then 2 ^ 16 + int (length (pm_value p))
      else int (length (pm_value p)))"

text \<open>The loop state of \<open>Match\<close>: the best backend so far and its score. \<open>found\<close> is
  whether the backend is there.\<close>

type_synonym best = "backend option \<times> int"

fun match_rule :: "string \<Rightarrow> backend \<Rightarrow> route_match list \<Rightarrow> best \<Rightarrow> best" where
  "match_rule req b [] st = st"
| "match_rule req b (m # ms) st =
     (if \<not> path_matches (m_path m) req then match_rule req b ms st
      else if path_score (m_path m) > snd st
        then match_rule req b ms (Some b, path_score (m_path m))
        else match_rule req b ms st)"

fun match_rules :: "string \<Rightarrow> rule list \<Rightarrow> best \<Rightarrow> best" where
  "match_rules req [] st = st"
| "match_rules req (r # rs) st =
     (case r_backends r of
        [] \<Rightarrow> match_rules req rs st
      | b # _ \<Rightarrow> match_rules req rs (match_rule req b (r_matches r) st))"

definition match_request :: "route_table \<Rightarrow> string \<Rightarrow> backend option" where
  "match_request t req = fst (match_rules req t (None, -1))"

subsection \<open>Compiling HTTPRoutes\<close>

definition convert_path :: "http_path_match option \<Rightarrow> path_match" where
  "convert_path p =
     (case p of
        None \<Rightarrow> \<lparr>pm_type = path_prefix, pm_value = ''/''\<rparr>
      | Some h \<Rightarrow>
          \<lparr>pm_type = (if hp_type h = Some ''Exact'' then path_exact else path_prefix),
           pm_value = deref ''/'' (hp_value h)\<rparr>)"

definition convert_matches :: "http_match list \<Rightarrow> route_match list" where
  "convert_matches ms =
     (if ms = [] then [\<lparr>m_path = \<lparr>pm_type = path_prefix, pm_value = ''/''\<rparr>\<rparr>]
      else map (\<lambda>m. \<lparr>m_path = convert_path (hm_path m)\<rparr>) ms)"

definition convert_backend :: "string \<Rightarrow> backend_ref \<Rightarrow> backend" where
  "convert_backend ns r =
     \<lparr>b_ns = deref ns (br_namespace r), b_name = br_name r, b_port = deref 0 (br_port r)\<rparr>"

definition convert_backends :: "backend_ref list \<Rightarrow> string \<Rightarrow> backend list" where
  "convert_backends refs ns = map (convert_backend ns) refs"

definition rules_from_http_route :: "http_route \<Rightarrow> rule list" where
  "rules_from_http_route rt =
     map (\<lambda>hr. \<lparr>r_matches = convert_matches (hr_matches hr),
                r_backends = convert_backends (hr_backends hr) (rt_ns rt)\<rparr>) (rt_rules rt)"

subsection \<open>Aggregation\<close>

definition parent_ref_names :: "string \<Rightarrow> parent_ref \<Rightarrow> nsname \<Rightarrow> bool" where
  "parent_ref_names ns p gw \<longleftrightarrow> pr_name p = snd gw \<and> deref ns (pr_namespace p) = fst gw"

definition route_targets_gateway :: "http_route \<Rightarrow> nsname \<Rightarrow> bool" where
  "route_targets_gateway rt gw =
     list_ex (\<lambda>r. (pr_kind r = None \<or> pr_kind r = Some ''Gateway'')
                \<and> (pr_group r = None \<or> pr_group r = Some gateway_group)
                \<and> parent_ref_names (rt_ns rt) r gw) (rt_parent_refs rt)"

text \<open>The loop returns at the first \<open>ResolvedRefs\<close> condition of the first status entry that has
  one and names the Gateway.\<close>

fun resolved_refs_status :: "condition list \<Rightarrow> bool option" where
  "resolved_refs_status [] = None"
| "resolved_refs_status (c # cs) =
     (if cond_type c = ''ResolvedRefs'' then Some (cond_status c = condition_true)
      else resolved_refs_status cs)"

fun refs_resolved_in :: "string \<Rightarrow> nsname \<Rightarrow> route_parent_status list \<Rightarrow> bool" where
  "refs_resolved_in ns gw [] = False"
| "refs_resolved_in ns gw (p # ps) =
     (if \<not> parent_ref_names ns (ps_parent p) gw then refs_resolved_in ns gw ps
      else case resolved_refs_status (ps_conditions p) of
             Some b \<Rightarrow> b
           | None \<Rightarrow> refs_resolved_in ns gw ps)"

definition refs_resolved_for :: "http_route \<Rightarrow> nsname \<Rightarrow> bool" where
  "refs_resolved_for rt gw = refs_resolved_in (rt_ns rt) gw (rt_parents rt)"

definition drop_cross_ns_backends :: "rule list \<Rightarrow> string \<Rightarrow> rule list" where
  "drop_cross_ns_backends rs ns =
     map (\<lambda>r. r\<lparr>r_backends := filter (\<lambda>b. b_ns b = ns) (r_backends r)\<rparr>) rs"

fun rules_for_gateway :: "http_route list \<Rightarrow> nsname \<Rightarrow> rule list" where
  "rules_for_gateway [] gw = []"
| "rules_for_gateway (rt # rts) gw =
     (if \<not> route_targets_gateway rt gw then rules_for_gateway rts gw
      else let rls = rules_from_http_route rt;
               rls' = (if refs_resolved_for rt gw then rls
                       else drop_cross_ns_backends rls (rt_ns rt))
           in rls' @ rules_for_gateway rts gw)"

subsection \<open>Resolving a backend\<close>

record url =
  url_scheme :: string
  url_host :: string

text \<open>A resolver returns a URL pointer and \<open>ok\<close>.\<close>

type_synonym backend_resolver = "backend \<Rightarrow> url option \<times> bool"

definition cluster_resolver :: backend_resolver where
  "cluster_resolver b =
     (if b_name b = [] \<or> b_ns b = [] \<or> b_port b = 0 then (None, False)
      else (Some \<lparr>url_scheme = ''http'',
                   url_host = b_name b @ ''.'' @ b_ns b @ ''.svc:'' @ show_int (b_port b)\<rparr>, True))"

subsection \<open>The proxy\<close>

record proxy =
  px_resolve :: backend_resolver
  px_table :: "route_table option"

datatype response = HttpError string nat | ProxyTo url

definition new_proxy :: "backend_resolver \<Rightarrow> proxy" where
  "new_proxy resolve = \<lparr>px_resolve = resolve, px_table = None\<rparr>"

definition set_table :: "proxy \<Rightarrow> route_table \<Rightarrow> proxy" where
  "set_table p t = p\<lparr>px_table := Some t\<rparr>"

definition serve_http :: "proxy \<Rightarrow> string \<Rightarrow> response" where
  "serve_http p req =
     (case px_table p of
        None \<Rightarrow> HttpError ''no routes configured'' 404
      | Some t \<Rightarrow>
          (case match_request t req of
             None \<Rightarrow> HttpError ''no matching route'' 404
           | Some b \<Rightarrow>
               (case px_resolve p b of
                  (Some u, True) \<Rightarrow> ProxyTo u
                | _ \<Rightarrow> HttpError ''backend unavailable'' 502)))"

text \<open>\<open>sync\<close> lists the HTTPRoutes (\<open>None\<close> when the list call fails) and swaps the table; on a
  failed list the old table stays.\<close>

definition route_sync :: "nsname \<Rightarrow> http_route list option \<Rightarrow> proxy \<Rightarrow> proxy \<times> bool" where
  "route_sync gw listing p =
     (case listing of
        None \<Rightarrow> (p, False)
      | Some items \<Rightarrow> (set_table p (rules_for_gateway items gw), True))"

subsection \<open>Start-up and the informer's events\<close>

record router_config =
  rc_gateway_name :: string
  rc_gateway_namespace :: string
  rc_rest_config :: bool
  rc_resolve :: "backend_resolver option"

text \<open>What the calls into client-go return during \<open>New\<close>, and the listings that informer events
  trigger before the initial sync.\<close>

record router_calls =
  rk_load_config :: bool
  rk_install_scheme :: bool
  rk_new_cache :: bool
  rk_get_informer :: bool
  rk_add_handler :: bool
  rk_early :: "http_route list option list"
  rk_cache_synced :: bool
  rk_initial :: "http_route list option"

datatype router_error =
    GatewayRequired | LoadClusterConfig | InstallScheme | BuildCache | GetInformer
  | RegisterHandler | CacheSync | InitialSync

definition rebuild :: "nsname \<Rightarrow> proxy \<Rightarrow> http_route list option \<Rightarrow> proxy" where
  "rebuild gw p listing = fst (route_sync gw listing p)"

definition router_new :: "router_config \<Rightarrow> router_calls \<Rightarrow> (router_error, proxy) result" where
  "router_new cfg k =
     (let gw = (rc_gateway_namespace cfg, rc_gateway_name cfg);
          resolve = deref cluster_resolver (rc_resolve cfg) in
      guardE (rc_gateway_name cfg = [] \<or> rc_gateway_namespace cfg = []) GatewayRequired
     (guardE (\<not> rc_rest_config cfg \<and> \<not> rk_load_config k) LoadClusterConfig
     (guardE (\<not> rk_install_scheme k) InstallScheme
     (guardE (\<not> rk_new_cache k) BuildCache
     (guardE (\<not> rk_get_informer k) GetInformer
     (guardE (\<not> rk_add_handler k) RegisterHandler
     (guardE (\<not> rk_cache_synced k) CacheSync
       (case route_sync gw (rk_initial k) (foldl (rebuild gw) (new_proxy resolve) (rk_early k)) of
          (p, ok) \<Rightarrow> guardE (\<not> ok) InitialSync (Inr p)))))))))"

text \<open>A running router: informer events rebuild the table, requests read it.\<close>

datatype router_event = RoutesChanged "http_route list option" | Request string response

inductive router_run :: "nsname \<Rightarrow> proxy \<Rightarrow> router_event list \<Rightarrow> proxy \<Rightarrow> bool" for gw where
  run_Nil: "router_run gw p [] p"
| run_Change: "router_run gw p es p' \<Longrightarrow>
     router_run gw p (es @ [RoutesChanged listing]) (rebuild gw p' listing)"
| run_Request: "router_run gw p es p' \<Longrightarrow>
     router_run gw p (es @ [Request req (serve_http p' req)]) p'"

inductive_cases router_run_RequestE: "router_run gw p (es @ [Request req r]) p'"

subsection \<open>Precedence\<close>

text \<open>The Gateway API's order on matches: exact before prefix, then the longer value.\<close>

definition more_specific :: "path_match \<Rightarrow> path_match \<Rightarrow> bool" where
  "more_specific p q \<longleftrightarrow>
     (pm_type p = path_exact \<and> pm_type q \<noteq> path_exact) \<or>
     (pm_type p = pm_type q \<and> length (pm_value q) < length (pm_value p))"

text \<open>The matches of a table that apply to a path, each with the backend its rule routes to.\<close>

definition rule_candidates :: "string \<Rightarrow> rule \<Rightarrow> (path_match \<times> backend) list" where
  "rule_candidates req r =
     (case r_backends r of
        [] \<Rightarrow> []
      | b # _ \<Rightarrow> map (\<lambda>m. (m_path m, b)) (filter (\<lambda>m. path_matches (m_path m) req) (r_matches r)))"

definition applicable :: "route_table \<Rightarrow> string \<Rightarrow> (path_match \<times> backend) list" where
  "applicable t req = concat (map (rule_candidates req) t)"

definition scores_higher :: "path_match \<times> backend \<Rightarrow> path_match \<times> backend \<Rightarrow> bool" where
  "scores_higher x y \<longleftrightarrow> path_score (fst y) < path_score (fst x)"

definition best_candidate :: "(path_match \<times> backend) list \<Rightarrow> (path_match \<times> backend) option" where
  "best_candidate = foldl (keep_better scores_higher) None"

interpretation rm: first_best best_candidate scores_higher
  unfolding best_candidate_def by (rule first_best_fold) (auto simp: scores_higher_def)

text \<open>The loop state that stands for a candidate.\<close>

definition best_of :: "(path_match \<times> backend) option \<Rightarrow> best" where
  "best_of c = (case c of None \<Rightarrow> (None, -1) | Some (p, b) \<Rightarrow> (Some b, path_score p))"

lemma path_score_nonneg: "0 \<le> path_score p"
  by (simp add: path_score_def)

lemma best_of_step:
  "best_of (keep_better scores_higher c (p, b)) =
     (if path_score p > snd (best_of c) then (Some b, path_score p) else best_of c)"
  using path_score_nonneg [of p]
  by (auto simp: best_of_def keep_better_def scores_higher_def split: option.splits)

lemma match_rule_Cons:
  "match_rule req b (m # ms) (best_of c) =
     (if path_matches (m_path m) req
      then match_rule req b ms (best_of (keep_better scores_higher c (m_path m, b)))
      else match_rule req b ms (best_of c))"
  by (simp add: best_of_step)

lemma match_rule_best:
  "match_rule req b ms (best_of c) =
     best_of (foldl (keep_better scores_higher) c
       (map (\<lambda>m. (m_path m, b)) (filter (\<lambda>m. path_matches (m_path m) req) ms)))"
proof (induction ms arbitrary: c)
  case (Cons m ms)
  show ?case unfolding match_rule_Cons by (simp add: Cons.IH)
qed simp

lemma match_rules_best:
  "match_rules req t (best_of c) =
     best_of (foldl (keep_better scores_higher) c (applicable t req))"
  by (induction t arbitrary: c)
    (simp_all add: applicable_def rule_candidates_def match_rule_best split: list.splits)

lemma match_request_best:
  "match_request t req = map_option snd (best_candidate (applicable t req))"
  using match_rules_best [of req t None]
  by (simp add: match_request_def best_candidate_def best_of_def split: option.splits)

lemma path_matches_cases:
  assumes "path_matches p req"
  obtains "pm_type p = path_exact" "pm_value p = req"
  | "pm_type p = path_prefix" "length (pm_value p) \<le> length req"
  using assms by (auto simp: path_matches_def Let_def split: if_splits)

lemma path_type_neq: "path_exact \<noteq> path_prefix"
  by (simp add: path_exact_def path_prefix_def)

lemma more_specific_score:
  assumes "path_matches p req" "path_matches q req"
  shows "more_specific p q \<longleftrightarrow> path_score q < path_score p"
  using assms(1)
proof (cases rule: path_matches_cases)
  case 1
  from assms(2) show ?thesis
    by (cases rule: path_matches_cases)
      (use 1 path_type_neq in \<open>auto simp: more_specific_def path_score_def\<close>)
next
  case 2
  from assms(2) show ?thesis
    by (cases rule: path_matches_cases)
      (use 2 path_type_neq in \<open>auto simp: more_specific_def path_score_def\<close>)
qed

lemma applicable_matches: "c \<in> set (applicable t req) \<Longrightarrow> path_matches (fst c) req"
  by (auto simp: applicable_def rule_candidates_def split: list.splits)

lemma rule_candidates_iff:
  "(p, b) \<in> set (rule_candidates req r) \<longleftrightarrow>
     (\<exists>bs. r_backends r = b # bs) \<and> (\<exists>m \<in> set (r_matches r). p = m_path m) \<and> path_matches p req"
  by (cases "r_backends r") (auto simp: rule_candidates_def)

lemma applicable_iff:
  "(p, b) \<in> set (applicable t req) \<longleftrightarrow>
     (\<exists>r \<in> set t. (\<exists>bs. r_backends r = b # bs) \<and> (\<exists>m \<in> set (r_matches r). p = m_path m) \<and>
        path_matches p req)"
  by (simp add: applicable_def rule_candidates_iff)

text \<open>
  C15: \<open>Match\<close> follows the precedence of the Gateway API. It returns the backend of the candidate
  that is more specific than every applicable candidate before it and than which none after it is
  more specific, and it returns none only when no rule with a backend applies. In particular an
  exact match beats every prefix whatever the lengths, the longest prefix wins, and a tie goes to
  the rule that comes first.
\<close>

theorem match_precedence:
  "match_request t req = Some b \<longleftrightarrow>
     (\<exists>xs p ys. applicable t req = xs @ (p, b) # ys
        \<and> list_all (\<lambda>c. more_specific p (fst c)) xs
        \<and> list_all (\<lambda>c. \<not> more_specific (fst c) p) ys)" (is "_ \<longleftrightarrow> ?R")
proof -
  have "match_request t req = Some b \<longleftrightarrow> (\<exists>p. rm.first_maximal (applicable t req) (p, b))"
    by (auto simp: match_request_best rm.pick_iff)
  also have "\<dots> \<longleftrightarrow> ?R"
  proof -
    have "list_all (\<lambda>c. more_specific p (fst c)) xs \<longleftrightarrow> (\<forall>y \<in> set xs. scores_higher (p, b) y)"
      "list_all (\<lambda>c. \<not> more_specific (fst c) p) ys \<longleftrightarrow> (\<forall>y \<in> set ys. \<not> scores_higher y (p, b))"
      if "applicable t req = xs @ (p, b) # ys" for xs p ys
    proof -
      have m: "path_matches p req" "\<And>c. c \<in> set xs \<union> set ys \<Longrightarrow> path_matches (fst c) req"
        using that applicable_matches [of _ t req] by force+
      then show "list_all (\<lambda>c. more_specific p (fst c)) xs
          \<longleftrightarrow> (\<forall>y \<in> set xs. scores_higher (p, b) y)"
        "list_all (\<lambda>c. \<not> more_specific (fst c) p) ys
          \<longleftrightarrow> (\<forall>y \<in> set ys. \<not> scores_higher y (p, b))"
        by (simp_all add: list_all_iff scores_higher_def more_specific_score [of _ req])
    qed
    then show ?thesis unfolding rm.first_maximal_def by blast
  qed
  finally show ?thesis .
qed

subsection \<open>Whole path segments\<close>

lemma split_on_append:
  "split_on sep (xs @ sep # ys) = split_on sep xs @ split_on sep ys"
proof (induction xs)
  case (Cons x xs)
  have "split_on sep xs \<noteq> []" by (cases xs) (auto split: list.splits)
  then obtain f fs where "split_on sep xs = f # fs" by (cases "split_on sep xs") auto
  with Cons show ?case by auto
qed simp

lemma split_on_nonempty [simp]: "split_on sep xs \<noteq> []"
  by (cases xs) (auto split: list.splits)

text \<open>Joining the fields again gives the text back.\<close>

fun join_fields :: "char \<Rightarrow> string list \<Rightarrow> string" where
  "join_fields sep [] = []"
| "join_fields sep [f] = f"
| "join_fields sep (f # g # gs) = f @ sep # join_fields sep (g # gs)"

lemma join_fields_Cons: "fs \<noteq> [] \<Longrightarrow> join_fields sep (f # fs) = f @ sep # join_fields sep fs"
  by (cases fs) simp_all

lemma join_fields_append:
  "fs \<noteq> [] \<Longrightarrow> gs \<noteq> [] \<Longrightarrow> join_fields sep (fs @ gs) = join_fields sep fs @ sep # join_fields sep gs"
  by (induction fs rule: join_fields.induct) (simp_all add: join_fields_Cons)

lemma join_split_on [simp]: "join_fields sep (split_on sep xs) = xs"
proof (induction xs)
  case (Cons x xs)
  obtain f fs where f: "split_on sep xs = f # fs" by (cases "split_on sep xs") auto
  with Cons show ?case by (cases fs) auto
qed simp

lemma prefix_segments_iff:
  "prefix (split_on sep v) (split_on sep p) \<longleftrightarrow> p = v \<or> has_prefix p (v @ [sep])"
proof
  assume "prefix (split_on sep v) (split_on sep p)"
  then obtain gs where g: "split_on sep p = split_on sep v @ gs" by (auto elim: prefixE)
  have p: "p = join_fields sep (split_on sep v @ gs)"
    by (metis g join_split_on)
  show "p = v \<or> has_prefix p (v @ [sep])"
  proof (cases "gs = []")
    case True
    with p show ?thesis by simp
  next
    case False
    with p have "p = v @ sep # join_fields sep gs" by (simp add: join_fields_append)
    then show ?thesis by (simp add: has_prefix_iff)
  qed
next
  assume "p = v \<or> has_prefix p (v @ [sep])"
  then show "prefix (split_on sep v) (split_on sep p)"
    by (auto simp: has_prefix_iff split_on_append)
qed

text \<open>
  C16: A path prefix other than \<open>/\<close> matches by whole segments: the segments of the prefix are the
  first segments of the request path. A match of type \<open>Exact\<close> matches its own path only, and
  the prefix \<open>/\<close> matches every path that starts with a slash.
\<close>

theorem path_matches_segments:
  "path_matches \<lparr>pm_type = path_prefix, pm_value = v\<rparr> req =
     (if v = ''/'' then has_prefix req ''/''
      else prefix (split_on CHR ''/'' v) (split_on CHR ''/'' req))
   \<and> path_matches \<lparr>pm_type = path_exact, pm_value = w\<rparr> req = (req = w)"
proof -
  have "has_prefix req pre \<longleftrightarrow> length pre \<le> length req \<and> take (length pre) req = pre" for pre
    by (metis has_prefix_def length_take min.cobounded1)
  moreover have "req = ''/'' \<Longrightarrow> has_prefix req ''/''" by (simp add: has_prefix_def)
  ultimately show ?thesis
    using path_type_neq
    unfolding prefix_segments_iff path_matches_def by (auto simp: Let_def)
qed

text \<open>A trailing slash is a segment of its own here: the prefix \<open>/api/\<close> does not match
  \<open>/api/x\<close>, nor \<open>/api\<close>.\<close>

lemma trailing_slash_prefix:
  "\<not> path_matches \<lparr>pm_type = path_prefix, pm_value = ''/api/''\<rparr> ''/api/x''"
  "\<not> path_matches \<lparr>pm_type = path_prefix, pm_value = ''/api/''\<rparr> ''/api''"
  by (simp_all add: path_matches_def path_prefix_def path_exact_def)

subsection \<open>What a request can reach\<close>

text \<open>
  A parent reference of a route names a Gateway by name and namespace, the route's own namespace when
  it gives none. The route reports its references resolved for the Gateway when the first condition
  of type \<open>ResolvedRefs\<close>, in the status entries of that Gateway, has status \<open>True\<close>; a missing condition,
  \<open>False\<close> and \<open>Unknown\<close> do not.

  A route admits a backend for a path when a parent reference of it names the Gateway, one of its
  rules matches the path, and the backend is the first usable one of that rule: any backend when
  the route reports its references resolved for this Gateway, and otherwise one of the route's own
  namespace.
\<close>

definition names_gateway :: "nsname \<Rightarrow> http_route \<Rightarrow> parent_ref \<Rightarrow> bool" where
  "names_gateway gw rt r \<longleftrightarrow>
     pr_name r = snd gw \<and> (case pr_namespace r of None \<Rightarrow> rt_ns rt | Some n \<Rightarrow> n) = fst gw"

definition attached_to :: "nsname \<Rightarrow> http_route \<Rightarrow> bool" where
  "attached_to gw rt \<longleftrightarrow>
     (\<exists>r \<in> set (rt_parent_refs rt). names_gateway gw rt r \<and> pr_kind r \<in> {None, Some ''Gateway''} \<and>
        pr_group r \<in> {None, Some ''gateway.networking.k8s.io''})"

definition reports_resolved :: "nsname \<Rightarrow> http_route \<Rightarrow> bool" where
  "reports_resolved gw rt =
     (case filter (\<lambda>c. cond_type c = ''ResolvedRefs'')
         (concat (map ps_conditions (filter (\<lambda>p. names_gateway gw rt (ps_parent p)) (rt_parents rt)))) of
        [] \<Rightarrow> False
      | c # _ \<Rightarrow> cond_status c = ''True'')"

definition usable_backends :: "nsname \<Rightarrow> http_route \<Rightarrow> http_rule \<Rightarrow> backend list" where
  "usable_backends gw rt hr =
     filter (\<lambda>b. reports_resolved gw rt \<or> b_ns b = rt_ns rt)
       (convert_backends (hr_backends hr) (rt_ns rt))"

definition admits :: "nsname \<Rightarrow> http_route \<Rightarrow> string \<Rightarrow> backend \<Rightarrow> bool" where
  "admits gw rt req b \<longleftrightarrow>
     attached_to gw rt \<and>
     (\<exists>hr \<in> set (rt_rules rt).
        (\<exists>m \<in> set (convert_matches (hr_matches hr)). path_matches (m_path m) req) \<and>
        usable_backends gw rt hr \<noteq> [] \<and> hd (usable_backends gw rt hr) = b)"

definition route_rules :: "nsname \<Rightarrow> http_route \<Rightarrow> rule list" where
  "route_rules gw rt =
     map (\<lambda>hr. \<lparr>r_matches = convert_matches (hr_matches hr),
                r_backends = usable_backends gw rt hr\<rparr>) (rt_rules rt)"

lemma names_gateway_ref: "parent_ref_names (rt_ns rt) r gw = names_gateway gw rt r"
  by (simp add: parent_ref_names_def names_gateway_def split: option.splits)

lemma targets_attached: "route_targets_gateway rt gw = attached_to gw rt"
  by (auto simp: route_targets_gateway_def attached_to_def list_ex_iff names_gateway_ref)

lemma resolved_refs_first:
  "resolved_refs_status cs = (case filter (\<lambda>c. cond_type c = ''ResolvedRefs'') cs of
     [] \<Rightarrow> None | c # _ \<Rightarrow> Some (cond_status c = ''True''))"
  by (induction cs) (simp_all)

lemma refs_resolved_in_first:
  "refs_resolved_in (rt_ns rt) gw ps =
     (case filter (\<lambda>c. cond_type c = ''ResolvedRefs'')
         (concat (map ps_conditions (filter (\<lambda>p. names_gateway gw rt (ps_parent p)) ps))) of
        [] \<Rightarrow> False
      | c # _ \<Rightarrow> cond_status c = ''True'')"
  by (induction ps) (auto simp: names_gateway_ref resolved_refs_first split: list.splits option.splits)

lemma refs_resolved_reported: "refs_resolved_for rt gw = reports_resolved gw rt"
  by (simp add: refs_resolved_for_def reports_resolved_def refs_resolved_in_first)

lemma route_rules_compiled:
  "(if refs_resolved_for rt gw then rules_from_http_route rt
    else drop_cross_ns_backends (rules_from_http_route rt) (rt_ns rt)) = route_rules gw rt"
  by (simp add: route_rules_def rules_from_http_route_def drop_cross_ns_backends_def
      usable_backends_def refs_resolved_reported)

lemma rules_for_gateway_eq:
  "rules_for_gateway rts gw =
     concat (map (route_rules gw) (filter (\<lambda>rt. route_targets_gateway rt gw) rts))"
proof (induction rts)
  case (Cons rt rts)
  then show ?case using route_rules_compiled [of rt gw] by (simp add: Let_def)
qed simp

lemma admits_iff:
  "(\<exists>p. (p, b) \<in> set (applicable (rules_for_gateway rts gw) req)) \<longleftrightarrow>
     (\<exists>rt \<in> set rts. admits gw rt req b)"
proof -
  have u: "(\<exists>bs. us = b # bs) \<longleftrightarrow> us \<noteq> [] \<and> hd us = b" for us :: "backend list"
    by (cases us) auto
  have "(\<exists>p. (p, b) \<in> set (applicable (rules_for_gateway rts gw) req)) \<longleftrightarrow>
     (\<exists>rt \<in> set rts. attached_to gw rt \<and> (\<exists>r \<in> set (route_rules gw rt).
        (r_backends r \<noteq> [] \<and> hd (r_backends r) = b) \<and>
        (\<exists>m \<in> set (r_matches r). path_matches (m_path m) req)))"
    unfolding applicable_iff rules_for_gateway_eq u targets_attached by auto
  also have "\<dots> \<longleftrightarrow> (\<exists>rt \<in> set rts. admits gw rt req b)"
    by (auto simp: admits_def route_rules_def)
  finally show ?thesis .
qed

lemma match_request_admitted:
  "match_request (rules_for_gateway rts gw) req = Some b \<Longrightarrow> \<exists>rt \<in> set rts. admits gw rt req b"
  unfolding admits_iff [symmetric] match_request_best using rm.first_maximal_in
  by (fastforce simp: rm.pick_iff)

lemma match_request_None_iff:
  "match_request (rules_for_gateway rts gw) req = None \<longleftrightarrow>
     \<not> (\<exists>rt \<in> set rts. \<exists>b. admits gw rt req b)"
proof -
  have "match_request (rules_for_gateway rts gw) req = None \<longleftrightarrow>
      applicable (rules_for_gateway rts gw) req = []"
    by (simp add: match_request_best rm.pick_None_iff)
  also have "\<dots> \<longleftrightarrow> \<not> (\<exists>b p. (p, b) \<in> set (applicable (rules_for_gateway rts gw) req))"
    by (auto simp: neq_Nil_conv) (metis list.exhaust list.set_intros(1) prod.exhaust)
  finally show ?thesis using admits_iff by blast
qed

text \<open>The routes of the last successful listing of a run.\<close>

fun last_listing :: "http_route list \<Rightarrow> router_event list \<Rightarrow> http_route list" where
  "last_listing rts [] = rts"
| "last_listing rts (RoutesChanged (Some rts') # es) = last_listing rts' es"
| "last_listing rts (_ # es) = last_listing rts es"

lemma last_listing_snoc:
  "last_listing rts (es @ [RoutesChanged l]) = deref (last_listing rts es) l"
  "last_listing rts (es @ [Request req r]) = last_listing rts es"
  by (induction rts es rule: last_listing.induct) (cases l; simp)+

definition serving :: "nsname \<Rightarrow> backend_resolver \<Rightarrow> http_route list \<Rightarrow> proxy \<Rightarrow> bool" where
  "serving gw res rts p \<longleftrightarrow> px_resolve p = res \<and> px_table p = Some (rules_for_gateway rts gw)"

lemma router_run_serving:
  assumes "router_run gw p es p'" "serving gw res rts p"
  shows "serving gw res (last_listing rts es) p'"
  using assms
proof (induction rule: router_run.induct)
  case (run_Change p es p' listing)
  then show ?case
    by (cases listing)
      (simp_all add: last_listing_snoc rebuild_def route_sync_def serving_def set_table_def)
qed (simp_all add: last_listing_snoc)

lemma foldl_rebuild_resolve: "px_resolve (foldl (rebuild gw) p ls) = px_resolve p"
  by (induction ls arbitrary: p)
    (simp_all add: rebuild_def route_sync_def set_table_def split: option.splits)

lemma router_new_serving:
  assumes "router_new cfg k = Inr p"
  obtains rts where "rk_initial k = Some rts"
    "serving (rc_gateway_namespace cfg, rc_gateway_name cfg)
       (deref cluster_resolver (rc_resolve cfg)) rts p"
  using assms
  by (cases "rk_initial k")
    (auto simp: router_new_def Let_def result_iffs route_sync_def serving_def set_table_def
      foldl_rebuild_resolve new_proxy_def)

lemma cluster_resolver_Some:
  "cluster_resolver b = (Some u, True) \<longleftrightarrow>
     b_name b \<noteq> [] \<and> b_ns b \<noteq> [] \<and> b_port b \<noteq> 0 \<and> u = \<lparr>url_scheme = ''http'',
       url_host = b_name b @ ''.'' @ b_ns b @ ''.svc:'' @ show_int (b_port b)\<rparr>"
  by (auto simp: cluster_resolver_def)

lemma serve_http_ProxyTo:
  "serving gw res rts p \<Longrightarrow> serve_http p req = ProxyTo u \<longleftrightarrow>
     (\<exists>b. match_request (rules_for_gateway rts gw) req = Some b \<and> res b = (Some u, True))"
  by (auto simp: serve_http_def serving_def split: option.splits prod.splits bool.splits)

text \<open>
  C17: A started router forwards a request only where a route allows it: after any sequence of route
  changes (failed listings included) and requests, a request that is proxied goes to a backend that
  a route of the last successful listing admits for its path, at the URL of that backend's Service.
  A backend in a namespace other than its route's is among them only when that route's status entry for
  this Gateway has its first \<open>ResolvedRefs\<close> condition \<open>True\<close>. A request that no route admits gets 404.
\<close>

theorem router_forwards_only_admitted:
  assumes new: "router_new cfg k = Inr p" "rc_resolve cfg = None" "rk_initial k = Some rts0"
    and run: "router_run (rc_gateway_namespace cfg, rc_gateway_name cfg) p es p'"
  shows "(serve_http p' req = ProxyTo u \<longrightarrow>
       (\<exists>rt \<in> set (last_listing rts0 es). \<exists>b.
          admits (rc_gateway_namespace cfg, rc_gateway_name cfg) rt req b \<and>
          url_host u = b_name b @ ''.'' @ b_ns b @ ''.svc:'' @ show_int (b_port b) \<and>
          (b_ns b = rt_ns rt
           \<or> reports_resolved (rc_gateway_namespace cfg, rc_gateway_name cfg) rt)))
     \<and> ((\<forall>rt \<in> set (last_listing rts0 es). \<forall>b.
            \<not> admits (rc_gateway_namespace cfg, rc_gateway_name cfg) rt req b) \<longrightarrow>
          serve_http p' req = HttpError ''no matching route'' 404)"
proof -
  let ?gw = "(rc_gateway_namespace cfg, rc_gateway_name cfg)"
  let ?rts = "last_listing rts0 es"
  have s: "serving ?gw cluster_resolver ?rts p'"
    using router_new_serving [OF new(1)] new(2,3) router_run_serving [OF run] by fastforce
  have ns: "b_ns b = rt_ns rt \<or> reports_resolved ?gw rt" if "admits ?gw rt req b" for rt b
  proof -
    from that obtain hr where "usable_backends ?gw rt hr \<noteq> []" "hd (usable_backends ?gw rt hr) = b"
      by (auto simp: admits_def)
    then have "b \<in> set (usable_backends ?gw rt hr)" by (metis hd_in_set)
    then show ?thesis by (auto simp: usable_backends_def)
  qed
  have "\<exists>rt \<in> set ?rts. \<exists>b. admits ?gw rt req b \<and>
      url_host u = b_name b @ ''.'' @ b_ns b @ ''.svc:'' @ show_int (b_port b) \<and>
      (b_ns b = rt_ns rt \<or> reports_resolved ?gw rt)" if "serve_http p' req = ProxyTo u"
  proof -
    from that serve_http_ProxyTo [OF s] obtain b where
      b: "match_request (rules_for_gateway ?rts ?gw) req = Some b"
      "cluster_resolver b = (Some u, True)" by blast
    from match_request_admitted [OF b(1)] obtain rt where "rt \<in> set ?rts" "admits ?gw rt req b"
      by blast
    with b(2) ns show ?thesis by (auto simp: cluster_resolver_Some)
  qed
  moreover have "serve_http p' req = HttpError ''no matching route'' 404"
    if "\<forall>rt \<in> set ?rts. \<forall>b. \<not> admits ?gw rt req b"
  proof -
    from that have "match_request (rules_for_gateway ?rts ?gw) req = None"
      using match_request_None_iff by blast
    with s show ?thesis by (simp add: serve_http_def serving_def)
  qed
  ultimately show ?thesis by blast
qed

text \<open>A router with one route, whose listing fails once: the old table serves on.\<close>

definition sample_route :: http_route where
  "sample_route = \<lparr>rt_ns = ''web'', rt_name = ''r'', rt_generation = 1,
     rt_parent_refs = [\<lparr>pr_group = None, pr_kind = None, pr_namespace = None, pr_name = ''gw'',
       pr_section = None, pr_port = None\<rparr>],
     rt_rules = [\<lparr>hr_matches = [\<lparr>hm_path = Some \<lparr>hp_type = Some ''PathPrefix'',
         hp_value = Some ''/api''\<rparr>, hm_headers = [], hm_method = None\<rparr>],
       hr_backends = [
         \<lparr>br_group = None, br_kind = None, br_namespace = Some ''other'', br_name = ''x'',
          br_port = Some 1\<rparr>,
         \<lparr>br_group = None, br_kind = None, br_namespace = None, br_name = ''s'',
          br_port = Some 8\<rparr>]\<rparr>],
     rt_parents = []\<rparr>"

definition sample_config_router :: router_config where
  "sample_config_router = \<lparr>rc_gateway_name = ''gw'', rc_gateway_namespace = ''web'',
     rc_rest_config = False, rc_resolve = None\<rparr>"

definition sample_calls :: router_calls where
  "sample_calls = \<lparr>rk_load_config = True, rk_install_scheme = True, rk_new_cache = True,
     rk_get_informer = True, rk_add_handler = True, rk_early = [], rk_cache_synced = True,
     rk_initial = Some [sample_route]\<rparr>"

definition sample_router :: proxy where
  "sample_router = \<lparr>px_resolve = cluster_resolver,
     px_table = Some (rules_for_gateway [sample_route] (''web'', ''gw''))\<rparr>"

lemma sample_router_new: "router_new sample_config_router sample_calls = Inr sample_router"
  by (simp add: router_new_def sample_config_router_def sample_calls_def route_sync_def
      new_proxy_def set_table_def sample_router_def)

lemma sample_router_serves:
  "serve_http sample_router ''/api/v1'' =
     ProxyTo \<lparr>url_scheme = ''http'', url_host = ''s.web.svc:8''\<rparr>"
  by (simp add: serve_http_def sample_router_def sample_route_def match_request_def
      path_matches_def path_score_def path_prefix_def path_exact_def convert_matches_def
      convert_path_def convert_backends_def convert_backend_def rules_from_http_route_def
      route_targets_gateway_def parent_ref_names_def refs_resolved_for_def
      drop_cross_ns_backends_def cluster_resolver_def show_int_def show_nat.simps digit_char_def
      digit_alphabet_def)

theorem router_forwards_only_admitted_witness:
  "serve_http sample_router ''/api/v1'' = ProxyTo \<lparr>url_scheme = ''http'', url_host = ''s.web.svc:8''\<rparr>
   \<and> router_run (''web'', ''gw'') sample_router [RoutesChanged None] sample_router
   \<and> (\<exists>rt b. admits (''web'', ''gw'') rt ''/api/v1'' b \<and> b_ns b = ''web'')"
proof -
  have r: "router_run (''web'', ''gw'') sample_router [RoutesChanged None] sample_router"
    using run_Change [OF run_Nil, of "(''web'', ''gw'')" sample_router None]
    by (simp add: rebuild_def route_sync_def)
  have "\<exists>rt \<in> set (last_listing [sample_route] [RoutesChanged None]). \<exists>b.
      admits (''web'', ''gw'') rt ''/api/v1'' b \<and>
      (b_ns b = rt_ns rt \<or> reports_resolved (''web'', ''gw'') rt)"
    using router_forwards_only_admitted [OF sample_router_new _ _ , of "[sample_route]"
        "[RoutesChanged None]" sample_router "''/api/v1''"] sample_router_serves r
    by (auto simp: sample_config_router_def sample_calls_def)
  moreover have "rt_ns sample_route = ''web''" "\<not> reports_resolved (''web'', ''gw'') sample_route"
    by (simp_all add: sample_route_def reports_resolved_def)
  ultimately have "\<exists>rt b. admits (''web'', ''gw'') rt ''/api/v1'' b \<and> b_ns b = ''web''"
    by auto
  with sample_router_serves r show ?thesis by blast
qed

end
