(* ===== verification/Kube_Meta.thy ===== *)
theory Kube_Meta
  imports Gateway_Api
begin

text \<open>
  Object metadata of Kubernetes resources, and the Secret. Reading a missing key of a Go map gives
  the zero value of its type, which is what \<open>map_index\<close> does on string maps.
\<close>

record owner_ref =
  ow_kind :: string
  ow_name :: string
  ow_uid :: string
  ow_controller :: "bool option"

record object_meta =
  om_ns :: string
  om_name :: string
  om_uid :: string
  om_version :: string
  om_generation :: int
  om_deleting :: bool
  om_labels :: "string gomap"
  om_annotations :: "string gomap"
  om_finalizers :: "string list"
  om_owners :: "owner_ref list"

record secret =
  sec_meta :: object_meta
  sec_data :: "byte list gomap"

definition map_index :: "string gomap \<Rightarrow> string \<Rightarrow> string" where
  "map_index m k = (case map_of m k of None \<Rightarrow> [] | Some v \<Rightarrow> v)"

text \<open>Whether the controller reference among the owners is the given object: \<open>IsControlledBy\<close>
  looks at the first owner marked as controller, while a loop over all owners looks for any.\<close>

definition owned_by_uid :: "string \<Rightarrow> object_meta \<Rightarrow> bool" where
  "owned_by_uid uid m \<longleftrightarrow> list_ex (\<lambda>w. ow_uid w = uid \<and> ow_controller w = Some True) (om_owners m)"

text \<open>A label selector that lists required values.\<close>

definition matching_labels :: "string gomap \<Rightarrow> string gomap \<Rightarrow> bool" where
  "matching_labels want have \<longleftrightarrow> list_all (\<lambda>(k, v). map_of have k = Some v) want"

end
