(* ===== verification/Onionbalance.thy ===== *)
theory Onionbalance
  imports Torrc Kube_Meta
begin

text \<open>
  \<open>internal/onionbalance/config.go\<close> and the Secret-reading half of \<open>refresher.go\<close>: which backend
  addresses are taken from the Secrets of a namespace, in which order, and the Onionbalance
  configuration written for them. The theorems show that only Secrets owned by the Gateway
  contribute, that the configuration does not depend on the order in which the informer lists them,
  and that comparing two configurations as texts compares the backend lists.
\<close>

definition label_gateway :: string where "label_gateway = ''torgateway.io/gateway''"
definition label_role :: string where "label_role = ''torgateway.io/role''"
definition label_owner_uid :: string where "label_owner_uid = ''torgateway.io/owner-uid''"
definition hostname_field :: string where "hostname_field = ''hostname''"

subsection \<open>Rendering\<close>

datatype ob_error = KeyPathRequired

text \<open>The dash of the first comment line is the three bytes of U+2014.\<close>

definition config_banner :: string where
  "config_banner = ''# generated by tor-gateway operator '' @ [CHR 0xE2, CHR 0x80, CHR 0x94] @
     '' do not edit by hand''"

definition instance_text :: "nat \<times> onion_address \<Rightarrow> string" where
  "instance_text ia =
     out_line (''  - address: '' @ onion_string (snd ia)) @
     out_line (''    name: backend-'' @ show_nat (fst ia))"

definition render_config ::
    "onion_address \<Rightarrow> onion_address list \<Rightarrow> string \<Rightarrow> (ob_error, string) result" where
  "render_config master backends key_path =
     guardE (key_path = []) KeyPathRequired
      (Inr (out_line config_banner @ out_line ''services:'' @ out_line (''- key: '' @ key_path) @
        (if backends = [] then out_line ''  instances: []''
         else out_line ''  instances:'' @
           concat (map instance_text (zip [0..<length backends] backends)) @
           out_line (''# master: '' @ onion_string master))))"

subsection \<open>Backend addresses\<close>

definition string_no_space :: "byte list \<Rightarrow> string" where
  "string_no_space b =
     filter (\<lambda>c. c \<noteq> CHR '' '' \<and> c \<noteq> nl \<and> c \<noteq> CHR 0x0D \<and> c \<noteq> CHR 0x09) (string_of b)"

text \<open>The insertion sort on the slice: the inner loop swaps element \<open>j\<close> towards the front.\<close>

definition swap_at :: "'a list \<Rightarrow> nat \<Rightarrow> 'a list" where
  "swap_at a j = a[j - 1 := a ! j, j := a ! (j - 1)]"

fun sort_inner :: "onion_address list \<Rightarrow> nat \<Rightarrow> onion_address list" where
  "sort_inner a 0 = a"
| "sort_inner a (Suc j) =
     (if onion_string (a ! j) > onion_string (a ! Suc j) then sort_inner (swap_at a (Suc j)) j
      else a)"

definition sort_addrs :: "onion_address list \<Rightarrow> onion_address list" where
  "sort_addrs a = foldl sort_inner a [1..<length a]"

text \<open>What the informer store holds: Secrets, and anything else a caller might pass.\<close>

datatype cache_obj = SecretObj secret | OtherObj

definition backend_address :: "string \<Rightarrow> cache_obj \<Rightarrow> onion_address option" where
  "backend_address uid ob =
     (case ob of
        OtherObj \<Rightarrow> None
      | SecretObj s \<Rightarrow>
          if map_index (om_labels (sec_meta s)) label_owner_uid \<noteq> uid then None
          else if \<not> owned_by_uid uid (sec_meta s) then None
          else case map_of (sec_data s) hostname_field of
                 None \<Rightarrow> None
               | Some raw \<Rightarrow>
                   if raw = [] then None
                   else case parse_address (string_no_space raw) of
                          Inl _ \<Rightarrow> None
                        | Inr a \<Rightarrow> Some a)"

definition backends_from_secrets :: "cache_obj list \<Rightarrow> string \<Rightarrow> onion_address list" where
  "backends_from_secrets objs uid = sort_addrs (List.map_filter (backend_address uid) objs)"

subsection \<open>The insertion sort sorts\<close>

lemma length_swap_at [simp]: "length (swap_at a j) = length a"
  by (simp add: swap_at_def)

lemma swap_at_split:
  "swap_at (xs @ x # y # ys) (Suc (length xs)) = xs @ y # x # ys"
  by (simp add: swap_at_def list_update_append nth_append)

text \<open>Inserting after the elements that are not greater.\<close>

definition insert_after :: "('a \<Rightarrow> 'b::linorder) \<Rightarrow> 'a \<Rightarrow> 'a list \<Rightarrow> 'a list" where
  "insert_after f x xs = takeWhile (\<lambda>y. f y \<le> f x) xs @ x # dropWhile (\<lambda>y. f y \<le> f x) xs"

lemma sorted_above:
  "sorted (map f xs) \<Longrightarrow> y \<in> set (dropWhile (\<lambda>y. f y \<le> k) xs) \<Longrightarrow> k < f y"
  by (induction xs) (auto split: if_splits simp: not_le order_less_le_trans)

lemma sorted_between:
  assumes "sorted (map f a @ map f b)"
    and "\<And>y. y \<in> set a \<Longrightarrow> f y \<le> f x" "\<And>y. y \<in> set b \<Longrightarrow> f x \<le> f y"
  shows "sorted (map f (a @ x # b))"
proof -
  have "f y \<le> f z" if "y \<in> set a" "z \<in> set b" for y z
    using assms(2) [OF that(1)] assms(3) [OF that(2)] by (rule order_trans)
  with assms show ?thesis by (simp add: sorted_append)
qed

lemma sort_key_snoc: "sort_key f (xs @ [x]) = insert_after f x (sort_key f xs)"
proof (rule properties_for_sort_key)
  let ?s = "sort_key f xs"
  let ?P = "\<lambda>y. f y \<le> f x"
  have split: "takeWhile ?P ?s @ dropWhile ?P ?s = ?s" by simp
  have above: "f x < f y" if "y \<in> set (dropWhile ?P ?s)" for y
    using sorted_above [OF _ that] by simp
  have "mset (takeWhile ?P ?s) + mset (dropWhile ?P ?s) = mset xs"
    by (metis mset_append mset_sort split)
  then show "mset (insert_after f x ?s) = mset (xs @ [x])" by (simp add: insert_after_def)
  show "filter (\<lambda>y. f k = f y) (insert_after f x ?s) = filter (\<lambda>y. f k = f y) (xs @ [x])" for k
  proof -
    have sw: "filter (\<lambda>y. f k = f y) zs = filter (\<lambda>y. f y = f k) zs" for zs
      by (rule filter_cong) auto
    have "f k \<noteq> f y" if "f k = f x" "y \<in> set (dropWhile ?P ?s)" for y
      using above [OF that(2)] that(1) by simp
    then have "filter (\<lambda>y. f k = f y) (dropWhile ?P ?s) = []" if "f k = f x"
      using that by simp
    moreover have "filter (\<lambda>y. f k = f y) (takeWhile ?P ?s) @ filter (\<lambda>y. f k = f y) (dropWhile ?P ?s)
        = filter (\<lambda>y. f k = f y) xs"
      unfolding filter_append [symmetric] split sw by (rule sort_key_stable)
    ultimately show ?thesis
      unfolding insert_after_def by (cases "f k = f x") simp_all
  qed
  have srt: "sorted (map f (takeWhile ?P ?s) @ map f (dropWhile ?P ?s))"
    unfolding map_append [symmetric] split by simp
  have lo: "f y \<le> f x" if "y \<in> set (takeWhile ?P ?s)" for y
    using set_takeWhileD [OF that] by blast
  have hi: "f x \<le> f y" if "y \<in> set (dropWhile ?P ?s)" for y
    using above [OF that] by (rule less_imp_le)
  show "sorted (map f (insert_after f x ?s))"
    unfolding insert_after_def by (rule sorted_between) (use srt lo hi in simp_all)
qed

lemma sort_inner_insert:
  assumes "sorted (map onion_string xs)"
  shows "sort_inner (xs @ x # ys) (length xs) = insert_after onion_string x xs @ ys"
  using assms
proof (induction xs arbitrary: ys rule: rev_induct)
  case (snoc z zs)
  show ?case
  proof (cases "onion_string z \<le> onion_string x")
    case True
    then have "\<forall>y \<in> set (zs @ [z]). onion_string y \<le> onion_string x"
      using snoc.prems by (auto simp: sorted_append)
    then show ?thesis
      using leD [OF True] by (simp add: insert_after_def nth_append takeWhile_append2 dropWhile_append2)
  next
    case False
    have "sort_inner ((zs @ [z]) @ x # ys) (length (zs @ [z])) =
        sort_inner (zs @ x # z # ys) (length zs)"
      using False by (simp add: nth_append swap_at_split not_le)
    also have "\<dots> = insert_after onion_string x zs @ z # ys"
      using snoc.IH snoc.prems by (simp add: sorted_append)
    also have "\<dots> = insert_after onion_string x (zs @ [z]) @ ys"
      using False by (simp add: insert_after_def takeWhile_append dropWhile_append)
    finally show ?thesis .
  qed
qed (simp add: insert_after_def)

lemma sort_prefix:
  "k < length a \<Longrightarrow> foldl sort_inner a [1..<Suc k] =
     sort_key onion_string (take (Suc k) a) @ drop (Suc k) a"
proof (induction k)
  case 0
  then show ?case by (cases a) simp_all
next
  case (Suc k)
  let ?s = "sort_key onion_string (take (Suc k) a)"
  have t: "take (Suc (Suc k)) a = take (Suc k) a @ [a ! Suc k]"
    using Suc.prems by (simp add: take_Suc_conv_app_nth)
  have d: "drop (Suc k) a = a ! Suc k # drop (Suc (Suc k)) a"
    using Suc.prems by (simp add: Cons_nth_drop_Suc)
  have "foldl sort_inner a [1..<Suc (Suc k)] = sort_inner (?s @ drop (Suc k) a) (Suc k)"
    using Suc by simp
  also have "\<dots> = sort_inner (?s @ a ! Suc k # drop (Suc (Suc k)) a) (length ?s)"
    using Suc.prems by (simp add: d)
  also have "\<dots> = insert_after onion_string (a ! Suc k) ?s @ drop (Suc (Suc k)) a"
    by (rule sort_inner_insert) simp
  finally show ?case by (simp only: t sort_key_snoc)
qed

lemma sort_addrs_sort_key: "sort_addrs a = sort_key onion_string a"
proof (cases a)
  case (Cons x xs)
  then have "foldl sort_inner a [1..<Suc (length xs)] = sort_key onion_string (take (Suc (length xs)) a)
      @ drop (Suc (length xs)) a"
    by (intro sort_prefix) simp
  with Cons show ?thesis by (simp add: sort_addrs_def)
qed (simp add: sort_addrs_def)

text \<open>
  The in-place insertion sort of the backend addresses is a stable sort by their text: the
  swapping loops compute \<open>sort_key\<close>.
\<close>

lemma sort_addrs_is_sort: "sort_addrs a = sort_key onion_string a"
  by (rule sort_addrs_sort_key)

subsection \<open>Which Secrets count\<close>

lemma map_filter_mset:
  "mset xs = mset ys \<Longrightarrow> mset (List.map_filter f xs) = mset (List.map_filter f ys)"
  by (simp add: map_filter_def mset_map mset_filter)

lemma set_map_filter_iff: "y \<in> set (List.map_filter f xs) \<longleftrightarrow> (\<exists>x \<in> set xs. f x = Some y)"
  by (induction xs) (auto simp: map_filter_simps split: option.splits)

lemma backend_address_wf: "backend_address uid ob = Some a \<Longrightarrow> length (pub_key a) = 32"
  by (auto simp: backend_address_def split: cache_obj.splits option.splits sum.splits if_splits
      dest: parse_address_length)

lemma backend_address_SecretObj:
  "backend_address uid (SecretObj s) = Some a \<longleftrightarrow>
     map_index (om_labels (sec_meta s)) label_owner_uid = uid \<and> owned_by_uid uid (sec_meta s) \<and>
     (\<exists>raw. map_of (sec_data s) hostname_field = Some raw \<and> raw \<noteq> [] \<and>
        parse_address (string_no_space raw) = Inr a)"
  by (cases "map_of (sec_data s) hostname_field")
    (auto simp: backend_address_def split: sum.splits)

lemma parse_hostname_iff:
  "raw \<noteq> [] \<and> parse_address (string_no_space raw) = Inr a \<longleftrightarrow>
     length (pub_key a) = 32 \<and> to_lower (trim_space (string_no_space raw)) = onion_string a"
proof -
  have "to_lower (trim_space (string_no_space [])) = []"
    by (simp add: string_no_space_def string_of_def trim_space_def to_lower_def)
  then have "raw \<noteq> []" if "length (pub_key a) = 32"
    "to_lower (trim_space (string_no_space raw)) = onion_string a"
    using that onion_string_eq_Nil by metis
  then show ?thesis using parse_address_string parse_onion_string by blast
qed

lemma set_backends_from_secrets:
  "a \<in> set (backends_from_secrets objs uid) \<longleftrightarrow> (\<exists>ob \<in> set objs. backend_address uid ob = Some a)"
  by (auto simp: backends_from_secrets_def sort_addrs_sort_key set_map_filter_iff)


text \<open>
  The configuration does not depend on the order in which the informer's store lists the
  Secrets: two listings of the same objects give the same backends in the same order, hence
  byte-identical files.
\<close>

lemma config_order_independent:
  assumes "mset objs = mset objs'"
  shows "backends_from_secrets objs uid = backends_from_secrets objs' uid
    \<and> render_config m (backends_from_secrets objs uid) kp
        = render_config m (backends_from_secrets objs' uid) kp"
proof -
  let ?l = "List.map_filter (backend_address uid) objs"
  let ?r = "List.map_filter (backend_address uid) objs'"
  have m: "mset ?l = mset ?r" by (rule map_filter_mset [OF assms])
  have "inj_on onion_string (set ?l)"
    by (rule inj_onI) (auto simp: set_map_filter_iff onion_string_inject dest!: backend_address_wf)
  then have "sort_key onion_string ?l = sort_key onion_string ?r"
    using m by (intro sort_key_inj_key_eq) simp_all
  then show ?thesis by (simp add: backends_from_secrets_def sort_addrs_sort_key)
qed

definition sample_backend :: "byte \<Rightarrow> secret" where
  "sample_backend b = \<lparr>sec_meta = \<lparr>om_ns = ''web'', om_name = ''s'', om_uid = ''u'', om_version = ''7'', om_generation = 1,
       om_deleting = False, om_labels = [(''torgateway.io/owner-uid'', ''g'')], om_annotations = [],
       om_finalizers = [], om_owners = [\<lparr>ow_kind = ''Gateway'', ow_name = ''gw'', ow_uid = ''g'',
         ow_controller = Some True\<rparr>]\<rparr>,
     sec_data = [(''hostname'',
       bytes_of (onion_string \<lparr>pub_key = replicate 32 b\<rparr>))]\<rparr>"

subsection \<open>Comparing configurations as texts\<close>

definition instance_lines :: "nat \<times> onion_address \<Rightarrow> string list" where
  "instance_lines ia =
     [''  - address: '' @ onion_string (snd ia), ''    name: backend-'' @ show_nat (fst ia)]"

definition config_lines :: "onion_address \<Rightarrow> onion_address list \<Rightarrow> string \<Rightarrow> string list" where
  "config_lines m bs kp =
     [config_banner, ''services:'', ''- key: '' @ kp] @
     (if bs = [] then [''  instances: []'']
      else ''  instances:'' # concat (map instance_lines (zip [0..<length bs] bs)) @
        [''# master: '' @ onion_string m])"

lemma instance_texts_lines:
  "concat (map instance_text zs) = concat (map out_line (concat (map instance_lines zs)))"
  by (induction zs) (simp_all add: instance_text_def instance_lines_def)

lemma render_config_lines:
  "kp \<noteq> [] \<Longrightarrow> render_config m bs kp = Inr (concat (map out_line (config_lines m bs kp)))"
  by (simp add: render_config_def config_lines_def instance_texts_lines)

lemma onion_string_no_newline: "nl \<notin> set (onion_string a)"
proof (cases "length (pub_key a) = 32")
  case True
  then show ?thesis using onion_string_fixed(2) [OF True] by (auto simp: is_space_def)
next
  case False
  then have e: "onion_string a = []" by simp
  show ?thesis unfolding e by simp
qed

lemma config_lines_no_newline:
  assumes "nl \<notin> set kp" shows "\<forall>l \<in> set (config_lines m bs kp). nl \<notin> set l"
proof -
  have "\<forall>l \<in> set (instance_lines ia). nl \<notin> set l" for ia
    by (simp add: instance_lines_def onion_string_no_newline)
  then show ?thesis
    using assms by (auto simp: config_lines_def config_banner_def onion_string_no_newline)
qed

abbreviation is_address_line :: "string \<Rightarrow> bool" where
  "is_address_line l \<equiv> has_prefix l ''  - address: ''"

lemma instance_address_lines:
  "filter is_address_line (concat (map instance_lines ias)) =
     map (\<lambda>ia. ''  - address: '' @ onion_string (snd ia)) ias"
  by (induction ias) (simp_all add: instance_lines_def has_prefix_def)

lemma config_address_lines:
  "filter is_address_line (config_lines m bs kp) = map (\<lambda>a. ''  - address: '' @ onion_string a) bs"
proof -
  have "map (\<lambda>ia. ''  - address: '' @ onion_string (snd ia)) zs =
      map (\<lambda>a. ''  - address: '' @ onion_string a) (map snd zs)" for zs :: "(nat \<times> onion_address) list"
    by simp
  then have "map (\<lambda>ia. ''  - address: '' @ onion_string (snd ia)) (zip [0..<length bs] bs) =
      map (\<lambda>a. ''  - address: '' @ onion_string a) bs"
    by (simp only: map_snd_zip length_upt diff_zero)
  moreover have "\<not> is_address_line config_banner" "\<not> is_address_line ''services:''"
    "\<not> is_address_line (''- key: '' @ kp)" "\<not> is_address_line ''  instances: []''"
    "\<not> is_address_line ''  instances:''" "\<not> is_address_line (''# master: '' @ onion_string m)"
    by (simp_all add: has_prefix_def config_banner_def)
  ultimately show ?thesis
    unfolding config_lines_def by (cases "bs = []") (simp_all only: filter_append filter.simps if_True
        if_False instance_address_lines append.simps list.map append_Nil2 refl)
qed

text \<open>The lines OnionBalance reads: all but the comments.\<close>

abbreviation is_comment_line :: "string \<Rightarrow> bool" where
  "is_comment_line l \<equiv> has_prefix l ''#''"

lemma instance_lines_read:
  "filter (\<lambda>l. \<not> is_comment_line l) (concat (map instance_lines ias)) = concat (map instance_lines ias)"
  by (induction ias) (simp_all add: instance_lines_def has_prefix_def)

lemma config_read_lines:
  "filter (\<lambda>l. \<not> is_comment_line l) (config_lines m bs kp) =
     [''services:'', ''- key: '' @ kp] @
     (if bs = [] then [''  instances: []'']
      else ''  instances:'' # concat (map instance_lines (zip [0..<length bs] bs)))"
proof -
  have "is_comment_line config_banner" "is_comment_line (''# master: '' @ onion_string m)"
    "\<not> is_comment_line ''services:''" "\<not> is_comment_line (''- key: '' @ kp)"
    "\<not> is_comment_line ''  instances: []''" "\<not> is_comment_line ''  instances:''"
    by (simp_all add: has_prefix_def config_banner_def)
  then show ?thesis
    unfolding config_lines_def by (cases "bs = []") (simp_all only: filter_append filter.simps if_True
        if_False instance_lines_read append.simps append_Nil2 simp_thms)
qed

text \<open>
  C19: The configuration file says what it is rendered from and nothing else. Comments aside, its lines are
  the service list, one service whose key is the key path verbatim, and for each backend in order its
  address and its number; the address lines are exactly the backends. Two renderings for a master
  address are therefore the same text only if key path and backends are the same, so a refresh that
  finds the file unchanged has missed no change of the pool or of the key path.
\<close>

theorem config_text_faithful:
  assumes "kp \<noteq> []" "nl \<notin> set kp" "nl \<notin> set kp'"
    and "list_all (\<lambda>a. length (pub_key a) = 32) bs" "list_all (\<lambda>a. length (pub_key a) = 32) bs'"
  shows "(render_config m bs kp = render_config m bs' kp' \<longleftrightarrow> bs = bs' \<and> kp = kp')
    \<and> (\<exists>t. render_config m bs kp = Inr t \<and>
         filter (\<lambda>l. \<not> is_comment_line l) (text_lines t) =
           [''services:'', ''- key: '' @ kp] @
           (if bs = [] then [''  instances: []'']
            else ''  instances:'' #
              concat (map (\<lambda>ia. [''  - address: '' @ onion_string (snd ia), ''    name: backend-'' @ show_nat (fst ia)])
                (zip [0..<length bs] bs))) \<and>
         filter is_address_line (text_lines t) = map (\<lambda>a. ''  - address: '' @ onion_string a) bs)"
proof -
  let ?t = "\<lambda>bs kp. concat (map out_line (config_lines m bs kp))"
  have lines: "nl \<notin> set kp \<Longrightarrow> text_lines (?t bs kp) = config_lines m bs kp" for bs kp
    by (rule text_lines_concat [OF config_lines_no_newline])
  have "bs = bs' \<and> kp = kp'" if "?t bs kp = ?t bs' kp'"
  proof -
    have c: "config_lines m bs kp = config_lines m bs' kp'"
      using that lines [OF assms(2)] lines [OF assms(3)] by metis
    then have "map (\<lambda>a. ''  - address: '' @ onion_string a) bs = map (\<lambda>a. ''  - address: '' @ onion_string a) bs'"
      using config_address_lines by metis
    moreover have "inj_on (\<lambda>a. ''  - address: '' @ onion_string a) (set bs \<union> set bs')"
      using assms(4,5) by (intro inj_onI) (auto simp: list_all_iff onion_string_inject)
    ultimately have "bs = bs'" by (rule map_inj_on)
    moreover have "kp = kp'" using c by (simp add: config_lines_def)
    ultimately show ?thesis ..
  qed
  moreover have "render_config m bs' kp' = render_config m bs kp \<Longrightarrow> kp' \<noteq> []"
    using assms(1) by (auto simp: render_config_def)
  ultimately have "render_config m bs kp = render_config m bs' kp' \<longleftrightarrow> bs = bs' \<and> kp = kp'"
    using render_config_lines assms(1) by (metis sum.inject(2))
  then show ?thesis
    using lines [OF assms(2), of bs] config_address_lines [of m bs kp] config_read_lines [of m bs kp]
    by (simp add: render_config_lines [OF assms(1)] instance_lines_def [abs_def])
qed

theorem config_text_faithful_witness:
  "\<forall>m. render_config m [\<lparr>pub_key = replicate 32 0\<rparr>] ''/k'' \<noteq> render_config m [\<lparr>pub_key = replicate 32 1\<rparr>] ''/k''
     \<and> render_config m [\<lparr>pub_key = replicate 32 0\<rparr>] ''/k'' \<noteq> render_config m [\<lparr>pub_key = replicate 32 0\<rparr>] ''/j''"
proof
  fix m
  have "[\<lparr>pub_key = replicate 32 0\<rparr>] \<noteq> [\<lparr>pub_key = replicate 32 1\<rparr>]" by simp
  then show "render_config m [\<lparr>pub_key = replicate 32 0\<rparr>] ''/k'' \<noteq>
      render_config m [\<lparr>pub_key = replicate 32 1\<rparr>] ''/k''
     \<and> render_config m [\<lparr>pub_key = replicate 32 0\<rparr>] ''/k'' \<noteq> render_config m [\<lparr>pub_key = replicate 32 0\<rparr>] ''/j''"
    using config_text_faithful [of "''/k''" "''/k''" "[\<lparr>pub_key = replicate 32 0\<rparr>]"
        "[\<lparr>pub_key = replicate 32 1\<rparr>]" m]
      config_text_faithful [of "''/k''" "''/j''" "[\<lparr>pub_key = replicate 32 0\<rparr>]"
        "[\<lparr>pub_key = replicate 32 0\<rparr>]" m] by simp
qed

end
