(* ===== verification/Go_Duration.thy ===== *)
theory Go_Duration
  imports Prelude
begin

text \<open>
  Durations of Go's \<open>time\<close> package, as the program prints and reads them on command lines:
  \<open>Duration.String\<close> and \<open>ParseDuration\<close>. A duration is a number of nanoseconds. The text of a fraction is
  scaled exactly, where \<open>ParseDuration\<close> goes through \<open>float64\<close>; on the at most nine digits that
  \<open>String\<close> writes the two agree.
\<close>

definition second :: int where "second = 1000000000"

subsection \<open>Printing\<close>

text \<open>\<open>fmtFrac\<close>: the last digits of a number, from the end, without trailing zeros.\<close>

fun frac_digits :: "nat \<Rightarrow> nat \<Rightarrow> string \<Rightarrow> string \<times> nat" where
  "frac_digits 0 v acc = (acc, v)"
| "frac_digits (Suc i) v acc =
     frac_digits i (v div 10) (if acc \<noteq> [] \<or> v mod 10 \<noteq> 0 then digit_char (v mod 10) # acc else acc)"

definition fmt_frac :: "nat \<Rightarrow> nat \<Rightarrow> string \<times> nat" where
  "fmt_frac prec v = (case frac_digits prec v [] of (ds, u) \<Rightarrow> (if ds = [] then [] else CHR ''.'' # ds, u))"

definition micro_sign :: string where "micro_sign = [CHR 0xC2, CHR 0xB5]"

definition fmt_duration :: "nat \<Rightarrow> string" where
  "fmt_duration u =
     (if u = 0 then ''0s''
      else if u < 1000 then show_nat u @ ''ns''
      else if u < 10 ^ 6 then (case fmt_frac 3 u of (f, v) \<Rightarrow> show_nat v @ f @ micro_sign @ ''s'')
      else if u < 10 ^ 9 then (case fmt_frac 6 u of (f, v) \<Rightarrow> show_nat v @ f @ ''ms'')
      else case fmt_frac 9 u of (f, v) \<Rightarrow>
        (if v div 3600 > 0 then show_nat (v div 3600) @ ''h'' else []) @
        (if v div 60 > 0 then show_nat (v div 60 mod 60) @ ''m'' else []) @
        show_nat (v mod 60) @ f @ ''s'')"

definition duration_string :: "int \<Rightarrow> string" where
  "duration_string d = (if d < 0 then CHR ''-'' # fmt_duration (nat (- d)) else fmt_duration (nat d))"

subsection \<open>Parsing\<close>

definition unit_nanos :: "string \<Rightarrow> nat option" where
  "unit_nanos = map_of
     [(''ns'', 1), (''us'', 10 ^ 3), (micro_sign @ ''s'', 10 ^ 3), ([CHR 0xCE, CHR 0xBC] @ ''s'', 10 ^ 3),
      (''ms'', 10 ^ 6), (''s'', 10 ^ 9), (''m'', 60 * 10 ^ 9), (''h'', 3600 * 10 ^ 9)]"

definition number_of_digits :: "string \<Rightarrow> nat" where
  "number_of_digits ds = (case parse_digits 0 ds of None \<Rightarrow> 0 | Some v \<Rightarrow> v)"

definition split_fraction :: "string \<Rightarrow> string \<times> string" where
  "split_fraction s =
     (case s of [] \<Rightarrow> ([], []) | c # r \<Rightarrow> if c = CHR ''.'' then (takeWhile is_digit r, dropWhile is_digit r) else ([], s))"

definition unit_char :: "char \<Rightarrow> bool" where
  "unit_char c \<longleftrightarrow> c \<noteq> CHR ''.'' \<and> \<not> is_digit c"

text \<open>One number with its unit: the nanoseconds and the rest.\<close>

definition parse_piece :: "string \<Rightarrow> (nat \<times> string) option" where
  "parse_piece s =
     (let ds = takeWhile is_digit s; (fs, r) = split_fraction (dropWhile is_digit s) in
      if ds = [] \<and> fs = [] then None
      else case unit_nanos (takeWhile unit_char r) of
        None \<Rightarrow> None
      | Some k \<Rightarrow>
          let n = number_of_digits ds; v = n * k + number_of_digits fs * k div 10 ^ length fs in
          if n > 2 ^ 63 \<or> v > 2 ^ 63 then None else Some (v, dropWhile unit_char r))"

lemma split_fraction_length: "split_fraction t = (fs, r) \<Longrightarrow> length r \<le> length t"
  using length_dropWhile_le [of is_digit "tl t"]
  by (cases t) (auto simp: split_fraction_def split: if_splits)

lemma parse_piece_shorter:
  assumes "parse_piece s = Some (v, r)"
  shows "length r < length s"
proof -
  let ?t = "dropWhile is_digit s"
  obtain fs r0 where sp: "split_fraction ?t = (fs, r0)" by fastforce
  have "length r0 \<le> length ?t" by (rule split_fraction_length [OF sp])
  have u: "unit_nanos (takeWhile unit_char r0) \<noteq> None" and r: "r = dropWhile unit_char r0"
    using assms sp by (auto simp: parse_piece_def Let_def split: if_splits option.splits)
  have "takeWhile unit_char r0 \<noteq> []"
    using u by (auto simp: unit_nanos_def micro_sign_def)
  then have "length r < length r0" unfolding r
    by (metis append_Nil length_dropWhile_le length_append length_greater_0_conv less_add_same_cancel2 takeWhile_dropWhile_id)
  with \<open>length r0 \<le> length ?t\<close> show ?thesis using length_dropWhile_le [of is_digit s] by linarith
qed

function parse_pieces :: "nat \<Rightarrow> string \<Rightarrow> nat option" where
  "parse_pieces d s =
     (if s = [] then Some d
      else case parse_piece s of
        None \<Rightarrow> None
      | Some (v, r) \<Rightarrow> if d + v > 2 ^ 63 then None else parse_pieces (d + v) r)"
  by pat_completeness auto
termination by (relation "measure (\<lambda>(_, s). length s)") (auto intro: parse_piece_shorter)

declare parse_pieces.simps [simp del]

definition parse_duration :: "string \<Rightarrow> int option" where
  "parse_duration s =
     (let (neg, r) = (case s of [] \<Rightarrow> (False, [])
                      | c # cs \<Rightarrow> if c = CHR ''-'' then (True, cs) else if c = CHR ''+'' then (False, cs) else (False, s))
      in if r = ''0'' then Some 0 else if r = [] then None
         else case parse_pieces 0 r of
           None \<Rightarrow> None
         | Some d \<Rightarrow> if neg then Some (- int d) else if d > 2 ^ 63 - 1 then None else Some (int d))"

subsection \<open>Round trip\<close>

definition all_digits :: "string \<Rightarrow> bool" where
  "all_digits ds \<longleftrightarrow> (\<forall>c \<in> set ds. is_digit c)"

lemma is_digit_char [simp]: "d < 10 \<Longrightarrow> is_digit (digit_char d)"
  by (simp add: is_digit_def)

lemma all_digits_show: "all_digits (show_nat n)"
  using show_nat_digits [of _ n] by (fastforce simp: all_digits_def)

lemma number_of_show [simp]: "number_of_digits (show_nat n) = n"
  by (simp add: number_of_digits_def parse_digits_show)

lemma parse_all_digits:
  "all_digits ds \<Longrightarrow> parse_digits a ds = Some (a * 10 ^ length ds + number_of_digits ds)"
proof (induction ds arbitrary: a)
  case Nil
  then show ?case by (simp add: number_of_digits_def)
next
  case (Cons c ds)
  then obtain d where d: "digit_value c = Some d" and ds: "all_digits ds"
    by (auto simp: all_digits_def is_digit_def)
  have "parse_digits a (c # ds) = Some ((a * 10 + d) * 10 ^ length ds + number_of_digits ds)" for a
    using Cons.IH [OF ds] d by simp
  from this [of a] this [of 0] show ?case by (simp add: number_of_digits_def algebra_simps)
qed

lemma number_of_Cons:
  "all_digits ds \<Longrightarrow> d < 10 \<Longrightarrow> number_of_digits (digit_char d # ds) = d * 10 ^ length ds + number_of_digits ds"
  using parse_all_digits [of ds d] by (simp add: number_of_digits_def)

lemma frac_digits_printing:
  assumes "all_digits acc" "acc \<noteq> []"
  shows "\<exists>ds. frac_digits i v acc = (ds, v div 10 ^ i) \<and> all_digits ds \<and> length ds = i + length acc
    \<and> number_of_digits ds = (v mod 10 ^ i) * 10 ^ length acc + number_of_digits acc"
  using assms
proof (induction i arbitrary: v acc)
  case 0
  then show ?case by simp
next
  case (Suc i)
  let ?d = "v mod 10" and ?acc = "digit_char (v mod 10) # acc"
  have "all_digits ?acc" using Suc.prems by (simp add: all_digits_def)
  then obtain ds where ds: "frac_digits i (v div 10) ?acc = (ds, v div 10 div 10 ^ i)" "all_digits ds"
    "length ds = i + Suc (length acc)"
    "number_of_digits ds = (v div 10 mod 10 ^ i) * 10 ^ Suc (length acc) + number_of_digits ?acc"
    using Suc.IH [of ?acc "v div 10"] by auto
  have "v mod 10 ^ Suc i = 10 * (v div 10 mod 10 ^ i) + ?d" by (simp add: mod_mult2_eq)
  then have "number_of_digits ds = (v mod 10 ^ Suc i) * 10 ^ length acc + number_of_digits acc"
    using ds(4) number_of_Cons [OF Suc.prems(1), of ?d] by (simp add: algebra_simps)
  moreover have "v div 10 div 10 ^ i = v div 10 ^ Suc i" by (simp add: div_mult2_eq)
  ultimately show ?case using ds(1-3) Suc.prems(2) by simp
qed

lemma frac_digits_skipping:
  "\<exists>ds. frac_digits i v [] = (ds, v div 10 ^ i) \<and> all_digits ds \<and> length ds \<le> i
    \<and> number_of_digits ds * 10 ^ (i - length ds) = v mod 10 ^ i"
proof (induction i arbitrary: v)
  case 0
  show ?case by (simp add: all_digits_def number_of_digits_def)
next
  case (Suc i)
  have div: "v div 10 div 10 ^ i = v div 10 ^ Suc i" by (simp add: div_mult2_eq)
  have mod: "v mod 10 ^ Suc i = 10 * (v div 10 mod 10 ^ i) + v mod 10" by (simp add: mod_mult2_eq)
  show ?case
  proof (cases "v mod 10 = 0")
    case True
    obtain ds where ds: "frac_digits i (v div 10) [] = (ds, v div 10 div 10 ^ i)" "all_digits ds" "length ds \<le> i"
      "number_of_digits ds * 10 ^ (i - length ds) = v div 10 mod 10 ^ i"
      using Suc.IH by blast
    then have "number_of_digits ds * 10 ^ (Suc i - length ds) = v mod 10 ^ Suc i"
      using True mod by (simp add: Suc_diff_le algebra_simps)
    then show ?thesis using ds(1-3) True div by simp
  next
    case False
    let ?acc = "[digit_char (v mod 10)]"
    have a: "all_digits ?acc" "number_of_digits ?acc = v mod 10"
      using number_of_Cons [of "[]" "v mod 10"] by (simp_all add: all_digits_def number_of_digits_def)
    obtain ds where "frac_digits i (v div 10) ?acc = (ds, v div 10 div 10 ^ i)" "all_digits ds" "length ds = i + 1"
      "number_of_digits ds = (v div 10 mod 10 ^ i) * 10 + v mod 10"
      using frac_digits_printing [OF a(1), of i "v div 10"] a(2) by auto
    then show ?thesis using False div mod by simp
  qed
qed

text \<open>A printed number with a fraction and a unit, read back.\<close>

definition piece_end :: "string \<Rightarrow> bool" where
  "piece_end r \<longleftrightarrow> r = [] \<or> is_digit (hd r)"

lemma piece_end_show [simp]: "piece_end (show_nat n @ r)"
  using all_digits_show [of n] by (cases "show_nat n") (auto simp: piece_end_def all_digits_def)

lemma takeWhile_block:
  assumes "\<forall>c \<in> set xs. P c" "ys = [] \<or> \<not> P (hd ys)"
  shows "takeWhile P (xs @ ys) = xs" "dropWhile P (xs @ ys) = ys"
  using assms by (cases ys; simp add: takeWhile_append2 dropWhile_append2)+

lemma parse_piece_digits:
  assumes "unit_nanos u = Some k" "u \<noteq> []" "\<forall>c \<in> set u. unit_char c" "piece_end r" "all_digits fs"
  shows "parse_piece (show_nat n @ (if fs = [] then [] else CHR ''.'' # fs) @ u @ r) =
    (let v = n * k + number_of_digits fs * k div 10 ^ length fs in
     if n > 2 ^ 63 \<or> v > 2 ^ 63 then None else Some (v, r))"
proof -
  have hu: "\<not> is_digit (hd (u @ r))" "hd (u @ r) \<noteq> CHR ''.''"
    using assms(2,3) by (cases u; simp add: unit_char_def)+
  have dot: "\<not> is_digit CHR ''.''" by (simp add: is_digit_def digit_value_def digit_alphabet_def upt_rec)
  let ?f = "if fs = [] then [] else CHR ''.'' # fs"
  have t: "takeWhile is_digit (show_nat n @ ?f @ u @ r) = show_nat n"
    "dropWhile is_digit (show_nat n @ ?f @ u @ r) = ?f @ u @ r"
    using takeWhile_block [of "show_nat n" is_digit "?f @ u @ r"] all_digits_show [of n] hu(1) dot
    by (auto simp: all_digits_def)
  have s: "split_fraction (?f @ u @ r) = (fs, u @ r)"
    using takeWhile_block [of fs is_digit "u @ r"] assms(2,5) hu
    by (cases "u @ r") (auto simp: split_fraction_def all_digits_def)
  have "takeWhile unit_char (u @ r) = u" "dropWhile unit_char (u @ r) = r"
    using takeWhile_block [of u unit_char r] assms(3,4) by (auto simp: piece_end_def unit_char_def)
  then show ?thesis using assms(1) by (simp add: parse_piece_def t s Let_def)
qed

lemma parse_pieces_step:
  assumes "unit_nanos u = Some k" "u \<noteq> []" "\<forall>c \<in> set u. unit_char c" "piece_end r" "0 < k"
    and "d + n * k \<le> 2 ^ 63"
  shows "parse_pieces d (show_nat n @ u @ r) = parse_pieces (d + n * k) r"
proof -
  have "n \<le> n * k" using assms(5) by simp
  then have "n \<le> 2 ^ 63" "n * k \<le> 2 ^ 63" using assms(6) by linarith+
  then show ?thesis
    using parse_piece_digits [OF assms(1-4), of "[]" n] assms(6)
    by (subst parse_pieces.simps) (simp add: all_digits_def number_of_digits_def Let_def)
qed

lemma parse_pieces_last:
  assumes "unit_nanos u = Some (10 ^ p)" "u \<noteq> []" "\<forall>c \<in> set u. unit_char c"
    and "fmt_frac p v = (f, n)" "d + v - n * 10 ^ p + m * 10 ^ p \<le> 2 ^ 63" "m \<le> n"
  shows "parse_pieces d (show_nat m @ f @ u) = Some (d + v - n * 10 ^ p + m * 10 ^ p)"
proof -
  obtain fs where fs: "frac_digits p v [] = (fs, v div 10 ^ p)" "all_digits fs" "length fs \<le> p"
    "number_of_digits fs * 10 ^ (p - length fs) = v mod 10 ^ p"
    using frac_digits_skipping by blast
  have f: "f = (if fs = [] then [] else CHR ''.'' # fs)" "n = v div 10 ^ p"
    using assms(4) fs(1) by (auto simp: fmt_frac_def)
  have "(10::nat) ^ p = 10 ^ (p - length fs) * 10 ^ length fs" using fs(3) by (metis le_add_diff_inverse2 power_add)
  then have frac: "number_of_digits fs * 10 ^ p div 10 ^ length fs = v mod 10 ^ p"
    using fs(4) by (simp flip: mult.assoc)
  have v: "d + v - n * 10 ^ p + m * 10 ^ p = d + (m * 10 ^ p + v mod 10 ^ p)"
    using div_mult_mod_eq [of v "10 ^ p"] unfolding f(2) by linarith
  have "m * 1 \<le> m * 10 ^ p" by (intro mult_left_mono) simp_all
  then have m: "m \<le> 2 ^ 63" "m * 10 ^ p + v mod 10 ^ p \<le> 2 ^ 63" using assms(5) v by linarith+
  have "parse_piece (show_nat m @ f @ u @ []) = Some (m * 10 ^ p + v mod 10 ^ p, [])"
    using parse_piece_digits [OF assms(1-3), of "[]" fs m] fs(2) f(1) frac m by (simp add: piece_end_def Let_def)
  then show ?thesis
    using assms(5) v by (subst parse_pieces.simps) (simp add: parse_pieces.simps [of _ "[]"])
qed

lemma units:
  "unit_nanos ''ns'' = Some (10 ^ 0)" "unit_nanos (micro_sign @ ''s'') = Some (10 ^ 3)" "unit_nanos ''ms'' = Some (10 ^ 6)"
  "unit_nanos ''s'' = Some (10 ^ 9)" "unit_nanos ''m'' = Some (60 * 10 ^ 9)" "unit_nanos ''h'' = Some (3600 * 10 ^ 9)"
  by (simp_all add: unit_nanos_def micro_sign_def)

lemma unit_chars:
  "\<forall>c \<in> set ''ns''. unit_char c" "\<forall>c \<in> set (micro_sign @ ''s''). unit_char c" "\<forall>c \<in> set ''ms''. unit_char c"
  "\<forall>c \<in> set ''s''. unit_char c" "\<forall>c \<in> set ''m''. unit_char c" "\<forall>c \<in> set ''h''. unit_char c"
  by (simp_all add: unit_char_def is_digit_def digit_value_def digit_alphabet_def upt_rec micro_sign_def)

lemma fmt_frac_div: "fst (fmt_frac p v) = f \<Longrightarrow> fmt_frac p v = (f, v div 10 ^ p)"
  using frac_digits_skipping [of p v] by (auto simp: fmt_frac_def)

text \<open>The clock part: hours and minutes, then the seconds with their fraction.\<close>

lemma parse_clock:
  assumes "u \<le> 2 ^ 63" "10 ^ 9 \<le> u"
  shows "parse_pieces 0 (fmt_duration u) = Some u"
proof -
  define s where "s = u div 10 ^ 9"
  obtain f where f: "fmt_frac 9 u = (f, s)" using fmt_frac_div unfolding s_def by blast
  let ?sec = "show_nat (s mod 60) @ f @ ''s''"
  let ?min = "(if s div 60 > 0 then show_nat (s div 60 mod 60) @ ''m'' else []) @ ?sec"
  have shown: "fmt_duration u = (if s div 3600 > 0 then show_nat (s div 3600) @ ''h'' else []) @ ?min"
    using assms(2) f by (simp add: fmt_duration_def)
  have us: "s * 10 ^ 9 \<le> u" by (simp add: s_def)
  have m: "s div 60 * 60 + s mod 60 = s" by simp
  have h: "s div 3600 * 60 + s div 60 mod 60 = s div 60"
    using div_mult_mod_eq [of "s div 60" 60] by (simp flip: div_mult2_eq)
  have sec: "parse_pieces (s div 60 * 60 * 10 ^ 9) ?sec = Some u"
  proof -
    have "s div 60 * 60 * 10 ^ 9 + u - s * 10 ^ 9 + s mod 60 * 10 ^ 9 = u"
      using us arg_cong [OF m, of "\<lambda>x. x * 10 ^ 9"] unfolding distrib_right by linarith
    then show ?thesis
      using parse_pieces_last [OF units(4) _ unit_chars(4) f, of "s div 60 * 60 * 10 ^ 9" "s mod 60"] assms(1) by simp
  qed
  have min: "parse_pieces (s div 3600 * 3600 * 10 ^ 9) ?min = Some u"
  proof (cases "s div 60 > 0")
    case True
    have "s div 3600 * 3600 * 10 ^ 9 + s div 60 mod 60 * (60 * 10 ^ 9) = s div 60 * 60 * 10 ^ 9"
      using arg_cong [OF h, of "\<lambda>x. x * (60 * 10 ^ 9)"] by (simp add: distrib_right)
    moreover have "s div 60 * 60 * 10 ^ 9 \<le> u" using us mult_le_mono1 [of "s div 60 * 60" s "10 ^ 9"] by simp
    ultimately show ?thesis
      using parse_pieces_step [OF units(5) _ unit_chars(5), of ?sec] sec True assms(1) by simp
  next
    case False
    then have "s div 3600 = 0" "s div 60 = 0" using h by simp_all
    with sec False show ?thesis by simp
  qed
  show ?thesis
  proof (cases "s div 3600 > 0")
    case True
    have "piece_end ?min" by simp
    moreover have "s div 3600 * 3600 * 10 ^ 9 \<le> u" using us mult_le_mono1 [of "s div 3600 * 3600" s "10 ^ 9"] by simp
    then have "0 + s div 3600 * (3600 * 10 ^ 9) \<le> 2 ^ 63" using assms(1) by simp
    ultimately show ?thesis
      using parse_pieces_step [OF units(6) _ unit_chars(6), of ?min 0 "s div 3600"] min True shown by (simp add: mult.assoc)
  next
    case False
    then show ?thesis using min shown by simp
  qed
qed

text \<open>Below a second: one number, in the unit that makes it at least one.\<close>

lemma parse_fraction:
  assumes "unit_nanos x = Some (10 ^ p)" "x \<noteq> []" "\<forall>c \<in> set x. unit_char c" "u \<le> 2 ^ 63"
  shows "parse_pieces 0 (case fmt_frac p u of (f, v) \<Rightarrow> show_nat v @ f @ x) = Some u"
proof -
  obtain f where f: "fmt_frac p u = (f, u div 10 ^ p)" using fmt_frac_div by blast
  have "0 + u - u div 10 ^ p * 10 ^ p + u div 10 ^ p * 10 ^ p = u" by simp
  then show ?thesis using parse_pieces_last [OF assms(1-3) f, of 0 "u div 10 ^ p"] assms(4) f by simp
qed

lemma fmt_frac_0: "fmt_frac 0 v = ([], v)"
  by (simp add: fmt_frac_def)

lemma fmt_frac_zero: "fmt_frac p 0 = ([], 0)"
proof -
  have "frac_digits p 0 [] = ([], 0)" by (induction p) simp_all
  then show ?thesis by (simp add: fmt_frac_def)
qed

lemma show_zero: "show_nat 0 = ''0''"
  by (simp add: show_nat.simps digit_char_def digit_alphabet_def)

lemma parse_fmt_duration:
  assumes "u \<le> 2 ^ 63"
  shows "parse_pieces 0 (fmt_duration u) = Some u"
proof -
  consider "u = 0" | "0 < u" "u < 1000" | "1000 \<le> u" "u < 10 ^ 6" | "10 ^ 6 \<le> u" "u < 10 ^ 9" | "10 ^ 9 \<le> u" by linarith
  then show ?thesis
  proof cases
    case 1
    then show ?thesis using parse_fraction [OF units(4) _ unit_chars(4), of 0]
      by (simp add: fmt_duration_def fmt_frac_zero show_zero)
  next
    case 2
    then show ?thesis using parse_fraction [OF units(1) _ unit_chars(1) assms] by (simp add: fmt_duration_def fmt_frac_0)
  next
    case 3
    then show ?thesis using parse_fraction [OF units(2) _ unit_chars(2) assms] by (simp add: fmt_duration_def micro_sign_def)
  next
    case 4
    then show ?thesis using parse_fraction [OF units(3) _ unit_chars(3) assms] by (simp add: fmt_duration_def)
  next
    case 5
    then show ?thesis using parse_clock [OF assms] by simp
  qed
qed

definition starts_with_digit :: "string \<Rightarrow> bool" where
  "starts_with_digit s \<longleftrightarrow> (\<exists>d r. d < 10 \<and> s = digit_char d # r \<and> r \<noteq> [])"

lemma starts_with_digit_show: "x \<noteq> [] \<Longrightarrow> starts_with_digit (show_nat n @ x)"
proof -
  assume x: "x \<noteq> []"
  obtain c cs where c: "show_nat n = c # cs" by (cases "show_nat n") simp_all
  then obtain d where "d < 10" "c = digit_char d" using show_nat_digits [of c n] by auto
  with c x show ?thesis by (auto simp: starts_with_digit_def)
qed

lemma starts_with_digit_optional:
  "starts_with_digit s \<Longrightarrow> u \<noteq> [] \<Longrightarrow> starts_with_digit ((if b then show_nat n @ u else []) @ s)"
  by (simp add: starts_with_digit_show)

lemma starts_with_digit_zero: "starts_with_digit ''0s''"
  using starts_with_digit_show [of "''s''" 0] by (simp add: show_zero)

lemma fmt_duration_head: "starts_with_digit (fmt_duration u)"
  unfolding fmt_duration_def
  by (simp add: starts_with_digit_zero starts_with_digit_show starts_with_digit_optional micro_sign_def split: prod.split
      del: if_split append_assoc split del: if_split)
    (auto intro!: starts_with_digit_show starts_with_digit_optional starts_with_digit_zero)

text \<open>Every duration survives being printed and parsed.\<close>

lemma parse_duration_string:
  assumes "- (2 ^ 63) \<le> d" "d < 2 ^ 63"
  shows "parse_duration (duration_string d) = Some d"
proof -
  let ?u = "nat (if d < 0 then - d else d)"
  have p: "parse_pieces 0 (fmt_duration ?u) = Some ?u" using assms by (intro parse_fmt_duration) auto
  obtain k r where h: "k < 10" "fmt_duration ?u = digit_char k # r" "r \<noteq> []" using fmt_duration_head [of ?u] unfolding starts_with_digit_def by blast
  show ?thesis
    using p h digit_char_not_sign [OF h(1)] assms
    by (auto simp: parse_duration_def duration_string_def nat_le_iff split: if_splits)
qed

end
