(* ===== verification/Refresher.thy ===== *)
theory Refresher
  imports Onionbalance Go_Duration
begin

text \<open>
  \<open>internal/onionbalance/refresher.go\<close> and \<open>cmd/obrefresh\<close>: the sidecar that rewrites the
  Onionbalance configuration when backend Secrets change and signals the daemon. The debouncing is a
  state machine: informer callbacks, the timer, and the rebuilds it starts run concurrently and meet
  only in the mutex-protected fields \<open>timer\<close>, \<open>pending\<close> and \<open>store\<close>. A rebuild lists the store and
  then writes, outside the lock. Durations are nanoseconds.
\<close>

subsection \<open>Construction\<close>

record refresher_config =
  rf_gateway_name :: string
  rf_gateway_namespace :: string
  rf_master_key_path :: string
  rf_config_path :: string
  rf_pid_file :: string
  rf_interval :: int
  rf_master :: onion_address
  rf_owner_uid :: string
  rf_client :: bool
  rf_healthcheck_file :: string
  rf_recorder :: bool

datatype refresher_error =
  GatewayNamesRequired | PathsRequired | ClientRequired | OwnerUIDRequired | MasterRequired

definition min_interval :: int where "min_interval = 5 * second"

definition effective_interval :: "int \<Rightarrow> int" where
  "effective_interval i =
     (let i' = (if i \<le> 0 then 30 * second else i) in if i' < min_interval then min_interval else i')"

definition new_refresher :: "refresher_config \<Rightarrow> (refresher_error, refresher_config) result" where
  "new_refresher cfg =
     guardE (rf_gateway_name cfg = [] \<or> rf_gateway_namespace cfg = []) GatewayNamesRequired
    (guardE (rf_config_path cfg = [] \<or> rf_pid_file cfg = [] \<or> rf_master_key_path cfg = []) PathsRequired
    (guardE (\<not> rf_client cfg) ClientRequired
    (guardE (rf_owner_uid cfg = []) OwnerUIDRequired
    (guardE (onion_string (rf_master cfg) = []) MasterRequired
      (Inr (cfg\<lparr>rf_interval := effective_interval (rf_interval cfg)\<rparr>))))))"

subsection \<open>One rebuild\<close>

text \<open>
  What the operating system answers during one rebuild: the four steps of the atomic write, the
  pid file (\<open>None\<close> if it cannot be read), whether a signal to a pid is delivered, whether the
  healthcheck file can be written, and the time.
\<close>

record rebuild_env =
  re_create :: bool
  re_write :: bool
  re_close :: bool
  re_rename :: bool
  re_pid :: "byte list option"
  re_kill :: "int \<Rightarrow> bool"
  re_health :: bool
  re_now :: int

text \<open>The configuration file, what the daemon read when it was last signalled, the modification
  time of the healthcheck file, and the warning events sent.\<close>

record ob_world =
  ow_config :: "string option"
  ow_daemon :: "string option"
  ow_health :: "int option"
  ow_warnings :: "string list"

definition reason_reload_config_failed :: string where
  "reason_reload_config_failed = ''OnionbalanceConfigRenderFailed''"

definition reason_reload_sighup_failed :: string where
  "reason_reload_sighup_failed = ''OnionbalanceReloadFailed''"

definition emit_warning :: "refresher_config \<Rightarrow> string \<Rightarrow> ob_world \<Rightarrow> ob_world" where
  "emit_warning cfg reason w =
     (if rf_recorder cfg then w\<lparr>ow_warnings := ow_warnings w @ [reason]\<rparr> else w)"

definition atomic_write :: "rebuild_env \<Rightarrow> string \<Rightarrow> ob_world \<Rightarrow> ob_world \<times> bool" where
  "atomic_write env data w =
     (if \<not> re_create env then (w, False)
      else if \<not> re_write env then (w, False)
      else if \<not> re_close env then (w, False)
      else if \<not> re_rename env then (w, False)
      else (w\<lparr>ow_config := Some data\<rparr>, True))"

definition sighup_pid :: "rebuild_env \<Rightarrow> ob_world \<Rightarrow> ob_world \<times> bool" where
  "sighup_pid env w =
     (case re_pid env of
        None \<Rightarrow> (w, False)
      | Some raw \<Rightarrow>
          (case atoi (string_no_space raw) of
             None \<Rightarrow> (w, False)
           | Some pid \<Rightarrow>
               if re_kill env pid then (w\<lparr>ow_daemon := ow_config w\<rparr>, True) else (w, False)))"

text \<open>\<open>rebuild\<close>; the flag says whether it came to its end.\<close>

definition rebuild_config ::
    "refresher_config \<Rightarrow> rebuild_env \<Rightarrow> cache_obj list \<Rightarrow> ob_world \<Rightarrow> ob_world \<times> bool" where
  "rebuild_config cfg env objs w =
     (let backends = backends_from_secrets objs (rf_owner_uid cfg) in
      case render_config (rf_master cfg) backends (rf_master_key_path cfg) of
        Inl _ \<Rightarrow> (emit_warning cfg reason_reload_config_failed w, False)
      | Inr rendered \<Rightarrow>
          (case atomic_write env rendered w of
             (w1, False) \<Rightarrow> (emit_warning cfg reason_reload_config_failed w1, False)
           | (w1, True) \<Rightarrow>
               (case sighup_pid env w1 of
                  (w2, False) \<Rightarrow> (emit_warning cfg reason_reload_sighup_failed w2, False)
                | (w2, True) \<Rightarrow>
                    (if rf_healthcheck_file cfg \<noteq> [] \<and> re_health env
                     then w2\<lparr>ow_health := Some (re_now env)\<rparr> else w2, True))))"

subsection \<open>The debouncing state machine\<close>

text \<open>A started rebuild: about to list the store, holding the listing, or done; the flag is the
  \<open>pending\<close> that \<open>fire\<close> took out of the state.\<close>

datatype rebuild_job = Listing bool | Writing bool "cache_obj list" | Ending bool

text \<open>
  \<open>rs_notify\<close> counts store changes whose callback has not run yet. \<open>rs_source\<close> is not in the
  program: it is the listing from which the last successful rebuild was made.
\<close>

record rstate =
  rs_objs :: "cache_obj list"
  rs_notify :: nat
  rs_started :: bool
  rs_timer :: bool
  rs_pending :: bool
  rs_jobs :: "rebuild_job list"
  rs_world :: ob_world
  rs_source :: "cache_obj list option"

definition schedule :: "rstate \<Rightarrow> rstate" where
  "schedule s = (if rs_timer s then s\<lparr>rs_pending := True\<rparr> else s\<lparr>rs_timer := True\<rparr>)"

text \<open>The locked part of \<open>fire\<close>; without a store there is nothing to rebuild.\<close>

definition fire_begin :: "rstate \<Rightarrow> rstate" where
  "fire_begin s =
     s\<lparr>rs_timer := False, rs_pending := False,
       rs_jobs := rs_jobs s @ [if rs_started s then Listing (rs_pending s) else Ending (rs_pending s)]\<rparr>"

text \<open>Its end: \<open>if pending { r.schedule() }\<close>.\<close>

definition fire_end :: "bool \<Rightarrow> rstate \<Rightarrow> rstate" where
  "fire_end p s = (if p then schedule s else s)"

text \<open>\<open>Run\<close>, once the cache has synced: publish the store, then the initial rebuild.\<close>

definition run_start :: "rstate \<Rightarrow> rstate" where
  "run_start s = s\<lparr>rs_started := True, rs_jobs := rs_jobs s @ [Listing False]\<rparr>"

datatype r_label = Changed | Notified | Started | Fired | Listed | Wrote bool | Ended

inductive r_step :: "refresher_config \<Rightarrow> rstate \<Rightarrow> r_label \<Rightarrow> rstate \<Rightarrow> bool" for cfg where
  step_Changed: "r_step cfg s Changed (s\<lparr>rs_objs := objs, rs_notify := Suc (rs_notify s)\<rparr>)"
| step_Notified: "rs_notify s = Suc n \<Longrightarrow> r_step cfg s Notified (schedule (s\<lparr>rs_notify := n\<rparr>))"
| step_Started: "\<not> rs_started s \<Longrightarrow> r_step cfg s Started (run_start s)"
| step_Fired: "rs_timer s \<Longrightarrow> r_step cfg s Fired (fire_begin s)"
| step_Listed: "rs_jobs s = us @ Listing p # vs \<Longrightarrow>
     r_step cfg s Listed (s\<lparr>rs_jobs := us @ Writing p (rs_objs s) # vs\<rparr>)"
| step_Wrote: "rs_jobs s = us @ Writing p objs # vs \<Longrightarrow>
     rebuild_config cfg env objs (rs_world s) = (w, ok) \<Longrightarrow>
     r_step cfg s (Wrote ok) (s\<lparr>rs_jobs := us @ Ending p # vs, rs_world := w,
       rs_source := (if ok then Some objs else rs_source s)\<rparr>)"
| step_Ended: "rs_jobs s = us @ Ending p # vs \<Longrightarrow>
     r_step cfg s Ended (fire_end p (s\<lparr>rs_jobs := us @ vs\<rparr>))"

inductive_cases r_stepE: "r_step cfg s l s'"

definition is_writing :: "rebuild_job \<Rightarrow> bool" where
  "is_writing j = (case j of Writing _ _ \<Rightarrow> True | _ \<Rightarrow> False)"

text \<open>No other rebuild is between its listing and its write when this one lists the store. The program does
  not enforce this; it relies on a rebuild taking less time than the debounce interval.\<close>

definition separate :: "rstate \<Rightarrow> r_label \<Rightarrow> bool" where
  "separate s l \<longleftrightarrow> (l = Listed \<longrightarrow> list_all (\<lambda>j. \<not> is_writing j) (rs_jobs s))"

definition initial_rstate :: "cache_obj list \<Rightarrow> ob_world \<Rightarrow> rstate" where
  "initial_rstate objs w = \<lparr>rs_objs = objs, rs_notify = 0, rs_started = False, rs_timer = False,
     rs_pending = False, rs_jobs = [], rs_world = w, rs_source = None\<rparr>"

text \<open>A run by its labels; the flag says that no two of its rebuilds overlapped.\<close>

inductive r_run :: "refresher_config \<Rightarrow> rstate \<Rightarrow> r_label list \<Rightarrow> bool \<Rightarrow> rstate \<Rightarrow> bool" for cfg where
  r_run_Nil: "r_run cfg s [] True s"
| r_run_snoc: "r_run cfg s ls sep s1 \<Longrightarrow> r_step cfg s1 l s2 \<Longrightarrow>
     r_run cfg s (ls @ [l]) (sep \<and> separate s1 l) s2"

text \<open>The results of the rebuilds of a run, in order, and that its last rebuild, if there is one, succeeded.\<close>

definition rebuilds :: "r_label list \<Rightarrow> bool list" where
  "rebuilds ls = List.map_filter (\<lambda>l. case l of Wrote ok \<Rightarrow> Some ok | _ \<Rightarrow> None) ls"

definition last_rebuild_ok :: "r_label list \<Rightarrow> bool" where
  "last_rebuild_ok ls \<longleftrightarrow> rebuilds ls = [] \<or> last (rebuilds ls)"

lemma rebuilds_simps [simp]:
  "rebuilds [] = []" "rebuilds (xs @ ys) = rebuilds xs @ rebuilds ys"
  "rebuilds (l # ls) = (case l of Wrote ok \<Rightarrow> [ok] | _ \<Rightarrow> []) @ rebuilds ls"
  by (simp_all add: rebuilds_def map_filter_def split: r_label.split)

lemma last_rebuild_ok_simps:
  "last_rebuild_ok []" "last_rebuild_ok (ls @ [Wrote ok]) \<longleftrightarrow> ok"
  "\<forall>ok. l \<noteq> Wrote ok \<Longrightarrow> last_rebuild_ok (ls @ [l]) = last_rebuild_ok ls"
  by (simp_all add: last_rebuild_ok_def split: r_label.split)

definition quiescent :: "rstate \<Rightarrow> bool" where
  "quiescent s \<longleftrightarrow> rs_started s \<and> rs_notify s = 0 \<and> \<not> rs_timer s \<and> rs_jobs s = []"

subsection \<open>No update is lost\<close>

definition config_text :: "refresher_config \<Rightarrow> cache_obj list \<Rightarrow> (ob_error, string) result" where
  "config_text cfg objs =
     render_config (rf_master cfg) (backends_from_secrets objs (rf_owner_uid cfg))
       (rf_master_key_path cfg)"

lemma rebuild_config_ok:
  assumes "rebuild_config cfg env objs w = (w', True)"
  obtains t where "config_text cfg objs = Inr t" "ow_config w' = Some t" "ow_daemon w' = Some t"
  using assms
  by (auto simp: rebuild_config_def config_text_def atomic_write_def sighup_pid_def Let_def
      split: sum.splits if_splits option.splits)

text \<open>Something is on its way that will list the store.\<close>

definition work_ahead :: "rstate \<Rightarrow> bool" where
  "work_ahead s \<longleftrightarrow> 0 < rs_notify s \<or> rs_timer s \<or> (\<exists>p. Listing p \<in> set (rs_jobs s))"

text \<open>The latest store is being written or, when the last rebuild succeeded, has been.\<close>

definition up_to_date :: "bool \<Rightarrow> rstate \<Rightarrow> bool" where
  "up_to_date ok s \<longleftrightarrow>
     (\<exists>p. filter is_writing (rs_jobs s) = [Writing p (rs_objs s)]) \<or>
     (filter is_writing (rs_jobs s) = [] \<and> (ok \<longrightarrow> rs_source s = Some (rs_objs s)))"

definition source_written :: "refresher_config \<Rightarrow> rstate \<Rightarrow> bool" where
  "source_written cfg s \<longleftrightarrow>
     (\<forall>objs. rs_source s = Some objs \<longrightarrow>
        (\<exists>t. config_text cfg objs = Inr t \<and> ow_config (rs_world s) = Some t \<and>
           ow_daemon (rs_world s) = Some t))"

definition refresher_inv :: "refresher_config \<Rightarrow> bool \<Rightarrow> rstate \<Rightarrow> bool" where
  "refresher_inv cfg ok s \<longleftrightarrow>
     length (filter is_writing (rs_jobs s)) \<le> 1 \<and>
     (rs_started s \<longrightarrow> work_ahead s \<or> up_to_date ok s) \<and> (ok \<longrightarrow> source_written cfg s)"

lemma is_writing_simps [simp]:
  "\<not> is_writing (Listing p)" "is_writing (Writing p os)" "\<not> is_writing (Ending p)"
  by (simp_all add: is_writing_def)

lemma schedule_simps [simp]:
  "rs_jobs (schedule s) = rs_jobs s" "rs_objs (schedule s) = rs_objs s"
  "rs_started (schedule s) = rs_started s" "rs_source (schedule s) = rs_source s"
  "rs_world (schedule s) = rs_world s" "rs_notify (schedule s) = rs_notify s" "rs_timer (schedule s)"
  by (simp_all add: schedule_def)

lemma single_writing:
  assumes "length (filter is_writing (us @ Writing p os # vs)) \<le> 1"
  shows "filter is_writing us = []" "filter is_writing vs = []"
  using assms by simp_all

lemma inv_Listed:
  assumes inv: "refresher_inv cfg ok s" and j: "rs_jobs s = us @ Listing p # vs"
    and o: "separate s Listed"
  shows "refresher_inv cfg ok (s\<lparr>rs_jobs := us @ Writing p (rs_objs s) # vs\<rparr>)"
proof -
  from o j have "filter is_writing us = []" "filter is_writing vs = []"
    by (simp_all add: separate_def list_all_iff filter_empty_conv)
  with inv show ?thesis
    by (simp add: refresher_inv_def up_to_date_def source_written_def)
qed

lemma inv_Wrote:
  assumes inv: "refresher_inv cfg b s" and j: "rs_jobs s = us @ Writing p objs # vs"
    and w: "rebuild_config cfg env objs (rs_world s) = (w, ok)"
  shows "refresher_inv cfg ok (s\<lparr>rs_jobs := us @ Ending p # vs, rs_world := w,
    rs_source := (if ok then Some objs else rs_source s)\<rparr>)"
proof -
  from inv have "length (filter is_writing (us @ Writing p objs # vs)) \<le> 1"
    unfolding refresher_inv_def j by blast
  note e = single_writing [OF this]
  have "ok \<Longrightarrow> \<exists>t. config_text cfg objs = Inr t \<and> ow_config w = Some t \<and> ow_daemon w = Some t"
    using w by (auto elim: rebuild_config_ok)
  with inv j e show ?thesis
    by (cases ok) (auto simp: refresher_inv_def up_to_date_def source_written_def work_ahead_def)
qed

lemma inv_frame:
  assumes inv: "refresher_inv cfg ok s"
    and "filter is_writing (rs_jobs s') = filter is_writing (rs_jobs s)"
    and "rs_source s' = rs_source s" "rs_world s' = rs_world s"
    and "rs_started s' \<Longrightarrow> work_ahead s' \<or>
      (rs_started s \<and> rs_objs s' = rs_objs s \<and> (work_ahead s \<longrightarrow> work_ahead s'))"
  shows "refresher_inv cfg ok s'"
  using assms unfolding refresher_inv_def up_to_date_def source_written_def by metis

lemma inv_step:
  assumes inv: "refresher_inv cfg (last_rebuild_ok ls) s" and st: "r_step cfg s l s'" and o: "separate s l"
  shows "refresher_inv cfg (last_rebuild_ok (ls @ [l])) s'"
  using st
proof (cases rule: r_step.cases)
  case (step_Changed objs)
  with inv show ?thesis
    by (simp add: last_rebuild_ok_simps, intro inv_frame [OF inv]) (simp_all add: work_ahead_def)
next
  case (step_Notified n)
  with inv show ?thesis
    by (simp add: last_rebuild_ok_simps, intro inv_frame [OF inv]) (simp_all add: work_ahead_def)
next
  case step_Started
  with inv show ?thesis
    by (simp add: last_rebuild_ok_simps, intro inv_frame [OF inv]) (auto simp: work_ahead_def run_start_def)
next
  case step_Fired
  with inv show ?thesis
    by (simp add: last_rebuild_ok_simps, intro inv_frame [OF inv]) (auto simp: work_ahead_def fire_begin_def)
next
  case (step_Listed us p vs)
  with inv_Listed [OF inv step_Listed(3)] o show ?thesis by (simp add: last_rebuild_ok_simps)
next
  case (step_Wrote us p objs vs env w ok)
  with inv_Wrote [OF inv step_Wrote(3,4)] show ?thesis by (simp add: last_rebuild_ok_simps)
next
  case (step_Ended us p vs)
  with inv show ?thesis
    by (simp add: last_rebuild_ok_simps, intro inv_frame [OF inv])
      (auto simp: work_ahead_def fire_end_def schedule_def)
qed

lemma inv_init: "refresher_inv cfg ok (initial_rstate objs w)"
  by (simp add: initial_rstate_def refresher_inv_def source_written_def)

lemma run_inv:
  "r_run cfg s ls sep s' \<Longrightarrow> sep \<Longrightarrow> s = initial_rstate objs w \<Longrightarrow> refresher_inv cfg (last_rebuild_ok ls) s'"
  by (induction rule: r_run.induct) (auto intro: inv_init inv_step)

lemma quiescent_current:
  assumes "r_run cfg (initial_rstate objs w) ls True s" "last_rebuild_ok ls" "quiescent s"
  shows "\<exists>t. config_text cfg (rs_objs s) = Inr t
    \<and> ow_config (rs_world s) = Some t \<and> ow_daemon (rs_world s) = Some t"
proof -
  from run_inv [OF assms(1)] assms(2,3) have "rs_source s = Some (rs_objs s)" "source_written cfg s"
    by (auto simp: refresher_inv_def quiescent_def work_ahead_def up_to_date_def)
  then show ?thesis by (simp add: source_written_def)
qed

text \<open>
  C20: No update of the backend Secrets is lost, when rebuilds do not overlap. However the changes of the
  Secrets, their callbacks, the timer and the rebuilds interleave, as long as no rebuild lists the
  store while another is between its listing and its write: when the refresher comes to rest and the last
  rebuild of the run succeeded (earlier ones may have failed), the configuration file is the rendering
  of the Secrets that the store holds now, and the daemon was signalled after that text was written.
  Both conditions are needed: \<open>overlapping_rebuilds_stale\<close> is a run with overlapping rebuilds that rests on
  a stale file, and a failed rebuild is not retried (\<open>failed_rebuild_not_retried\<close>).
\<close>

theorem refresher_no_lost_update:
  assumes "r_run cfg (initial_rstate objs w) ls True s" "last_rebuild_ok ls" "quiescent s"
  shows "\<exists>t. config_text cfg (rs_objs s) = Inr t
    \<and> ow_config (rs_world s) = Some t \<and> ow_daemon (rs_world s) = Some t"
  using assms by (rule quiescent_current)

subsection \<open>The refresher settles\<close>

fun job_weight :: "rebuild_job \<Rightarrow> nat" where
  "job_weight (Listing p) = (if p then 7 else 3)"
| "job_weight (Writing p _) = (if p then 6 else 2)"
| "job_weight (Ending p) = (if p then 5 else 1)"

definition refresher_measure :: "rstate \<Rightarrow> nat" where
  "refresher_measure s =
     5 * rs_notify s + (if rs_started s then 0 else 4) + (if rs_timer s then 4 else 0) +
     (if rs_pending s then 4 else 0) + sum_list (map job_weight (rs_jobs s))"

lemma measure_schedule: "refresher_measure (schedule s) \<le> refresher_measure s + 4"
  by (simp add: refresher_measure_def schedule_def)

lemma measure_step:
  assumes "r_step cfg s l s'" "l \<noteq> Changed"
  shows "refresher_measure s' < refresher_measure s"
  using assms(1)
proof (cases rule: r_step.cases)
  case (step_Notified n)
  with measure_schedule [of "s\<lparr>rs_notify := n\<rparr>"] show ?thesis
    by (simp add: refresher_measure_def)
next
  case (step_Ended us p vs)
  with measure_schedule [of "s\<lparr>rs_jobs := us @ vs\<rparr>"] show ?thesis
    by (cases p) (simp_all add: refresher_measure_def fire_end_def)
qed (use assms(2) in \<open>auto simp: refresher_measure_def run_start_def fire_begin_def\<close>)

lemma step_objs: "r_step cfg s l s' \<Longrightarrow> l \<noteq> Changed \<Longrightarrow> rs_objs s' = rs_objs s"
  by (cases rule: r_step.cases) (auto simp: run_start_def fire_begin_def fire_end_def)

lemma run_quiet:
  assumes "r_run cfg s ls sep s'" "Changed \<notin> set ls"
  shows "length ls + refresher_measure s' \<le> refresher_measure s \<and> rs_objs s' = rs_objs s"
  using assms
proof (induction rule: r_run.induct)
  case (r_run_snoc s ls sep s1 l s2)
  then have "l \<noteq> Changed" by auto
  from measure_step [OF r_run_snoc(2) this] step_objs [OF r_run_snoc(2) this] r_run_snoc show ?case
    by simp
qed simp

lemma run_append:
  "r_run cfg s1 ls' sep' s2 \<Longrightarrow> r_run cfg s ls sep s1 \<Longrightarrow> r_run cfg s (ls @ ls') (sep \<and> sep') s2"
proof (induction rule: r_run.induct)
  case (r_run_snoc s1 ls' sep' s2 l s3)
  from r_run.r_run_snoc [OF r_run_snoc(3) [OF r_run_snoc(4)] r_run_snoc(2)] show ?case
    by (simp add: conj_assoc)
qed simp

definition good_env :: rebuild_env where
  "good_env = \<lparr>re_create = True, re_write = True, re_close = True, re_rename = True,
     re_pid = Some (bytes_of ''1''), re_kill = (\<lambda>_. True), re_health = True, re_now = 0\<rparr>"

lemma string_no_space_bytes: "\<forall>c \<in> set s. \<not> is_space c \<Longrightarrow> string_no_space (bytes_of s) = s"
  by (auto simp: string_no_space_def is_space_def intro!: filter_True)

lemma good_env_pid: "atoi (string_no_space (bytes_of ''1'')) = Some 1"
  by (simp add: string_no_space_bytes is_space_def atoi_def parse_nat_def digit_value_def
      digit_alphabet_def upt_rec)

lemma progress:
  assumes "\<not> quiescent s"
  shows "\<exists>l s'. r_step cfg s l s' \<and> l \<noteq> Changed \<and> separate s l"
proof -
  consider "\<not> rs_started s" | n where "rs_notify s = Suc n" | "rs_timer s"
    | p os where "Writing p os \<in> set (rs_jobs s)"
    | j js where "rs_jobs s = j # js" "\<forall>j \<in> set (rs_jobs s). \<not> is_writing j"
  proof -
    have "\<exists>p os. j = Writing p os" if "is_writing j" for j
      using that by (cases j) simp_all
    moreover have "\<not> rs_started s \<or> (\<exists>n. rs_notify s = Suc n) \<or> rs_timer s \<or> (\<exists>j js. rs_jobs s = j # js)"
      using assms by (auto simp: quiescent_def neq_Nil_conv gr0_conv_Suc)
    ultimately show thesis using that by metis
  qed
  then show ?thesis
  proof cases
    case 1
    then show ?thesis using step_Started [of s cfg] by (auto simp: separate_def)
  next
    case 2
    then show ?thesis using step_Notified [of s n cfg] by (auto simp: separate_def)
  next
    case 3
    then show ?thesis using step_Fired [of s cfg] by (auto simp: separate_def)
  next
    case 4
    then obtain us vs where "rs_jobs s = us @ Writing p os # vs" by (auto dest: split_list)
    moreover obtain w ok where "rebuild_config cfg good_env os (rs_world s) = (w, ok)" by fastforce
    ultimately have "r_step cfg s (Wrote ok) (s\<lparr>rs_jobs := us @ Ending p # vs, rs_world := w,
        rs_source := (if ok then Some os else rs_source s)\<rparr>)"
      by (rule step_Wrote)
    then show ?thesis by (intro exI conjI) (auto simp: separate_def)
  next
    case 5
    then have o: "separate s Listed" by (simp add: separate_def list_all_iff)
    show ?thesis
    proof (cases j)
      case (Listing p)
      with 5 have "rs_jobs s = [] @ Listing p # js" by simp
      from step_Listed [OF this, of cfg] o show ?thesis by blast
    next
      case (Writing p os)
      with 5 show ?thesis by simp
    next
      case (Ending p)
      with 5 have "rs_jobs s = [] @ Ending p # js" by simp
      from step_Ended [OF this, of cfg] show ?thesis by (intro exI conjI) (auto simp: separate_def)
    qed
  qed
qed

lemma quiescent_iff: "quiescent s \<longleftrightarrow> (\<nexists>l s'. r_step cfg s l s' \<and> l \<noteq> Changed)"
proof
  assume q: "quiescent s"
  have "l = Changed" if "r_step cfg s l s'" for l s'
    using that q by (cases rule: r_step.cases) (auto simp: quiescent_def)
  then show "\<nexists>l s'. r_step cfg s l s' \<and> l \<noteq> Changed" by blast
next
  assume "\<nexists>l s'. r_step cfg s l s' \<and> l \<noteq> Changed"
  then show "quiescent s" using progress by blast
qed

text \<open>
  C21: When the Secrets stop changing, the refresher settles. Every run without further changes,
  overlapping and failed rebuilds included, has at most \<open>refresher_measure\<close> steps, and as long as the
  refresher is not at rest it can take a step that overlaps no rebuild; at rest it can take none. If the
  whole run had no overlapping rebuilds and its last rebuild succeeded, the refresher rests with the
  configuration of the present Secrets in the file and in the daemon. In particular the debouncing neither
  re-arms itself for ever nor swallows the last change.
\<close>

theorem refresher_settles:
  assumes "r_run cfg (initial_rstate objs w) ls0 sep0 s" "r_run cfg s ls sep s'" "Changed \<notin> set ls"
  shows "length ls \<le> refresher_measure s
    \<and> (\<not> quiescent s' \<longrightarrow> (\<exists>l s''. r_step cfg s' l s'' \<and> l \<noteq> Changed \<and> separate s' l))
    \<and> (quiescent s' \<longrightarrow> (\<nexists>l s''. r_step cfg s' l s'' \<and> l \<noteq> Changed))
    \<and> (quiescent s' \<and> sep0 \<and> sep \<and> last_rebuild_ok (ls0 @ ls) \<longrightarrow>
         (\<exists>t. config_text cfg (rs_objs s) = Inr t \<and>
            ow_config (rs_world s') = Some t \<and> ow_daemon (rs_world s') = Some t))"
proof -
  from run_quiet [OF assms(2,3)] have b: "length ls \<le> refresher_measure s" "rs_objs s' = rs_objs s"
    by simp_all
  have "\<exists>t. config_text cfg (rs_objs s) = Inr t \<and> ow_config (rs_world s') = Some t \<and> ow_daemon (rs_world s') = Some t"
    if "quiescent s'" "sep0 \<and> sep" "last_rebuild_ok (ls0 @ ls)"
    using quiescent_current [of cfg objs w "ls0 @ ls" s'] run_append [OF assms(2,1)] that b(2) by auto
  with b(1) progress [of s' cfg] quiescent_iff [of s' cfg] show ?thesis by blast
qed

subsection \<open>Runs\<close>

definition sample_refresher :: refresher_config where
  "sample_refresher = \<lparr>rf_gateway_name = ''gw'', rf_gateway_namespace = ''web'',
     rf_master_key_path = ''/k'', rf_config_path = ''/c'', rf_pid_file = ''/p'', rf_interval = 0,
     rf_master = \<lparr>pub_key = replicate 32 0\<rparr>, rf_owner_uid = ''g'', rf_client = True,
     rf_healthcheck_file = [], rf_recorder = False\<rparr>"

definition empty_world :: ob_world where
  "empty_world = \<lparr>ow_config = None, ow_daemon = None, ow_health = None, ow_warnings = []\<rparr>"

abbreviation sample_text :: "cache_obj list \<Rightarrow> string" where
  "sample_text objs \<equiv> concat (map out_line (config_lines (rf_master sample_refresher)
     (backends_from_secrets objs ''g'') ''/k''))"

lemma sample_rebuild:
  "rebuild_config sample_refresher good_env objs w =
     (w\<lparr>ow_config := Some (sample_text objs), ow_daemon := Some (sample_text objs)\<rparr>, True)"
  by (simp add: rebuild_config_def render_config_lines atomic_write_def sighup_pid_def good_env_def
      good_env_pid sample_refresher_def Let_def)

lemma run_snoc_separate:
  "r_run cfg s ls True s1 \<Longrightarrow> r_step cfg s1 l s2 \<Longrightarrow> separate s1 l \<Longrightarrow> r_run cfg s (ls @ [l]) True s2"
  using r_run_snoc [of cfg s ls True s1 l s2] by simp

text \<open>The states of the sample runs, by what varies in them.\<close>

abbreviation run_state ::
    "cache_obj list \<Rightarrow> nat \<Rightarrow> bool \<Rightarrow> rebuild_job list \<Rightarrow> ob_world \<Rightarrow> cache_obj list option \<Rightarrow> rstate" where
  "run_state objs n timer jobs w src \<equiv> \<lparr>rs_objs = objs, rs_notify = n, rs_started = True,
     rs_timer = timer, rs_pending = False, rs_jobs = jobs, rs_world = w, rs_source = src\<rparr>"

abbreviation written :: "cache_obj list \<Rightarrow> ob_world" where
  "written objs \<equiv> empty_world\<lparr>ow_config := Some (sample_text objs), ow_daemon := Some (sample_text objs)\<rparr>"

abbreviation settled_state :: "cache_obj list \<Rightarrow> rstate" where
  "settled_state objs \<equiv> run_state objs 0 False [] (written objs) (Some objs)"

lemma sample_start:
  "r_run sample_refresher (initial_rstate objs empty_world) [Started] True
     (run_state objs 0 False [Listing False] empty_world None)"
  using run_snoc_separate [OF r_run_Nil step_Started, of "initial_rstate objs empty_world" sample_refresher]
  by (simp add: initial_rstate_def run_start_def separate_def)

text \<open>A rebuild on its own, from the listing to the end.\<close>

lemma sample_rebuild_run:
  assumes "r_run sample_refresher s0 ls True (run_state objs 0 False [Listing False] w src)"
  shows "r_run sample_refresher s0 (ls @ [Listed, Wrote True, Ended]) True (run_state objs 0 False []
     (w\<lparr>ow_config := Some (sample_text objs), ow_daemon := Some (sample_text objs)\<rparr>) (Some objs))"
proof -
  let ?c = sample_refresher
  let ?w = "w\<lparr>ow_config := Some (sample_text objs), ow_daemon := Some (sample_text objs)\<rparr>"
  from run_snoc_separate [OF assms step_Listed [of _ "[]" False "[]"]]
  have "r_run ?c s0 (ls @ [Listed]) True (run_state objs 0 False [Writing False objs] w src)"
    by (simp add: separate_def)
  from run_snoc_separate [OF this step_Wrote [of _ "[]" False objs "[]" ?c good_env ?w True]]
  have "r_run ?c s0 (ls @ [Listed, Wrote True]) True (run_state objs 0 False [Ending False] ?w (Some objs))"
    by (simp add: sample_rebuild separate_def)
  from run_snoc_separate [OF this step_Ended [of _ "[]" False "[]"]] show ?thesis
    by (simp add: fire_end_def separate_def)
qed

text \<open>A change of the store, its callback and the timer: the next rebuild is about to list.\<close>

lemma sample_change_run:
  assumes "r_run sample_refresher s0 ls True (run_state objs 1 False [] w src)"
  shows "r_run sample_refresher s0 (ls @ [Notified, Fired]) True (run_state objs 0 False [Listing False] w src)"
proof -
  let ?c = sample_refresher
  from run_snoc_separate [OF assms step_Notified [of _ 0]]
  have "r_run ?c s0 (ls @ [Notified]) True (run_state objs 0 True [] w src)"
    by (simp add: schedule_def separate_def)
  from run_snoc_separate [OF this step_Fired] show ?thesis by (simp add: fire_begin_def separate_def)
qed

lemma sample_first_run:
  "r_run sample_refresher (initial_rstate objs empty_world) [Started, Listed, Wrote True, Ended] True
     (settled_state objs)"
  using sample_rebuild_run [OF sample_start] by simp

lemma sample_changed:
  "r_run sample_refresher (initial_rstate objs empty_world) [Started, Listed, Wrote True, Ended, Changed] True
     (run_state objs' 1 False [] (written objs) (Some objs))"
  using run_snoc_separate [OF sample_first_run step_Changed [of sample_refresher _ objs']]
  by (simp add: separate_def)

lemma backends_nonempty: "backends_from_secrets [SecretObj (sample_backend b)] ''g'' \<noteq> []"
proof -
  let ?a = "\<lparr>pub_key = replicate 32 b\<rparr>"
  have a: "length (pub_key ?a) = 32" by simp
  have "backend_address ''g'' (SecretObj (sample_backend b)) = Some ?a"
    using onion_string_fixed(2) [OF a]
    by (simp add: backend_address_SecretObj sample_backend_def label_owner_uid_def map_index_def
        owned_by_uid_def hostname_field_def string_no_space_bytes parse_address_trim)
      (metis a onion_string_eq_Nil length_0_conv length_bytes_of)
  then have "?a \<in> set (backends_from_secrets [SecretObj (sample_backend b)] ''g'')"
    unfolding set_backends_from_secrets by simp
  then show ?thesis by auto
qed

lemma sample_texts_differ: "sample_text [SecretObj (sample_backend 1)] \<noteq> sample_text []"
proof
  let ?new = "[SecretObj (sample_backend 1)]"
  have L: "text_lines (sample_text objs) = config_lines (rf_master sample_refresher)
      (backends_from_secrets objs ''g'') ''/k''" for objs
    by (rule text_lines_concat, rule config_lines_no_newline) simp
  assume "sample_text ?new = sample_text []"
  then have "text_lines (sample_text ?new) = text_lines (sample_text [])" by simp
  then have "config_lines (rf_master sample_refresher) (backends_from_secrets ?new ''g'') ''/k'' =
      config_lines (rf_master sample_refresher) (backends_from_secrets [] ''g'') ''/k''"
    unfolding L .
  then show False
    using backends_nonempty [of 1]
    by (simp add: config_lines_def backends_from_secrets_def map_filter_simps sort_addrs_def)
qed

theorem refresher_no_lost_update_witness:
  "\<exists>s t. quiescent s \<and> rs_objs s = [SecretObj (sample_backend 1)]
     \<and> config_text sample_refresher [SecretObj (sample_backend 1)] = Inr t \<and> ow_daemon (rs_world s) = Some t"
proof -
  let ?new = "[SecretObj (sample_backend 1)]"
  have q: "quiescent (settled_state ?new)" by (simp add: quiescent_def)
  have r: "r_run sample_refresher (initial_rstate [] empty_world)
      [Started, Listed, Wrote True, Ended, Changed, Notified, Fired, Listed, Wrote True, Ended] True (settled_state ?new)"
    using sample_rebuild_run [OF sample_change_run [OF sample_changed [of "[]" ?new]]] by simp
  from refresher_no_lost_update [OF r _ q] q show ?thesis
    by (auto simp: last_rebuild_ok_def)
qed

text \<open>One change after the first rebuild: five more steps, within the bound of nine, and the new text is out.\<close>

theorem refresher_settles_witness:
  "\<exists>s s' t. rs_objs s = [SecretObj (sample_backend 1)]
     \<and> r_run sample_refresher s [Notified, Fired, Listed, Wrote True, Ended] True s' \<and> quiescent s'
     \<and> length [Notified, Fired, Listed, Wrote True, Ended] \<le> refresher_measure s
     \<and> ow_config (rs_world s) \<noteq> ow_config (rs_world s')
     \<and> config_text sample_refresher (rs_objs s) = Inr t \<and> ow_daemon (rs_world s') = Some t"
proof -
  let ?new = "[SecretObj (sample_backend 1)]"
  let ?s = "run_state ?new 1 False [] (written []) (Some [])"
  have r: "r_run sample_refresher ?s [Notified, Fired, Listed, Wrote True, Ended] True (settled_state ?new)"
    using sample_rebuild_run [OF sample_change_run [OF r_run_Nil [of sample_refresher ?s]]] by simp
  have q: "quiescent (settled_state ?new)" by (simp add: quiescent_def)
  from refresher_settles [OF sample_changed [of "[]" ?new] r] q
  have "length [Notified, Fired, Listed, Wrote True, Ended] \<le> refresher_measure ?s
    \<and> (\<exists>t. config_text sample_refresher (rs_objs ?s) = Inr t \<and> ow_daemon (rs_world (settled_state ?new)) = Some t)"
    by (auto simp: last_rebuild_ok_def)
  with r q sample_texts_differ show ?thesis
    by (intro exI [of _ ?s] exI [of _ "settled_state ?new"]) auto
qed

text \<open>
  Without the assumption that rebuilds do not overlap the guarantee fails: nothing in \<open>rebuild\<close>
  keeps a rebuild that listed the store earlier from writing later. Here the initial rebuild holds
  an empty listing while the timer's rebuild writes the new backend, and then overwrites it.
\<close>

lemma overlapping_rebuilds_stale:
  "\<exists>ls s. r_run sample_refresher (initial_rstate [] empty_world) ls False s \<and> last_rebuild_ok ls \<and> quiescent s
     \<and> config_text sample_refresher (rs_objs s) \<noteq> Inr (the (ow_config (rs_world s)))"
proof -
  let ?c = sample_refresher
  let ?i = "initial_rstate [] empty_world"
  let ?new = "[SecretObj (sample_backend 1)]"
  from run_snoc_separate [OF sample_start step_Listed [of _ "[]" False "[]"]]
  have "r_run ?c ?i [Started, Listed] True (run_state [] 0 False [Writing False []] empty_world None)"
    by (simp add: separate_def)
  from run_snoc_separate [OF this step_Changed [of ?c _ ?new]]
  have "r_run ?c ?i [Started, Listed, Changed] True (run_state ?new 1 False [Writing False []] empty_world None)"
    by (simp add: separate_def)
  from run_snoc_separate [OF this step_Notified [of _ 0]]
  have "r_run ?c ?i [Started, Listed, Changed, Notified] True
      (run_state ?new 0 True [Writing False []] empty_world None)"
    by (simp add: schedule_def separate_def)
  from run_snoc_separate [OF this step_Fired]
  have "r_run ?c ?i [Started, Listed, Changed, Notified, Fired] True
      (run_state ?new 0 False [Writing False [], Listing False] empty_world None)"
    by (simp add: fire_begin_def separate_def)
  from r_run_snoc [OF this step_Listed [of _ "[Writing False []]" False "[]"]]
  have "r_run ?c ?i [Started, Listed, Changed, Notified, Fired, Listed] False
      (run_state ?new 0 False [Writing False [], Writing False ?new] empty_world None)"
    by (simp add: separate_def)
  from r_run_snoc [OF this step_Wrote [of _ "[Writing False []]" False ?new "[]" ?c good_env "written ?new" True]]
  have "r_run ?c ?i [Started, Listed, Changed, Notified, Fired, Listed, Wrote True] False
      (run_state ?new 0 False [Writing False [], Ending False] (written ?new) (Some ?new))"
    by (simp add: sample_rebuild)
  from r_run_snoc [OF this step_Wrote [of _ "[]" False "[]" "[Ending False]" ?c good_env "written []" True]]
  have "r_run ?c ?i [Started, Listed, Changed, Notified, Fired, Listed, Wrote True, Wrote True] False
      (run_state ?new 0 False [Ending False, Ending False] (written []) (Some []))"
    by (simp add: sample_rebuild)
  from r_run_snoc [OF this step_Ended [of _ "[]" False "[Ending False]"]]
  have "r_run ?c ?i [Started, Listed, Changed, Notified, Fired, Listed, Wrote True, Wrote True, Ended] False
      (run_state ?new 0 False [Ending False] (written []) (Some []))"
    by (simp add: fire_end_def)
  from r_run_snoc [OF this step_Ended [of _ "[]" False "[]"]]
  have "r_run ?c ?i [Started, Listed, Changed, Notified, Fired, Listed, Wrote True, Wrote True, Ended, Ended] False
      (run_state ?new 0 False [] (written []) (Some []))"
    by (simp add: fire_end_def)
  moreover have "config_text ?c ?new \<noteq> Inr (sample_text [])"
    using sample_texts_differ by (simp add: config_text_def sample_refresher_def render_config_lines)
  ultimately show ?thesis by (intro exI conjI) (assumption, simp_all add: quiescent_def last_rebuild_ok_def)
qed

text \<open>A rebuild that fails is not tried again: here the first one cannot create its file, and the refresher
  rests without a configuration until the next change.\<close>

lemma failed_rebuild_not_retried:
  "\<exists>s. r_run sample_refresher (initial_rstate objs empty_world) [Started, Listed, Wrote False, Ended] True s
     \<and> quiescent s \<and> ow_config (rs_world s) = None"
proof -
  let ?c = sample_refresher
  let ?i = "initial_rstate objs empty_world"
  let ?env = "good_env\<lparr>re_create := False\<rparr>"
  from run_snoc_separate [OF sample_start step_Listed [of _ "[]" False "[]"]]
  have "r_run ?c ?i [Started, Listed] True (run_state objs 0 False [Writing False objs] empty_world None)"
    by (simp add: separate_def)
  moreover obtain w where w: "rebuild_config ?c ?env objs empty_world = (w, False)" "ow_config w = None"
    by (simp add: rebuild_config_def render_config_lines atomic_write_def good_env_def sample_refresher_def
        emit_warning_def empty_world_def Let_def)
  ultimately have "r_run ?c ?i [Started, Listed, Wrote False] True (run_state objs 0 False [Ending False] w None)"
    using run_snoc_separate [OF _ step_Wrote [of _ "[]" False objs "[]" ?c ?env w False]]
    by (fastforce simp: separate_def)
  from run_snoc_separate [OF this step_Ended [of _ "[]" False "[]"]]
  have "r_run ?c ?i [Started, Listed, Wrote False, Ended] True (run_state objs 0 False [] w None)"
    by (simp add: fire_end_def separate_def)
  with w(2) show ?thesis by (intro exI conjI) (assumption, simp_all add: quiescent_def)
qed

subsection \<open>The \<open>obrefresh\<close> command\<close>

record obrefresh_flags =
  of_gateway :: string
  of_namespace :: string
  of_gateway_uid :: string
  of_config :: string
  of_pidfile :: string
  of_interval :: int
  of_master_address :: string
  of_master_key_path :: string
  of_healthcheck :: bool

definition healthcheck_file :: string where "healthcheck_file = ''/run/obrefresh/last-success''"

text \<open>
  The exit code of \<open>--healthcheck\<close>, from the modification time of the file (\<open>None\<close> when it
  cannot be read) and the present time, both in nanoseconds. A \<open>time.Duration\<close> is an \<open>int64\<close>:
  \<open>time.Since\<close> saturates at its bounds, the product \<open>2 * interval\<close> wraps around.
\<close>

definition int64_wrap :: "int \<Rightarrow> int" where
  "int64_wrap x = (x + 2 ^ 63) mod 2 ^ 64 - 2 ^ 63"

definition int64_clamp :: "int \<Rightarrow> int" where
  "int64_clamp x = max (- (2 ^ 63)) (min (2 ^ 63 - 1) x)"

definition run_healthcheck :: "int option \<Rightarrow> int \<Rightarrow> int \<Rightarrow> nat" where
  "run_healthcheck mtime now interval =
     (case mtime of None \<Rightarrow> 1
      | Some m \<Rightarrow>
          (let age = int64_clamp (now - m); window = int64_wrap (2 * interval)
           in if age > window then 1 else 0))"

lemma int64_wrap_double:
  "0 \<le> i \<Longrightarrow> i < 2 ^ 62 \<Longrightarrow> int64_wrap (2 * i) = 2 * i"
  "2 ^ 62 \<le> i \<Longrightarrow> i < 2 ^ 63 \<Longrightarrow> int64_wrap (2 * i) = 2 * i - 2 ^ 64"
proof -
  show "0 \<le> i \<Longrightarrow> i < 2 ^ 62 \<Longrightarrow> int64_wrap (2 * i) = 2 * i"
    by (simp add: int64_wrap_def)
  assume i: "2 ^ 62 \<le> i" "i < 2 ^ 63"
  have "(2 * i + 2 ^ 63) mod 2 ^ 64 = (2 * i + 2 ^ 63 - 2 ^ 64) mod 2 ^ 64"
    by (rule minus_mod_self2 [symmetric])
  also have "\<dots> = 2 * i + 2 ^ 63 - 2 ^ 64" using i by (intro mod_pos_pos_trivial) simp_all
  finally show "int64_wrap (2 * i) = 2 * i - 2 ^ 64" by (simp add: int64_wrap_def)
qed

text \<open>For intervals below \<open>2 ^ 62\<close> nanoseconds the probe fails exactly when the last success is more than two
  intervals old. From there on (some 146 years) the window has wrapped to a negative duration, and the probe
  fails however recent the last success is.\<close>

lemma int64_clamp_less:
  "x < 2 ^ 63 - 1 \<Longrightarrow> - (2 ^ 63) \<le> x \<Longrightarrow> x < int64_clamp a \<longleftrightarrow> x < a"
  unfolding int64_clamp_def by linarith

lemma healthcheck_window:
  "0 \<le> i \<Longrightarrow> i < 2 ^ 62 \<Longrightarrow> run_healthcheck (Some m) now i = 0 \<longleftrightarrow> now - m \<le> 2 * i"
  "2 ^ 62 \<le> i \<Longrightarrow> i < 2 ^ 63 \<Longrightarrow> m \<le> now \<Longrightarrow> run_healthcheck (Some m) now i = 1"
proof -
  assume i: "0 \<le> i" "i < 2 ^ 62"
  then have "2 * i < 2 ^ 63 - 1" "- (2 ^ 63) \<le> 2 * i" by simp_all
  note c = int64_clamp_less [OF this, of "now - m"]
  show "run_healthcheck (Some m) now i = 0 \<longleftrightarrow> now - m \<le> 2 * i"
    unfolding run_healthcheck_def option.case Let_def int64_wrap_double(1) [OF i] c by auto
next
  assume i: "2 ^ 62 \<le> i" "i < 2 ^ 63" and m: "m \<le> now"
  then have "2 * i - 2 ^ 64 < 2 ^ 63 - 1" "- (2 ^ 63) \<le> 2 * i - 2 ^ 64" by simp_all
  note c = int64_clamp_less [OF this, of "now - m"]
  have "2 * i - 2 ^ 64 < now - m" using i m by simp
  then show "run_healthcheck (Some m) now i = 1"
    unfolding run_healthcheck_def option.case Let_def int64_wrap_double(2) [OF i] c by simp
qed

text \<open>The set-up of \<open>main\<close>: an exit code, or the refresher to run.\<close>

definition obrefresh_setup ::
    "obrefresh_flags \<Rightarrow> bool \<Rightarrow> bool \<Rightarrow> (nat, refresher_config) result" where
  "obrefresh_setup fl in_cluster_ok client_ok =
     guardE (of_gateway fl = [] \<or> of_namespace fl = []) 2
    (guardE (of_gateway_uid fl = []) 2
    (guardE (of_master_address fl = []) 2
    (guardE (\<not> in_cluster_ok) 1
    (guardE (\<not> client_ok) 1
      (let addr = (if has_suffix (of_master_address fl) ''.onion'' then of_master_address fl
                   else of_master_address fl @ ''.onion'') in
       bindE (mapErr (\<lambda>_. 2) (parse_address addr)) (\<lambda>master.
       mapErr (\<lambda>_. 1) (new_refresher
         \<lparr>rf_gateway_name = of_gateway fl, rf_gateway_namespace = of_namespace fl,
          rf_master_key_path = of_master_key_path fl, rf_config_path = of_config fl,
          rf_pid_file = of_pidfile fl, rf_interval = of_interval fl, rf_master = master,
          rf_owner_uid = of_gateway_uid fl, rf_client = True,
          rf_healthcheck_file = healthcheck_file, rf_recorder = True\<rparr>)))))))"

definition obrefresh_main ::
    "obrefresh_flags \<Rightarrow> int option \<Rightarrow> int \<Rightarrow> bool \<Rightarrow> bool \<Rightarrow> (refresher_config \<Rightarrow> bool) \<Rightarrow> nat" where
  "obrefresh_main fl mtime now in_cluster_ok client_ok run_ok =
     (if of_healthcheck fl then run_healthcheck mtime now (of_interval fl)
      else case obrefresh_setup fl in_cluster_ok client_ok of
             Inl c \<Rightarrow> c
           | Inr cfg \<Rightarrow> if run_ok cfg then 0 else 1)"

lemma new_refresher_interval:
  "new_refresher cfg = Inr r \<Longrightarrow> 5 * second \<le> rf_interval r \<and>
     (5 * second \<le> rf_interval cfg \<longrightarrow> r = cfg)"
  by (auto simp: new_refresher_def result_iffs effective_interval_def min_interval_def Let_def
      second_def)

text \<open>The healthcheck compares with the interval as it was given, not with the one in use: with
  \<open>--interval 0\<close> the refresher runs every 30 seconds and its healthcheck fails a moment later.\<close>

lemma healthcheck_unclamped:
  "new_refresher cfg = Inr r \<Longrightarrow> rf_interval cfg = 0 \<Longrightarrow> m < now \<Longrightarrow>
     rf_interval r = 30 * second \<and> run_healthcheck (Some m) now (rf_interval cfg) = 1"
  by (auto simp: new_refresher_def result_iffs effective_interval_def min_interval_def Let_def
      second_def run_healthcheck_def int64_wrap_def int64_clamp_def)

text \<open>
  A refresher that starts has a usable configuration: its debounce interval is at least five
  seconds, its master address is the one given (with or without the \<open>.onion\<close> suffix), its paths
  are non-empty, so rendering the configuration cannot fail, whatever the Secrets are.
\<close>

lemma obrefresh_setup_sound:
  assumes "obrefresh_setup fl in_cluster_ok client_ok = Inr cfg"
  shows "5 * second \<le> rf_interval cfg \<and> length (pub_key (rf_master cfg)) = 32
    \<and> parse_address (trim_suffix (of_master_address fl) ''.onion'' @ ''.onion'') = Inr (rf_master cfg)
    \<and> (\<exists>t. config_text cfg objs = Inr t)"
proof -
  let ?m = "of_master_address fl"
  let ?addr = "if has_suffix ?m ''.onion'' then ?m else ?m @ ''.onion''"
  have a: "?addr = trim_suffix ?m ''.onion'' @ ''.onion''"
    by (auto simp: has_suffix_iff) (simp add: trim_suffix_def has_suffix_iff)
  obtain c where c: "new_refresher c = Inr cfg" "parse_address ?addr = Inr (rf_master c)"
    using assms unfolding obrefresh_setup_def Let_def
    by (auto simp: result_iffs)
  from c(1) have "rf_master_key_path cfg \<noteq> []" "rf_master cfg = rf_master c"
    by (auto simp: new_refresher_def result_iffs)
  then show ?thesis
    using new_refresher_interval [OF c(1)] c(2) parse_address_length [OF c(2)]
    by (auto simp: a config_text_def render_config_def)
qed

end
