(* ===== verification/Cmd_Flags.thy ===== *)
theory Cmd_Flags
  imports Prelude
begin

text \<open>
  The command lines of the small binaries, as Go's \<open>flag\<close> package reads them. \<open>go_flags_typed\<close> starts
  from the defaults; \<open>-name=value\<close>, \<open>--name=value\<close> and \<open>--name value\<close> set a flag, later settings win, the
  first argument that is not a flag ends the parsing. \<open>ok\<close> says which texts are values of a flag, and
  \<open>bools\<close> are the flags that take no further argument. \<open>go_flags\<close> is the case of string flags only.
  \<open>None\<close> is the exit with a usage message (\<open>-h\<close> and \<open>-help\<close>, which print it and exit with 0, included).
\<close>

definition flag_body :: "string \<Rightarrow> string option" where
  "flag_body a =
     (if length a < 2 \<or> hd a \<noteq> CHR ''-'' then None
      else Some (drop (if a ! 1 = CHR ''-'' then 2 else 1) a))"

fun go_flags_typed ::
    "(string \<Rightarrow> string \<Rightarrow> bool) \<Rightarrow> string list \<Rightarrow> string gomap \<Rightarrow> string list \<Rightarrow> string gomap option" where
  "go_flags_typed ok bools flags [] = Some flags"
| "go_flags_typed ok bools flags (a # rest) =
     (case flag_body a of
        None \<Rightarrow> Some flags
      | Some body \<Rightarrow>
          if body = [] then Some flags
          else if hd body = CHR ''-'' \<or> hd body = CHR ''='' then None
          else
            let name = takeWhile (\<lambda>c. c \<noteq> CHR ''='') body in
            if map_of flags name = None then None
            else if CHR ''='' \<in> set body then
              let v = drop (length name + 1) body in
              if \<not> ok name v then None else go_flags_typed ok bools (AList.update name v flags) rest
            else if name \<in> set bools then go_flags_typed ok bools (AList.update name ''true'' flags) rest
            else (case rest of
                [] \<Rightarrow> None
              | v # rest' \<Rightarrow>
                  if \<not> ok name v then None else go_flags_typed ok bools (AList.update name v flags) rest'))"

declare go_flags_typed.simps(2) [simp del]

abbreviation go_flags :: "string gomap \<Rightarrow> string list \<Rightarrow> string gomap option" where
  "go_flags \<equiv> go_flags_typed (\<lambda>_ _. True) []"

text \<open>\<open>strconv.ParseBool\<close>.\<close>

definition bool_value :: "string \<Rightarrow> bool option" where
  "bool_value s =
     (if s \<in> {''1'', ''t'', ''T'', ''TRUE'', ''true'', ''True''} then Some True
      else if s \<in> {''0'', ''f'', ''F'', ''FALSE'', ''false'', ''False''} then Some False else None)"

definition flag_or_empty :: "string gomap \<Rightarrow> string \<Rightarrow> string" where
  "flag_or_empty flags name = (case map_of flags name of None \<Rightarrow> [] | Some v \<Rightarrow> v)"

lemma takeWhile_name: "c \<notin> set n \<Longrightarrow> takeWhile (\<lambda>x. x \<noteq> c) (n @ c # v) = n"
  by (induction n) auto

text \<open>The form the operator writes: \<open>--name=value\<close>, whatever the value contains.\<close>

lemma typed_flags_eq:
  assumes "n \<noteq> []" "CHR ''='' \<notin> set n" "hd n \<noteq> CHR ''-''" "map_of flags n \<noteq> None" "ok n v"
  shows "go_flags_typed ok bools flags ((CHR ''-'' # CHR ''-'' # n @ CHR ''='' # v) # rest) =
    go_flags_typed ok bools (AList.update n v flags) rest"
proof -
  let ?body = "n @ CHR ''='' # v"
  have hd: "hd ?body = hd n" "hd n \<noteq> CHR ''=''" "?body \<noteq> []"
    using assms(1) by (simp_all, metis assms(1,2) hd_in_set)
  have body: "flag_body (CHR ''-'' # CHR ''-'' # ?body) = Some ?body"
    by (simp add: flag_body_def)
  have name: "takeWhile (\<lambda>c. c \<noteq> CHR ''='') ?body = n" by (rule takeWhile_name [OF assms(2)])
  have drop: "drop (length n + 1) ?body = v" by simp
  have eq: "CHR ''='' \<in> set ?body" by simp
  show ?thesis
    by (subst go_flags_typed.simps) (simp only: body option.case Let_def name hd drop if_False eq assms(3-5) if_True simp_thms)
qed

text \<open>The forms without \<open>=\<close>: the value in the next argument, which is taken as it is, or a flag that is
  set by its name alone.\<close>

lemma flag_name:
  assumes "n \<noteq> []" "CHR ''='' \<notin> set n"
  shows "hd n \<noteq> CHR ''=''" "flag_body (CHR ''-'' # CHR ''-'' # n) = Some n" "takeWhile (\<lambda>c. c \<noteq> CHR ''='') n = n"
proof -
  show "hd n \<noteq> CHR ''=''" using assms hd_in_set [of n] by metis
qed (use assms in \<open>auto simp: flag_body_def takeWhile_eq_all_conv\<close>)

lemma typed_flags_next:
  assumes "n \<noteq> []" "CHR ''='' \<notin> set n" "hd n \<noteq> CHR ''-''" "map_of flags n \<noteq> None" "n \<notin> set bools" "ok n v"
  shows "go_flags_typed ok bools flags ((CHR ''-'' # CHR ''-'' # n) # v # rest) =
    go_flags_typed ok bools (AList.update n v flags) rest"
  by (subst go_flags_typed.simps)
    (simp only: flag_name [OF assms(1,2)] option.case Let_def assms if_False if_True simp_thms list.case)

lemma typed_flags_bool:
  assumes "n \<noteq> []" "CHR ''='' \<notin> set n" "hd n \<noteq> CHR ''-''" "map_of flags n \<noteq> None" "n \<in> set bools"
  shows "go_flags_typed ok bools flags ((CHR ''-'' # CHR ''-'' # n) # rest) =
    go_flags_typed ok bools (AList.update n ''true'' flags) rest"
  by (subst go_flags_typed.simps)
    (simp only: flag_name [OF assms(1,2)] option.case Let_def assms if_False if_True simp_thms)

text \<open>A whole command line of the form the operator writes.\<close>

definition flag_arg :: "string \<times> string \<Rightarrow> string" where
  "flag_arg nv = CHR ''-'' # CHR ''-'' # fst nv @ CHR ''='' # snd nv"

definition flag_name_ok :: "string \<Rightarrow> bool" where
  "flag_name_ok n \<longleftrightarrow> n \<noteq> [] \<and> CHR ''='' \<notin> set n \<and> hd n \<noteq> CHR ''-''"

lemma typed_flags_args:
  assumes "\<forall>(n, v) \<in> set nvs. flag_name_ok n \<and> map_of flags n \<noteq> None \<and> ok n v"
  shows "go_flags_typed ok bools flags (map flag_arg nvs) = Some (fold (\<lambda>(n, v). AList.update n v) nvs flags)"
  using assms
proof (induction nvs arbitrary: flags)
  case Nil
  then show ?case by simp
next
  case (Cons nv nvs)
  obtain n v where nv: "nv = (n, v)" by (cases nv)
  have n: "flag_name_ok n" "map_of flags n \<noteq> None" "ok n v"
    using Cons.prems by (auto simp: nv)
  have "\<forall>(m, w) \<in> set nvs. flag_name_ok m \<and> map_of (AList.update n v flags) m \<noteq> None \<and> ok m w"
    using Cons.prems by (auto simp: update_conv')
  moreover have "flag_arg nv = CHR ''-'' # CHR ''-'' # n @ CHR ''='' # v" by (simp add: nv flag_arg_def)
  ultimately show ?case
    using Cons.IH n typed_flags_eq [of n flags ok v bools "map flag_arg nvs"] by (simp add: nv flag_name_ok_def)
qed

text \<open>With string flags only.\<close>

lemma go_flags_eq:
  assumes "n \<noteq> []" "CHR ''='' \<notin> set n" "hd n \<noteq> CHR ''-''" "map_of flags n \<noteq> None"
  shows "go_flags flags ((CHR ''-'' # CHR ''-'' # n @ CHR ''='' # v) # rest) = go_flags (AList.update n v flags) rest"
  using assms by (rule typed_flags_eq) simp

lemma go_flags_next:
  assumes "n \<noteq> []" "CHR ''='' \<notin> set n" "hd n \<noteq> CHR ''-''" "map_of flags n \<noteq> None"
  shows "go_flags flags ((CHR ''-'' # CHR ''-'' # n) # v # rest) = go_flags (AList.update n v flags) rest"
  using assms by (rule typed_flags_next) simp_all

lemmas go_flags_set = go_flags_eq go_flags_next

end
