(* ===== verification/Kube_Objects.thy ===== *)
theory Kube_Objects
  imports Kube_Meta
begin

text \<open>
  The remaining Kubernetes objects the controllers read and write: the policies of
  \<open>api/v1alpha1\<close>, Gateways, ReferenceGrants, and the child resources of a Gateway. Types of
  third-party packages carry the fields the program sets or reads; resource quantities are kept as
  the text they are parsed from, and a port reference (\<open>intstr\<close>) is a number or a name.
\<close>

subsection \<open>Policies\<close>

text \<open>The status of a policy for one of its targets.\<close>

record ancestor_status =
  an_ref :: parent_ref
  an_controller :: string
  an_conditions :: "condition list"

record resource_requirements =
  rq_requests :: "string gomap"
  rq_limits :: "string gomap"

definition no_resources :: resource_requirements where
  "no_resources = \<lparr>rq_requests = [], rq_limits = []\<rparr>"

record tor_service_policy_spec =
  tsp_target_refs :: "target_ref list"
  tsp_vanity_prefix :: string
  tsp_vanity_acknowledge :: bool
  tsp_log_level :: string
  tsp_pow :: "bool option"
  tsp_resources :: "resource_requirements option"

record tor_service_policy =
  tsp_meta :: object_meta
  tsp_spec :: tor_service_policy_spec
  tsp_ancestors :: "ancestor_status list"

record secret_ref =
  sr_name :: string
  sr_namespace :: string

definition client_auth_mode_strict :: string where "client_auth_mode_strict = ''Strict''"
definition client_auth_mode_audit :: string where "client_auth_mode_audit = ''Audit''"

record tor_client_auth_policy_spec =
  tcap_target_refs :: "target_ref list"
  tcap_clients_secret :: secret_ref
  tcap_mode :: string

record tor_client_auth_policy =
  tcap_meta :: object_meta
  tcap_spec :: tor_client_auth_policy_spec
  tcap_ancestors :: "ancestor_status list"

text \<open>The refresh interval is a number of nanoseconds.\<close>

record onion_balance_policy_spec =
  obp_target_refs :: "target_ref list"
  obp_replicas :: nat
  obp_refresh_interval :: int
  obp_master_key :: secret_ref
  obp_backend_resources :: "resource_requirements option"
  obp_frontend_resources :: "resource_requirements option"

record onion_balance_policy =
  obp_meta :: object_meta
  obp_spec :: onion_balance_policy_spec
  obp_ancestors :: "ancestor_status list"
  obp_ready_backends :: nat

subsection \<open>Gateways and grants\<close>

record listener =
  ls_name :: string
  ls_protocol :: string

record status_address =
  sa_type :: "string option"
  sa_value :: string

record listener_status =
  lst_name :: string
  lst_kinds :: "(string option \<times> string) list"
  lst_attached :: nat
  lst_conditions :: "condition list"

record gateway =
  gw_meta :: object_meta
  gw_class :: string
  gw_listeners :: "listener list"
  gw_addresses :: "status_address list"
  gw_conditions :: "condition list"
  gw_listener_status :: "listener_status list"

abbreviation gw_name :: "gateway \<Rightarrow> string" where "gw_name g \<equiv> om_name (gw_meta g)"
abbreviation gw_ns :: "gateway \<Rightarrow> string" where "gw_ns g \<equiv> om_ns (gw_meta g)"
abbreviation gw_uid :: "gateway \<Rightarrow> string" where "gw_uid g \<equiv> om_uid (gw_meta g)"

record gateway_class =
  gc_name :: string
  gc_generation :: int
  gc_controller :: string
  gc_conditions :: "condition list"

record grant_from =
  gf_group :: string
  gf_kind :: string
  gf_namespace :: string

record grant_to =
  gt_group :: string
  gt_kind :: string
  gt_name :: "string option"

record reference_grant =
  rg_ns :: string
  rg_name :: string
  rg_from :: "grant_from list"
  rg_to :: "grant_to list"

subsection \<open>Pods\<close>

datatype int_or_string = IntPort int | StrPort string

text \<open>\<open>IntOrString.String()\<close>.\<close>

fun port_string :: "int_or_string \<Rightarrow> string" where
  "port_string (IntPort i) = show_int i"
| "port_string (StrPort s) = s"

datatype volume_source = SecretVolume string int | ConfigMapVolume string | EmptyDirVolume

record volume =
  vol_name :: string
  vol_source :: volume_source

record volume_mount =
  vm_name :: string
  vm_path :: string
  vm_read_only :: bool

record security_context =
  sc_allow_escalation :: "bool option"
  sc_read_only_root :: "bool option"
  sc_non_root :: "bool option"
  sc_drop :: "string list"

datatype probe_handler = HttpGet string int_or_string | ExecCommand "string list"

text \<open>Zero in a numeric field of a probe means that it is not set.\<close>

record probe =
  pb_handler :: probe_handler
  pb_initial_delay :: nat
  pb_period :: nat
  pb_timeout :: nat
  pb_failure_threshold :: nat

record container_port =
  cp_name :: string
  cp_port :: int
  cp_protocol :: string

record container =
  ct_name :: string
  ct_image :: string
  ct_pull_policy :: string
  ct_args :: "string list"
  ct_env :: "(string \<times> string) list"
  ct_resources :: resource_requirements
  ct_ports :: "container_port list"
  ct_startup :: "probe option"
  ct_liveness :: "probe option"
  ct_readiness :: "probe option"
  ct_mounts :: "volume_mount list"
  ct_security :: "security_context option"

record pod_security =
  psc_non_root :: "bool option"
  psc_user :: "int option"
  psc_group :: "int option"
  psc_fs_group :: "int option"
  psc_seccomp :: string

record spread_constraint =
  sp_max_skew :: nat
  sp_topology_key :: string
  sp_when_unsatisfiable :: string
  sp_selector :: "string gomap"

record pod_spec =
  pod_service_account :: string
  pod_share_process :: bool
  pod_restart_policy :: string
  pod_security :: pod_security
  pod_volumes :: "volume list"
  pod_init :: "container list"
  pod_containers :: "container list"
  pod_spread :: "spread_constraint list"

subsection \<open>Child resources\<close>

record config_map =
  cm_meta :: object_meta
  cm_data :: "string gomap"

record service_port =
  svp_name :: string
  svp_port :: int
  svp_target :: int_or_string
  svp_protocol :: string

record service =
  svc_meta :: object_meta
  svc_cluster_ip :: string
  svc_selector :: "string gomap"
  svc_ports :: "service_port list"

record service_account =
  sac_meta :: object_meta

record policy_rule =
  pr_api_groups :: "string list"
  pr_resources :: "string list"
  pr_verbs :: "string list"
  pr_resource_names :: "string list"

record role =
  role_meta :: object_meta
  role_rules :: "policy_rule list"

record role_subject =
  rs_kind :: string
  rs_name :: string
  rs_namespace :: string

record role_binding =
  rb_meta :: object_meta
  rb_role_group :: string
  rb_role_kind :: string
  rb_role_name :: string
  rb_subjects :: "role_subject list"

record deployment =
  dep_meta :: object_meta
  dep_replicas :: nat
  dep_selector :: "string gomap"
  dep_strategy :: string
  dep_pod_labels :: "string gomap"
  dep_pod :: pod_spec
  dep_conditions :: "(string \<times> string) list"

record stateful_set =
  ss_meta :: object_meta
  ss_replicas :: "nat option"
  ss_selector :: "string gomap"
  ss_service_name :: string
  ss_pod_management :: string
  ss_pod_labels :: "string gomap"
  ss_pod :: pod_spec
  ss_status_replicas :: nat

record job =
  job_meta :: object_meta
  job_backoff_limit :: nat
  job_active_deadline :: int
  job_ttl :: nat
  job_pod_labels :: "string gomap"
  job_pod_annotations :: "string gomap"
  job_pod :: pod_spec
  job_conditions :: "(string \<times> string) list"

datatype peer =
    NamespacePeer "string gomap"
  | PodPeer "string gomap" "string gomap"
  | IpBlockPeer string "string list"

record policy_port =
  pp_protocol :: string
  pp_port :: int_or_string
  pp_end_port :: "int option"

record egress_rule =
  eg_to :: "peer list"
  eg_ports :: "policy_port list"

record network_policy =
  np_meta :: object_meta
  np_pod_selector :: "string gomap"
  np_policy_types :: "string list"
  np_egress :: "egress_rule list"

subsection \<open>Metadata of children\<close>

text \<open>
  What \<open>SetControllerReference\<close> puts on a child that is being built: an owner reference to the
  Gateway, marked as controller. It cannot fail on a fresh object in the Gateway's namespace.
\<close>

definition controller_reference :: "gateway \<Rightarrow> owner_ref" where
  "controller_reference g =
     \<lparr>ow_kind = ''Gateway'', ow_name = gw_name g, ow_uid = gw_uid g, ow_controller = Some True\<rparr>"

definition bare_meta :: "string \<Rightarrow> string \<Rightarrow> string gomap \<Rightarrow> object_meta" where
  "bare_meta ns name labels =
     \<lparr>om_ns = ns, om_name = name, om_uid = [], om_version = [], om_generation = 0, om_deleting = False,
      om_labels = labels, om_annotations = [], om_finalizers = [], om_owners = []\<rparr>"

definition child_meta :: "gateway \<Rightarrow> string \<Rightarrow> string gomap \<Rightarrow> object_meta" where
  "child_meta g name labels =
     bare_meta (gw_ns g) name labels\<lparr>om_owners := [controller_reference g]\<rparr>"

lemma bare_meta_simps [simp]:
  "om_ns (bare_meta ns n l) = ns" "om_name (bare_meta ns n l) = n" "om_labels (bare_meta ns n l) = l"
  "om_owners (bare_meta ns n l) = []"
  by (simp_all add: bare_meta_def)

lemma child_meta_simps [simp]:
  "om_ns (child_meta g n l) = gw_ns g" "om_name (child_meta g n l) = n"
  "om_labels (child_meta g n l) = l" "om_owners (child_meta g n l) = [controller_reference g]"
  by (simp_all add: child_meta_def)

lemma child_owned [simp]: "owned_by_uid (gw_uid g) (child_meta g n l)"
  by (simp add: owned_by_uid_def controller_reference_def)

end
