(* ===== verification/Api_Prog.thy ===== *)
theory Api_Prog
  imports Kube_Objects Hs_Keys
begin

text \<open>
  Controller code talks to the API server. A reconciler is modelled as a program that returns a
  result or performs one call and goes on with the answer; what the server answers is not modelled
  at all, so a statement about all answers covers every cluster, every fault and every
  interleaving with other clients. \<open>Upsert\<close> is \<open>controllerutil.CreateOrUpdate\<close>: the call carries
  the named blank object and the mutation closure the source passes. \<open>Entropy\<close> is a read of the
  random source.
\<close>

subsection \<open>Objects and calls\<close>

datatype obj =
    OGateway gateway | OGatewayClass gateway_class | ORoute http_route | OGrant reference_grant
  | OTsp tor_service_policy | OTcap tor_client_auth_policy | OObp onion_balance_policy
  | OSecret secret | OConfigMap config_map | OService service | ODeployment deployment
  | OStatefulSet stateful_set | OServiceAccount service_account | ORole role
  | ORoleBinding role_binding | OJob job | ONetworkPolicy network_policy

datatype kind =
    KGateway | KGatewayClass | KRoute | KGrant | KTsp | KTcap | KObp | KSecret | KConfigMap
  | KService | KDeployment | KStatefulSet | KServiceAccount | KRole | KRoleBinding | KJob
  | KNetworkPolicy

fun obj_kind :: "obj \<Rightarrow> kind" where
  "obj_kind (OGateway _) = KGateway"
| "obj_kind (OGatewayClass _) = KGatewayClass"
| "obj_kind (ORoute _) = KRoute"
| "obj_kind (OGrant _) = KGrant"
| "obj_kind (OTsp _) = KTsp"
| "obj_kind (OTcap _) = KTcap"
| "obj_kind (OObp _) = KObp"
| "obj_kind (OSecret _) = KSecret"
| "obj_kind (OConfigMap _) = KConfigMap"
| "obj_kind (OService _) = KService"
| "obj_kind (ODeployment _) = KDeployment"
| "obj_kind (OStatefulSet _) = KStatefulSet"
| "obj_kind (OServiceAccount _) = KServiceAccount"
| "obj_kind (ORole _) = KRole"
| "obj_kind (ORoleBinding _) = KRoleBinding"
| "obj_kind (OJob _) = KJob"
| "obj_kind (ONetworkPolicy _) = KNetworkPolicy"

definition meta_key :: "object_meta \<Rightarrow> nsname" where
  "meta_key m = (om_ns m, om_name m)"

fun obj_key :: "obj \<Rightarrow> nsname" where
  "obj_key (OGateway x) = meta_key (gw_meta x)"
| "obj_key (OGatewayClass x) = ([], gc_name x)"
| "obj_key (ORoute x) = (rt_ns x, rt_name x)"
| "obj_key (OGrant x) = (rg_ns x, rg_name x)"
| "obj_key (OTsp x) = meta_key (tsp_meta x)"
| "obj_key (OTcap x) = meta_key (tcap_meta x)"
| "obj_key (OObp x) = meta_key (obp_meta x)"
| "obj_key (OSecret x) = meta_key (sec_meta x)"
| "obj_key (OConfigMap x) = meta_key (cm_meta x)"
| "obj_key (OService x) = meta_key (svc_meta x)"
| "obj_key (ODeployment x) = meta_key (dep_meta x)"
| "obj_key (OStatefulSet x) = meta_key (ss_meta x)"
| "obj_key (OServiceAccount x) = meta_key (sac_meta x)"
| "obj_key (ORole x) = meta_key (role_meta x)"
| "obj_key (ORoleBinding x) = meta_key (rb_meta x)"
| "obj_key (OJob x) = meta_key (job_meta x)"
| "obj_key (ONetworkPolicy x) = meta_key (np_meta x)"

datatype api_error = NotFound | Conflict | AlreadyExists | Unexpected string

datatype call =
    Get kind nsname
  | ListObjs kind "string option" "string gomap"
  | Create obj
  | Update obj
  | StatusUpdate obj
  | PatchMeta obj
  | Upsert kind nsname "obj \<Rightarrow> obj"
  | Delete kind nsname
  | RecordEvent nsname string
  | Entropy
  | ApiServerList kind "string option" "string gomap"

datatype answer =
    Failed api_error | Done | Object obj | Objects "obj list" | RandomBytes "byte list option"

subsection \<open>Programs\<close>

datatype 'a prog = Ret 'a | Call call "answer \<Rightarrow> 'a prog"

primrec bindP :: "'a prog \<Rightarrow> ('a \<Rightarrow> 'b prog) \<Rightarrow> 'b prog" where
  "bindP (Ret x) f = f x"
| "bindP (Call c k) f = Call c (\<lambda>r. bindP (k r) f)"

text \<open>Programs that may fail; \<open>if err != nil { return err }\<close> is \<open>bindA\<close>.\<close>

type_synonym ('e, 'a) act = "('e, 'a) result prog"

definition bindA :: "('e, 'a) act \<Rightarrow> ('a \<Rightarrow> ('e, 'b) act) \<Rightarrow> ('e, 'b) act" where
  "bindA p f = bindP p (\<lambda>r. case r of Inl e \<Rightarrow> Ret (Inl e) | Inr x \<Rightarrow> f x)"

definition wrapA :: "('e \<Rightarrow> 'f) \<Rightarrow> ('e, 'a) act \<Rightarrow> ('f, 'a) act" where
  "wrapA h p = bindP p (\<lambda>r. Ret (mapErr h r))"

abbreviation okA :: "'a \<Rightarrow> ('e, 'a) act" where "okA x \<equiv> Ret (Inr x)"
abbreviation failA :: "'e \<Rightarrow> ('e, 'a) act" where "failA e \<equiv> Ret (Inl e)"

text \<open>A loop whose body may fail, and a loop that goes on with a value.\<close>

fun eachA :: "('b \<Rightarrow> ('e, unit) act) \<Rightarrow> 'b list \<Rightarrow> ('e, unit) act" where
  "eachA body [] = okA ()"
| "eachA body (x # xs) = bindA (body x) (\<lambda>_. eachA body xs)"

fun foldA :: "('b \<Rightarrow> 'a \<Rightarrow> ('e, 'a) act) \<Rightarrow> 'b list \<Rightarrow> 'a \<Rightarrow> ('e, 'a) act" where
  "foldA body [] a = okA a"
| "foldA body (x # xs) a = bindA (body x a) (\<lambda>a'. foldA body xs a')"

text \<open>The typed client: a wrong kind of object in an answer is a decoding error.\<close>

definition bad_answer :: api_error where "bad_answer = Unexpected ''decode''"

definition get_obj :: "kind \<Rightarrow> (obj \<Rightarrow> 'a option) \<Rightarrow> nsname \<Rightarrow> (api_error, 'a) act" where
  "get_obj k un key = Call (Get k key) (\<lambda>r. Ret (case r of
     Failed e \<Rightarrow> Inl e
   | Object ob \<Rightarrow> (case un ob of Some x \<Rightarrow> Inr x | None \<Rightarrow> Inl bad_answer)
   | _ \<Rightarrow> Inl bad_answer))"

definition decode_list :: "(obj \<Rightarrow> 'a option) \<Rightarrow> answer \<Rightarrow> (api_error, 'a list) result" where
  "decode_list un r =
     (case r of
        Failed e \<Rightarrow> Inl e
      | Objects obs \<Rightarrow> (case those (map un obs) of Some xs \<Rightarrow> Inr xs | None \<Rightarrow> Inl bad_answer)
      | _ \<Rightarrow> Inl bad_answer)"

definition list_objs ::
    "kind \<Rightarrow> (obj \<Rightarrow> 'a option) \<Rightarrow> string option \<Rightarrow> string gomap \<Rightarrow> (api_error, 'a list) act" where
  "list_objs k un ns labels = Call (ListObjs k ns labels) (\<lambda>r. Ret (decode_list un r))"

text \<open>The object of each kind in an answer.\<close>

definition un_gateway :: "obj \<Rightarrow> gateway option" where
  "un_gateway ob = (case ob of OGateway x \<Rightarrow> Some x | _ \<Rightarrow> None)"
definition un_gateway_class :: "obj \<Rightarrow> gateway_class option" where
  "un_gateway_class ob = (case ob of OGatewayClass x \<Rightarrow> Some x | _ \<Rightarrow> None)"
definition un_route :: "obj \<Rightarrow> http_route option" where
  "un_route ob = (case ob of ORoute x \<Rightarrow> Some x | _ \<Rightarrow> None)"
definition un_grant :: "obj \<Rightarrow> reference_grant option" where
  "un_grant ob = (case ob of OGrant x \<Rightarrow> Some x | _ \<Rightarrow> None)"
definition un_tsp :: "obj \<Rightarrow> tor_service_policy option" where
  "un_tsp ob = (case ob of OTsp x \<Rightarrow> Some x | _ \<Rightarrow> None)"
definition un_tcap :: "obj \<Rightarrow> tor_client_auth_policy option" where
  "un_tcap ob = (case ob of OTcap x \<Rightarrow> Some x | _ \<Rightarrow> None)"
definition un_obp :: "obj \<Rightarrow> onion_balance_policy option" where
  "un_obp ob = (case ob of OObp x \<Rightarrow> Some x | _ \<Rightarrow> None)"
definition un_secret :: "obj \<Rightarrow> secret option" where
  "un_secret ob = (case ob of OSecret x \<Rightarrow> Some x | _ \<Rightarrow> None)"
definition un_config_map :: "obj \<Rightarrow> config_map option" where
  "un_config_map ob = (case ob of OConfigMap x \<Rightarrow> Some x | _ \<Rightarrow> None)"
definition un_service :: "obj \<Rightarrow> service option" where
  "un_service ob = (case ob of OService x \<Rightarrow> Some x | _ \<Rightarrow> None)"
definition un_deployment :: "obj \<Rightarrow> deployment option" where
  "un_deployment ob = (case ob of ODeployment x \<Rightarrow> Some x | _ \<Rightarrow> None)"
definition un_stateful_set :: "obj \<Rightarrow> stateful_set option" where
  "un_stateful_set ob = (case ob of OStatefulSet x \<Rightarrow> Some x | _ \<Rightarrow> None)"
definition un_service_account :: "obj \<Rightarrow> service_account option" where
  "un_service_account ob = (case ob of OServiceAccount x \<Rightarrow> Some x | _ \<Rightarrow> None)"
definition un_role :: "obj \<Rightarrow> role option" where
  "un_role ob = (case ob of ORole x \<Rightarrow> Some x | _ \<Rightarrow> None)"
definition un_role_binding :: "obj \<Rightarrow> role_binding option" where
  "un_role_binding ob = (case ob of ORoleBinding x \<Rightarrow> Some x | _ \<Rightarrow> None)"
definition un_job :: "obj \<Rightarrow> job option" where
  "un_job ob = (case ob of OJob x \<Rightarrow> Some x | _ \<Rightarrow> None)"
definition un_network_policy :: "obj \<Rightarrow> network_policy option" where
  "un_network_policy ob = (case ob of ONetworkPolicy x \<Rightarrow> Some x | _ \<Rightarrow> None)"

lemmas un_defs [tg_defs] = un_gateway_def un_gateway_class_def un_route_def un_grant_def un_tsp_def un_tcap_def un_obp_def un_secret_def un_config_map_def un_service_def un_deployment_def un_stateful_set_def un_service_account_def un_role_def un_role_binding_def un_job_def un_network_policy_def

text \<open>A write, and a delete whose \<open>NotFound\<close> is ignored (\<open>client.IgnoreNotFound\<close>).\<close>

definition write_call :: "call \<Rightarrow> (api_error, unit) act" where
  "write_call c = Call c (\<lambda>r. Ret (case r of Failed e \<Rightarrow> Inl e | _ \<Rightarrow> Inr ()))"

definition delete_if_present :: "kind \<Rightarrow> nsname \<Rightarrow> (api_error, unit) act" where
  "delete_if_present k key = Call (Delete k key) (\<lambda>r. Ret (case r of
     Failed e \<Rightarrow> if e = NotFound then Inr () else Inl e | _ \<Rightarrow> Inr ()))"

definition record_event :: "nsname \<Rightarrow> string \<Rightarrow> ('e, unit) act" where
  "record_event key reason = Call (RecordEvent key reason) (\<lambda>_. okA ())"

text \<open>\<open>retry.RetryOnConflict\<close> with a number of attempts.\<close>

fun retry_on_conflict :: "nat \<Rightarrow> (api_error, 'a) act \<Rightarrow> (api_error, 'a) act" where
  "retry_on_conflict 0 p = p"
| "retry_on_conflict (Suc n) p =
     bindP p (\<lambda>r. if r = Inl Conflict then retry_on_conflict n p else Ret r)"

subsection \<open>What holds whatever the server answers\<close>

text \<open>
  \<open>always E P Q p\<close>: if the server's answers satisfy \<open>E\<close>, every call that \<open>p\<close> makes satisfies \<open>P\<close>
  and its result \<open>Q\<close>.
\<close>

primrec always :: "(call \<Rightarrow> answer \<Rightarrow> bool) \<Rightarrow> (call \<Rightarrow> bool) \<Rightarrow> ('a \<Rightarrow> bool) \<Rightarrow> 'a prog \<Rightarrow> bool" where
  "always E P Q (Ret x) = Q x"
| "always E P Q (Call c k) = (P c \<and> (\<forall>r. E c r \<longrightarrow> always E P Q (k r)))"

abbreviation any_answer :: "call \<Rightarrow> answer \<Rightarrow> bool" where "any_answer \<equiv> \<lambda>_ _. True"

text \<open>Running a program against a given server.\<close>

primrec run_prog :: "('w \<Rightarrow> call \<Rightarrow> answer \<times> 'w) \<Rightarrow> 'a prog \<Rightarrow> 'w \<Rightarrow> (call list \<times> 'a) \<times> 'w" where
  "run_prog serve (Ret x) w = (([], x), w)"
| "run_prog serve (Call c k) w =
     (case serve w c of (r, w') \<Rightarrow>
        case run_prog serve (k r) w' of ((cs, x), w'') \<Rightarrow> ((c # cs, x), w''))"

lemma always_bindP [simp]: "always E P R (bindP p f) = always E P (\<lambda>x. always E P R (f x)) p"
  by (induction p) simp_all

lemma always_mono:
  "always E P Q p \<Longrightarrow> (\<And>c. P c \<Longrightarrow> P' c) \<Longrightarrow> (\<And>x. Q x \<Longrightarrow> Q' x) \<Longrightarrow> always E P' Q' p"
  by (induction p) auto

lemma always_conj:
  "always E P Q p \<Longrightarrow> always E P' Q' p \<Longrightarrow> always E (\<lambda>c. P c \<and> P' c) (\<lambda>x. Q x \<and> Q' x) p"
  by (induction p) auto

lemma always_bindA [simp]:
  "always E P R (bindA p f) =
     always E P (\<lambda>r. case r of Inl e \<Rightarrow> R (Inl e) | Inr x \<Rightarrow> always E P R (f x)) p"
proof -
  have "(\<lambda>x. always E P R (case x of Inl e \<Rightarrow> Ret (Inl e) | Inr y \<Rightarrow> f y)) =
      (\<lambda>r. case r of Inl e \<Rightarrow> R (Inl e) | Inr x \<Rightarrow> always E P R (f x))"
    by (intro ext) (simp split: sum.splits)
  then show ?thesis by (simp add: bindA_def)
qed

lemma always_wrapA [simp]: "always E P Q (wrapA h p) = always E P (\<lambda>r. Q (mapErr h r)) p"
  by (simp add: wrapA_def)

text \<open>When the result does not matter.\<close>

abbreviation calls :: "(call \<Rightarrow> bool) \<Rightarrow> 'a prog \<Rightarrow> bool" where
  "calls P \<equiv> always any_answer P (\<lambda>_. True)"

lemma calls_bindP: "calls P p \<Longrightarrow> (\<And>x. calls P (f x)) \<Longrightarrow> calls P (bindP p f)"
  by (induction p) simp_all

lemma calls_bindA: "calls P p \<Longrightarrow> (\<And>x. calls P (f x)) \<Longrightarrow> calls P (bindA p f)"
  unfolding bindA_def by (rule calls_bindP) (auto split: sum.splits)

lemma calls_wrapA: "calls P (wrapA h p) = calls P p"
  by simp

lemma calls_eachA: "(\<And>x. x \<in> set xs \<Longrightarrow> calls P (body x)) \<Longrightarrow> calls P (eachA body xs)"
  by (induction xs) (auto intro: calls_bindA simp del: always_bindA)

lemma calls_foldA: "(\<And>x a. x \<in> set xs \<Longrightarrow> calls P (body x a)) \<Longrightarrow> calls P (foldA body xs a)"
  by (induction xs arbitrary: a) (auto intro: calls_bindA simp del: always_bindA)

lemma calls_retry: "calls P p \<Longrightarrow> calls P (retry_on_conflict n p)"
proof (induction n)
  case (Suc n)
  have "always any_answer P (\<lambda>x. always any_answer P (\<lambda>_. True)
      (if x = Inl Conflict then retry_on_conflict n p else Ret x)) p"
    using Suc.prems by (rule always_mono) (simp_all add: Suc)
  then show ?case by simp
qed simp

lemma calls_run: "calls P p \<Longrightarrow> run_prog serve p w = ((cs, x), w') \<Longrightarrow> \<forall>c \<in> set cs. P c"
  by (induction p arbitrary: w cs x w') (fastforce split: prod.splits)+

lemmas calls_intros = calls_bindP calls_bindA calls_eachA calls_foldA calls_retry

subsection \<open>Loops with an invariant\<close>

lemma always_foldA:
  assumes "\<And>x a. x \<in> set xs \<Longrightarrow> I a \<Longrightarrow>
      always E P (\<lambda>r. case r of Inl e \<Rightarrow> Q (Inl e) | Inr a' \<Rightarrow> I a') (body x a)"
    and "\<And>a. I a \<Longrightarrow> Q (Inr a)" and "I a"
  shows "always E P Q (foldA body xs a)"
  using assms
proof (induction xs arbitrary: a)
  case (Cons x xs)
  have "always E P (\<lambda>r. case r of Inl e \<Rightarrow> Q (Inl e) | Inr a' \<Rightarrow> I a') (body x a)"
    using Cons.prems by simp
  then show ?case
    unfolding foldA.simps always_bindA
    by (rule always_mono) (use Cons in \<open>auto split: sum.splits\<close>)
qed simp

lemma always_eachA:
  assumes "\<And>x. x \<in> set xs \<Longrightarrow> always E P (\<lambda>_. True) (body x)"
  shows "always E P (\<lambda>_. True) (eachA body xs)"
  using assms
proof (induction xs)
  case (Cons x xs)
  have "always E P (\<lambda>_. True) (body x)" using Cons.prems by simp
  then show ?case
    unfolding eachA.simps always_bindA
    by (rule always_mono) (use Cons in \<open>auto split: sum.splits\<close>)
qed simp

text \<open>Calls that change nothing.\<close>

fun is_read :: "call \<Rightarrow> bool" where
  "is_read (Get _ _) = True"
| "is_read (ListObjs _ _ _) = True"
| "is_read (ApiServerList _ _ _) = True"
| "is_read _ = False"

lemma reads_get_obj [simp]: "is_read (Get k key) \<Longrightarrow> P (Get k key) \<Longrightarrow>
    always E P (\<lambda>_. True) (get_obj k un key)"
  by (simp add: get_obj_def)

subsection \<open>Running against fixed answers\<close>

text \<open>The calls and the result of a program when the server's answers do not change meanwhile.\<close>

primrec replay :: "(call \<Rightarrow> answer) \<Rightarrow> 'a prog \<Rightarrow> call list \<times> 'a" where
  "replay A (Ret x) = ([], x)"
| "replay A (Call c k) = (case replay A (k (A c)) of (cs, x) \<Rightarrow> (c # cs, x))"

lemma replay_bindP:
  "replay A (bindP p f) =
     (fst (replay A p) @ fst (replay A (f (snd (replay A p)))), snd (replay A (f (snd (replay A p)))))"
  by (induction p) (simp_all split: prod.splits)

lemma replay_bindP_cong:
  "replay A p = replay B p \<Longrightarrow> (\<And>x. snd (replay A p) = x \<Longrightarrow> replay A (f x) = replay B (f x)) \<Longrightarrow>
     replay A (bindP p f) = replay B (bindP p f)"
  by (simp add: replay_bindP)

lemma replay_bindA_cong:
  "replay A p = replay B p \<Longrightarrow> (\<And>x. snd (replay A p) = Inr x \<Longrightarrow> replay A (f x) = replay B (f x)) \<Longrightarrow>
     replay A (bindA p f) = replay B (bindA p f)"
  unfolding bindA_def by (rule replay_bindP_cong) (auto split: sum.splits)

lemma replay_foldA_cong:
  "(\<And>x a. x \<in> set xs \<Longrightarrow> replay A (body x a) = replay B (body x a)) \<Longrightarrow>
     replay A (foldA body xs a) = replay B (foldA body xs a)"
  by (induction xs arbitrary: a) (auto intro: replay_bindA_cong)

lemma replay_eachA_cong:
  "(\<And>x. x \<in> set xs \<Longrightarrow> replay A (body x) = replay B (body x)) \<Longrightarrow>
     replay A (eachA body xs) = replay B (eachA body xs)"
  by (induction xs) (auto intro: replay_bindA_cong)

lemma always_replay: "always E P Q p \<Longrightarrow> (\<And>c. E c (A c)) \<Longrightarrow>
    list_all P (fst (replay A p)) \<and> Q (snd (replay A p))"
proof (induction p)
  case (Call c k)
  have "always E P Q (k (A c))" using Call.prems by simp
  from Call.IH [OF rangeI this Call.prems(2)] Call.prems(1) show ?case
    by (auto split: prod.splits)
qed simp

lemma replay_get_obj [simp]: "replay A (get_obj k un key) = ([Get k key], case A (Get k key) of
     Failed e \<Rightarrow> Inl e
   | Object ob \<Rightarrow> (case un ob of Some x \<Rightarrow> Inr x | None \<Rightarrow> Inl bad_answer)
   | _ \<Rightarrow> Inl bad_answer)"
  by (simp add: get_obj_def)

lemma replay_list_objs [simp]: "replay A (list_objs k un ns labels) =
    ([ListObjs k ns labels], decode_list un (A (ListObjs k ns labels)))"
  by (simp add: list_objs_def)

end
