(* ===== verification/Reference_Grants.thy ===== *)
theory Reference_Grants
  imports Api_Prog
begin

text \<open>
  \<open>internal/controller/referencegrant.go\<close>: which cross-namespace references a list of
  ReferenceGrants authorizes, and the look-up of the grants for a master key Secret.
\<close>

record from_ref =
  fr_group :: string
  fr_kind :: string
  fr_namespace :: string

record to_ref =
  to_group :: string
  to_kind :: string
  to_name :: string

definition grant_matches_from :: "reference_grant \<Rightarrow> from_ref \<Rightarrow> bool" where
  "grant_matches_from g fr =
     list_ex (\<lambda>f. gf_group f = fr_group fr \<and> gf_kind f = fr_kind fr \<and>
       gf_namespace f = fr_namespace fr) (rg_from g)"

definition grant_matches_to :: "reference_grant \<Rightarrow> to_ref \<Rightarrow> bool" where
  "grant_matches_to g t =
     list_ex (\<lambda>x. gt_group x = to_group t \<and> gt_kind x = to_kind t \<and>
       (gt_name x = None \<or> gt_name x = Some [] \<or> gt_name x = Some (to_name t))) (rg_to g)"

definition allows :: "reference_grant list \<Rightarrow> from_ref \<Rightarrow> to_ref \<Rightarrow> bool" where
  "allows grants fr t = list_ex (\<lambda>g. grant_matches_from g fr \<and> grant_matches_to g t) grants"

definition master_key_reference_grant_allows ::
    "onion_balance_policy \<Rightarrow> (api_error, bool) act" where
  "master_key_reference_grant_allows pol =
     (let ref = obp_master_key (obp_spec pol) in
      bindA (list_objs KGrant un_grant (Some (sr_namespace ref)) []) (\<lambda>grants.
        okA (allows grants
          \<lparr>fr_group = ''policy.torgateway.io'', fr_kind = ''OnionBalancePolicy'',
           fr_namespace = om_ns (obp_meta pol)\<rparr>
          \<lparr>to_group = [], to_kind = ''Secret'', to_name = sr_name ref\<rparr>)))"

text \<open>Grants only add permissions, and one grant must match on both sides.\<close>

lemma allows_append [simp]: "allows (a @ b) fr t \<longleftrightarrow> allows a fr t \<or> allows b fr t"
  by (simp add: allows_def)

lemma allows_mono: "set a \<subseteq> set b \<Longrightarrow> allows a fr t \<Longrightarrow> allows b fr t"
  by (auto simp: allows_def list_ex_iff)

lemma allows_Nil [simp]: "\<not> allows [] fr t"
  by (simp add: allows_def)

text \<open>A server whose listing of grants is fixed, per namespace.\<close>

definition grants_are :: "(string \<Rightarrow> reference_grant list) \<Rightarrow> call \<Rightarrow> answer \<Rightarrow> bool" where
  "grants_are G c r \<longleftrightarrow>
     (\<forall>ns. c = ListObjs KGrant (Some ns) [] \<longrightarrow> r = Objects (map OGrant (G ns)))"

lemma those_map_un: "(\<And>x. un (mk x) = Some x) \<Longrightarrow> those (map un (map mk xs)) = Some xs"
  by (induction xs) simp_all

lemma decode_grants [simp]: "decode_list un_grant (Objects (map OGrant gs)) = Inr gs"
  using those_map_un [of un_grant OGrant gs] by (simp add: decode_list_def un_grant_def)

lemma always_list_grants:
  "always (grants_are G) P Q (list_objs KGrant un_grant (Some ns) []) \<longleftrightarrow>
     P (ListObjs KGrant (Some ns) []) \<and> Q (Inr (G ns))"
  by (auto simp: list_objs_def grants_are_def)

end
