(* ===== verification/Conditions.thy ===== *)
theory Conditions
  imports Kube_Objects
begin

text \<open>
  Status bookkeeping shared by the controllers: \<open>setCondition\<close> (\<open>gatewayclass_controller.go\<close>), which
  merges a condition into a list keyed by type, and the comparisons that decide whether a status is
  written back (\<open>ancestorsEqual\<close>, \<open>objEqual\<close>, \<open>routeParentsEqual\<close>, \<open>equalListenerStatus\<close>,
  \<open>equalGatewayAddresses\<close>). Each comparison is equality of a projection of the status; the locale
  below states that contract once, with what follows for an update that is skipped when the
  comparison holds. The flip side, also recorded here, is that a change outside the projection is
  never written.
\<close>

subsection \<open>Merging a condition\<close>

definition same_condition :: "condition \<Rightarrow> condition \<Rightarrow> bool" where
  "same_condition e c \<longleftrightarrow>
     cond_status e = cond_status c \<and> cond_reason e = cond_reason c \<and>
     cond_message e = cond_message c \<and> cond_generation e = cond_generation c"

fun set_condition :: "condition list \<Rightarrow> condition \<Rightarrow> condition list \<times> bool" where
  "set_condition [] c = ([c], True)"
| "set_condition (e # es) c =
     (if cond_type e \<noteq> cond_type c then (case set_condition es c of (es', ch) \<Rightarrow> (e # es', ch))
      else if same_condition e c then (e # es, False)
      else ((if cond_status e = cond_status c
             then c\<lparr>cond_transition := cond_transition e\<rparr> else c) # es, True))"

text \<open>The loop the callers run over the conditions they want; the flag is \<open>changed\<close>.\<close>

fun set_conditions :: "condition list \<Rightarrow> condition list \<Rightarrow> condition list \<times> bool" where
  "set_conditions cs [] = (cs, False)"
| "set_conditions cs (w # ws) =
     (case set_condition cs w of (cs1, b1) \<Rightarrow>
        case set_conditions cs1 ws of (cs2, b2) \<Rightarrow> (cs2, b1 \<or> b2))"

definition find_condition :: "string \<Rightarrow> condition list \<Rightarrow> condition option" where
  "find_condition t cs = find (\<lambda>c. cond_type c = t) cs"

lemma find_condition_simps [simp]:
  "find_condition t [] = None"
  "find_condition t (c # cs) = (if cond_type c = t then Some c else find_condition t cs)"
  by (simp_all add: find_condition_def)

lemma set_condition_types:
  "cond_type ` set (fst (set_condition cs c)) = insert (cond_type c) (cond_type ` set cs)"
  by (induction cs) (auto split: prod.splits)

lemma set_condition_distinct:
  "distinct (map cond_type (fst (set_condition cs c))) = distinct (map cond_type cs)"
proof (induction cs)
  case (Cons e es)
  have "cond_type e \<notin> cond_type ` set (fst (set_condition es c)) \<longleftrightarrow>
      cond_type e \<notin> cond_type ` set es" if "cond_type e \<noteq> cond_type c"
    using that by (simp add: set_condition_types)
  with Cons show ?case by (auto split: prod.splits)
qed simp

lemma set_condition_others:
  "filter (\<lambda>e. cond_type e \<noteq> cond_type c) (fst (set_condition cs c)) =
     filter (\<lambda>e. cond_type e \<noteq> cond_type c) cs"
  by (induction cs) (auto split: prod.splits)

lemma updated_same: "c\<lparr>cond_transition := t\<rparr> = a \<Longrightarrow> same_condition a c"
  by (drule sym) (simp add: same_condition_def)

lemma same_condition_refl [simp]: "same_condition c c"
  by (simp add: same_condition_def)

lemma set_condition_changed: "snd (set_condition cs c) \<longleftrightarrow> fst (set_condition cs c) \<noteq> cs"
  by (induction cs) (auto dest: updated_same split: prod.splits)

lemma set_condition_find:
  "find_condition (cond_type c) (fst (set_condition cs c)) =
     Some (case find_condition (cond_type c) cs of
             None \<Rightarrow> c
           | Some e \<Rightarrow> if cond_status e = cond_status c
                       then c\<lparr>cond_transition := cond_transition e\<rparr> else c)"
  by (induction cs) (auto simp: same_condition_def split: prod.splits)

lemma set_condition_again:
  "snd (set_condition (fst (set_condition cs c)) (c\<lparr>cond_transition := t\<rparr>)) = False"
  by (induction cs) (auto simp: same_condition_def split: prod.splits)

text \<open>
  Merging a condition leaves the conditions of other types alone, in place and in order; the
  entry of its type becomes the new condition, except that the transition time of an entry whose
  status does not flip is kept; types stay distinct; the result says exactly whether the list
  changed; and merging the same condition again, at whatever time, changes nothing, so a
  reconciler that has nothing new to say does not write.
\<close>

lemma set_condition_spec:
  "filter (\<lambda>e. cond_type e \<noteq> cond_type c) (fst (set_condition cs c)) =
     filter (\<lambda>e. cond_type e \<noteq> cond_type c) cs
   \<and> find_condition (cond_type c) (fst (set_condition cs c)) =
       Some (case find_condition (cond_type c) cs of
               None \<Rightarrow> c
             | Some e \<Rightarrow> if cond_status e = cond_status c
                         then c\<lparr>cond_transition := cond_transition e\<rparr> else c)
   \<and> distinct (map cond_type (fst (set_condition cs c))) = distinct (map cond_type cs)
   \<and> snd (set_condition cs c) = (fst (set_condition cs c) \<noteq> cs)
   \<and> snd (set_condition (fst (set_condition cs c)) (c\<lparr>cond_transition := t\<rparr>)) = False"
  by (intro conjI set_condition_others set_condition_find set_condition_distinct
      set_condition_changed set_condition_again)

subsection \<open>Comparing statuses\<close>

text \<open>Conditions are compared by type, status and reason.\<close>

definition condition_key :: "condition \<Rightarrow> string \<times> string \<times> string" where
  "condition_key c = (cond_type c, cond_status c, cond_reason c)"

definition conditions_equal :: "condition list \<Rightarrow> condition list \<Rightarrow> bool" where
  "conditions_equal a b \<longleftrightarrow>
     (if length a \<noteq> length b then False
      else list_all (\<lambda>(x, y). \<not> (cond_type x \<noteq> cond_type y \<or> cond_status x \<noteq> cond_status y \<or>
             cond_reason x \<noteq> cond_reason y)) (zip a b))"

fun obj_equal :: "'a option \<Rightarrow> 'a option \<Rightarrow> bool" where
  "obj_equal None None = True"
| "obj_equal None (Some _) = False"
| "obj_equal (Some _) None = False"
| "obj_equal (Some x) (Some y) = (x = y)"

definition ancestor_equal :: "ancestor_status \<Rightarrow> ancestor_status \<Rightarrow> bool" where
  "ancestor_equal x y =
     (let ar = an_ref x; br = an_ref y in
      if \<not> obj_equal (pr_group ar) (pr_group br) \<or> \<not> obj_equal (pr_kind ar) (pr_kind br) \<or>
         pr_name ar \<noteq> pr_name br \<or> \<not> obj_equal (pr_namespace ar) (pr_namespace br) then False
      else if an_controller x \<noteq> an_controller y then False
      else conditions_equal (an_conditions x) (an_conditions y))"

definition ancestors_equal :: "ancestor_status list \<Rightarrow> ancestor_status list \<Rightarrow> bool" where
  "ancestors_equal a b =
     (if length a \<noteq> length b then False
      else list_all (\<lambda>(x, y). ancestor_equal x y) (zip a b))"

definition route_parent_equal :: "route_parent_status \<Rightarrow> route_parent_status \<Rightarrow> bool" where
  "route_parent_equal x y =
     (if ps_controller x \<noteq> ps_controller y \<or> pr_name (ps_parent x) \<noteq> pr_name (ps_parent y) then False
      else conditions_equal (ps_conditions x) (ps_conditions y))"

definition route_parents_equal :: "route_parent_status list \<Rightarrow> route_parent_status list \<Rightarrow> bool" where
  "route_parents_equal a b =
     (if length a \<noteq> length b then False
      else list_all (\<lambda>(x, y). route_parent_equal x y) (zip a b))"

definition listener_status_equal :: "listener_status \<Rightarrow> listener_status \<Rightarrow> bool" where
  "listener_status_equal x y =
     (if lst_name x \<noteq> lst_name y \<or> lst_attached x \<noteq> lst_attached y then False
      else conditions_equal (lst_conditions x) (lst_conditions y))"

definition equal_listener_status :: "listener_status list \<Rightarrow> listener_status list \<Rightarrow> bool" where
  "equal_listener_status a b =
     (if length a \<noteq> length b then False
      else list_all (\<lambda>(x, y). listener_status_equal x y) (zip a b))"

definition gateway_address_equal :: "status_address \<Rightarrow> status_address \<Rightarrow> bool" where
  "gateway_address_equal x y =
     (if sa_value x \<noteq> sa_value y then False
      else if (sa_type x = None) \<noteq> (sa_type y = None) then False
      else sa_type x = None \<or> sa_type x = sa_type y)"

definition equal_gateway_addresses :: "status_address list \<Rightarrow> status_address list \<Rightarrow> bool" where
  "equal_gateway_addresses a b = list_all2 gateway_address_equal a b"

subsection \<open>The contract of a comparison\<close>

locale projected_equality =
  fixes eq :: "'a \<Rightarrow> 'a \<Rightarrow> bool" and view :: "'a \<Rightarrow> 'v"
  assumes eq_iff: "eq x y \<longleftrightarrow> view x = view y"

context projected_equality
begin

lemma eq_refl: "eq x x"
  by (simp add: eq_iff)

lemma eq_sym: "eq x y \<Longrightarrow> eq y x"
  by (simp add: eq_iff)

lemma eq_trans: "eq x y \<Longrightarrow> eq y z \<Longrightarrow> eq x z"
  by (simp add: eq_iff)

text \<open>What a reconciler leaves behind when it writes \<open>y\<close> over \<open>x\<close> only if they differ.\<close>

lemma write_back:
  "view (if \<not> eq x y then y else x) = view y" "eq (if \<not> eq x y then y else x) y"
  by (simp_all add: eq_iff)

lemma lost_change: "view x = view y \<Longrightarrow> (if \<not> eq x y then y else x) = x"
  by (simp add: eq_iff)

end

text \<open>Comparing two slices of one length elementwise keeps the contract.\<close>

lemma list_all_zip_view:
  assumes "\<And>x y. eq x y \<longleftrightarrow> view x = view y"
  shows "(if length a \<noteq> length b then False else list_all (\<lambda>(x, y). eq x y) (zip a b))
    \<longleftrightarrow> map view a = map view b"
proof -
  have "list_all (\<lambda>(x, y). eq x y) (zip a b) \<longleftrightarrow> map view a = map view b" if "length a = length b"
    using that by (induction a b rule: list_induct2) (simp_all add: assms)
  then show ?thesis by (auto dest: map_eq_imp_length_eq)
qed

lemma conditions_equal_iff: "conditions_equal a b \<longleftrightarrow> map condition_key a = map condition_key b"
  unfolding conditions_equal_def
  by (rule list_all_zip_view) (auto simp: condition_key_def)

lemma obj_equal_iff [simp]: "obj_equal a b \<longleftrightarrow> a = b"
  by (cases a; cases b) auto

definition ancestor_view where
  "ancestor_view a = (pr_group (an_ref a), pr_kind (an_ref a), pr_name (an_ref a),
     pr_namespace (an_ref a), an_controller a, map condition_key (an_conditions a))"

definition route_parent_view where
  "route_parent_view p = (ps_controller p, pr_name (ps_parent p), map condition_key (ps_conditions p))"

definition listener_status_view where
  "listener_status_view l = (lst_name l, lst_attached l, map condition_key (lst_conditions l))"

interpretation ancestors: projected_equality ancestors_equal "map ancestor_view"
  by unfold_locales (unfold ancestors_equal_def, rule list_all_zip_view,
    auto simp: ancestor_equal_def ancestor_view_def conditions_equal_iff Let_def)

interpretation route_parents: projected_equality route_parents_equal "map route_parent_view"
  by unfold_locales (unfold route_parents_equal_def, rule list_all_zip_view,
    auto simp: route_parent_equal_def route_parent_view_def conditions_equal_iff)

interpretation listeners: projected_equality equal_listener_status "map listener_status_view"
  by unfold_locales (unfold equal_listener_status_def, rule list_all_zip_view,
    auto simp: listener_status_equal_def listener_status_view_def conditions_equal_iff)

interpretation addresses: projected_equality equal_gateway_addresses "\<lambda>as. as"
proof
  have "gateway_address_equal x y \<longleftrightarrow> x = y" for x y :: status_address
    by (auto simp: gateway_address_equal_def)
  then have "gateway_address_equal = (=)" by (intro ext)
  then show "equal_gateway_addresses x y \<longleftrightarrow> x = y" for x y
    by (simp add: equal_gateway_addresses_def list.rel_eq)
qed

text \<open>Changes outside the projections: a condition's message and generation, and the namespace and
  section of a route's parent, are never written on their own.\<close>

lemma ancestors_ignore_message:
  "ancestors_equal [a\<lparr>an_conditions := [c]\<rparr>]
     [a\<lparr>an_conditions := [c\<lparr>cond_message := m, cond_generation := g\<rparr>]\<rparr>]"
  by (simp add: ancestors.eq_iff ancestor_view_def condition_key_def)

lemma route_parents_ignore_namespace:
  "route_parents_equal [p] [p\<lparr>ps_parent := (ps_parent p)\<lparr>pr_namespace := ns, pr_section := s\<rparr>\<rparr>]"
  by (simp add: route_parents.eq_iff route_parent_view_def)

end
