(* ===== verification/Names.thy ===== *)
theory Names
  imports Kube_Objects Permissions
begin

text \<open>
  \<open>internal/controller/names.go\<close> and the name helpers of \<open>gateway_resources_ha.go\<close>: the names,
  labels, paths and ports of a Gateway's child resources, and the parser that recovers the index of
  a backend key Secret from its name. The theorems say which names can be told apart.
\<close>

subsection \<open>Identifiers\<close>

definition gateway_api_group :: string where "gateway_api_group = ''gateway.networking.k8s.io''"
definition gateway_kind :: string where "gateway_kind = ''Gateway''"
definition controller_name :: string where "controller_name = ''torgateway.io/gateway-controller''"
definition hidden_service_protocol :: string where
  "hidden_service_protocol = ''torgateway.io/HiddenService''"
definition finalizer_name :: string where "finalizer_name = ''torgateway.io/finalizer''"

definition vanity_failed_annotation :: string where
  "vanity_failed_annotation = ''torgateway.io/vanity-failed''"
definition vanity_prefix_label :: string where "vanity_prefix_label = ''torgateway.io/vanity-prefix''"
definition await_vanity_annotation :: string where
  "await_vanity_annotation = ''torgateway.io/await-vanity''"

definition data_volume_name :: string where "data_volume_name = ''tor-data''"
definition keys_volume_name :: string where "keys_volume_name = ''tor-keys''"
definition config_volume_name :: string where "config_volume_name = ''tor-config''"
definition hs_dir_volume_name :: string where "hs_dir_volume_name = ''tor-hsdir''"
definition tor_container_name :: string where "tor_container_name = ''tor''"
definition router_container :: string where "router_container = ''router''"
definition obrefresh_container :: string where "obrefresh_container = ''obrefresh''"
definition init_container_name :: string where "init_container_name = ''tor-init''"
definition managed_by_label_key :: string where
  "managed_by_label_key = ''app.kubernetes.io/managed-by''"
definition managed_by_label_val :: string where "managed_by_label_val = ''tor-gateway''"
definition gateway_label_key :: string where "gateway_label_key = ''torgateway.io/gateway''"
definition hs_dir_mount_path :: string where "hs_dir_mount_path = ''/var/lib/tor/hs''"
definition data_mount_path :: string where "data_mount_path = ''/var/lib/tor/data''"
definition hs_service_dir :: string where "hs_service_dir = hs_dir_mount_path @ ''/hs''"
definition tor_data_dir :: string where "tor_data_dir = data_mount_path @ ''/data''"
definition keys_mount_path :: string where "keys_mount_path = ''/etc/tor/keys''"
definition config_mount_path :: string where "config_mount_path = ''/etc/tor''"
definition loopback_target_host :: string where "loopback_target_host = ''127.0.0.1''"
definition loopback_target_port :: int where "loopback_target_port = 9080"
definition router_probe_port :: int where "router_probe_port = 8081"
definition tor_metrics_port :: int where "tor_metrics_port = 9035"
definition client_auth_volume_name :: string where "client_auth_volume_name = ''tor-client-auth''"
definition client_auth_mount_path :: string where "client_auth_mount_path = ''/etc/tor-client-auth''"

lemmas name_consts [tg_defs] = data_volume_name_def keys_volume_name_def config_volume_name_def
  hs_dir_volume_name_def tor_container_name_def router_container_def obrefresh_container_def
  init_container_name_def hs_dir_mount_path_def data_mount_path_def hs_service_dir_def
  tor_data_dir_def keys_mount_path_def config_mount_path_def loopback_target_host_def
  loopback_target_port_def router_probe_port_def tor_metrics_port_def client_auth_volume_name_def
  client_auth_mount_path_def

lemmas label_consts [tg_defs] = managed_by_label_key_def managed_by_label_val_def
  gateway_label_key_def

subsection \<open>Names of child resources\<close>

definition key_secret_name :: "string \<Rightarrow> string" where "key_secret_name gw = gw @ ''-keys''"
definition torrc_config_map_name :: "string \<Rightarrow> string" where
  "torrc_config_map_name gw = gw @ ''-torrc''"
definition deployment_name :: "string \<Rightarrow> string" where "deployment_name gw = gw @ ''''"
definition service_name :: "string \<Rightarrow> string" where "service_name gw = gw @ ''''"
definition router_rbac_name :: "string \<Rightarrow> string" where "router_rbac_name gw = gw @ ''-router''"
definition vanity_rbac_name :: "string \<Rightarrow> string" where "vanity_rbac_name gw = gw @ ''-vanity''"
definition vanity_out_secret_name :: "string \<Rightarrow> string" where
  "vanity_out_secret_name gw = gw @ ''-vanity-out''"
definition network_policy_name :: "string \<Rightarrow> string" where
  "network_policy_name gw = gw @ ''-netpol''"

definition child_labels :: "string \<Rightarrow> string gomap" where
  "child_labels gw = [(managed_by_label_key, managed_by_label_val), (gateway_label_key, gw)]"

subsection \<open>Names in high-availability mode\<close>

definition ha_role_backend :: string where "ha_role_backend = ''backend''"
definition ha_role_frontend :: string where "ha_role_frontend = ''frontend''"
definition ha_role_key :: string where "ha_role_key = ''torgateway.io/role''"

definition ha_labels :: "gateway \<Rightarrow> string \<Rightarrow> string gomap" where
  "ha_labels g r =
     [(managed_by_label_key, managed_by_label_val),
      (''app.kubernetes.io/name'', ''tor-gateway''),
      (''app.kubernetes.io/instance'', gw_name g),
      (gateway_label_key, gw_name g),
      (ha_role_key, r)]"

definition owner_labels :: "gateway \<Rightarrow> string \<Rightarrow> string gomap" where
  "owner_labels g r = AList.update ''torgateway.io/owner-uid'' (gw_uid g) (ha_labels g r)"

definition frontend_name :: "gateway \<Rightarrow> string" where "frontend_name g = gw_name g @ ''-frontend''"
definition backend_stateful_set_name :: "gateway \<Rightarrow> string" where
  "backend_stateful_set_name g = gw_name g @ ''-backend''"
definition backend_headless_service_name :: "gateway \<Rightarrow> string" where
  "backend_headless_service_name g = gw_name g @ ''-backends''"
definition backend_key_secret_name :: "gateway \<Rightarrow> nat \<Rightarrow> string" where
  "backend_key_secret_name g idx = gw_name g @ ''-backend-'' @ show_nat idx @ ''-keys''"
definition onionbalance_config_map_name :: "gateway \<Rightarrow> string" where
  "onionbalance_config_map_name g = gw_name g @ ''-onionbalance-config''"
definition backend_torrc_config_map_name :: "gateway \<Rightarrow> string" where
  "backend_torrc_config_map_name g = gw_name g @ ''-backend-torrc''"
definition frontend_torrc_config_map_name :: "gateway \<Rightarrow> string" where
  "frontend_torrc_config_map_name g = gw_name g @ ''-frontend-torrc''"
definition cross_ns_master_role_name :: "gateway \<Rightarrow> string" where
  "cross_ns_master_role_name g = frontend_name g @ ''-master-fetch''"

text \<open>The index in the name of a backend key Secret, or -1.\<close>

definition backend_secret_index :: "string \<Rightarrow> string \<Rightarrow> int" where
  "backend_secret_index secret_name gw =
     (let pre = gw @ ''-backend-''; suf = ''-keys'' in
      if \<not> has_prefix secret_name pre \<or> \<not> has_suffix secret_name suf then -1
      else let mid = trim_suffix (trim_prefix secret_name pre) suf in
        case atoi mid of None \<Rightarrow> -1 | Some n \<Rightarrow> if n < 0 then -1 else n)"

subsection \<open>Telling names apart\<close>

lemma trim_backend_name:
  "trim_suffix (trim_prefix (gw @ ''-backend-'' @ mid @ ''-keys'') (gw @ ''-backend-'')) ''-keys'' = mid"
proof -
  have "trim_prefix ((gw @ ''-backend-'') @ mid @ ''-keys'') (gw @ ''-backend-'') = mid @ ''-keys''"
    by (rule trim_prefix_append)
  then show ?thesis by (simp only: append_assoc trim_suffix_append)
qed

lemma backend_name_affixes:
  "has_prefix (gw @ ''-backend-'' @ mid @ ''-keys'') (gw @ ''-backend-'')"
  "has_suffix (gw @ ''-backend-'' @ mid @ ''-keys'') ''-keys''"
  using has_prefix_append [of "gw @ ''-backend-''" "mid @ ''-keys''"]
    has_suffix_append [of "gw @ ''-backend-'' @ mid" "''-keys''"]
  by (simp_all only: append_assoc)

lemma index_of_name:
  "int i < 2 ^ 63 \<Longrightarrow> backend_secret_index (backend_key_secret_name g i) (gw_name g) = int i"
  unfolding backend_secret_index_def backend_key_secret_name_def Let_def trim_backend_name
  using backend_name_affixes [of "gw_name g" "show_nat i"] atoi_show_nat [of i] by simp

lemma affixes_split:
  assumes "has_prefix s pre" "has_suffix s suf" "length pre + length suf \<le> length s"
  obtains mid where "s = pre @ mid @ suf"
proof -
  from assms(1) obtain t where t: "s = pre @ t" by (rule has_prefixE)
  with assms(2,3) have "drop (length t - length suf) t = suf" "length suf \<le> length t"
    by (simp_all add: has_suffix_def)
  then have "s = pre @ take (length t - length suf) t @ suf"
    by (metis append_take_drop_id t)
  then show thesis by (rule that)
qed

text \<open>The text of a number as the longest run of digits at the end.\<close>

lemma atoi_shape:
  assumes "atoi s = Some n"
  obtains sign ds where "s = sign @ ds" "sign = [] \<or> sign = ''-'' \<or> sign = ''+''"
    "\<forall>c \<in> set ds. is_digit c" "ds \<noteq> []"
proof -
  have p: "parse_nat ds = Some v \<Longrightarrow> ds \<noteq> [] \<and> (\<forall>c \<in> set ds. is_digit c)" for ds v
    using parse_digits_all_digits by (auto simp: parse_nat_def split: if_splits)
  show thesis
  proof (cases s)
    case Nil
    with assms show ?thesis by (simp add: atoi_def parse_nat_def)
  next
    case (Cons c cs)
    consider "c = CHR ''-''" | "c = CHR ''+''" | "c \<noteq> CHR ''-''" "c \<noteq> CHR ''+''" by blast
    then show ?thesis
    proof cases
      case 1
      with assms Cons p [of cs] show ?thesis
        by (intro that [of "''-''" cs]) (auto simp: atoi_def split: option.splits)
    next
      case 2
      with assms Cons p [of cs] show ?thesis
        by (intro that [of "''+''" cs]) (auto simp: atoi_def split: option.splits)
    next
      case 3
      with assms Cons p [of s] show ?thesis
        by (intro that [of "[]" s]) (auto simp: atoi_def split: option.splits)
    qed
  qed
qed

lemma digits_suffix_unique:
  assumes "xs @ [c] @ ds = ys @ [d] @ es"
    and "\<not> is_digit c" "\<not> is_digit d" "\<forall>x \<in> set ds. is_digit x" "\<forall>x \<in> set es. is_digit x"
  shows "xs @ [c] = ys @ [d] \<and> ds = es"
proof -
  have tw: "takeWhile is_digit (rev (xs @ [c] @ ds)) = rev ds" if "\<not> is_digit c" "\<forall>x \<in> set ds. is_digit x"
    for xs c ds
    using that by (simp add: takeWhile_append)
  have "rev ds = rev es" using assms tw by metis
  then show ?thesis using assms(1) by simp
qed

lemma backend_name_unique:
  assumes "atoi mid = Some n" "0 \<le> n"
    and "gw @ ''-backend-'' @ mid @ ''-keys'' = gw' @ ''-backend-'' @ show_nat i @ ''-keys''"
  shows "gw = gw' \<and> mid = show_nat i"
proof -
  from atoi_shape [OF assms(1)] obtain sign ds where m: "mid = sign @ ds"
    "sign = [] \<or> sign = ''-'' \<or> sign = ''+''" "\<forall>c \<in> set ds. is_digit c" by blast
  from assms(3) have e: "(gw @ ''-backend-'') @ mid = (gw' @ ''-backend-'') @ show_nat i"
    by (simp only: append_assoc append_same_eq) simp
  have p: "g @ ''-backend-'' = (g @ ''-backend'') @ [CHR ''-'']" for g by simp
  consider "sign = []" | s where "sign = [s]" "s = CHR ''-'' \<or> s = CHR ''+''"
    using m(2) by blast
  then show ?thesis
  proof cases
    case 1
    with e m have "(gw @ ''-backend'') @ [CHR ''-''] @ ds = (gw' @ ''-backend'') @ [CHR ''-''] @ show_nat i"
      by simp
    from digits_suffix_unique [OF this not_digit(1) not_digit(1) m(3) show_nat_all_digits] 1 m
    show ?thesis by simp
  next
    case 2
    then have s: "\<not> is_digit s" using not_digit by blast
    from 2 e m have "(gw @ ''-backend-'') @ [s] @ ds = (gw' @ ''-backend'') @ [CHR ''-''] @ show_nat i"
      by simp
    from digits_suffix_unique [OF this s not_digit(1) m(3) show_nat_all_digits]
    have "gw @ ''-backend-'' = gw' @ ''-backend''" by simp
    then have "last (gw @ ''-backend-'') = last (gw' @ ''-backend'')" by simp
    then show ?thesis by simp
  qed
qed

text \<open>A name with both affixes that overlap has no index.\<close>

lemma overlapping_affixes:
  assumes "has_prefix s (gw @ ''-backend-'')" "has_suffix s ''-keys''"
    and "\<not> length (gw @ ''-backend-'') + 5 \<le> length s"
  shows "atoi (trim_suffix (trim_prefix s (gw @ ''-backend-'')) ''-keys'') = None"
proof -
  from assms(1) obtain t where t: "s = (gw @ ''-backend-'') @ t" by (rule has_prefixE)
  from assms(3) have l: "length t < 5" by (simp add: t)
  from assms(2) obtain u where u: "s = u @ ''-keys''" by (auto simp: has_suffix_iff)
  with t have "(gw @ ''-backend-'') @ t = u @ ''-keys''" by simp
  then obtain w where w: "gw @ ''-backend-'' = u @ w \<and> w @ t = ''-keys''
      \<or> gw @ ''-backend-'' @ w = u \<and> t = w @ ''-keys''"
    unfolding append_eq_append_conv2 by auto
  with l have w: "gw @ ''-backend-'' = u @ w" "w @ t = ''-keys''" by auto
  from w(2) l have "w \<noteq> []" by auto
  with w(1) have "last w = CHR ''-''" by (metis last_appendR last.simps list.distinct(1))
  with w(2) \<open>w \<noteq> []\<close> have "t = ''keys''"
    by (auto simp: append_eq_Cons_conv)
  then show ?thesis
    by (simp add: t trim_prefix_append [of "gw @ ''-backend-''", simplified] trim_suffix_def has_suffix_def
        atoi_def parse_nat_def digit_value_def digit_alphabet_def upt_rec)
qed

text \<open>
  The name of a backend key Secret determines its Gateway and its index: read with the parser of
  the garbage collector, the name made for Gateway \<open>g'\<close> and index \<open>i\<close> gives \<open>i\<close> for that Gateway
  and no index for any other Gateway, however the names of the two are related. So a scale-down of
  one Gateway never counts, and never deletes, a key of another.
\<close>

lemma backend_secret_index_exact:
  assumes "int i < 2 ^ 63"
  shows "backend_secret_index (backend_key_secret_name g' i) (gw_name g) =
    (if gw_name g = gw_name g' then int i else -1)"
proof (cases "gw_name g = gw_name g'")
  case True
  then show ?thesis using index_of_name [OF assms, of g'] by simp
next
  case False
  let ?s = "backend_key_secret_name g' i" and ?pre = "gw_name g @ ''-backend-''"
  let ?mid = "trim_suffix (trim_prefix ?s ?pre) ''-keys''"
  have "\<not> (\<exists>n. atoi ?mid = Some n \<and> 0 \<le> n)" if a: "has_prefix ?s ?pre" "has_suffix ?s ''-keys''"
  proof
    assume "\<exists>n. atoi ?mid = Some n \<and> 0 \<le> n"
    then obtain n where n: "atoi ?mid = Some n" "0 \<le> n" by blast
    with overlapping_affixes [OF a] have "length ?pre + length ''-keys'' \<le> length ?s" by fastforce
    from affixes_split [OF a this] obtain mid where s: "?s = ?pre @ mid @ ''-keys''" by blast
    then have "?mid = mid" using trim_backend_name [of "gw_name g" mid] by (simp only: append_assoc)
    with n backend_name_unique [of mid n "gw_name g" "gw_name g'" i] s False show False
      by (simp add: backend_key_secret_name_def)
  qed
  with False show ?thesis
    by (auto simp: backend_secret_index_def Let_def split: option.splits)
qed

definition sample_gateway :: "string \<Rightarrow> gateway" where
  "sample_gateway name = \<lparr>gw_meta = (bare_meta ''web'' name [])\<lparr>om_uid := ''uid-'' @ name\<rparr>, gw_class = ''tor'',
     gw_listeners = [\<lparr>ls_name = ''http'', ls_protocol = hidden_service_protocol\<rparr>], gw_addresses = [],
     gw_conditions = [], gw_listener_status = []\<rparr>"

lemma sample_gateway_simps [simp]:
  "gw_name (sample_gateway n) = n" "gw_ns (sample_gateway n) = ''web''"
  "gw_uid (sample_gateway n) = ''uid-'' @ n"
  by (simp_all add: sample_gateway_def bare_meta_def)

text \<open>
  Names of different kinds of children do coincide across Gateways of one namespace: the backend
  keys of \<open>a\<close> take the name of the keys of \<open>a-backend-0\<close>, and what Mode A deletes on behalf of
  \<open>a\<close> when it is not in high-availability mode are children of \<open>a-frontend\<close>, \<open>a-backends\<close> and
  \<open>a-backend\<close>.
\<close>

lemma child_names_collide:
  "gw_name h = gw_name g @ ''-backend-0'' \<Longrightarrow> backend_key_secret_name g 0 = key_secret_name (gw_name h)"
  "gw_name h = gw_name g @ ''-frontend'' \<Longrightarrow> frontend_name g = deployment_name (gw_name h)
     \<and> frontend_torrc_config_map_name g = torrc_config_map_name (gw_name h)"
  "gw_name h = gw_name g @ ''-backends'' \<Longrightarrow> backend_headless_service_name g = service_name (gw_name h)"
  "gw_name h = gw_name g @ ''-backend'' \<Longrightarrow>
     backend_torrc_config_map_name g = torrc_config_map_name (gw_name h)"
  by (simp_all add: backend_key_secret_name_def key_secret_name_def frontend_name_def
      deployment_name_def frontend_torrc_config_map_name_def torrc_config_map_name_def
      backend_headless_service_name_def service_name_def backend_torrc_config_map_name_def
      show_nat.simps digit_char_def digit_alphabet_def)

end
