(* ===== verification/Policy_Controllers.thy ===== *)
theory Policy_Controllers
  imports Reference_Grants Conditions Names
begin

text \<open>
  The reconcilers that report the acceptance of GatewayClasses and policies:
  \<open>gatewayclass_controller.go\<close>, \<open>torservicepolicy_controller.go\<close>,
  \<open>torclientauthpolicy_controller.go\<close> and \<open>onionbalancepolicy_controller.go\<close>. They read, and write
  nothing but a status; the theorems say which status.
\<close>

subsection \<open>GatewayClasses\<close>

definition class_accepted_condition :: "time \<Rightarrow> gateway_class \<Rightarrow> condition" where
  "class_accepted_condition now gc =
     \<lparr>cond_type = ''Accepted'', cond_status = condition_true, cond_generation = gc_generation gc,
      cond_transition = now, cond_reason = ''Accepted'',
      cond_message = ''GatewayClass accepted by tor-gateway controller''\<rparr>"

definition gatewayclass_reconcile :: "time \<Rightarrow> nsname \<Rightarrow> (api_error, unit) act" where
  "gatewayclass_reconcile now key =
     bindP (get_obj KGatewayClass un_gateway_class key) (\<lambda>r. case r of
       Inl e \<Rightarrow> if e = NotFound then okA () else failA e
     | Inr gc \<Rightarrow>
         if gc_controller gc \<noteq> controller_name then okA ()
         else case set_condition (gc_conditions gc) (class_accepted_condition now gc) of
                (conds, changed) \<Rightarrow>
                  if changed then write_call (StatusUpdate (OGatewayClass (gc\<lparr>gc_conditions := conds\<rparr>)))
                  else okA ())"

subsection \<open>Policies on Tor and on client authorization\<close>

text \<open>\<open>evaluatePolicyTarget\<close>: status, reason and message.\<close>

definition evaluate_policy_target ::
    "target_ref \<Rightarrow> string \<Rightarrow> (api_error, string \<times> string \<times> string) act" where
  "evaluate_policy_target ref ns =
     bindP (get_obj KGateway un_gateway (ns, tr_name ref)) (\<lambda>r. case r of
       Inl e \<Rightarrow>
         if e = NotFound
         then okA (condition_false, ''TargetNotFound'', ''Referenced Gateway does not exist'')
         else failA e
     | Inr g \<Rightarrow> bindP (get_obj KGatewayClass un_gateway_class ([], gw_class g)) (\<lambda>r. case r of
           Inl e \<Rightarrow>
             if e = NotFound
             then okA (condition_false, ''TargetNotManaged'', ''Gateway's GatewayClass does not exist'')
             else failA e
         | Inr gc \<Rightarrow>
             if gc_controller gc \<noteq> controller_name
             then okA (condition_false, ''TargetNotManaged'',
                       ''Gateway is managed by a different controller'')
             else okA (condition_true, ''Accepted'', ''Policy accepted by tor-gateway'')))"

definition policy_condition :: "time \<Rightarrow> int \<Rightarrow> string \<times> string \<times> string \<Rightarrow> condition" where
  "policy_condition now gen v =
     (case v of (status, reason, msg) \<Rightarrow>
        \<lparr>cond_type = ''Accepted'', cond_status = status, cond_generation = gen,
         cond_transition = now, cond_reason = reason, cond_message = msg\<rparr>)"

definition target_ancestor :: "string \<Rightarrow> target_ref \<Rightarrow> condition \<Rightarrow> ancestor_status" where
  "target_ancestor ns ref c =
     \<lparr>an_ref = \<lparr>pr_group = Some (tr_group ref), pr_kind = Some (tr_kind ref),
        pr_namespace = Some ns, pr_name = tr_name ref, pr_section = None, pr_port = None\<rparr>,
      an_controller = controller_name, an_conditions = [c]\<rparr>"

definition build_policy_ancestors ::
    "time \<Rightarrow> object_meta \<Rightarrow> target_ref list \<Rightarrow> (api_error, ancestor_status list) act" where
  "build_policy_ancestors now m refs =
     foldA (\<lambda>ref out. bindA (evaluate_policy_target ref (om_ns m)) (\<lambda>v.
         okA (out @ [target_ancestor (om_ns m) ref (policy_condition now (om_generation m) v)])))
       refs []"

definition tsp_reconcile :: "time \<Rightarrow> nsname \<Rightarrow> (api_error, unit) act" where
  "tsp_reconcile now key =
     bindP (get_obj KTsp un_tsp key) (\<lambda>r. case r of
       Inl e \<Rightarrow> if e = NotFound then okA () else failA e
     | Inr p \<Rightarrow> bindA (build_policy_ancestors now (tsp_meta p) (tsp_target_refs (tsp_spec p))) (\<lambda>as.
         if \<not> ancestors_equal (tsp_ancestors p) as
         then write_call (StatusUpdate (OTsp (p\<lparr>tsp_ancestors := as\<rparr>))) else okA ()))"

text \<open>The source writes the same loop again for the client authorization policies.\<close>

definition tcap_build_ancestors ::
    "time \<Rightarrow> tor_client_auth_policy \<Rightarrow> (api_error, ancestor_status list) act" where
  "tcap_build_ancestors now p =
     foldA (\<lambda>ref out. bindA (evaluate_policy_target ref (om_ns (tcap_meta p))) (\<lambda>v.
         okA (out @ [target_ancestor (om_ns (tcap_meta p)) ref
           (policy_condition now (om_generation (tcap_meta p)) v)])))
       (tcap_target_refs (tcap_spec p)) []"

lemma tcap_build_ancestors_eq [simp]:
  "tcap_build_ancestors now p = build_policy_ancestors now (tcap_meta p) (tcap_target_refs (tcap_spec p))"
  by (simp add: tcap_build_ancestors_def build_policy_ancestors_def)

definition tcap_reconcile :: "time \<Rightarrow> nsname \<Rightarrow> (api_error, unit) act" where
  "tcap_reconcile now key =
     bindP (get_obj KTcap un_tcap key) (\<lambda>r. case r of
       Inl e \<Rightarrow> if e = NotFound then okA () else failA e
     | Inr p \<Rightarrow> bindA (tcap_build_ancestors now p) (\<lambda>as.
         if \<not> ancestors_equal (tcap_ancestors p) as
         then write_call (StatusUpdate (OTcap (p\<lparr>tcap_ancestors := as\<rparr>))) else okA ()))"

subsection \<open>Targets, backends and proof of work\<close>

text \<open>\<open>policyTargets\<close> of the Gateway controller.\<close>

definition policy_targets :: "target_ref list \<Rightarrow> string \<Rightarrow> bool" where
  "policy_targets refs gw =
     list_ex (\<lambda>r. tr_group r = gateway_api_group \<and> tr_kind r = gateway_kind \<and> tr_name r = gw) refs"

definition backend_selector :: "gateway \<Rightarrow> string gomap" where
  "backend_selector g = [(gateway_label_key, gw_name g), (''torgateway.io/role'', ''backend'')]"

definition has_hostname :: "secret \<Rightarrow> bool" where
  "has_hostname s = (case map_of (sec_data s) ''hostname'' of None \<Rightarrow> False | Some v \<Rightarrow> 0 < length v)"

definition count_ready_backends :: "gateway \<Rightarrow> (api_error, nat) act" where
  "count_ready_backends g =
     bindA (list_objs KSecret un_secret (Some (gw_ns g)) (backend_selector g)) (\<lambda>ss.
       okA (length (filter has_hostname ss)))"

definition pow_forced_off :: "gateway \<Rightarrow> bool prog" where
  "pow_forced_off g =
     bindP (list_objs KTsp un_tsp (Some (gw_ns g)) []) (\<lambda>r. case r of
       Inl _ \<Rightarrow> Ret False
     | Inr ts \<Rightarrow> Ret (list_ex (\<lambda>t. policy_targets (tsp_target_refs (tsp_spec t)) (gw_name g) \<and>
           (tsp_pow (tsp_spec t) = None \<or> tsp_pow (tsp_spec t) = Some True)) ts))"

subsection \<open>OnionBalancePolicies\<close>

datatype master_key_error =
    KeyInvalid master_error | CrossNsDenied string string | GrantCheck api_error | GetMaster api_error

definition reason_from_master_err :: "master_key_error \<Rightarrow> string" where
  "reason_from_master_err e =
     (case e of
        KeyInvalid MissingSecret \<Rightarrow> ''MasterKeyMissing''
      | KeyInvalid MissingPublic \<Rightarrow> ''MasterKeyMissing''
      | CrossNsDenied _ _ \<Rightarrow> ''MasterKeyCrossNamespaceDenied''
      | _ \<Rightarrow> ''MasterKeyInvalid'')"

text \<open>The namespace of the master key: the policy's own unless the reference names one.\<close>

definition master_ns :: "onion_balance_policy \<Rightarrow> string" where
  "master_ns p =
     (if sr_namespace (obp_master_key (obp_spec p)) = [] then om_ns (obp_meta p)
      else sr_namespace (obp_master_key (obp_spec p)))"

text \<open>\<open>bm\<close> is multiplication of the ed25519 base point; the result is \<open>None\<close> when there is no error.\<close>

definition get_master_key ::
    "(byte list \<Rightarrow> byte list) \<Rightarrow> onion_balance_policy \<Rightarrow> master_key_error option prog" where
  "get_master_key bm p =
     bindP (get_obj KSecret un_secret (master_ns p, sr_name (obp_master_key (obp_spec p)))) (\<lambda>r.
       case r of
         Inl e \<Rightarrow> Ret (Some (if e = NotFound then KeyInvalid MissingSecret else GetMaster e))
       | Inr sec \<Rightarrow> (case validate_master_key_secret bm (sec_data sec) of
             Inl e \<Rightarrow> Ret (Some (KeyInvalid e)) | Inr _ \<Rightarrow> Ret None))"

definition validate_master_key ::
    "(byte list \<Rightarrow> byte list) \<Rightarrow> onion_balance_policy \<Rightarrow> master_key_error option prog" where
  "validate_master_key bm p =
     (if master_ns p \<noteq> om_ns (obp_meta p) then
        bindP (master_key_reference_grant_allows p) (\<lambda>r. case r of
          Inl e \<Rightarrow> Ret (Some (GrantCheck e))
        | Inr allowed \<Rightarrow>
            if \<not> allowed then Ret (Some (CrossNsDenied (master_ns p) (sr_name (obp_master_key (obp_spec p)))))
            else get_master_key bm p)
      else get_master_key bm p)"

text \<open>The message of an accepted policy; a dash and the texts of errors are left to the caller.\<close>

definition obp_accepted_message :: "bool \<Rightarrow> string" where
  "obp_accepted_message pow_off =
     (if pow_off
      then ''PoW disabled on backends; onionbalance behind PoW is currently worse than no PoW (see onionbalance#13)''
      else ''OnionBalancePolicy accepted'')"

definition obp_condition :: "time \<Rightarrow> onion_balance_policy \<Rightarrow> string \<Rightarrow> string \<Rightarrow> string \<Rightarrow> condition" where
  "obp_condition now p status reason msg =
     \<lparr>cond_type = ''Accepted'', cond_status = status, cond_generation = om_generation (obp_meta p),
      cond_transition = now, cond_reason = reason, cond_message = msg\<rparr>"

text \<open>One target: the condition, and how many backends it adds. A listing that fails adds none.
  \<open>text\<close> is the \<open>Error\<close> method of the error.\<close>

definition obp_target ::
    "(master_key_error \<Rightarrow> string) \<Rightarrow> time \<Rightarrow> onion_balance_policy \<Rightarrow> master_key_error option \<Rightarrow>
     target_ref \<Rightarrow> (api_error, condition \<times> nat) act" where
  "obp_target text now p merr ref =
     bindP (get_obj KGateway un_gateway (om_ns (obp_meta p), tr_name ref)) (\<lambda>r. case r of
       Inl e \<Rightarrow>
         if e = NotFound
         then okA (obp_condition now p condition_false ''GatewayMissing''
                (''Gateway '' @ om_ns (obp_meta p) @ ''/'' @ tr_name ref @ '' does not exist''), 0)
         else failA e
     | Inr g \<Rightarrow> (case merr of
           Some me \<Rightarrow> okA (obp_condition now p condition_false (reason_from_master_err me) (text me), 0)
         | None \<Rightarrow> bindP (pow_forced_off g) (\<lambda>off.
             bindP (count_ready_backends g) (\<lambda>n.
               okA (obp_condition now p condition_true ''Accepted'' (obp_accepted_message off),
                    (case n of Inl _ \<Rightarrow> 0 | Inr k \<Rightarrow> k))))))"

definition obp_build_ancestors ::
    "(byte list \<Rightarrow> byte list) \<Rightarrow> (master_key_error \<Rightarrow> string) \<Rightarrow> time \<Rightarrow> onion_balance_policy \<Rightarrow>
     (api_error, ancestor_status list \<times> nat) act" where
  "obp_build_ancestors bm text now p =
     bindP (validate_master_key bm p) (\<lambda>merr.
       foldA (\<lambda>ref (out, ready). bindA (obp_target text now p merr ref) (\<lambda>(c, n).
           okA (out @ [target_ancestor (om_ns (obp_meta p)) ref c], ready + n)))
         (obp_target_refs (obp_spec p)) ([], 0))"

definition obp_reconcile ::
    "(byte list \<Rightarrow> byte list) \<Rightarrow> (master_key_error \<Rightarrow> string) \<Rightarrow> time \<Rightarrow> nsname \<Rightarrow> (api_error, unit) act" where
  "obp_reconcile bm text now key =
     bindP (get_obj KObp un_obp key) (\<lambda>r. case r of
       Inl e \<Rightarrow> if e = NotFound then okA () else failA e
     | Inr p \<Rightarrow> bindA (obp_build_ancestors bm text now p) (\<lambda>(as, ready).
         if \<not> ancestors_equal (obp_ancestors p) as \<or> obp_ready_backends p \<noteq> ready
         then write_call (StatusUpdate (OObp (p\<lparr>obp_ancestors := as, obp_ready_backends := ready\<rparr>)))
         else okA ()))"

subsection \<open>Which policies a change requeues\<close>

definition obp_requests_from ::
    "string option \<Rightarrow> (onion_balance_policy \<Rightarrow> bool) \<Rightarrow> nsname list prog" where
  "obp_requests_from ns sel =
     bindP (list_objs KObp un_obp ns []) (\<lambda>r. case r of
       Inl _ \<Rightarrow> Ret [] | Inr ps \<Rightarrow> Ret (map (\<lambda>p. meta_key (obp_meta p)) (filter sel ps)))"

definition obp_uses_secret :: "secret \<Rightarrow> onion_balance_policy \<Rightarrow> bool" where
  "obp_uses_secret s p =
     (let labels = om_labels (sec_meta s) in
      if master_ns p = om_ns (sec_meta s) \<and> sr_name (obp_master_key (obp_spec p)) = om_name (sec_meta s)
      then True
      else if map_index labels ha_role_key = ha_role_backend \<and> map_index labels gateway_label_key \<noteq> []
      then list_ex (\<lambda>ref. tr_name ref = map_index labels gateway_label_key \<and>
             om_ns (sec_meta s) = om_ns (obp_meta p)) (obp_target_refs (obp_spec p))
      else False)"

definition obps_for_secret :: "secret \<Rightarrow> nsname list prog" where
  "obps_for_secret s = obp_requests_from None (obp_uses_secret s)"

definition obps_for_gateway :: "gateway \<Rightarrow> nsname list prog" where
  "obps_for_gateway g = obp_requests_from (Some (gw_ns g))
     (\<lambda>p. list_ex (\<lambda>ref. tr_name ref = gw_name g) (obp_target_refs (obp_spec p)))"

definition obps_for_reference_grant :: "reference_grant \<Rightarrow> nsname list prog" where
  "obps_for_reference_grant rg = obp_requests_from None (\<lambda>p.
     if sr_namespace (obp_master_key (obp_spec p)) = [] \<or>
        sr_namespace (obp_master_key (obp_spec p)) \<noteq> rg_ns rg then False
     else list_ex (\<lambda>f. gf_group f = ''policy.torgateway.io'' \<and> gf_kind f = ''OnionBalancePolicy'' \<and>
            gf_namespace f = om_ns (obp_meta p)) (rg_from rg))"

definition obps_for_tor_service_policy :: "tor_service_policy \<Rightarrow> nsname list prog" where
  "obps_for_tor_service_policy t = obp_requests_from (Some (om_ns (tsp_meta t))) (\<lambda>p.
     list_ex (\<lambda>ref. tr_name ref \<in> set (map tr_name (tsp_target_refs (tsp_spec t))))
       (obp_target_refs (obp_spec p)))"

datatype obp_event =
    SecretEvent secret | GatewayEvent gateway | GrantEvent reference_grant | TspEvent tor_service_policy

definition obp_requests :: "obp_event \<Rightarrow> nsname list prog" where
  "obp_requests ev =
     (case ev of SecretEvent s \<Rightarrow> obps_for_secret s | GatewayEvent g \<Rightarrow> obps_for_gateway g
      | GrantEvent rg \<Rightarrow> obps_for_reference_grant rg | TspEvent t \<Rightarrow> obps_for_tor_service_policy t)"

subsection \<open>The status a policy gets\<close>

text \<open>A server whose single objects and grants are fixed.\<close>

definition snapshot :: "(kind \<Rightarrow> nsname \<Rightarrow> answer) \<Rightarrow> call \<Rightarrow> answer \<Rightarrow> bool" where
  "snapshot S c r \<longleftrightarrow> (\<forall>k key. c = Get k key \<longrightarrow> r = S k key)"

text \<open>Such a server, in which one object is known.\<close>

definition object_world ::
    "(kind \<Rightarrow> nsname \<Rightarrow> answer) \<Rightarrow> kind \<Rightarrow> nsname \<Rightarrow> obj \<Rightarrow> call \<Rightarrow> answer \<Rightarrow> bool" where
  "object_world S k key ob c r \<longleftrightarrow> snapshot S c r \<and> (c = Get k key \<longrightarrow> r = Object ob)"

definition managed_gateway :: "(kind \<Rightarrow> nsname \<Rightarrow> answer) \<Rightarrow> nsname \<Rightarrow> bool" where
  "managed_gateway S key \<longleftrightarrow>
     (\<exists>g gc. S KGateway key = Object (OGateway g) \<and>
        S KGatewayClass ([], gw_class g) = Object (OGatewayClass gc) \<and> gc_controller gc = controller_name)"

definition sound_ancestor :: "time \<Rightarrow> object_meta \<Rightarrow> bool \<Rightarrow> target_ref \<Rightarrow> ancestor_status \<Rightarrow> bool" where
  "sound_ancestor now m acc ref a \<longleftrightarrow>
     (\<exists>reason msg. a = target_ancestor (om_ns m) ref (policy_condition now (om_generation m)
          (if acc then condition_true else condition_false, reason, msg)))"

lemma always_get_snapshot:
  assumes "\<And>c r. E c r \<Longrightarrow> snapshot S c r" "P (Get k key)"
    and "Q (case S k key of
        Failed e \<Rightarrow> Inl e
      | Object ob \<Rightarrow> (case un ob of Some x \<Rightarrow> Inr x | None \<Rightarrow> Inl bad_answer)
      | _ \<Rightarrow> Inl bad_answer)"
  shows "always E P Q (get_obj k un key)"
proof -
  have "r = S k key" if "E (Get k key) r" for r
    using assms(1) [OF that] unfolding snapshot_def by blast
  with assms(2,3) show ?thesis by (auto simp: get_obj_def)
qed

lemma always_evaluate_target:
  assumes E: "\<And>c r. E c r \<Longrightarrow> snapshot S c r" and P: "\<And>c. is_read c \<Longrightarrow> P c"
  shows "always E P (\<lambda>r. case r of Inl _ \<Rightarrow> True
      | Inr (st, _) \<Rightarrow> st = (if managed_gateway S (ns, tr_name ref) then condition_true else condition_false))
      (evaluate_policy_target ref ns)"
  unfolding evaluate_policy_target_def always_bindP
  by (rule always_get_snapshot [OF E], assumption)
    (auto simp: P managed_gateway_def un_gateway_def un_gateway_class_def
      intro!: always_get_snapshot [OF E] split: answer.splits obj.splits)

lemma always_build_ancestors:
  assumes "\<And>c r. E c r \<Longrightarrow> snapshot S c r" "\<And>c. is_read c \<Longrightarrow> P c"
  shows "always E P (\<lambda>r. case r of Inl _ \<Rightarrow> True
      | Inr as \<Rightarrow> list_all2 (\<lambda>ref. sound_ancestor now m (managed_gateway S (om_ns m, tr_name ref)) ref) refs as)
      (build_policy_ancestors now m refs)"
proof -
  let ?ok = "\<lambda>ref. sound_ancestor now m (managed_gateway S (om_ns m, tr_name ref)) ref"
  let ?body = "\<lambda>ref out. bindA (evaluate_policy_target ref (om_ns m)) (\<lambda>v.
         okA (out @ [target_ancestor (om_ns m) ref (policy_condition now (om_generation m) v)]))"
  have step: "list_all2 ?ok (done @ [ref]) (out @ [target_ancestor (om_ns m) ref
       (policy_condition now (om_generation m) v)])"
    if "list_all2 ?ok done out"
      "fst v = (if managed_gateway S (om_ns m, tr_name ref) then condition_true else condition_false)"
    for "done" out ref v
    using that by (cases v) (auto simp: sound_ancestor_def intro!: list_all2_appendI, (blast)+)
  have body: "always E P (\<lambda>r. case r of Inl _ \<Rightarrow> True | Inr out' \<Rightarrow> list_all2 ?ok (done @ [ref]) out')
      (?body ref out)" if "list_all2 ?ok done out" for "done" ref out
    unfolding always_bindA
    by (rule always_mono [OF always_evaluate_target [OF assms]])
      (use step [OF that] in \<open>auto split: sum.splits\<close>)
  have "always E P (\<lambda>r. case r of Inl _ \<Rightarrow> True | Inr as \<Rightarrow> list_all2 ?ok (done @ rs) as)
      (foldA ?body rs out)" if "list_all2 ?ok done out" for "done" rs out
    using that
  proof (induction rs arbitrary: "done" out)
    case (Cons r rs)
    show ?case
      unfolding foldA.simps always_bindA [of _ _ _ "?body r out"]
      by (rule always_mono [OF body [OF Cons.prems]])
        (use Cons.IH [of "done @ [r]"] in \<open>auto split: sum.splits\<close>)
  qed simp
  from this [of "[]" "[]"] show ?thesis by (simp add: build_policy_ancestors_def)
qed



subsection \<open>Acceptance of an OnionBalancePolicy\<close>

definition master_key_granted :: "(string \<Rightarrow> reference_grant list) \<Rightarrow> onion_balance_policy \<Rightarrow> bool" where
  "master_key_granted G p \<longleftrightarrow>
     (let ref = obp_master_key (obp_spec p) in
      allows (G (sr_namespace ref))
        \<lparr>fr_group = ''policy.torgateway.io'', fr_kind = ''OnionBalancePolicy'',
         fr_namespace = om_ns (obp_meta p)\<rparr>
        \<lparr>to_group = [], to_kind = ''Secret'', to_name = sr_name ref\<rparr>)"

definition master_key_ok ::
    "(byte list \<Rightarrow> byte list) \<Rightarrow> (string \<Rightarrow> reference_grant list) \<Rightarrow> (kind \<Rightarrow> nsname \<Rightarrow> answer) \<Rightarrow>
     onion_balance_policy \<Rightarrow> bool" where
  "master_key_ok bm G S p \<longleftrightarrow>
     (master_ns p = om_ns (obp_meta p) \<or> master_key_granted G p) \<and>
     (\<exists>sec kp. S KSecret (master_ns p, sr_name (obp_master_key (obp_spec p))) = Object (OSecret sec) \<and>
        validate_master_key_secret bm (sec_data sec) = Inr kp)"

definition obp_world ::
    "(string \<Rightarrow> reference_grant list) \<Rightarrow> (kind \<Rightarrow> nsname \<Rightarrow> answer) \<Rightarrow> nsname \<Rightarrow>
     onion_balance_policy \<Rightarrow> call \<Rightarrow> answer \<Rightarrow> bool" where
  "obp_world G S key p c r \<longleftrightarrow> grants_are G c r \<and> object_world S KObp key (OObp p) c r"

definition gateway_exists :: "(kind \<Rightarrow> nsname \<Rightarrow> answer) \<Rightarrow> nsname \<Rightarrow> bool" where
  "gateway_exists S key \<longleftrightarrow> (\<exists>g. S KGateway key = Object (OGateway g))"

text \<open>
  The first check that the master key fails, on a server that answers \<open>S\<close> and holds the grants \<open>G\<close>: the grant
  when the key lives elsewhere, then the Secret, then its contents.
\<close>

definition key_failure ::
    "(byte list \<Rightarrow> byte list) \<Rightarrow> (kind \<Rightarrow> nsname \<Rightarrow> answer) \<Rightarrow> onion_balance_policy \<Rightarrow> master_key_error option" where
  "key_failure bm S p =
     (case S KSecret (master_ns p, sr_name (obp_master_key (obp_spec p))) of
        Failed e \<Rightarrow> Some (if e = NotFound then KeyInvalid MissingSecret else GetMaster e)
      | Object (OSecret sec) \<Rightarrow> (case validate_master_key_secret bm (sec_data sec) of
            Inl e \<Rightarrow> Some (KeyInvalid e) | Inr _ \<Rightarrow> None)
      | _ \<Rightarrow> Some (GetMaster bad_answer))"

definition master_failure ::
    "(byte list \<Rightarrow> byte list) \<Rightarrow> (string \<Rightarrow> reference_grant list) \<Rightarrow> (kind \<Rightarrow> nsname \<Rightarrow> answer) \<Rightarrow>
     onion_balance_policy \<Rightarrow> master_key_error option" where
  "master_failure bm G S p =
     (if master_ns p \<noteq> om_ns (obp_meta p) \<and> \<not> master_key_granted G p
      then Some (CrossNsDenied (master_ns p) (sr_name (obp_master_key (obp_spec p))))
      else key_failure bm S p)"

lemma master_failure_None: "master_failure bm G S p = None \<longleftrightarrow> master_key_ok bm G S p"
  by (auto simp: master_failure_def key_failure_def master_key_ok_def split: answer.splits obj.splits sum.splits)

text \<open>What is published for each failed check.\<close>

fun published_reason :: "master_key_error \<Rightarrow> string" where
  "published_reason (KeyInvalid MissingSecret) = ''MasterKeyMissing''"
| "published_reason (KeyInvalid MissingPublic) = ''MasterKeyMissing''"
| "published_reason (KeyInvalid (MasterParse e)) = ''MasterKeyInvalid''"
| "published_reason (KeyInvalid MasterScalar) = ''MasterKeyInvalid''"
| "published_reason (KeyInvalid MasterMismatch) = ''MasterKeyInvalid''"
| "published_reason (CrossNsDenied ns name) = ''MasterKeyCrossNamespaceDenied''"
| "published_reason (GrantCheck e) = ''MasterKeyInvalid''"
| "published_reason (GetMaster e) = ''MasterKeyInvalid''"

lemma published_reason_code: "reason_from_master_err e = published_reason e"
  by (cases e rule: published_reason.cases) (simp_all add: reason_from_master_err_def)

text \<open>Status, reason and message for one target, from the answer for its Gateway and the first failed check
  of the master key.\<close>

definition obp_verdict ::
    "(master_key_error \<Rightarrow> string) \<Rightarrow> (kind \<Rightarrow> nsname \<Rightarrow> answer) \<Rightarrow> onion_balance_policy \<Rightarrow>
     master_key_error option \<Rightarrow> target_ref \<Rightarrow> string \<times> string \<times> string \<Rightarrow> bool" where
  "obp_verdict text S p e ref v \<longleftrightarrow>
     (if S KGateway (om_ns (obp_meta p), tr_name ref) = Failed NotFound
      then v = (''False'', ''GatewayMissing'',
        ''Gateway '' @ om_ns (obp_meta p) @ ''/'' @ tr_name ref @ '' does not exist'')
      else gateway_exists S (om_ns (obp_meta p), tr_name ref) \<and>
        (case e of
           Some err \<Rightarrow> v = (''False'', published_reason err, text err)
         | None \<Rightarrow> v \<in> {(''True'', ''Accepted'', ''OnionBalancePolicy accepted''),
             (''True'', ''Accepted'', ''PoW disabled on backends; onionbalance behind PoW is currently worse than no PoW (see onionbalance#13)'')}))"

definition obp_published ::
    "(master_key_error \<Rightarrow> string) \<Rightarrow> (kind \<Rightarrow> nsname \<Rightarrow> answer) \<Rightarrow> time \<Rightarrow> onion_balance_policy \<Rightarrow>
     master_key_error option \<Rightarrow> target_ref \<Rightarrow> ancestor_status \<Rightarrow> bool" where
  "obp_published text S now p e ref a \<longleftrightarrow>
     (\<exists>v. obp_verdict text S p e ref v \<and>
        a = target_ancestor (om_ns (obp_meta p)) ref (policy_condition now (om_generation (obp_meta p)) v))"

lemma published_sound:
  "obp_published text S now p e ref a \<Longrightarrow>
     sound_ancestor now (obp_meta p) (gateway_exists S (om_ns (obp_meta p), tr_name ref) \<and> e = None) ref a"
  by (auto simp: obp_published_def obp_verdict_def sound_ancestor_def gateway_exists_def
      split: if_splits option.splits)

lemma always_get_master:
  assumes E: "\<And>c r. E c r \<Longrightarrow> snapshot S c r" and P: "\<And>c. is_read c \<Longrightarrow> P c"
  shows "always E P (\<lambda>e. e = key_failure bm S p) (get_master_key bm p)"
  unfolding get_master_key_def always_bindP
  by (rule always_get_snapshot [OF E], assumption)
    (auto simp: P un_secret_def key_failure_def bad_answer_def split: answer.splits obj.splits sum.splits)

lemma always_validate_master:
  assumes E: "\<And>c r. E c r \<Longrightarrow> snapshot S c r \<and> grants_are G c r" and P: "\<And>c. is_read c \<Longrightarrow> P c"
  shows "always E P (\<lambda>e. e = master_failure bm G S p) (validate_master_key bm p)"
proof -
  have g: "always E P (\<lambda>r. r = Inr (master_key_granted G p)) (master_key_reference_grant_allows p)"
    using P by (auto simp: master_key_reference_grant_allows_def Let_def list_objs_def
        master_key_granted_def grants_are_def dest!: E)
  have m: "always E P (\<lambda>e. e = key_failure bm S p) (get_master_key bm p)"
    by (rule always_get_master [OF _ P]) (use E in blast)
  show ?thesis
  proof (cases "master_ns p = om_ns (obp_meta p)")
    case True
    with m show ?thesis by (simp add: validate_master_key_def master_failure_def)
  next
    case False
    have "always E P (\<lambda>r. case r of Inl e \<Rightarrow> Some (GrantCheck e) = master_failure bm G S p
        | Inr allowed \<Rightarrow> always E P (\<lambda>e. e = master_failure bm G S p)
            (if \<not> allowed then Ret (Some (CrossNsDenied (master_ns p) (sr_name (obp_master_key (obp_spec p)))))
             else get_master_key bm p)) (master_key_reference_grant_allows p)"
      by (rule always_mono [OF g]) (use m False in \<open>auto simp: master_failure_def\<close>)
    then show ?thesis
      using False by (simp add: validate_master_key_def) (elim always_mono, auto split: sum.splits)
  qed
qed

lemma reads_pow_forced_off: "(\<And>c. is_read c \<Longrightarrow> P c) \<Longrightarrow> always E P (\<lambda>_. True) (pow_forced_off g)"
  by (auto simp: pow_forced_off_def list_objs_def split: sum.splits)

lemma reads_count_ready: "(\<And>c. is_read c \<Longrightarrow> P c) \<Longrightarrow> always E P (\<lambda>_. True) (count_ready_backends g)"
  by (auto simp: count_ready_backends_def list_objs_def split: sum.splits)

lemma always_obp_target:
  assumes E: "\<And>c r. E c r \<Longrightarrow> snapshot S c r" and P: "\<And>c. is_read c \<Longrightarrow> P c"
  shows "always E P (\<lambda>r. case r of Inl _ \<Rightarrow> True
      | Inr (c, n) \<Rightarrow> obp_published text S now p merr ref (target_ancestor (om_ns (obp_meta p)) ref c))
      (obp_target text now p merr ref)"
proof -
  let ?key = "(om_ns (obp_meta p), tr_name ref)"
  let ?ok = "\<lambda>c. obp_published text S now p merr ref (target_ancestor (om_ns (obp_meta p)) ref c)"
  have published: "?ok (obp_condition now p st reason msg)" if "obp_verdict text S p merr ref (st, reason, msg)"
    for st reason msg
    using that unfolding obp_published_def
    by (intro exI [of _ "(st, reason, msg)"]) (simp add: obp_condition_def policy_condition_def)
  have rest: "always E P (\<lambda>r. case r of Inl _ \<Rightarrow> True | Inr (c, n) \<Rightarrow> ?ok c)
      (case merr of
           Some me \<Rightarrow> okA (obp_condition now p condition_false (reason_from_master_err me) (text me), 0)
         | None \<Rightarrow> bindP (pow_forced_off g) (\<lambda>off.
             bindP (count_ready_backends g) (\<lambda>n.
               okA (obp_condition now p condition_true ''Accepted'' (obp_accepted_message off),
                    (case n of Inl _ \<Rightarrow> 0 | Inr k \<Rightarrow> k)))))" if "S KGateway ?key = Object (OGateway g)" for g
  proof (cases merr)
    case None
    have ok: "?ok (obp_condition now p condition_true ''Accepted'' (obp_accepted_message off))" for off
      by (rule published) (simp add: obp_verdict_def that gateway_exists_def None obp_accepted_message_def)
    show ?thesis
      unfolding None option.case always_bindP
      by (rule always_mono [OF reads_pow_forced_off [OF P]],
          assumption, assumption, rule always_mono [OF reads_count_ready [OF P]]) (simp_all add: ok [unfolded None])
  next
    case (Some me)
    have "?ok (obp_condition now p condition_false (reason_from_master_err me) (text me))"
      by (rule published) (simp add: obp_verdict_def that gateway_exists_def Some published_reason_code)
    with Some show ?thesis by simp
  qed
  have missing: "?ok (obp_condition now p condition_false ''GatewayMissing''
      (''Gateway '' @ om_ns (obp_meta p) @ ''/'' @ tr_name ref @ '' does not exist''))"
    if "S KGateway ?key = Failed NotFound"
    by (rule published) (simp add: obp_verdict_def that)
  show ?thesis
    unfolding obp_target_def always_bindP [of _ _ _ "get_obj _ _ _"]
    by (rule always_get_snapshot [OF E], assumption)
      (auto simp: P un_gateway_def bad_answer_def missing [simplified] split: answer.splits obj.splits
        simp del: always_bindP intro!: rest)
qed

lemma always_obp_ancestors:
  assumes E: "\<And>c r. E c r \<Longrightarrow> snapshot S c r \<and> grants_are G c r" and P: "\<And>c. is_read c \<Longrightarrow> P c"
  shows "always E P (\<lambda>r. case r of Inl _ \<Rightarrow> True
      | Inr (as, n) \<Rightarrow> list_all2 (obp_published text S now p (master_failure bm G S p)) (obp_target_refs (obp_spec p)) as)
      (obp_build_ancestors bm text now p)"
proof -
  let ?ok = "\<lambda>merr. obp_published text S now p merr"
  let ?body = "\<lambda>merr ref (out, ready). bindA (obp_target text now p merr ref) (\<lambda>(c, n).
      okA (out @ [target_ancestor (om_ns (obp_meta p)) ref c], ready + n))"
  have body: "always E P (\<lambda>r. case r of Inl _ \<Rightarrow> True
      | Inr (out', _) \<Rightarrow> list_all2 (?ok merr) (done @ [ref]) out') (?body merr ref (out, ready))"
    if "list_all2 (?ok merr) done out" for merr "done" ref out ready
    unfolding prod.case always_bindA
    by (rule always_mono [OF always_obp_target [OF conjunct1 [OF E] P]], assumption+)
      (use that in \<open>auto split: sum.splits intro: list_all2_appendI\<close>)
  have "always E P (\<lambda>r. case r of Inl _ \<Rightarrow> True
      | Inr (as, _) \<Rightarrow> list_all2 (?ok merr) (done @ rs) as) (foldA (?body merr) rs (out, ready))"
    if "list_all2 (?ok merr) done out" for merr "done" rs out ready
    using that
  proof (induction rs arbitrary: "done" out ready)
    case (Cons r rs)
    show ?case
      unfolding foldA.simps always_bindA [of _ _ _ "?body merr r (out, ready)"]
      by (rule always_mono [OF body [OF Cons.prems]])
        (use Cons.IH [of "done @ [r]"] in \<open>auto split: sum.splits\<close>)
  qed simp
  from this [of _ "[]" "[]" "obp_target_refs (obp_spec p)" 0]
  have fold: "always E P (\<lambda>r. case r of Inl _ \<Rightarrow> True
      | Inr (as, _) \<Rightarrow> list_all2 (?ok merr) (obp_target_refs (obp_spec p)) as)
      (foldA (?body merr) (obp_target_refs (obp_spec p)) ([], 0))" for merr by simp
  show ?thesis
    unfolding obp_build_ancestors_def always_bindP
    by (rule always_mono [OF always_validate_master [OF E P]], assumption+) (simp add: fold)
qed


subsection \<open>No change is missed\<close>

text \<open>
  Two servers that differ by one object: they agree on every call whose answer the object cannot
  change, and a listing that it appears in differs by it alone. A modified object is covered as its
  removal and the addition of its new version; the watch maps both versions.
\<close>

definition touches_secret :: "secret \<Rightarrow> call \<Rightarrow> bool" where
  "touches_secret s c \<longleftrightarrow>
     c = Get KSecret (meta_key (sec_meta s)) \<or>
     (\<exists>labels. c = ListObjs KSecret (Some (om_ns (sec_meta s))) labels \<and>
        matching_labels labels (om_labels (sec_meta s)))"

definition without_entry :: "call \<Rightarrow> obj \<Rightarrow> (call \<Rightarrow> answer) \<Rightarrow> (call \<Rightarrow> answer) \<Rightarrow> bool" where
  "without_entry l ob A B \<longleftrightarrow>
     (\<forall>c. c \<noteq> l \<longrightarrow> A c = B c) \<and>
     (\<exists>xs ys. A l = Objects (xs @ ob # ys) \<and> B l = Objects (xs @ ys))"

definition differ_by :: "obp_event \<Rightarrow> (call \<Rightarrow> answer) \<Rightarrow> (call \<Rightarrow> answer) \<Rightarrow> bool" where
  "differ_by ev A B \<longleftrightarrow>
     (case ev of
        SecretEvent s \<Rightarrow> \<forall>c. \<not> touches_secret s c \<longrightarrow> A c = B c
      | GatewayEvent g \<Rightarrow> \<forall>c. c \<noteq> Get KGateway (meta_key (gw_meta g)) \<longrightarrow> A c = B c
      | GrantEvent rg \<Rightarrow> without_entry (ListObjs KGrant (Some (rg_ns rg)) []) (OGrant rg) A B
      | TspEvent t \<Rightarrow> without_entry (ListObjs KTsp (Some (om_ns (tsp_meta t))) []) (OTsp t) A B)"

text \<open>The server returns the Gateway it was asked for, and the policy is in the listings.\<close>

definition keyed_gateways :: "(call \<Rightarrow> answer) \<Rightarrow> bool" where
  "keyed_gateways A \<longleftrightarrow> (\<forall>key g. A (Get KGateway key) = Object (OGateway g) \<longrightarrow> meta_key (gw_meta g) = key)"

definition obp_listed :: "(call \<Rightarrow> answer) \<Rightarrow> onion_balance_policy \<Rightarrow> bool" where
  "obp_listed A p \<longleftrightarrow>
     (\<forall>ns \<in> {None, Some (om_ns (obp_meta p))}.
        \<exists>ps. A (ListObjs KObp ns []) = Objects (map OObp ps) \<and> p \<in> set ps)"

lemma decode_obps [simp]: "decode_list un_obp (Objects (map OObp ps)) = Inr ps"
  using those_map_un [of un_obp OObp ps] by (simp add: decode_list_def un_obp_def)

lemma requested:
  assumes "A (ListObjs KObp ns []) = Objects (map OObp ps)" "p \<in> set ps" "sel p"
  shows "meta_key (obp_meta p) \<in> set (snd (replay A (obp_requests_from ns sel)))"
  using assms by (auto simp: obp_requests_from_def replay_bindP)

lemma requested_all:
  assumes "obp_listed A p" "sel p"
  shows "meta_key (obp_meta p) \<in> set (snd (replay A (obp_requests_from None sel)))"
  using assms requested [of A None _ p sel] by (auto simp: obp_listed_def)

lemma requested_ns:
  assumes "obp_listed A p" "sel p"
  shows "meta_key (obp_meta p) \<in> set (snd (replay A (obp_requests_from (Some (om_ns (obp_meta p))) sel)))"
  using assms requested [of A "Some (om_ns (obp_meta p))" _ p sel] by (auto simp: obp_listed_def)

text \<open>What the reconciler reads of the server.\<close>

lemma replay_target_cong:
  assumes g: "A (Get KGateway (om_ns (obp_meta p), tr_name ref)) = B (Get KGateway (om_ns (obp_meta p), tr_name ref))"
    and pow: "\<And>g. meta_key (gw_meta g) = (om_ns (obp_meta p), tr_name ref) \<Longrightarrow>
        replay A (pow_forced_off g) = replay B (pow_forced_off g)"
    and cnt: "\<And>g. meta_key (gw_meta g) = (om_ns (obp_meta p), tr_name ref) \<Longrightarrow>
        A (ListObjs KSecret (Some (gw_ns g)) (backend_selector g)) =
        B (ListObjs KSecret (Some (gw_ns g)) (backend_selector g))"
    and keyed: "keyed_gateways A"
  shows "replay A (obp_target text now p merr ref) = replay B (obp_target text now p merr ref)"
proof -
  have rest: "replay A (bindP (pow_forced_off g) (\<lambda>off. bindP (count_ready_backends g) (\<lambda>n. Ret (f off n)))) =
      replay B (bindP (pow_forced_off g) (\<lambda>off. bindP (count_ready_backends g) (\<lambda>n. Ret (f off n))))"
    if "meta_key (gw_meta g) = (om_ns (obp_meta p), tr_name ref)" for g and f :: "bool \<Rightarrow> (api_error, nat) result \<Rightarrow> 'z"
    using pow [OF that] cnt [OF that]
    by (intro replay_bindP_cong)
      (auto simp: count_ready_backends_def intro!: replay_bindA_cong)
  have "meta_key (gw_meta g) = (om_ns (obp_meta p), tr_name ref)"
    if "A (Get KGateway (om_ns (obp_meta p), tr_name ref)) = Object (OGateway g)" for g
    using keyed that by (simp add: keyed_gateways_def)
  then show ?thesis
    unfolding obp_target_def
    by (intro replay_bindP_cong)
      (auto simp: g un_gateway_def intro!: rest split: sum.splits option.splits answer.splits obj.splits)
qed

lemma replay_reconcile_cong:
  assumes "A (Get KObp (meta_key (obp_meta p))) = Object (OObp p)"
    "B (Get KObp (meta_key (obp_meta p))) = Object (OObp p)"
    and "replay A (validate_master_key bm p) = replay B (validate_master_key bm p)"
    and "\<And>merr ref. ref \<in> set (obp_target_refs (obp_spec p)) \<Longrightarrow>
        replay A (obp_target text now p merr ref) = replay B (obp_target text now p merr ref)"
    and w: "\<And>ob. A (StatusUpdate ob) = B (StatusUpdate ob)"
  shows "replay A (obp_reconcile bm text now (meta_key (obp_meta p))) =
    replay B (obp_reconcile bm text now (meta_key (obp_meta p)))"
  unfolding obp_reconcile_def
  by (rule replay_bindP_cong)
    (auto simp: assms(1,2) un_obp_def obp_build_ancestors_def write_call_def w
      intro!: replay_bindA_cong replay_bindP_cong replay_foldA_cong assms(3,4))

lemma replay_validate_cong:
  assumes "A (Get KSecret (master_ns p, sr_name (obp_master_key (obp_spec p)))) =
      B (Get KSecret (master_ns p, sr_name (obp_master_key (obp_spec p))))"
    and "master_ns p \<noteq> om_ns (obp_meta p) \<Longrightarrow>
      replay A (master_key_reference_grant_allows p) = replay B (master_key_reference_grant_allows p)"
  shows "replay A (validate_master_key bm p) = replay B (validate_master_key bm p)"
  using assms unfolding validate_master_key_def
  by (auto simp: get_master_key_def intro!: replay_bindP_cong split: sum.splits)

lemma replay_grants_cong:
  "A (ListObjs KGrant (Some (sr_namespace (obp_master_key (obp_spec p)))) []) =
     B (ListObjs KGrant (Some (sr_namespace (obp_master_key (obp_spec p)))) []) \<Longrightarrow>
   replay A (master_key_reference_grant_allows p) = replay B (master_key_reference_grant_allows p)"
  by (auto simp: master_key_reference_grant_allows_def Let_def intro!: replay_bindA_cong)

lemma replay_pow_cong:
  "A (ListObjs KTsp (Some (gw_ns g)) []) = B (ListObjs KTsp (Some (gw_ns g)) []) \<Longrightarrow>
   replay A (pow_forced_off g) = replay B (pow_forced_off g)"
  by (auto simp: pow_forced_off_def intro!: replay_bindP_cong split: sum.splits)

lemma secret_event_complete:
  assumes d: "differ_by (SecretEvent s) A B" and unused: "\<not> obp_uses_secret s p"
    and A: "A (Get KObp (meta_key (obp_meta p))) = Object (OObp p)" "keyed_gateways A"
    and named: "list_all (\<lambda>r. tr_name r \<noteq> []) (obp_target_refs (obp_spec p))"
  shows "replay A (obp_reconcile bm text now (meta_key (obp_meta p))) =
    replay B (obp_reconcile bm text now (meta_key (obp_meta p)))"
proof -
  have eq: "A c = B c" if "\<not> touches_secret s c" for c
    using d that by (simp add: differ_by_def)
  have master: "(master_ns p, sr_name (obp_master_key (obp_spec p))) \<noteq> meta_key (sec_meta s)"
    using unused by (auto simp: obp_uses_secret_def meta_key_def Let_def)
  have cnt: "\<not> touches_secret s (ListObjs KSecret (Some (gw_ns g)) (backend_selector g))"
    if "ref \<in> set (obp_target_refs (obp_spec p))" "meta_key (gw_meta g) = (om_ns (obp_meta p), tr_name ref)"
    for g ref
  proof
    assume "touches_secret s (ListObjs KSecret (Some (gw_ns g)) (backend_selector g))"
    then have labels: "om_ns (sec_meta s) = gw_ns g"
      "map_of (om_labels (sec_meta s)) gateway_label_key = Some (gw_name g)"
      "map_of (om_labels (sec_meta s)) ''torgateway.io/role'' = Some ''backend''"
      by (auto simp: touches_secret_def matching_labels_def backend_selector_def)
    have "gw_name g = tr_name ref" "gw_ns g = om_ns (obp_meta p)" "tr_name ref \<noteq> []"
      using that named by (auto simp: meta_key_def list_all_iff)
    with labels that(1) have "obp_uses_secret s p"
      by (auto simp: obp_uses_secret_def map_index_def ha_role_key_def ha_role_backend_def
          list_ex_iff Let_def)
    with unused show False by contradiction
  qed
  show ?thesis
    by (rule replay_reconcile_cong)
      (use A eq master cnt in \<open>auto simp: touches_secret_def intro!: replay_validate_cong
        replay_grants_cong replay_target_cong replay_pow_cong\<close>)
qed

lemma gateway_event_complete:
  assumes d: "differ_by (GatewayEvent g) A B"
    and unused: "gw_ns g = om_ns (obp_meta p) \<Longrightarrow>
      \<not> list_ex (\<lambda>ref. tr_name ref = gw_name g) (obp_target_refs (obp_spec p))"
    and A: "A (Get KObp (meta_key (obp_meta p))) = Object (OObp p)" "keyed_gateways A"
  shows "replay A (obp_reconcile bm text now (meta_key (obp_meta p))) =
    replay B (obp_reconcile bm text now (meta_key (obp_meta p)))"
proof -
  have eq: "A c = B c" if "c \<noteq> Get KGateway (meta_key (gw_meta g))" for c
    using d that by (simp add: differ_by_def)
  have "(om_ns (obp_meta p), tr_name ref) \<noteq> meta_key (gw_meta g)"
    if "ref \<in> set (obp_target_refs (obp_spec p))" for ref
    using unused that by (auto simp: meta_key_def list_ex_iff)
  with A eq show ?thesis
    by (intro replay_reconcile_cong)
      (auto intro!: replay_validate_cong replay_grants_cong replay_target_cong replay_pow_cong)
qed

lemma those_append: "those (xs @ ys) = (case (those xs, those ys) of
    (Some us, Some vs) \<Rightarrow> Some (us @ vs) | _ \<Rightarrow> None)"
  by (induction xs) (auto split: option.splits)

lemma decode_without:
  assumes "un ob = Some x"
  shows "(decode_list un (Objects (xs @ ob # ys)) = Inl bad_answer \<and>
        decode_list un (Objects (xs @ ys)) = Inl bad_answer) \<or>
     (\<exists>us vs. decode_list un (Objects (xs @ ob # ys)) = Inr (us @ x # vs) \<and>
        decode_list un (Objects (xs @ ys)) = Inr (us @ vs))"
proof (cases "(those (map un xs), those (map un ys))")
  case (Pair u v)
  show ?thesis
  proof (cases "u = None \<or> v = None")
    case False
    then obtain us vs where "u = Some us" "v = Some vs" by auto
    with Pair assms have "decode_list un (Objects (xs @ ob # ys)) = Inr (us @ x # vs)"
      "decode_list un (Objects (xs @ ys)) = Inr (us @ vs)"
      by (simp_all add: decode_list_def those_append)
    then show ?thesis by blast
  qed (use Pair assms in \<open>auto simp: decode_list_def those_append split: option.splits\<close>)
qed

lemma grant_event_complete:
  assumes d: "differ_by (GrantEvent rg) A B"
    and unused: "sr_namespace (obp_master_key (obp_spec p)) = rg_ns rg \<Longrightarrow> rg_ns rg \<noteq> [] \<Longrightarrow>
      \<not> list_ex (\<lambda>f. gf_group f = ''policy.torgateway.io'' \<and> gf_kind f = ''OnionBalancePolicy'' \<and>
         gf_namespace f = om_ns (obp_meta p)) (rg_from rg)"
    and A: "A (Get KObp (meta_key (obp_meta p))) = Object (OObp p)" "keyed_gateways A"
  shows "replay A (obp_reconcile bm text now (meta_key (obp_meta p))) =
    replay B (obp_reconcile bm text now (meta_key (obp_meta p)))"
proof -
  let ?l = "ListObjs KGrant (Some (rg_ns rg)) []"
  from d have eq: "\<And>c. c \<noteq> ?l \<Longrightarrow> A c = B c"
    by (simp add: differ_by_def without_entry_def)
  obtain xs ys where xy: "A ?l = Objects (xs @ OGrant rg # ys)" "B ?l = Objects (xs @ ys)"
    using d by (auto simp: differ_by_def without_entry_def)
  have "replay A (master_key_reference_grant_allows p) = replay B (master_key_reference_grant_allows p)"
    if ext: "master_ns p \<noteq> om_ns (obp_meta p)"
  proof (cases "sr_namespace (obp_master_key (obp_spec p)) = rg_ns rg")
    case True
    have "\<not> grant_matches_from rg \<lparr>fr_group = ''policy.torgateway.io'', fr_kind = ''OnionBalancePolicy'',
        fr_namespace = om_ns (obp_meta p)\<rparr>"
      using unused True ext by (auto simp: grant_matches_from_def master_ns_def split: if_splits)
    then have "allows (us @ rg # vs) \<lparr>fr_group = ''policy.torgateway.io'', fr_kind = ''OnionBalancePolicy'',
        fr_namespace = om_ns (obp_meta p)\<rparr> t = allows (us @ vs) \<lparr>fr_group = ''policy.torgateway.io'',
        fr_kind = ''OnionBalancePolicy'', fr_namespace = om_ns (obp_meta p)\<rparr> t" for us vs t
      by (simp add: allows_def)
    with decode_without [of un_grant "OGrant rg" rg xs ys] show ?thesis
      using True by (auto simp: master_key_reference_grant_allows_def Let_def bindA_def replay_bindP
          xy un_grant_def)
  next
    case False
    then show ?thesis by (intro replay_grants_cong eq) simp
  qed
  with A eq show ?thesis
    by (intro replay_reconcile_cong)
      (auto intro!: replay_validate_cong replay_target_cong replay_pow_cong)
qed

lemma tsp_event_complete:
  assumes d: "differ_by (TspEvent t) A B"
    and unused: "om_ns (tsp_meta t) = om_ns (obp_meta p) \<Longrightarrow>
      \<not> list_ex (\<lambda>ref. tr_name ref \<in> set (map tr_name (tsp_target_refs (tsp_spec t))))
        (obp_target_refs (obp_spec p))"
    and A: "A (Get KObp (meta_key (obp_meta p))) = Object (OObp p)" "keyed_gateways A"
  shows "replay A (obp_reconcile bm text now (meta_key (obp_meta p))) =
    replay B (obp_reconcile bm text now (meta_key (obp_meta p)))"
proof -
  let ?l = "ListObjs KTsp (Some (om_ns (tsp_meta t))) []"
  from d have eq: "\<And>c. c \<noteq> ?l \<Longrightarrow> A c = B c"
    by (simp add: differ_by_def without_entry_def)
  obtain xs ys where xy: "A ?l = Objects (xs @ OTsp t # ys)" "B ?l = Objects (xs @ ys)"
    using d by (auto simp: differ_by_def without_entry_def)
  have "replay A (pow_forced_off g) = replay B (pow_forced_off g)"
    if g: "meta_key (gw_meta g) = (om_ns (obp_meta p), tr_name ref)"
      and ref: "ref \<in> set (obp_target_refs (obp_spec p))" for g ref
  proof (cases "om_ns (tsp_meta t) = gw_ns g")
    case True
    have "\<not> policy_targets (tsp_target_refs (tsp_spec t)) (gw_name g)"
    proof
      assume "policy_targets (tsp_target_refs (tsp_spec t)) (gw_name g)"
      then have "gw_name g \<in> set (map tr_name (tsp_target_refs (tsp_spec t)))"
        by (auto simp: policy_targets_def list_ex_iff intro: rev_image_eqI)
      with unused True g ref show False by (auto simp: list_ex_iff meta_key_def)
    qed
    with decode_without [of un_tsp "OTsp t" t xs ys] show ?thesis
      using xy [unfolded True] by (auto simp: pow_forced_off_def replay_bindP un_tsp_def)
  next
    case False
    then show ?thesis by (intro replay_pow_cong eq) simp
  qed
  with A eq show ?thesis
    by (intro replay_reconcile_cong)
      (auto intro!: replay_validate_cong replay_grants_cong replay_target_cong)
qed

text \<open>
  C25: The watches of the OnionBalancePolicy controller miss nothing. When a Secret, a Gateway, a
  ReferenceGrant or a TorServicePolicy appears, disappears or changes, a policy that the watch does
  not requeue would be reconciled with exactly the same calls and the same result before and after
  the change, so no status is left stale.
\<close>

theorem obp_watch_complete:
  assumes "differ_by ev A B" "meta_key (obp_meta p) \<notin> set (snd (replay A (obp_requests ev)))"
    and "A (Get KObp (meta_key (obp_meta p))) = Object (OObp p)" "keyed_gateways A" "obp_listed A p"
    and "list_all (\<lambda>r. tr_name r \<noteq> []) (obp_target_refs (obp_spec p))"
  shows "replay A (obp_reconcile bm text now (meta_key (obp_meta p))) =
    replay B (obp_reconcile bm text now (meta_key (obp_meta p)))"
proof (cases ev)
  case (SecretEvent s)
  with assms requested_all [of A p "obp_uses_secret s"] show ?thesis
    by (intro secret_event_complete) (auto simp: obp_requests_def obps_for_secret_def)
next
  case (GatewayEvent g)
  with assms requested_ns [of A p "\<lambda>p. list_ex (\<lambda>ref. tr_name ref = gw_name g) (obp_target_refs (obp_spec p))"]
  show ?thesis
    by (intro gateway_event_complete) (auto simp: obp_requests_def obps_for_gateway_def)
next
  case (GrantEvent rg)
  with assms requested_all [of A p "\<lambda>p.
     if sr_namespace (obp_master_key (obp_spec p)) = [] \<or>
        sr_namespace (obp_master_key (obp_spec p)) \<noteq> rg_ns rg then False
     else list_ex (\<lambda>f. gf_group f = ''policy.torgateway.io'' \<and> gf_kind f = ''OnionBalancePolicy'' \<and>
            gf_namespace f = om_ns (obp_meta p)) (rg_from rg)"]
  show ?thesis
    by (intro grant_event_complete) (auto simp: obp_requests_def obps_for_reference_grant_def)
next
  case (TspEvent t)
  with assms requested_ns [of A p "\<lambda>p.
     list_ex (\<lambda>ref. tr_name ref \<in> set (map tr_name (tsp_target_refs (tsp_spec t))))
       (obp_target_refs (obp_spec p))"]
  show ?thesis
    by (intro tsp_event_complete) (auto simp: obp_requests_def obps_for_tor_service_policy_def)
qed

definition sample_obp :: onion_balance_policy where
  "sample_obp = \<lparr>obp_meta = bare_meta ''web'' ''pol'' [],
     obp_spec = \<lparr>obp_target_refs = [\<lparr>tr_group = gateway_api_group, tr_kind = gateway_kind, tr_name = ''shop''\<rparr>],
        obp_replicas = 2, obp_refresh_interval = 30000000000,
        obp_master_key = \<lparr>sr_name = ''master'', sr_namespace = []\<rparr>,
        obp_backend_resources = None, obp_frontend_resources = None\<rparr>,
     obp_ancestors = [], obp_ready_backends = 0\<rparr>"

text \<open>A cluster with the policy, its target, and perhaps an unrelated Gateway.\<close>

definition sample_cluster :: "bool \<Rightarrow> call \<Rightarrow> answer" where
  "sample_cluster other c =
     (case c of
        Get k key \<Rightarrow>
          if k = KObp \<and> key = (''web'', ''pol'') then Object (OObp sample_obp)
          else if k = KGateway \<and> (key = (''web'', ''shop'') \<or> other \<and> key = (''web'', ''other''))
          then Object (OGateway (sample_gateway (snd key)))
          else Failed NotFound
      | ListObjs k _ _ \<Rightarrow> Objects (if k = KObp then [OObp sample_obp] else [])
      | _ \<Rightarrow> Done)"

lemma sample_gateway_key [simp]: "meta_key (gw_meta (sample_gateway n)) = (''web'', n)"
  by (simp add: meta_key_def sample_gateway_def)

theorem obp_watch_complete_witness:
  "\<forall>bm msg now. replay (sample_cluster True) (obp_reconcile bm msg now (''web'', ''pol'')) =
     replay (sample_cluster False) (obp_reconcile bm msg now (''web'', ''pol''))
   \<and> sample_cluster True (Get KGateway (''web'', ''other'')) \<noteq>
     sample_cluster False (Get KGateway (''web'', ''other''))"
proof -
  have key: "meta_key (obp_meta sample_obp) = (''web'', ''pol'')"
    by (simp add: meta_key_def sample_obp_def)
  have listed: "obp_listed (sample_cluster True) sample_obp"
    by (auto simp: obp_listed_def sample_cluster_def intro: exI [of _ "[sample_obp]"])
  have "differ_by (GatewayEvent (sample_gateway ''other'')) (sample_cluster True) (sample_cluster False)"
    by (auto simp: differ_by_def sample_cluster_def split: call.splits)
  moreover have "snd (replay (sample_cluster True) (obp_requests (GatewayEvent (sample_gateway ''other'')))) = []"
    by (simp add: obp_requests_def obps_for_gateway_def obp_requests_from_def replay_bindP
        sample_cluster_def sample_obp_def sample_gateway_def decode_list_def un_obp_def)
  moreover have "keyed_gateways (sample_cluster True)"
    by (auto simp: keyed_gateways_def sample_cluster_def split: if_splits)
  ultimately have "replay (sample_cluster True) (obp_reconcile bm msg now (meta_key (obp_meta sample_obp))) =
      replay (sample_cluster False) (obp_reconcile bm msg now (meta_key (obp_meta sample_obp)))" for bm msg now
    using listed
    by (intro obp_watch_complete [where ev = "GatewayEvent (sample_gateway ''other'')"])
      (simp_all add: key, simp_all add: sample_cluster_def, simp add: sample_obp_def)
  then show ?thesis by (simp add: key sample_cluster_def)
qed

text \<open>The GatewayClass controller touches only classes of this controller.\<close>

lemma gatewayclass_only_ours:
  "calls (\<lambda>c. is_read c \<or> (\<exists>gc. c = StatusUpdate (OGatewayClass gc) \<and> gc_controller gc = controller_name))
     (gatewayclass_reconcile now key)"
  by (auto simp: gatewayclass_reconcile_def get_obj_def write_call_def split: sum.splits prod.splits)

end
