(* ===== verification/Resources.thy ===== *)
theory Resources
  imports Policy_Controllers Torrc Client_Auth
begin

text \<open>
  \<open>internal/controller/gateway_resources.go\<close>: the effective policy of a Gateway and the builders of
  its child objects in Mode A. Each builder sets the Gateway as controller of the child
  (\<open>child_meta\<close>). The lemmas say that the rendered torrc is always accepted, and that the pods are
  hardened and mount only volumes they declare.
\<close>

subsection \<open>Images and effective settings\<close>

record runtime_images =
  im_tor :: string
  im_router :: string
  im_tor_init :: string
  im_mkp224o :: string
  im_vanity_finalize :: string
  im_operator :: string
  im_onionbalance :: string
  im_obrefresh :: string

record effective_service_policy =
  ep_log_level :: string
  ep_pow :: bool
  ep_vanity_prefix :: string
  ep_resources :: resource_requirements

record effective_client_auth =
  ea_enabled :: bool
  ea_secret_name :: string

definition default_policy :: effective_service_policy where
  "default_policy = \<lparr>ep_log_level = ''notice'', ep_pow = True, ep_vanity_prefix = [],
     ep_resources = no_resources\<rparr>"

definition from_tor_service_policy :: "tor_service_policy option \<Rightarrow> effective_service_policy" where
  "from_tor_service_policy po =
     (case po of
        None \<Rightarrow> default_policy
      | Some p \<Rightarrow>
          let s = tsp_spec p; e = default_policy;
              e = (if tsp_log_level s \<noteq> [] then e\<lparr>ep_log_level := tsp_log_level s\<rparr> else e);
              e = (case tsp_pow s of None \<Rightarrow> e | Some b \<Rightarrow> e\<lparr>ep_pow := b\<rparr>);
              e = e\<lparr>ep_vanity_prefix := tsp_vanity_prefix s\<rparr>
          in (case tsp_resources s of None \<Rightarrow> e | Some r \<Rightarrow> e\<lparr>ep_resources := r\<rparr>))"

datatype build_error = MissingImages | RenderTorrc torrc_error | MasterNamespaceEmpty

subsection \<open>Key Secret and torrc\<close>

definition build_key_secret :: "gateway \<Rightarrow> key_pair \<Rightarrow> secret" where
  "build_key_secret g kp =
     \<lparr>sec_meta = child_meta g (key_secret_name (gw_name g)) (child_labels (gw_name g)),
      sec_data = key_secret_data kp\<rparr>"

definition torrc_settings ::
    "effective_service_policy \<Rightarrow> effective_client_auth \<Rightarrow> bool \<Rightarrow> string \<Rightarrow> torrc_config" where
  "torrc_settings policy auth instance_of_ob include =
     \<lparr>hidden_service_dir = hs_service_dir,
      hidden_service_port = \<lparr>virtual_port = 80, target_host = loopback_target_host,
        target_port = loopback_target_port\<rparr>,
      log_level = ep_log_level policy, data_directory = tor_data_dir,
      pow_defenses_enabled = ep_pow policy,
      client_auth_dir =
        (if ea_enabled auth then hs_service_dir @ ''/'' @ authorized_clients_subdir else []),
      metrics_port = tor_metrics_port, metrics_port_policy = ''accept 0.0.0.0/0'',
      extra_directives = [], onionbalance_instance = instance_of_ob,
      testing_network_include = include\<rparr>"

definition build_torrc_config_map ::
    "gateway \<Rightarrow> effective_service_policy \<Rightarrow> effective_client_auth \<Rightarrow> string \<Rightarrow>
     (build_error, config_map) result" where
  "build_torrc_config_map g policy auth include =
     bindE (mapErr RenderTorrc (render_torrc (Some (torrc_settings policy auth False include))))
       (\<lambda>rendered. Inr
         \<lparr>cm_meta = child_meta g (torrc_config_map_name (gw_name g)) (child_labels (gw_name g)),
          cm_data = [(''torrc'', rendered)]\<rparr>)"

subsection \<open>Pods\<close>

definition run_as :: int where "run_as = 65532"

definition pod_hardening :: pod_security where
  "pod_hardening = \<lparr>psc_non_root = Some True, psc_user = Some run_as, psc_group = Some run_as,
     psc_fs_group = Some run_as, psc_seccomp = ''RuntimeDefault''\<rparr>"

definition container_hardening :: security_context where
  "container_hardening = \<lparr>sc_allow_escalation = Some False, sc_read_only_root = Some True,
     sc_non_root = Some True, sc_drop = [''ALL'']\<rparr>"

text \<open>A container with nothing but a name and an image, to be filled in.\<close>

definition blank_container :: "string \<Rightarrow> string \<Rightarrow> container" where
  "blank_container name img = \<lparr>ct_name = name, ct_image = img, ct_pull_policy = [], ct_args = [],
     ct_env = [], ct_resources = no_resources, ct_ports = [], ct_startup = None, ct_liveness = None,
     ct_readiness = None, ct_mounts = [], ct_security = None\<rparr>"

definition http_probe :: "string \<Rightarrow> int \<Rightarrow> nat \<Rightarrow> nat \<Rightarrow> nat \<Rightarrow> nat \<Rightarrow> probe" where
  "http_probe path port delay period timeout failures =
     \<lparr>pb_handler = HttpGet path (IntPort port), pb_initial_delay = delay, pb_period = period,
      pb_timeout = timeout, pb_failure_threshold = failures\<rparr>"

definition init_container_args :: "effective_client_auth \<Rightarrow> string list" where
  "init_container_args auth =
     [''--src'', keys_mount_path, ''--dst'', hs_service_dir] @
     (if ea_enabled auth then [''--client-auth-src'', client_auth_mount_path] else [])"

definition mount_rw :: "string \<Rightarrow> string \<Rightarrow> volume_mount" where
  "mount_rw n p = \<lparr>vm_name = n, vm_path = p, vm_read_only = False\<rparr>"

definition mount_ro :: "string \<Rightarrow> string \<Rightarrow> volume_mount" where
  "mount_ro n p = \<lparr>vm_name = n, vm_path = p, vm_read_only = True\<rparr>"

definition init_container_mounts :: "effective_client_auth \<Rightarrow> volume_mount list" where
  "init_container_mounts auth =
     [mount_ro keys_volume_name keys_mount_path, mount_rw hs_dir_volume_name hs_dir_mount_path] @
     (if ea_enabled auth then [mount_ro client_auth_volume_name client_auth_mount_path] else [])"

definition tor_init_container :: "effective_client_auth \<Rightarrow> runtime_images \<Rightarrow> container" where
  "tor_init_container auth images = (blank_container init_container_name (im_tor_init images))
     \<lparr>ct_pull_policy := ''IfNotPresent'', ct_args := init_container_args auth,
      ct_security := Some container_hardening, ct_mounts := init_container_mounts auth\<rparr>"

definition tor_container :: "effective_service_policy \<Rightarrow> runtime_images \<Rightarrow> container" where
  "tor_container policy images = (blank_container tor_container_name (im_tor images))
     \<lparr>ct_pull_policy := ''IfNotPresent'', ct_args := [''-f'', config_mount_path @ ''/torrc''],
      ct_resources := ep_resources policy, ct_security := Some container_hardening,
      ct_ports := [\<lparr>cp_name = ''metrics'', cp_port = tor_metrics_port, cp_protocol = ''TCP''\<rparr>],
      ct_startup := Some (http_probe ''/metrics'' tor_metrics_port 0 5 2 30),
      ct_liveness := Some (http_probe ''/metrics'' tor_metrics_port 0 10 2 3),
      ct_readiness := Some (http_probe ''/metrics'' tor_metrics_port 0 10 2 3),
      ct_mounts := [mount_ro config_volume_name config_mount_path,
        mount_rw hs_dir_volume_name hs_dir_mount_path, mount_rw data_volume_name data_mount_path]\<rparr>"

definition router_sidecar :: "gateway \<Rightarrow> runtime_images \<Rightarrow> container" where
  "router_sidecar g images = (blank_container router_container (im_router images))
     \<lparr>ct_pull_policy := ''IfNotPresent'',
      ct_args := [''--listen'', loopback_target_host @ '':'' @ show_int loopback_target_port,
        ''--probe-addr'', '':'' @ show_int router_probe_port,
        ''--gateway'', gw_name g, ''--namespace'', gw_ns g],
      ct_ports := [\<lparr>cp_name = ''probe'', cp_port = router_probe_port, cp_protocol = ''TCP''\<rparr>],
      ct_liveness := Some (http_probe ''/healthz'' router_probe_port 5 10 2 3),
      ct_readiness := Some (http_probe ''/healthz'' router_probe_port 5 10 2 3),
      ct_resources := \<lparr>rq_requests = [(''cpu'', ''50m''), (''memory'', ''64Mi'')],
        rq_limits = [(''cpu'', ''250m''), (''memory'', ''128Mi'')]\<rparr>,
      ct_security := Some container_hardening\<rparr>"

definition tor_pod_volumes :: "gateway \<Rightarrow> effective_client_auth \<Rightarrow> volume list" where
  "tor_pod_volumes g auth =
     [\<lparr>vol_name = keys_volume_name, vol_source = SecretVolume (key_secret_name (gw_name g)) (6 * 64)\<rparr>,
      \<lparr>vol_name = config_volume_name, vol_source = ConfigMapVolume (torrc_config_map_name (gw_name g))\<rparr>,
      \<lparr>vol_name = hs_dir_volume_name, vol_source = EmptyDirVolume\<rparr>,
      \<lparr>vol_name = data_volume_name, vol_source = EmptyDirVolume\<rparr>] @
     (if ea_enabled auth
      then [\<lparr>vol_name = client_auth_volume_name, vol_source = SecretVolume (ea_secret_name auth) (4 * 64)\<rparr>]
      else [])"

definition build_deployment ::
    "gateway \<Rightarrow> effective_service_policy \<Rightarrow> effective_client_auth \<Rightarrow> runtime_images \<Rightarrow>
     (build_error, deployment) result" where
  "build_deployment g policy auth images =
     guardE (im_tor images = [] \<or> im_router images = [] \<or> im_tor_init images = []) MissingImages
      (let labels = child_labels (gw_name g) in Inr
        \<lparr>dep_meta = child_meta g (deployment_name (gw_name g)) labels,
         dep_replicas = 1, dep_selector = labels, dep_strategy = ''Recreate'', dep_pod_labels = labels,
         dep_pod =
           \<lparr>pod_service_account = router_rbac_name (gw_name g), pod_share_process = False,
            pod_restart_policy = [], pod_security = pod_hardening,
            pod_volumes = tor_pod_volumes g auth, pod_init = [tor_init_container auth images],
            pod_containers = [tor_container policy images, router_sidecar g images], pod_spread = []\<rparr>,
         dep_conditions = []\<rparr>)"

subsection \<open>Service account, role and Service\<close>

definition build_service_account :: "gateway \<Rightarrow> service_account" where
  "build_service_account g =
     \<lparr>sac_meta = child_meta g (router_rbac_name (gw_name g)) (child_labels (gw_name g))\<rparr>"

definition backend_key_names :: "gateway \<Rightarrow> nat \<Rightarrow> string list" where
  "backend_key_names g n = map (backend_key_secret_name g) [0..<n]"

definition build_role :: "gateway \<Rightarrow> onion_balance_policy option \<Rightarrow> role" where
  "build_role g po =
     \<lparr>role_meta = child_meta g (router_rbac_name (gw_name g)) (child_labels (gw_name g)),
      role_rules =
        [\<lparr>pr_api_groups = [''gateway.networking.k8s.io''], pr_resources = [''httproutes''],
          pr_verbs = [''get'', ''list'', ''watch''], pr_resource_names = []\<rparr>] @
        (case po of
           None \<Rightarrow> []
         | Some p \<Rightarrow> [\<lparr>pr_api_groups = [[]], pr_resources = [''secrets''], pr_verbs = [''get''],
             pr_resource_names = backend_key_names g (obp_replicas (obp_spec p))\<rparr>])\<rparr>"

definition bind_role :: "string \<Rightarrow> role_subject \<Rightarrow> object_meta \<Rightarrow> role_binding" where
  "bind_role name subject m = \<lparr>rb_meta = m, rb_role_group = ''rbac.authorization.k8s.io'',
     rb_role_kind = ''Role'', rb_role_name = name, rb_subjects = [subject]\<rparr>"

definition account_subject :: "string \<Rightarrow> string \<Rightarrow> role_subject" where
  "account_subject name ns = \<lparr>rs_kind = ''ServiceAccount'', rs_name = name, rs_namespace = ns\<rparr>"

definition build_role_binding :: "gateway \<Rightarrow> role_binding" where
  "build_role_binding g =
     (let n = router_rbac_name (gw_name g) in
      bind_role n (account_subject n (gw_ns g)) (child_meta g n (child_labels (gw_name g))))"

definition build_service :: "gateway \<Rightarrow> service" where
  "build_service g =
     (let labels = child_labels (gw_name g) in
      \<lparr>svc_meta = child_meta g (service_name (gw_name g)) labels, svc_cluster_ip = ''None'',
       svc_selector = labels,
       svc_ports = [\<lparr>svp_name = ''router'', svp_port = loopback_target_port,
         svp_target = IntPort loopback_target_port, svp_protocol = ''TCP''\<rparr>]\<rparr>)"

subsection \<open>Well-formed pods\<close>

text \<open>
  The restrictions of a hardened pod: no root, no privilege escalation, no capabilities, a read-only
  root file system and the runtime's seccomp profile.
\<close>

definition hardened_pod :: "pod_spec \<Rightarrow> bool" where
  "hardened_pod p \<longleftrightarrow>
     psc_non_root (pod_security p) = Some True \<and> psc_user (pod_security p) \<notin> {None, Some 0} \<and>
     psc_seccomp (pod_security p) = ''RuntimeDefault'' \<and>
     list_all (\<lambda>c. case ct_security c of None \<Rightarrow> False
       | Some sc \<Rightarrow> sc_allow_escalation sc = Some False \<and> sc_read_only_root sc = Some True \<and>
           sc_non_root sc = Some True \<and> sc_drop sc = [''ALL'']) (pod_init p @ pod_containers p)"

text \<open>What the API server checks: names are unique, mounts name volumes, mount paths are unique.\<close>

definition consistent_pod :: "pod_spec \<Rightarrow> bool" where
  "consistent_pod p \<longleftrightarrow>
     distinct (map vol_name (pod_volumes p)) \<and>
     distinct (map ct_name (pod_init p @ pod_containers p)) \<and>
     list_all (\<lambda>c. distinct (map vm_path (ct_mounts c)) \<and>
         list_all (\<lambda>m. vm_name m \<in> set (map vol_name (pod_volumes p))) (ct_mounts c))
       (pod_init p @ pod_containers p)"

text \<open>No container of the pod can write below a given volume.\<close>

definition read_only_volume :: "string \<Rightarrow> pod_spec \<Rightarrow> bool" where
  "read_only_volume v p \<longleftrightarrow>
     list_all (\<lambda>c. list_all (\<lambda>m. vm_name m = v \<longrightarrow> vm_read_only m) (ct_mounts c))
       (pod_init p @ pod_containers p)"

lemmas container_defs = tor_init_container_def tor_container_def router_sidecar_def
  blank_container_def container_hardening_def pod_hardening_def run_as_def mount_rw_def mount_ro_def
  init_container_mounts_def tor_pod_volumes_def

lemma deployment_pod_ok:
  assumes "build_deployment g policy auth images = Inr d"
  shows "hardened_pod (dep_pod d)" "consistent_pod (dep_pod d)"
    "dep_selector d = dep_pod_labels d"
    "list_all (\<lambda>c. ct_image c \<noteq> []) (pod_init (dep_pod d) @ pod_containers (dep_pod d))"
  using assms
  by (auto simp: build_deployment_def guardE_Inr_iff hardened_pod_def consistent_pod_def container_defs
      name_consts Let_def)

subsection \<open>The torrc of a Gateway\<close>

lemma authorized_clients_path:
  "path_join_abs hs_service_dir ''authorized_clients'' = hs_service_dir @ ''/'' @ authorized_clients_subdir"
  by (simp add: path_join_abs_def clean_abs_def clean_step_def name_consts authorized_clients_subdir_def)

lemma torrc_settings_valid:
  "ep_log_level policy = [] \<or> valid_log_level (ep_log_level policy) \<Longrightarrow>
     validate_torrc (Some (torrc_settings policy auth b include)) = Inr ()"
proof -
  have host: "host_is_loopback loopback_target_host"
    by (simp add: host_is_loopback_def loopback_target_host_def parse_ip_def parse_ipv4_def
        ipv4_field_def parse_nat_def digit_value_def digit_alphabet_def is_loopback_def upt_rec nth_append)
  assume "ep_log_level policy = [] \<or> valid_log_level (ep_log_level policy)"
  then show ?thesis
    using authorized_clients_path
    by (auto simp: validate_torrc_def torrc_settings_def Let_def guardE_def is_abs_def host
        port_out_of_range_def loopback_target_port_def tor_metrics_port_def
        hs_service_dir_def hs_dir_mount_path_def tor_data_dir_def data_mount_path_def)
qed

lemma build_torrc_config_map_ok:
  assumes "ep_log_level policy = [] \<or> valid_log_level (ep_log_level policy)"
  shows "build_torrc_config_map g policy auth include = Inr
     \<lparr>cm_meta = child_meta g (torrc_config_map_name (gw_name g)) (child_labels (gw_name g)),
      cm_data = [(''torrc'', torrc_text (torrc_settings policy auth False include))]\<rparr>"
  using torrc_settings_valid [OF assms] by (simp add: build_torrc_config_map_def render_torrc_def)

text \<open>The argument after a flag, and a writable place in a container.\<close>

fun flag_value :: "string \<Rightarrow> string list \<Rightarrow> string option" where
  "flag_value f (x # y # ys) = (if x = f then Some y else flag_value f (y # ys))"
| "flag_value f _ = None"

definition writable_below :: "container \<Rightarrow> string \<Rightarrow> bool" where
  "writable_below c path \<longleftrightarrow>
     list_ex (\<lambda>m. \<not> vm_read_only m \<and> has_prefix path (vm_path m @ ''/'')) (ct_mounts c)"

definition directive_values :: "string \<Rightarrow> string \<Rightarrow> string list" where
  "directive_values k txt =
     map (\<lambda>l. drop (length k + 1) l) (filter (\<lambda>l. has_prefix l (k @ '' '')) (text_lines txt))"

lemma torrc_lines_settings:
  assumes "ep_log_level policy = [] \<or> valid_log_level (ep_log_level policy)"
  shows "text_lines (torrc_text (torrc_settings policy auth b [])) = torrc_lines (torrc_settings policy auth b [])"
proof -
  have "nl \<notin> set (effective_level (torrc_settings policy auth b []))"
    using assms by (auto simp: effective_level_def torrc_settings_def valid_log_level_def log_levels_def)
  then have "\<forall>l \<in> set (torrc_lines (torrc_settings policy auth b [])). nl \<notin> set l"
    by (auto simp: torrc_lines_def torrc_settings_def Let_def name_consts)
  then show ?thesis by (simp add: torrc_text_lines text_lines_concat torrc_settings_def)
qed

lemma torrc_settings_directives:
  assumes "ep_log_level policy = [] \<or> valid_log_level (ep_log_level policy)"
  shows "directive_values ''HiddenServicePort'' (torrc_text (torrc_settings policy auth b [])) = [''80 127.0.0.1:9080'']"
    and "directive_values ''HiddenServiceDir'' (torrc_text (torrc_settings policy auth b [])) = [hs_service_dir]"
    and "directive_values ''DataDirectory'' (torrc_text (torrc_settings policy auth b [])) = [tor_data_dir]"
proof -
  have p: "show_int 80 = ''80''" "show_int 9080 = ''9080''"
    by (simp_all add: show_int_def show_nat.simps digit_char_def digit_alphabet_def)
  show "directive_values ''HiddenServicePort'' (torrc_text (torrc_settings policy auth b [])) = [''80 127.0.0.1:9080'']"
    unfolding directive_values_def torrc_lines_settings [OF assms]
    by (simp add: torrc_lines_def torrc_settings_def Let_def name_consts has_prefix_def p)
  show "directive_values ''HiddenServiceDir'' (torrc_text (torrc_settings policy auth b [])) = [hs_service_dir]"
    unfolding directive_values_def torrc_lines_settings [OF assms]
    by (simp add: torrc_lines_def torrc_settings_def Let_def name_consts has_prefix_def p)
  show "directive_values ''DataDirectory'' (torrc_text (torrc_settings policy auth b [])) = [tor_data_dir]"
    unfolding directive_values_def torrc_lines_settings [OF assms]
    by (simp add: torrc_lines_def torrc_settings_def Let_def name_consts has_prefix_def p)
qed

text \<open>
  C26: The parts of a Mode A pod fit together. For every log level that the API admits, the torrc
  ConfigMap and the Deployment are built, both in the Gateway's namespace and with the Gateway as their one owner
  and controller; Tor reads that ConfigMap; the only hidden-service port of
  the torrc forwards to the address the router sidecar listens on; the hidden-service directory is
  the one \<open>tor-init\<close> fills, and it and the data directory lie on volumes that Tor can write; the Secret that
  the operator makes for the Gateway's key is mounted, read-only, where \<open>tor-init\<close> is told to take the keys from;
  and the Secret with the client keys is mounted and handed to \<open>tor-init\<close> exactly when authorization is enabled.
\<close>

theorem gateway_pod_agrees:
  assumes "ep_log_level policy = [] \<or> valid_log_level (ep_log_level policy)"
    and "build_deployment g policy auth images = Inr d"
  shows "\<exists>cm txt tor_c router_c init_c.
     build_torrc_config_map g policy auth [] = Inr cm \<and> map_of (cm_data cm) ''torrc'' = Some txt
   \<and> pod_init (dep_pod d) = [init_c] \<and> pod_containers (dep_pod d) = [tor_c, router_c]
   \<and> \<lparr>vol_name = config_volume_name, vol_source = ConfigMapVolume (om_name (cm_meta cm))\<rparr>
       \<in> set (pod_volumes (dep_pod d))
   \<and> ct_args tor_c = [''-f'', config_mount_path @ ''/torrc'']
   \<and> mount_ro config_volume_name config_mount_path \<in> set (ct_mounts tor_c)
   \<and> directive_values ''HiddenServicePort'' txt = [''80 '' @ the (flag_value ''--listen'' (ct_args router_c))]
   \<and> directive_values ''HiddenServiceDir'' txt = [the (flag_value ''--dst'' (ct_args init_c))]
   \<and> list_all (writable_below tor_c)
       (directive_values ''HiddenServiceDir'' txt @ directive_values ''DataDirectory'' txt)
   \<and> writable_below init_c (the (flag_value ''--dst'' (ct_args init_c)))
   \<and> \<lparr>vol_name = keys_volume_name, vol_source = SecretVolume (om_name (sec_meta (build_key_secret g kp))) 384\<rparr>
       \<in> set (pod_volumes (dep_pod d))
   \<and> \<lparr>vm_name = keys_volume_name, vm_path = the (flag_value ''--src'' (ct_args init_c)), vm_read_only = True\<rparr>
       \<in> set (ct_mounts init_c)
   \<and> flag_value ''--client-auth-src'' (ct_args init_c) =
       (if ea_enabled auth then Some client_auth_mount_path else None)
   \<and> (mount_ro client_auth_volume_name client_auth_mount_path \<in> set (ct_mounts init_c)) = ea_enabled auth
   \<and> (\<lparr>vol_name = client_auth_volume_name, vol_source = SecretVolume (ea_secret_name auth) 256\<rparr>
       \<in> set (pod_volumes (dep_pod d))) = ea_enabled auth
   \<and> list_all (\<lambda>m. om_ns m = gw_ns g \<and> om_owners m =
         [\<lparr>ow_kind = ''Gateway'', ow_name = gw_name g, ow_uid = gw_uid g, ow_controller = Some True\<rparr>])
       [cm_meta cm, dep_meta d, sec_meta (build_key_secret g kp)]
   \<and> hardened_pod (dep_pod d) \<and> consistent_pod (dep_pod d)"
proof -
  let ?txt = "torrc_text (torrc_settings policy auth False [])"
  have d: "dep_pod d = \<lparr>pod_service_account = router_rbac_name (gw_name g), pod_share_process = False,
      pod_restart_policy = [], pod_security = pod_hardening,
      pod_volumes = tor_pod_volumes g auth, pod_init = [tor_init_container auth images],
      pod_containers = [tor_container policy images, router_sidecar g images], pod_spread = []\<rparr>"
    using assms(2) by (auto simp: build_deployment_def guardE_Inr_iff Let_def)
  have m: "dep_meta d = child_meta g (deployment_name (gw_name g)) (child_labels (gw_name g))"
    using assms(2) by (auto simp: build_deployment_def guardE_Inr_iff Let_def)
  have p: "show_int 9080 = ''9080''"
    by (simp_all add: show_int_def show_nat.simps digit_char_def digit_alphabet_def)
  note dirs = torrc_settings_directives [OF assms(1), of auth False]
  show ?thesis
    by (intro exI [of _ "\<lparr>cm_meta = child_meta g (torrc_config_map_name (gw_name g)) (child_labels (gw_name g)),
          cm_data = [(''torrc'', ?txt)]\<rparr>"] exI [of _ ?txt] exI [of _ "tor_container policy images"]
        exI [of _ "router_sidecar g images"] exI [of _ "tor_init_container auth images"] conjI
        build_torrc_config_map_ok assms(1) deployment_pod_ok(1,2) [OF assms(2)])
      (simp_all add: d m dirs p container_defs name_consts writable_below_def has_prefix_def init_container_args_def
        build_key_secret_def child_meta_def controller_reference_def)
qed

definition sample_images :: runtime_images where
  "sample_images = \<lparr>im_tor = ''tor:1'', im_router = ''router:1'', im_tor_init = ''init:1'',
     im_mkp224o = ''mk:1'', im_vanity_finalize = ''vf:1'', im_operator = [],
     im_onionbalance = ''ob:1'', im_obrefresh = ''obr:1''\<rparr>"

theorem gateway_pod_agrees_witness:
  "\<exists>d cm. build_deployment (sample_gateway ''shop'') default_policy \<lparr>ea_enabled = True, ea_secret_name = ''c''\<rparr>
       sample_images = Inr d
     \<and> build_torrc_config_map (sample_gateway ''shop'') default_policy
         \<lparr>ea_enabled = True, ea_secret_name = ''c''\<rparr> [] = Inr cm
     \<and> hardened_pod (dep_pod d) \<and> consistent_pod (dep_pod d)"
proof -
  let ?auth = "\<lparr>ea_enabled = True, ea_secret_name = ''c''\<rparr>"
  obtain d where d: "build_deployment (sample_gateway ''shop'') default_policy ?auth sample_images = Inr d"
    by (simp add: build_deployment_def sample_images_def Let_def)
  have "ep_log_level default_policy = [] \<or> valid_log_level (ep_log_level default_policy)"
    by (simp add: default_policy_def valid_log_level_def log_levels_def)
  from gateway_pod_agrees [OF this d] d show ?thesis by blast
qed

end
