(* ===== verification/Resources_Ha.thy ===== *)
theory Resources_Ha
  imports Resources Onionbalance Go_Duration
begin

text \<open>
  \<open>internal/controller/gateway_resources_ha.go\<close>: the child objects of a Gateway in
  high-availability mode (Mode B): the backends with their key Secrets, the Onionbalance frontend,
  and the role pair in the namespace of a foreign master key. The lemmas say that the pods are
  hardened and consistent, and which Secrets the frontend's account may read.
\<close>

subsection \<open>Backends\<close>

text \<open>\<open>entropy\<close> is what a read of the random source gives, used only when there is no key yet.\<close>

definition has_key_material :: "secret option \<Rightarrow> bool" where
  "has_key_material existing =
     (case existing of None \<Rightarrow> False | Some s \<Rightarrow> 0 < length (data_entry (sec_data s) file_secret_key_name))"

definition backend_key_secret :: "gateway \<Rightarrow> nat \<Rightarrow> byte list gomap \<Rightarrow> secret" where
  "backend_key_secret g idx d =
     \<lparr>sec_meta = child_meta g (backend_key_secret_name g idx) (owner_labels g ha_role_backend),
      sec_data = d\<rparr>"

definition build_backend_key_secret ::
    "(byte list \<Rightarrow> byte list) \<Rightarrow> gateway \<Rightarrow> nat \<Rightarrow> secret option \<Rightarrow> byte list option \<Rightarrow>
     (key_error, secret) result" where
  "build_backend_key_secret bm g idx existing entropy =
     (if has_key_material existing
      then Inr (backend_key_secret g idx (sec_data (the existing)))
      else bindE (generate_key_pair bm entropy) (\<lambda>kp.
             Inr (backend_key_secret g idx (key_secret_data kp))))"

definition build_backend_headless_service :: "gateway \<Rightarrow> service" where
  "build_backend_headless_service g =
     \<lparr>svc_meta = child_meta g (backend_headless_service_name g) (ha_labels g ha_role_backend),
      svc_cluster_ip = ''None'', svc_selector = ha_labels g ha_role_backend,
      svc_ports = [\<lparr>svp_name = ''tor'', svp_port = loopback_target_port,
        svp_target = IntPort loopback_target_port, svp_protocol = []\<rparr>]\<rparr>"

definition deref_resources :: "resource_requirements option \<Rightarrow> resource_requirements" where
  "deref_resources r =
     (case r of
        None \<Rightarrow> \<lparr>rq_requests = [(''cpu'', ''50m''), (''memory'', ''64Mi'')], rq_limits = []\<rparr>
      | Some x \<Rightarrow> x)"

definition ha_hardened_security_context :: security_context where
  "ha_hardened_security_context = \<lparr>sc_allow_escalation = Some False, sc_read_only_root = Some True,
     sc_non_root = Some True, sc_drop = [''ALL'']\<rparr>"

definition tor_readiness_probe_ha :: probe where
  "tor_readiness_probe_ha = http_probe ''/metrics'' tor_metrics_port 0 10 0 0"

definition tor_liveness_probe_ha :: probe where
  "tor_liveness_probe_ha = tor_readiness_probe_ha"

definition tor_startup_probe_ha :: probe where
  "tor_startup_probe_ha = tor_readiness_probe_ha\<lparr>pb_failure_threshold := 30\<rparr>"

definition router_healthz_probe_ha :: probe where
  "router_healthz_probe_ha = http_probe ''/healthz'' router_probe_port 0 10 0 0"

definition backend_init_volume_mounts :: "volume_mount list" where
  "backend_init_volume_mounts = [mount_rw ''hs'' hs_dir_mount_path]"

definition backend_tor_volume_mounts :: "volume_mount list" where
  "backend_tor_volume_mounts =
     [mount_rw ''hs'' hs_dir_mount_path, mount_rw data_volume_name data_mount_path,
      mount_ro ''torrc'' config_mount_path]"

definition backend_pod_volumes :: "gateway \<Rightarrow> volume list" where
  "backend_pod_volumes g =
     [\<lparr>vol_name = ''hs'', vol_source = EmptyDirVolume\<rparr>,
      \<lparr>vol_name = data_volume_name, vol_source = EmptyDirVolume\<rparr>,
      \<lparr>vol_name = ''torrc'', vol_source = ConfigMapVolume (backend_torrc_config_map_name g)\<rparr>]"

definition backend_init_container :: "gateway \<Rightarrow> onion_address \<Rightarrow> runtime_images \<Rightarrow> container" where
  "backend_init_container g master images = (blank_container init_container_name (im_tor_init images))
     \<lparr>ct_args := [''--dst='' @ hs_service_dir, ''--src='',
        ''--ob-master-address='' @ onion_string master,
        ''--api-fetch-secret-prefix='' @ gw_name g @ ''-backend-''],
      ct_env := [(''POD_NAME'', ''metadata.name''), (''POD_NAMESPACE'', ''metadata.namespace'')],
      ct_mounts := backend_init_volume_mounts, ct_security := Some ha_hardened_security_context\<rparr>"

definition backend_tor_container :: "onion_balance_policy \<Rightarrow> runtime_images \<Rightarrow> container" where
  "backend_tor_container p images = (blank_container tor_container_name (im_tor images))
     \<lparr>ct_args := [''-f'', ''/etc/tor/torrc''],
      ct_ports := [\<lparr>cp_name = ''metrics'', cp_port = tor_metrics_port, cp_protocol = []\<rparr>],
      ct_readiness := Some tor_readiness_probe_ha, ct_liveness := Some tor_liveness_probe_ha,
      ct_startup := Some tor_startup_probe_ha, ct_mounts := backend_tor_volume_mounts,
      ct_security := Some ha_hardened_security_context,
      ct_resources := deref_resources (obp_backend_resources (obp_spec p))\<rparr>"

definition backend_router_container :: "gateway \<Rightarrow> runtime_images \<Rightarrow> container" where
  "backend_router_container g images = (blank_container router_container (im_router images))
     \<lparr>ct_args := [''--gateway='' @ gw_name g, ''--namespace='' @ gw_ns g],
      ct_readiness := Some router_healthz_probe_ha, ct_liveness := Some router_healthz_probe_ha,
      ct_security := Some ha_hardened_security_context\<rparr>"

definition backend_pod ::
    "gateway \<Rightarrow> onion_balance_policy \<Rightarrow> onion_address \<Rightarrow> runtime_images \<Rightarrow> pod_spec" where
  "backend_pod g p master images =
     \<lparr>pod_service_account = router_rbac_name (gw_name g), pod_share_process = False,
      pod_restart_policy = [], pod_security = pod_hardening, pod_volumes = backend_pod_volumes g,
      pod_init = [backend_init_container g master images],
      pod_containers = [backend_tor_container p images, backend_router_container g images],
      pod_spread = [\<lparr>sp_max_skew = 1, sp_topology_key = ''kubernetes.io/hostname'',
        sp_when_unsatisfiable = ''ScheduleAnyway'', sp_selector = ha_labels g ha_role_backend\<rparr>]\<rparr>"

definition build_backend_stateful_set ::
    "gateway \<Rightarrow> onion_balance_policy \<Rightarrow> onion_address \<Rightarrow> runtime_images \<Rightarrow>
     (build_error, stateful_set) result" where
  "build_backend_stateful_set g p master images =
     guardE (im_tor images = [] \<or> im_tor_init images = []) MissingImages
      (let labels = ha_labels g ha_role_backend in Inr
        \<lparr>ss_meta = child_meta g (backend_stateful_set_name g) labels,
         ss_replicas = Some (obp_replicas (obp_spec p)), ss_selector = labels,
         ss_service_name = backend_headless_service_name g, ss_pod_management = ''Parallel'',
         ss_pod_labels = labels,
         ss_pod = backend_pod g p master images,
         ss_status_replicas = 0\<rparr>)"

definition build_backend_torrc_config_map ::
    "gateway \<Rightarrow> effective_service_policy \<Rightarrow> effective_client_auth \<Rightarrow> string \<Rightarrow>
     (build_error, config_map) result" where
  "build_backend_torrc_config_map g eff auth include =
     bindE (mapErr RenderTorrc (render_torrc (Some (torrc_settings eff auth True include))))
       (\<lambda>rendered. Inr
         \<lparr>cm_meta = child_meta g (backend_torrc_config_map_name g) (ha_labels g ha_role_backend),
          cm_data = [(''torrc'', rendered)]\<rparr>)"

subsection \<open>The frontend\<close>

definition build_frontend_service_account :: "gateway \<Rightarrow> service_account" where
  "build_frontend_service_account g =
     \<lparr>sac_meta = child_meta g (frontend_name g) (ha_labels g ha_role_frontend)\<rparr>"

definition secrets_rule :: "string list \<Rightarrow> string list \<Rightarrow> policy_rule" where
  "secrets_rule verbs names =
     \<lparr>pr_api_groups = [[]], pr_resources = [''secrets''], pr_verbs = verbs, pr_resource_names = names\<rparr>"

definition build_frontend_role :: "gateway \<Rightarrow> onion_balance_policy \<Rightarrow> role" where
  "build_frontend_role g p =
     (let ns = sr_namespace (obp_master_key (obp_spec p));
          names = backend_key_names g (obp_replicas (obp_spec p)) @
            (if ns = [] \<or> ns = gw_ns g then [sr_name (obp_master_key (obp_spec p))] else [])
      in \<lparr>role_meta = child_meta g (frontend_name g) (ha_labels g ha_role_frontend),
          role_rules =
            [secrets_rule [''get''] names, secrets_rule [''list'', ''watch''] [],
             \<lparr>pr_api_groups = [[]], pr_resources = [''events''], pr_verbs = [''create'', ''patch''],
              pr_resource_names = []\<rparr>]\<rparr>)"

definition build_frontend_role_binding :: "gateway \<Rightarrow> role_binding" where
  "build_frontend_role_binding g =
     bind_role (frontend_name g) (account_subject (frontend_name g) (gw_ns g))
       (child_meta g (frontend_name g) (ha_labels g ha_role_frontend))"

definition render_frontend_torrc :: "string \<Rightarrow> string" where
  "render_frontend_torrc include =
     out_line config_banner @
     (if include = [] then [] else include @ (if has_suffix include [nl] then [] else [nl])) @
     concat (map out_line
       [''SocksPort 0'', ''ControlPort 9051'', ''CookieAuthentication 1'',
        ''CookieAuthFile /var/lib/tor/data/control_auth_cookie'', ''DataDirectory /var/lib/tor/data'',
        ''MetricsPort 0.0.0.0:9035'', ''MetricsPortPolicy accept 0.0.0.0/0'', ''Log notice stdout''])"

definition build_frontend_torrc_config_map :: "gateway \<Rightarrow> string \<Rightarrow> config_map" where
  "build_frontend_torrc_config_map g include =
     \<lparr>cm_meta = child_meta g (frontend_torrc_config_map_name g) (ha_labels g ha_role_frontend),
      cm_data = [(''torrc'', render_frontend_torrc include)]\<rparr>"

subsection \<open>The role pair in the namespace of a foreign master key\<close>

definition cross_ns_labels :: "gateway \<Rightarrow> string gomap" where
  "cross_ns_labels g =
     [(''app.kubernetes.io/managed-by'', ''tor-gateway''), (gateway_label_key, gw_name g),
      (''torgateway.io/owner-uid'', gw_uid g), (''torgateway.io/gateway-ns'', gw_ns g)]"

definition build_cross_ns_master_role ::
    "gateway \<Rightarrow> onion_balance_policy \<Rightarrow> (build_error, role) result" where
  "build_cross_ns_master_role g p =
     (let ref = obp_master_key (obp_spec p) in
      guardE (sr_namespace ref = []) MasterNamespaceEmpty (Inr
        \<lparr>role_meta = bare_meta (sr_namespace ref) (cross_ns_master_role_name g) (cross_ns_labels g),
         role_rules = [secrets_rule [''get''] [sr_name ref]]\<rparr>))"

definition build_cross_ns_master_role_binding ::
    "gateway \<Rightarrow> onion_balance_policy \<Rightarrow> (build_error, role_binding) result" where
  "build_cross_ns_master_role_binding g p =
     (let ref = obp_master_key (obp_spec p) in
      guardE (sr_namespace ref = []) MasterNamespaceEmpty (Inr
        (bind_role (cross_ns_master_role_name g) (account_subject (frontend_name g) (gw_ns g))
          (bare_meta (sr_namespace ref) (cross_ns_master_role_name g) (cross_ns_labels g)))))"

subsection \<open>The frontend pod\<close>

definition exec_probe :: "string list \<Rightarrow> nat \<Rightarrow> nat \<Rightarrow> nat \<Rightarrow> probe" where
  "exec_probe cmd delay period failures =
     \<lparr>pb_handler = ExecCommand cmd, pb_initial_delay = delay, pb_period = period, pb_timeout = 0,
      pb_failure_threshold = failures\<rparr>"

text \<open>The namespace of the master key as the frontend pod resolves it.\<close>

definition frontend_master_ns :: "gateway \<Rightarrow> onion_balance_policy \<Rightarrow> string" where
  "frontend_master_ns g p =
     (if sr_namespace (obp_master_key (obp_spec p)) = [] then gw_ns g
      else sr_namespace (obp_master_key (obp_spec p)))"

definition master_fetch_container ::
    "gateway \<Rightarrow> onion_balance_policy \<Rightarrow> runtime_images \<Rightarrow> container" where
  "master_fetch_container g p images = (blank_container ''master-fetch'' (im_tor_init images))
     \<lparr>ct_pull_policy := ''IfNotPresent'',
      ct_args := [''--dst=/etc/onionbalance/keys'', ''--src='',
        ''--api-fetch-secret='' @ frontend_master_ns g p @ ''/'' @ sr_name (obp_master_key (obp_spec p))],
      ct_mounts := [mount_rw ''ob-keys'' ''/etc/onionbalance/keys''],
      ct_security := Some ha_hardened_security_context\<rparr>"

definition frontend_tor_container :: "onion_balance_policy \<Rightarrow> runtime_images \<Rightarrow> container" where
  "frontend_tor_container p images = (blank_container ''tor'' (im_tor images))
     \<lparr>ct_args := [''-f'', ''/etc/tor/torrc''],
      ct_readiness := Some tor_readiness_probe_ha, ct_liveness := Some tor_liveness_probe_ha,
      ct_startup := Some tor_startup_probe_ha,
      ct_mounts := [mount_rw ''tor-data'' ''/var/lib/tor'', mount_ro ''torrc'' ''/etc/tor''],
      ct_security := Some ha_hardened_security_context,
      ct_resources := deref_resources (obp_frontend_resources (obp_spec p))\<rparr>"

definition onionbalance_container :: "bool \<Rightarrow> runtime_images \<Rightarrow> container" where
  "onionbalance_container testing_mode images = (blank_container ''onionbalance'' (im_onionbalance images))
     \<lparr>ct_args := [''-c'', ''/etc/onionbalance/config/config.yaml''] @
        (if testing_mode then [''--is-testnet''] else []),
      ct_liveness := Some (exec_probe
        [''sh'', ''-c'', ''test -s /run/onionbalance/onionbalance.pid''] 15 30 3),
      ct_mounts := [mount_rw ''ob-config'' ''/etc/onionbalance/config'',
        mount_ro ''ob-keys'' ''/etc/onionbalance/keys'', mount_rw ''ob-run'' ''/run/onionbalance'',
        mount_ro ''tor-data'' ''/var/lib/tor''],
      ct_security := Some ha_hardened_security_context\<rparr>"

definition obrefresh_sidecar ::
    "gateway \<Rightarrow> onion_balance_policy \<Rightarrow> onion_address \<Rightarrow> runtime_images \<Rightarrow> container" where
  "obrefresh_sidecar g p master images = (blank_container obrefresh_container (im_obrefresh images))
     \<lparr>ct_args := [''--gateway='' @ gw_name g, ''--namespace='' @ gw_ns g, ''--gateway-uid='' @ gw_uid g,
        ''--master-address='' @ onion_string master,
        ''--master-key-path=/etc/onionbalance/keys/hs_ed25519_secret_key'',
        ''--config=/etc/onionbalance/config/config.yaml'',
        ''--pidfile=/run/onionbalance/onionbalance.pid'',
        ''--interval='' @ duration_string (obp_refresh_interval (obp_spec p))],
      ct_liveness := Some (exec_probe [''/usr/local/bin/app'', ''--healthcheck'',
        ''--interval='' @ duration_string (obp_refresh_interval (obp_spec p))] 60 30 3),
      ct_mounts := [mount_rw ''ob-config'' ''/etc/onionbalance/config'',
        mount_ro ''ob-run'' ''/run/onionbalance'', mount_rw ''ob-refresh-run'' ''/run/obrefresh''],
      ct_security := Some ha_hardened_security_context\<rparr>"

definition frontend_volumes :: "gateway \<Rightarrow> volume list" where
  "frontend_volumes g =
     map (\<lambda>n. \<lparr>vol_name = n, vol_source = EmptyDirVolume\<rparr>)
       [''tor-data'', ''ob-config'', ''ob-run'', ''ob-keys'', ''ob-refresh-run''] @
     [\<lparr>vol_name = ''torrc'', vol_source = ConfigMapVolume (frontend_torrc_config_map_name g)\<rparr>]"

definition frontend_pod ::
    "gateway \<Rightarrow> onion_balance_policy \<Rightarrow> onion_address \<Rightarrow> runtime_images \<Rightarrow> bool \<Rightarrow> pod_spec" where
  "frontend_pod g p master images testing_mode =
     \<lparr>pod_service_account = frontend_name g, pod_share_process = True, pod_restart_policy = [],
      pod_security = pod_hardening, pod_volumes = frontend_volumes g,
      pod_init = [master_fetch_container g p images],
      pod_containers = [frontend_tor_container p images, onionbalance_container testing_mode images,
        obrefresh_sidecar g p master images],
      pod_spread = []\<rparr>"

definition build_frontend_deployment ::
    "gateway \<Rightarrow> onion_balance_policy \<Rightarrow> onion_address \<Rightarrow> runtime_images \<Rightarrow> bool \<Rightarrow>
     (build_error, deployment) result" where
  "build_frontend_deployment g p master images testing_mode =
     guardE (im_tor images = [] \<or> im_tor_init images = [] \<or> im_onionbalance images = [] \<or>
        im_obrefresh images = []) MissingImages
      (let labels = ha_labels g ha_role_frontend in Inr
        \<lparr>dep_meta = child_meta g (frontend_name g) labels,
         dep_replicas = 1, dep_selector = labels, dep_strategy = [], dep_pod_labels = labels,
         dep_pod = frontend_pod g p master images testing_mode,
         dep_conditions = []\<rparr>)"

subsection \<open>Pods of Mode B\<close>

lemmas ha_container_defs = backend_init_container_def backend_tor_container_def
  backend_router_container_def master_fetch_container_def frontend_tor_container_def
  onionbalance_container_def obrefresh_sidecar_def ha_hardened_security_context_def
  backend_init_volume_mounts_def backend_tor_volume_mounts_def backend_pod_volumes_def
  frontend_volumes_def

lemma backend_pod_hardened: "hardened_pod (backend_pod g p master images)"
  by (simp add: backend_pod_def hardened_pod_def container_defs ha_container_defs)

lemma backend_pod_consistent: "consistent_pod (backend_pod g p master images)"
  by (simp add: backend_pod_def consistent_pod_def container_defs ha_container_defs name_consts)

lemma frontend_pod_hardened: "hardened_pod (frontend_pod g p master images t)"
  by (simp add: frontend_pod_def hardened_pod_def container_defs ha_container_defs)

lemma frontend_pod_consistent: "consistent_pod (frontend_pod g p master images t)"
  by (simp add: frontend_pod_def consistent_pod_def container_defs ha_container_defs name_consts)

lemma backend_stateful_set_pod: "build_backend_stateful_set g p master images = Inr ss \<Longrightarrow>
    ss_pod ss = backend_pod g p master images"
  by (auto simp: build_backend_stateful_set_def guardE_Inr_iff Let_def)

lemma frontend_deployment_pod: "build_frontend_deployment g p master images t = Inr d \<Longrightarrow>
    dep_pod d = frontend_pod g p master images t"
  by (auto simp: build_frontend_deployment_def guardE_Inr_iff Let_def)

text \<open>The value of a \<open>--flag=value\<close> argument, and the router's default for \<open>--listen\<close>.\<close>

definition flag_eq_value :: "string \<Rightarrow> string list \<Rightarrow> string option" where
  "flag_eq_value f args = map_option (drop (length f + 1)) (find (\<lambda>a. has_prefix a (f @ ''='')) args)"

definition router_default_listen :: string where
  "router_default_listen = ''127.0.0.1:9080''"

lemma build_backend_torrc_ok:
  assumes "ep_log_level eff = [] \<or> valid_log_level (ep_log_level eff)"
  shows "build_backend_torrc_config_map g eff auth include = Inr
     \<lparr>cm_meta = child_meta g (backend_torrc_config_map_name g) (ha_labels g ha_role_backend),
      cm_data = [(''torrc'', torrc_text (torrc_settings eff auth True include))]\<rparr>"
  using torrc_settings_valid [OF assms]
  by (simp add: build_backend_torrc_config_map_def render_torrc_def)

text \<open>The text of a torrc of the operator, with what a policy can choose in it: one of the log levels, and
  whether proof of work and client authorization are on. \<open>include\<close> is the operator's own flag for a private test
  network, empty in production.\<close>

definition accepted_level :: "string \<Rightarrow> bool" where
  "accepted_level level \<longleftrightarrow> level \<in> {[], ''debug'', ''info'', ''notice'', ''warn'', ''err''}"

definition operator_torrc :: "string \<Rightarrow> bool \<Rightarrow> bool \<Rightarrow> bool \<Rightarrow> string \<Rightarrow> string" where
  "operator_torrc level pow auth backend include =
     concat (map (\<lambda>l. l @ [nl])
       [''# Rendered by tor-gateway; do not edit by hand.'', [], ''DataDirectory /var/lib/tor/data/data'',
        ''Log '' @ (if level = [] then ''notice'' else level) @ '' stdout'', ''SocksPort 0'',
        ''ClientUseIPv4 1'', ''ClientUseIPv6 1'', []]) @
     (if include = [] then [] else if has_suffix include [nl] then include else include @ [nl]) @
     concat (map (\<lambda>l. l @ [nl])
       ([''HiddenServiceDir /var/lib/tor/hs/hs'', ''HiddenServiceVersion 3'', ''HiddenServicePort 80 127.0.0.1:9080''] @
        (if backend then [''HiddenServiceOnionbalanceInstance 1'']
         else if pow then [''HiddenServiceEnableIntroDoSDefense 1'', ''HiddenServicePoWDefensesEnabled 1''] else []) @
        [''MetricsPort 0.0.0.0:9035'', ''MetricsPortPolicy accept 0.0.0.0/0''] @
        (if auth then [''# client authorization enabled (authorized_clients/*.auth)''] else [])))"

lemma accepted_level: "accepted_level level \<longleftrightarrow> level = [] \<or> valid_log_level level"
  by (auto simp: accepted_level_def valid_log_level_def log_levels_def)

lemma settings_text:
  "torrc_text (torrc_settings policy auth b include) =
     operator_torrc (ep_log_level policy) (ep_pow policy) (ea_enabled auth) b include"
proof -
  have shown: "show_int 80 = ''80''" "show_int 9080 = ''9080''" "show_int 9035 = ''9035''"
    by (simp_all add: show_int_def show_nat.simps digit_char_def digit_alphabet_def)
  show ?thesis
    by (simp add: torrc_text_def torrc_settings_def operator_torrc_def Let_def name_consts out_line_def shown
        effective_level_def authorized_clients_subdir_def)
qed

lemma settings_refused:
  "\<not> accepted_level (ep_log_level policy) \<Longrightarrow> \<exists>e. render_torrc (Some (torrc_settings policy auth b include)) = Inl e"
proof (rule ccontr)
  assume bad: "\<not> accepted_level (ep_log_level policy)" and "\<nexists>e. render_torrc (Some (torrc_settings policy auth b include)) = Inl e"
  then obtain t where "render_torrc (Some (torrc_settings policy auth b include)) = Inr t"
    by (cases "render_torrc (Some (torrc_settings policy auth b include))") auto
  then have "validate_torrc (Some (torrc_settings policy auth b include)) = Inr ()"
    by (auto simp: render_torrc_def bindE_Inr_iff)
  from validate_torrcD(1) [OF this] bad show False
    by (auto simp: torrc_settings_def accepted_level effective_level_def split: if_splits)
qed

text \<open>
  C13: Nothing in a Gateway or a policy can add a directive to the torrc of its pods. Whatever stands in the
  effective policy, the two ConfigMaps that the operator builds are refused when the log level is not one of Tor's,
  and otherwise contain exactly the text that is written out in \<open>operator_torrc\<close>: fixed lines, of which a policy
  chooses the log level word and switches the proof-of-work and client-authorization lines, nothing else. (The
  include for a private test network is spliced in as it is; it comes from the operator's command line.)
\<close>

theorem torrc_no_injection:
  "(case build_torrc_config_map g policy auth include of
      Inl _ \<Rightarrow> \<not> accepted_level (ep_log_level policy)
    | Inr c \<Rightarrow> accepted_level (ep_log_level policy) \<and> cm_data c = [(''torrc'',
        operator_torrc (ep_log_level policy) (ep_pow policy) (ea_enabled auth) False include)])
   \<and> (case build_backend_torrc_config_map g policy auth include of
      Inl _ \<Rightarrow> \<not> accepted_level (ep_log_level policy)
    | Inr c \<Rightarrow> accepted_level (ep_log_level policy) \<and> cm_data c = [(''torrc'',
        operator_torrc (ep_log_level policy) (ep_pow policy) (ea_enabled auth) True include)])"
proof (cases "accepted_level (ep_log_level policy)")
  case True
  then show ?thesis
    using build_torrc_config_map_ok [of policy g auth "include"] build_backend_torrc_ok [of policy g auth "include"]
    by (simp add: accepted_level settings_text)
next
  case False
  then show ?thesis
    using settings_refused [OF False, of auth True "include"] settings_refused [OF False, of auth False "include"]
    by (auto simp: build_torrc_config_map_def build_backend_torrc_config_map_def bindE_def mapErr_def)
qed

lemma backend_torrc_no_pow:
  assumes "ep_log_level eff = [] \<or> valid_log_level (ep_log_level eff)"
  shows "directive_values ''HiddenServicePoWDefensesEnabled'' (torrc_text (torrc_settings eff auth True [])) = []"
    and "directive_values ''HiddenServiceOnionbalanceInstance'' (torrc_text (torrc_settings eff auth True [])) = [''1'']"
  unfolding directive_values_def torrc_lines_settings [OF assms]
  by (simp_all add: torrc_lines_def torrc_settings_def Let_def name_consts has_prefix_def)

text \<open>The torrc of the frontend's Tor.\<close>

definition frontend_torrc_lines :: "string list" where
  "frontend_torrc_lines =
     [config_banner, ''SocksPort 0'', ''ControlPort 9051'', ''CookieAuthentication 1'',
      ''CookieAuthFile /var/lib/tor/data/control_auth_cookie'', ''DataDirectory /var/lib/tor/data'',
      ''MetricsPort 0.0.0.0:9035'', ''MetricsPortPolicy accept 0.0.0.0/0'', ''Log notice stdout'']"

lemma frontend_torrc_text:
  "map_option text_lines (map_of (cm_data (build_frontend_torrc_config_map g [])) ''torrc'') = Some frontend_torrc_lines"
proof -
  have "render_frontend_torrc [] = concat (map out_line frontend_torrc_lines)"
    by (simp add: render_frontend_torrc_def frontend_torrc_lines_def)
  moreover have "\<forall>l \<in> set frontend_torrc_lines. nl \<notin> set l"
    by (simp add: frontend_torrc_lines_def config_banner_def)
  ultimately show ?thesis
    by (simp add: build_frontend_torrc_config_map_def text_lines_concat)
qed

text \<open>
  C27: The parts of a Mode B deployment fit together. The backend torrc is built for every admitted
  log level, marks Tor as an Onionbalance instance, never turns proof of work on, and forwards to the
  address on which the router sidecar, started without \<open>--listen\<close>, listens; its directory is the one
  \<open>tor-init\<close> fills on a volume both containers can write; \<open>tor-init\<close> is told the master address
  that \<open>obrefresh\<close> uses, and the prefix from which, with the number of its pod, it gets the name of the key
  Secret that the operator makes for this replica. The frontend's Tor runs the torrc built for it, which is written
  out: a control port with a cookie in its data directory, no proxy, nothing published; the data directory is on a
  volume that Tor writes and Onionbalance reads. The init container of the frontend is told the master key Secret of
  the policy, in the namespace it says or else the Gateway's, and puts it into the directory, mounted read-only in
  Onionbalance, in which \<open>obrefresh\<close> tells Onionbalance to find the key; \<open>obrefresh\<close> writes the file that Onionbalance
  is started on and watches its pid file. All children have the Gateway as their one owner and controller;
  both pods are hardened and consistent.
\<close>

theorem ha_pods_agree:
  assumes "ep_log_level eff = [] \<or> valid_log_level (ep_log_level eff)"
    and "build_backend_stateful_set g p master images = Inr ss"
    and "build_frontend_deployment g p master images t = Inr d"
  shows "\<exists>cm txt init_c tor_c router_c fetch ftor ob refresh.
     build_backend_torrc_config_map g eff auth [] = Inr cm \<and> map_of (cm_data cm) ''torrc'' = Some txt
   \<and> pod_init (ss_pod ss) = [init_c] \<and> pod_containers (ss_pod ss) = [tor_c, router_c]
   \<and> pod_init (dep_pod d) = [fetch] \<and> pod_containers (dep_pod d) = [ftor, ob, refresh]
   \<and> \<lparr>vol_name = ''torrc'', vol_source = ConfigMapVolume (om_name (cm_meta cm))\<rparr> \<in> set (pod_volumes (ss_pod ss))
   \<and> directive_values ''HiddenServicePoWDefensesEnabled'' txt = []
   \<and> directive_values ''HiddenServiceOnionbalanceInstance'' txt = [''1'']
   \<and> directive_values ''HiddenServicePort'' txt = [''80 '' @ router_default_listen]
   \<and> directive_values ''HiddenServiceDir'' txt = [the (flag_eq_value ''--dst'' (ct_args init_c))]
   \<and> list_all (\<lambda>c. writable_below c (the (flag_eq_value ''--dst'' (ct_args init_c)))) [init_c, tor_c]
   \<and> flag_eq_value ''--listen'' (ct_args router_c) = None
   \<and> flag_eq_value ''--ob-master-address'' (ct_args init_c) = flag_eq_value ''--master-address'' (ct_args refresh)
   \<and> (\<forall>i. the (flag_eq_value ''--api-fetch-secret-prefix'' (ct_args init_c)) @ show_nat i @ ''-keys'' =
         backend_key_secret_name g i)
   \<and> ct_env init_c = [(''POD_NAME'', ''metadata.name''), (''POD_NAMESPACE'', ''metadata.namespace'')]
   \<and> \<lparr>vol_name = ''torrc'', vol_source = ConfigMapVolume (om_name (cm_meta (build_frontend_torrc_config_map g [])))\<rparr>
       \<in> set (pod_volumes (dep_pod d))
   \<and> map_option text_lines (map_of (cm_data (build_frontend_torrc_config_map g [])) ''torrc'') = Some frontend_torrc_lines
   \<and> ct_args ftor = [''-f'', ''/etc/tor/torrc'']
   \<and> set (ct_mounts ftor) = {mount_rw ''tor-data'' ''/var/lib/tor'', mount_ro ''torrc'' ''/etc/tor''}
   \<and> flag_eq_value ''--api-fetch-secret'' (ct_args fetch) =
       Some ((if sr_namespace (obp_master_key (obp_spec p)) = [] then gw_ns g else sr_namespace (obp_master_key (obp_spec p)))
         @ ''/'' @ sr_name (obp_master_key (obp_spec p)))
   \<and> ct_mounts fetch = [mount_rw ''ob-keys'' (the (flag_eq_value ''--dst'' (ct_args fetch)))]
   \<and> mount_ro ''ob-keys'' (the (flag_eq_value ''--dst'' (ct_args fetch))) \<in> set (ct_mounts ob)
   \<and> flag_eq_value ''--master-key-path'' (ct_args refresh) =
       Some (the (flag_eq_value ''--dst'' (ct_args fetch)) @ ''/hs_ed25519_secret_key'')
   \<and> take 2 (ct_args ob) = [''-c'', the (flag_eq_value ''--config'' (ct_args refresh))]
   \<and> flag_eq_value ''--config'' (ct_args refresh) = Some ''/etc/onionbalance/config/config.yaml''
   \<and> list_all (\<lambda>c. mount_rw ''ob-config'' ''/etc/onionbalance/config'' \<in> set (ct_mounts c)) [ob, refresh]
   \<and> flag_eq_value ''--pidfile'' (ct_args refresh) = Some ''/run/onionbalance/onionbalance.pid''
   \<and> mount_rw ''ob-run'' ''/run/onionbalance'' \<in> set (ct_mounts ob)
   \<and> mount_ro ''ob-run'' ''/run/onionbalance'' \<in> set (ct_mounts refresh) \<and> pod_share_process (dep_pod d)
   \<and> mount_ro ''tor-data'' ''/var/lib/tor'' \<in> set (ct_mounts ob)
   \<and> list_all (\<lambda>m. om_ns m = gw_ns g \<and> om_owners m =
         [\<lparr>ow_kind = ''Gateway'', ow_name = gw_name g, ow_uid = gw_uid g, ow_controller = Some True\<rparr>])
       [cm_meta cm, ss_meta ss, dep_meta d, cm_meta (build_frontend_torrc_config_map g [])]
   \<and> read_only_volume ''torrc'' (ss_pod ss) \<and> read_only_volume ''torrc'' (dep_pod d)
   \<and> hardened_pod (ss_pod ss) \<and> consistent_pod (ss_pod ss)
   \<and> hardened_pod (dep_pod d) \<and> consistent_pod (dep_pod d)"
proof -
  let ?txt = "torrc_text (torrc_settings eff auth True [])"
  note ss = backend_stateful_set_pod [OF assms(2)] and d = frontend_deployment_pod [OF assms(3)]
  note dirs = torrc_settings_directives [OF assms(1), of auth True]
    backend_torrc_no_pow [OF assms(1), of auth]
  have flags: "flag_eq_value ''--dst'' (ct_args (backend_init_container g master images)) = Some hs_service_dir"
    "flag_eq_value ''--listen'' (ct_args (backend_router_container g images)) = None"
    "flag_eq_value ''--ob-master-address'' (ct_args (backend_init_container g master images)) = Some (onion_string master)"
    "flag_eq_value ''--master-address'' (ct_args (obrefresh_sidecar g p master images)) = Some (onion_string master)"
    "flag_eq_value ''--api-fetch-secret-prefix'' (ct_args (backend_init_container g master images)) =
       Some (gw_name g @ ''-backend-'')"
    "flag_eq_value ''--api-fetch-secret'' (ct_args (master_fetch_container g p images)) =
       Some (frontend_master_ns g p @ ''/'' @ sr_name (obp_master_key (obp_spec p)))"
    "flag_eq_value ''--dst'' (ct_args (master_fetch_container g p images)) = Some ''/etc/onionbalance/keys''"
    "flag_eq_value ''--master-key-path'' (ct_args (obrefresh_sidecar g p master images)) =
       Some ''/etc/onionbalance/keys/hs_ed25519_secret_key''"
    "flag_eq_value ''--config'' (ct_args (obrefresh_sidecar g p master images)) = Some ''/etc/onionbalance/config/config.yaml''"
    "flag_eq_value ''--pidfile'' (ct_args (obrefresh_sidecar g p master images)) = Some ''/run/onionbalance/onionbalance.pid''"
    by (simp_all add: backend_init_container_def backend_router_container_def obrefresh_sidecar_def
        master_fetch_container_def blank_container_def flag_eq_value_def has_prefix_def hs_service_dir_def hs_dir_mount_path_def)
  have writable: "writable_below (backend_init_container g master images) hs_service_dir"
    "writable_below (backend_tor_container p images) hs_service_dir"
    by (simp_all add: writable_below_def backend_init_container_def backend_tor_container_def mount_rw_def
        backend_init_volume_mounts_def backend_tor_volume_mounts_def hs_service_dir_def has_prefix_def
        hs_dir_mount_path_def)
  have ro: "read_only_volume ''torrc'' (ss_pod ss)" "read_only_volume ''torrc'' (dep_pod d)"
    by (simp_all add: read_only_volume_def ss d backend_pod_def frontend_pod_def ha_container_defs
        blank_container_def mount_rw_def mount_ro_def data_volume_name_def)
  have vols: "\<lparr>vol_name = ''torrc'', vol_source = ConfigMapVolume (backend_torrc_config_map_name g)\<rparr>
      \<in> set (pod_volumes (ss_pod ss))"
    "\<lparr>vol_name = ''torrc'', vol_source = ConfigMapVolume (om_name (cm_meta (build_frontend_torrc_config_map g [])))\<rparr>
      \<in> set (pod_volumes (dep_pod d))"
    by (simp_all add: ss d backend_pod_def frontend_pod_def backend_pod_volumes_def frontend_volumes_def
        build_frontend_torrc_config_map_def)
  have owned: "list_all (\<lambda>m. om_ns m = gw_ns g \<and> om_owners m =
         [\<lparr>ow_kind = ''Gateway'', ow_name = gw_name g, ow_uid = gw_uid g, ow_controller = Some True\<rparr>])
       [child_meta g (backend_torrc_config_map_name g) (ha_labels g ha_role_backend), ss_meta ss, dep_meta d,
        cm_meta (build_frontend_torrc_config_map g [])]"
    using assms(2,3)
    by (auto simp: build_backend_stateful_set_def build_frontend_deployment_def guardE_Inr_iff Let_def child_meta_def
        controller_reference_def build_frontend_torrc_config_map_def)
  have mounts: "set (ct_mounts (frontend_tor_container p images)) = {mount_rw ''tor-data'' ''/var/lib/tor'', mount_ro ''torrc'' ''/etc/tor''}"
    "ct_args (frontend_tor_container p images) = [''-f'', ''/etc/tor/torrc'']"
    "ct_mounts (master_fetch_container g p images) = [mount_rw ''ob-keys'' ''/etc/onionbalance/keys'']"
    "mount_ro ''ob-keys'' ''/etc/onionbalance/keys'' \<in> set (ct_mounts (onionbalance_container t images))"
    "take 2 (ct_args (onionbalance_container t images)) = [''-c'', ''/etc/onionbalance/config/config.yaml'']"
    "mount_rw ''ob-config'' ''/etc/onionbalance/config'' \<in> set (ct_mounts (onionbalance_container t images))"
    "mount_rw ''ob-config'' ''/etc/onionbalance/config'' \<in> set (ct_mounts (obrefresh_sidecar g p master images))"
    "mount_rw ''ob-run'' ''/run/onionbalance'' \<in> set (ct_mounts (onionbalance_container t images))"
    "mount_ro ''ob-run'' ''/run/onionbalance'' \<in> set (ct_mounts (obrefresh_sidecar g p master images))"
    "mount_ro ''tor-data'' ''/var/lib/tor'' \<in> set (ct_mounts (onionbalance_container t images))"
    "ct_env (backend_init_container g master images) = [(''POD_NAME'', ''metadata.name''), (''POD_NAMESPACE'', ''metadata.namespace'')]"
    by (simp_all add: frontend_tor_container_def master_fetch_container_def onionbalance_container_def
        obrefresh_sidecar_def backend_init_container_def blank_container_def)
  show ?thesis
    by (rule exI [of _ "\<lparr>cm_meta = child_meta g (backend_torrc_config_map_name g) (ha_labels g ha_role_backend),
          cm_data = [(''torrc'', ?txt)]\<rparr>"], rule exI [of _ ?txt],
        rule exI [of _ "backend_init_container g master images"],
        rule exI [of _ "backend_tor_container p images"], rule exI [of _ "backend_router_container g images"],
        rule exI [of _ "master_fetch_container g p images"], rule exI [of _ "frontend_tor_container p images"],
        rule exI [of _ "onionbalance_container t images"], rule exI [of _ "obrefresh_sidecar g p master images"])
      (use vols ro in \<open>simp add: build_backend_torrc_ok assms(1) ss d backend_pod_hardened
        backend_pod_consistent frontend_pod_hardened frontend_pod_consistent dirs flags writable
        router_default_listen_def frontend_torrc_text mounts owned [simplified] backend_key_secret_name_def
        frontend_master_ns_def, simp add: backend_pod_def frontend_pod_def\<close>)
qed

subsection \<open>What the accounts may read\<close>

text \<open>How the API server applies a rule to a resource of an API group: an empty list of resource names
  allows every name.\<close>

definition rule_allows :: "policy_rule \<Rightarrow> string \<Rightarrow> string \<Rightarrow> string \<Rightarrow> string \<Rightarrow> bool" where
  "rule_allows r verb grp res name \<longleftrightarrow>
     verb \<in> set (pr_verbs r) \<and> grp \<in> set (pr_api_groups r) \<and> res \<in> set (pr_resources r) \<and>
     (pr_resource_names r = [] \<or> name \<in> set (pr_resource_names r))"

definition role_allows :: "role \<Rightarrow> string \<Rightarrow> string \<Rightarrow> string \<Rightarrow> string \<Rightarrow> bool" where
  "role_allows r verb grp res name \<longleftrightarrow> list_ex (\<lambda>x. rule_allows x verb grp res name) (role_rules r)"

lemma secrets_rule_allows: "rule_allows (secrets_rule vs ns) v grp res n \<longleftrightarrow>
    v \<in> set vs \<and> grp = [] \<and> res = ''secrets'' \<and> (ns = [] \<or> n \<in> set ns)"
  by (auto simp: rule_allows_def secrets_rule_def)

lemma events_rule_allows: "rule_allows \<lparr>pr_api_groups = [[]], pr_resources = [''events''], pr_verbs = vs,
     pr_resource_names = []\<rparr> v grp res n \<longleftrightarrow> v \<in> set vs \<and> grp = [] \<and> res = ''events''"
  by (auto simp: rule_allows_def)

lemma frontend_rules_allow:
  assumes "ns \<noteq> []"
  shows "list_ex (\<lambda>x. rule_allows x v grp res n)
      [secrets_rule [''get''] ns, secrets_rule [''list'', ''watch''] [], \<lparr>pr_api_groups = [[]],
         pr_resources = [''events''], pr_verbs = [''create'', ''patch''], pr_resource_names = []\<rparr>] \<longleftrightarrow>
     grp = [] \<and> ((res = ''secrets'' \<and> v = ''get'' \<and> n \<in> set ns) \<or>
     (res = ''secrets'' \<and> (v = ''list'' \<or> v = ''watch'')) \<or>
     (res = ''events'' \<and> (v = ''create'' \<or> v = ''patch'')))"
proof -
  have in1: "v \<in> set [a] \<longleftrightarrow> v = a" and in2: "v \<in> set [a, b] \<longleftrightarrow> v = a \<or> v = b" for v a b :: string
    by auto
  have ex3: "list_ex P [a, b, c] \<longleftrightarrow> P a \<or> P b \<or> P c" for P :: "policy_rule \<Rightarrow> bool" and a b c
    by simp
  from assms show ?thesis
    unfolding ex3 secrets_rule_allows events_rule_allows in1 in2 by argo
qed

lemma backend_key_names_iff: "n \<in> set (backend_key_names g k) \<longleftrightarrow> (\<exists>i < k. n = backend_key_secret_name g i)"
  by (auto simp: backend_key_names_def)

lemma build_role_allows:
  assumes "1 \<le> obp_replicas (obp_spec p)"
  shows "role_allows (build_role g (Some p)) v grp res n \<longleftrightarrow>
       grp = ''gateway.networking.k8s.io'' \<and> res = ''httproutes'' \<and> v \<in> {''get'', ''list'', ''watch''}
       \<or> grp = [] \<and> res = ''secrets'' \<and> v = ''get'' \<and> (\<exists>i < obp_replicas (obp_spec p). n = backend_key_secret_name g i)"
proof -
  have "backend_key_names g (obp_replicas (obp_spec p)) \<noteq> []"
    using assms by (simp add: backend_key_names_def)
  then show ?thesis by (auto simp: role_allows_def rule_allows_def build_role_def backend_key_names_iff)
qed

text \<open>
  C28: What each role grants, exactly, by verb, API group, resource and name. For a policy with at least one
  replica, the backends' account may get the key Secrets of the replicas, read HTTPRoutes, and nothing else; in
  Mode A it may read HTTPRoutes only. The frontend's account may get the key Secrets and, when
  the master key is in the Gateway's namespace, that Secret; it may list and watch all Secrets of the namespace,
  and write events. The role in a foreign namespace allows
  getting the one master key Secret and nothing else.
\<close>

theorem roles_exact:
  assumes "1 \<le> obp_replicas (obp_spec p)"
  shows "(role_allows (build_role g (Some p)) v grp res n \<longleftrightarrow>
       grp = ''gateway.networking.k8s.io'' \<and> res = ''httproutes'' \<and> v \<in> {''get'', ''list'', ''watch''}
       \<or> grp = [] \<and> res = ''secrets'' \<and> v = ''get'' \<and> (\<exists>i < obp_replicas (obp_spec p). n = backend_key_secret_name g i))
   \<and> (role_allows (build_role g None) v grp res n \<longleftrightarrow>
       grp = ''gateway.networking.k8s.io'' \<and> res = ''httproutes'' \<and> v \<in> {''get'', ''list'', ''watch''})
   \<and> (role_allows (build_frontend_role g p) v grp res n \<longleftrightarrow> grp = [] \<and>
      (res = ''events'' \<and> v \<in> {''create'', ''patch''}
       \<or> res = ''secrets'' \<and> v \<in> {''list'', ''watch''}
       \<or> res = ''secrets'' \<and> v = ''get'' \<and>
         ((\<exists>i < obp_replicas (obp_spec p). n = backend_key_secret_name g i)
          \<or> frontend_master_ns g p = gw_ns g \<and> n = sr_name (obp_master_key (obp_spec p)))))
   \<and> (case build_cross_ns_master_role g p of
         Inl _ \<Rightarrow> sr_namespace (obp_master_key (obp_spec p)) = []
       | Inr r \<Rightarrow> om_ns (role_meta r) = frontend_master_ns g p \<and>
           role_allows r v grp res n = (grp = [] \<and> res = ''secrets'' \<and> v = ''get'' \<and> n = sr_name (obp_master_key (obp_spec p))))"
proof (intro conjI)
  have ne: "backend_key_names g (obp_replicas (obp_spec p)) \<noteq> []"
    using assms by (simp add: backend_key_names_def)
  note names = backend_key_names_iff
  show "role_allows (build_role g (Some p)) v grp res n \<longleftrightarrow>
       grp = ''gateway.networking.k8s.io'' \<and> res = ''httproutes'' \<and> v \<in> {''get'', ''list'', ''watch''}
       \<or> grp = [] \<and> res = ''secrets'' \<and> v = ''get'' \<and> (\<exists>i < obp_replicas (obp_spec p). n = backend_key_secret_name g i)"
    by (rule build_role_allows [OF assms])
  show "role_allows (build_role g None) v grp res n \<longleftrightarrow>
       grp = ''gateway.networking.k8s.io'' \<and> res = ''httproutes'' \<and> v \<in> {''get'', ''list'', ''watch''}"
    by (auto simp: role_allows_def rule_allows_def build_role_def)
  show "role_allows (build_frontend_role g p) v grp res n \<longleftrightarrow> grp = [] \<and>
      (res = ''events'' \<and> v \<in> {''create'', ''patch''}
       \<or> res = ''secrets'' \<and> v \<in> {''list'', ''watch''}
       \<or> res = ''secrets'' \<and> v = ''get'' \<and>
         ((\<exists>i < obp_replicas (obp_spec p). n = backend_key_secret_name g i)
          \<or> frontend_master_ns g p = gw_ns g \<and> n = sr_name (obp_master_key (obp_spec p))))"
  proof -
    let ?own = "sr_namespace (obp_master_key (obp_spec p)) = [] \<or> sr_namespace (obp_master_key (obp_spec p)) = gw_ns g"
    let ?names = "backend_key_names g (obp_replicas (obp_spec p)) @
        (if ?own then [sr_name (obp_master_key (obp_spec p))] else [])"
    have A: "role_allows (build_frontend_role g p) v grp res n \<longleftrightarrow> grp = [] \<and>
        ((res = ''secrets'' \<and> v = ''get'' \<and> n \<in> set ?names) \<or>
        (res = ''secrets'' \<and> (v = ''list'' \<or> v = ''watch'')) \<or>
        (res = ''events'' \<and> (v = ''create'' \<or> v = ''patch'')))"
    proof -
      have r: "role_rules (build_frontend_role g p) = [secrets_rule [''get''] ?names,
          secrets_rule [''list'', ''watch''] [], \<lparr>pr_api_groups = [[]], pr_resources = [''events''],
          pr_verbs = [''create'', ''patch''], pr_resource_names = []\<rparr>]"
        by (simp add: build_frontend_role_def Let_def)
      have ne: "?names \<noteq> []" using ne by simp
      show ?thesis
        unfolding role_allows_def r by (rule frontend_rules_allow [OF ne])
    qed
    have B: "?own \<longleftrightarrow> frontend_master_ns g p = gw_ns g"
      by (auto simp: frontend_master_ns_def)
    have C: "n \<in> set ?names \<longleftrightarrow> (\<exists>i < obp_replicas (obp_spec p). n = backend_key_secret_name g i)
        \<or> ?own \<and> n = sr_name (obp_master_key (obp_spec p))"
      by (simp add: names) argo
    show ?thesis unfolding A unfolding C unfolding B insert_iff empty_iff by argo
  qed
  show "case build_cross_ns_master_role g p of
         Inl _ \<Rightarrow> sr_namespace (obp_master_key (obp_spec p)) = []
       | Inr r \<Rightarrow> om_ns (role_meta r) = frontend_master_ns g p \<and>
           role_allows r v grp res n = (grp = [] \<and> res = ''secrets'' \<and> v = ''get'' \<and> n = sr_name (obp_master_key (obp_spec p)))"
    by (auto simp: build_cross_ns_master_role_def guardE_def role_allows_def rule_allows_def
        secrets_rule_def frontend_master_ns_def Let_def)
qed

text \<open>With no replicas the backends' account could get every Secret of the namespace; the minimum
  of one in the policy's schema is what prevents it.\<close>

lemma no_replicas_grant_all:
  "obp_replicas (obp_spec p) = 0 \<Longrightarrow> role_allows (build_role g (Some p)) ''get'' [] ''secrets'' n"
  by (simp add: role_allows_def rule_allows_def build_role_def backend_key_names_def)

text \<open>Client authorization has no effect on backends: no container of theirs mounts a Secret, and
  \<open>tor-init\<close> is not told about one, although the torrc says that it is enabled.\<close>

lemma backends_ignore_client_auth:
  assumes "build_backend_stateful_set g p master images = Inr ss"
  shows "list_all (\<lambda>v. \<forall>n m. vol_source v \<noteq> SecretVolume n m) (pod_volumes (ss_pod ss))"
    and "list_all (\<lambda>c. flag_eq_value ''--client-auth-src'' (ct_args c) = None) (pod_init (ss_pod ss))"
  using assms
  by (auto simp: backend_stateful_set_pod backend_pod_def backend_pod_volumes_def
      backend_init_container_def blank_container_def flag_eq_value_def has_prefix_def)

subsection \<open>Instances\<close>

theorem ha_pods_agree_witness:
  "\<exists>ss d cm. build_backend_stateful_set (sample_gateway ''shop'') sample_obp zero_address sample_images = Inr ss
     \<and> build_frontend_deployment (sample_gateway ''shop'') sample_obp zero_address sample_images True = Inr d
     \<and> build_backend_torrc_config_map (sample_gateway ''shop'') default_policy
         \<lparr>ea_enabled = False, ea_secret_name = []\<rparr> [] = Inr cm
     \<and> hardened_pod (ss_pod ss) \<and> hardened_pod (dep_pod d)"
proof -
  let ?g = "sample_gateway ''shop''" and ?auth = "\<lparr>ea_enabled = False, ea_secret_name = []\<rparr>"
  obtain ss where ss: "build_backend_stateful_set ?g sample_obp zero_address sample_images = Inr ss"
    by (simp add: build_backend_stateful_set_def sample_images_def Let_def)
  obtain d where d: "build_frontend_deployment ?g sample_obp zero_address sample_images True = Inr d"
    by (simp add: build_frontend_deployment_def sample_images_def Let_def)
  have "ep_log_level default_policy = [] \<or> valid_log_level (ep_log_level default_policy)"
    by (simp add: default_policy_def valid_log_level_def log_levels_def)
  from ha_pods_agree [OF this ss d, of ?auth] ss d show ?thesis by blast
qed

theorem roles_exact_witness:
  "role_allows (build_role (sample_gateway ''shop'') (Some sample_obp)) ''get'' [] ''secrets''
     (backend_key_secret_name (sample_gateway ''shop'') 1)
   \<and> \<not> role_allows (build_role (sample_gateway ''shop'') (Some sample_obp)) ''delete'' [] ''secrets'' ''master''
   \<and> role_allows (build_frontend_role (sample_gateway ''shop'') sample_obp) ''get'' [] ''secrets'' ''master''"
proof -
  have r: "obp_replicas (obp_spec sample_obp) = 2" "frontend_master_ns (sample_gateway ''shop'') sample_obp = ''web''"
    "sr_name (obp_master_key (obp_spec sample_obp)) = ''master''"
    by (simp_all add: sample_obp_def frontend_master_ns_def)
  have le: "1 \<le> obp_replicas (obp_spec sample_obp)" by (simp add: r)
  have "\<exists>i < obp_replicas (obp_spec sample_obp).
      backend_key_secret_name (sample_gateway ''shop'') 1 = backend_key_secret_name (sample_gateway ''shop'') i"
    by (rule exI [of _ 1]) (simp add: r)
  then show ?thesis
    using roles_exact [OF le, of "sample_gateway ''shop''" "''get''" "[]" "''secrets''"
        "backend_key_secret_name (sample_gateway ''shop'') 1"]
      roles_exact [OF le, of "sample_gateway ''shop''" "''delete''" "[]" "''secrets''" "''master''"]
      roles_exact [OF le, of "sample_gateway ''shop''" "''get''" "[]" "''secrets''" "''master''"]
    by (simp add: r)
qed

end
