(* ===== verification/Tor_Init.thy ===== *)
theory Tor_Init
  imports Cmd_Flags Client_Auth Resources_Ha
begin

text \<open>
  \<open>cmd/tor-init\<close>: the init container that fills the HiddenServiceDir before tor starts.

  The volume under \<open>--dst\<close> is an \<open>hs_volume\<close>: the tree of modes that \<open>Permissions\<close> checks and repairs
  (\<open>None\<close> while the directory does not exist), the contents of its files, and the contents of the
  files in \<open>authorized_clients\<close>. What the container runs on is a \<open>host\<close>: its umask, the modes that let
  the process list a directory, create an entry in it, or open a file for writing, which entries of
  the volume it owns, the root being \<open>.\<close> (only an owner may change a mode), and which writes the disk accepts. The mounts and the environment are an \<open>init_input\<close>. The API server is a
  \<open>cluster\<close>. A step returns the volume it leaves, with the error that stopped it: what was written
  before an error stays written.
\<close>

subsection \<open>The machine\<close>

record hs_volume =
  hs_tree :: "node option"
  hs_body :: "string gomap"
  hs_auth :: "string gomap"

record host =
  umask :: perm
  can_list :: "perm \<Rightarrow> bool"
  can_create :: "perm \<Rightarrow> bool"
  can_open_write :: "perm \<Rightarrow> bool"
  mkdir_allowed :: bool
  owns :: "string \<Rightarrow> bool"
  disk_ok :: "string \<Rightarrow> bool"

datatype file_stat = StatFails | NotRegular | RegularFile "string option"

record init_input =
  in_src :: "(string \<times> file_stat) list option"
  in_clients :: "dir_entry list option"
  in_pod_name :: string
  in_pod_namespace :: string

record cluster =
  in_cluster :: bool
  client_ok :: bool
  secret_data :: "string \<Rightarrow> string \<Rightarrow> string gomap option"

datatype init_error =
    MkdirFails
  | BadSecretRef string
  | PodEnvMissing
  | NoOrdinal string
  | EmptyReference
  | NoInClusterConfig
  | NoKubeClient
  | SecretUnavailable string string
  | WriteFails string
  | SourceUnreadable
  | StatError string
  | OpenFails string
  | ClientAuthUnreadable string
  | FixFails perm_error

type_synonym step = "hs_volume \<Rightarrow> hs_volume \<times> init_error option"

definition skip_step :: step where "skip_step v = (v, None)"
definition stop_with :: "init_error \<Rightarrow> step" where "stop_with e v = (v, Some e)"

definition and_then :: "step \<Rightarrow> step \<Rightarrow> step" where
  "and_then f g v = (case f v of (v', Some e) \<Rightarrow> (v', Some e) | (v', None) \<Rightarrow> g v')"

definition step_if :: "bool \<Rightarrow> step \<Rightarrow> step" where
  "step_if b f = (if b then f else skip_step)"

fun for_each :: "('a \<Rightarrow> step) \<Rightarrow> 'a list \<Rightarrow> step" where
  "for_each f [] = skip_step"
| "for_each f (x # xs) = and_then (f x) (for_each f xs)"

subsection \<open>Files and directories\<close>

definition masked :: "host \<Rightarrow> perm \<Rightarrow> perm" where
  "masked h m = m AND NOT (umask h)"

text \<open>\<open>os.MkdirAll\<close> on the volume: an existing directory is left alone.\<close>

definition make_dir :: "host \<Rightarrow> step" where
  "make_dir h v =
     (case hs_tree v of
        Some (Dir _ _) \<Rightarrow> (v, None)
      | Some (File _) \<Rightarrow> (v, Some MkdirFails)
      | None \<Rightarrow> if mkdir_allowed h
                then (v\<lparr>hs_tree := Some (Dir (masked h hidden_service_dir_mode) [])\<rparr>, None)
                else (v, Some MkdirFails))"

text \<open>Opening with \<open>O_CREATE|O_TRUNC\<close> and writing: the mode counts only for a new file.\<close>

definition write_file :: "host \<Rightarrow> init_error \<Rightarrow> perm \<Rightarrow> string \<Rightarrow> string \<Rightarrow> step" where
  "write_file h e mode name content v =
     (case hs_tree v of
        Some (Dir m es) \<Rightarrow>
          (case map_of es name of
             None \<Rightarrow>
               if can_create h m \<and> disk_ok h name
               then (v\<lparr>hs_tree := Some (Dir m (AList.update name (File (masked h mode)) es)),
                       hs_body := AList.update name content (hs_body v)\<rparr>, None)
               else (v, Some e)
           | Some (File fm) \<Rightarrow>
               if can_create h m \<and> can_open_write h fm \<and> disk_ok h name
               then (v\<lparr>hs_body := AList.update name content (hs_body v)\<rparr>, None)
               else (v, Some e)
           | Some (Dir _ _) \<Rightarrow> (v, Some e))
      | _ \<Rightarrow> (v, Some e))"

definition copy_file :: "host \<Rightarrow> string \<Rightarrow> string option \<Rightarrow> step" where
  "copy_file h name body =
     (case body of
        None \<Rightarrow> stop_with (OpenFails name)
      | Some content \<Rightarrow> write_file h (OpenFails name) secret_key_mode name content)"

subsection \<open>Secrets of the API server\<close>

definition pod_ordinal :: "string \<Rightarrow> (init_error, string) result" where
  "pod_ordinal pod =
     (let ord = rev (takeWhile (\<lambda>c. c \<noteq> CHR ''-'') (rev pod))
      in guardE (CHR ''-'' \<notin> set pod \<or> ord = []) (NoOrdinal pod) (Inr ord))"

definition fetch_secret_to_dir :: "host \<Rightarrow> cluster \<Rightarrow> string \<Rightarrow> string \<Rightarrow> step" where
  "fetch_secret_to_dir h cl ns name =
     (if ns = [] \<or> name = [] then stop_with EmptyReference
      else case secret_data cl ns name of
        None \<Rightarrow> stop_with (SecretUnavailable ns name)
      | Some entries \<Rightarrow>
          and_then (make_dir h)
            (for_each (\<lambda>(k, b). write_file h (WriteFails k) secret_key_mode k b) entries))"

definition api_fetch_secret_to_dir :: "host \<Rightarrow> cluster \<Rightarrow> string \<Rightarrow> string \<Rightarrow> step" where
  "api_fetch_secret_to_dir h cl ns name =
     (if \<not> in_cluster cl then stop_with NoInClusterConfig
      else if \<not> client_ok cl then stop_with NoKubeClient
      else fetch_secret_to_dir h cl ns name)"

text \<open>\<open>strings.SplitN(ref, "/", 2)\<close>: the name keeps any further slash.\<close>

definition split_ref :: "string \<Rightarrow> (string \<times> string) option" where
  "split_ref ref =
     (let ns = takeWhile (\<lambda>c. c \<noteq> CHR ''/'') ref; name = drop (length ns + 1) ref
      in if CHR ''/'' \<notin> set ref \<or> ns = [] \<or> name = [] then None else Some (ns, name))"

definition run_api_fetch :: "host \<Rightarrow> cluster \<Rightarrow> string \<Rightarrow> step" where
  "run_api_fetch h cl ref =
     (case split_ref ref of
        None \<Rightarrow> stop_with (BadSecretRef ref)
      | Some (ns, name) \<Rightarrow> api_fetch_secret_to_dir h cl ns name)"

definition run_api_fetch_prefix :: "host \<Rightarrow> cluster \<Rightarrow> init_input \<Rightarrow> string \<Rightarrow> step" where
  "run_api_fetch_prefix h cl inp pre =
     (if in_pod_name inp = [] \<or> in_pod_namespace inp = [] then stop_with PodEnvMissing
      else case pod_ordinal (in_pod_name inp) of
        Inl e \<Rightarrow> stop_with e
      | Inr ord \<Rightarrow> api_fetch_secret_to_dir h cl (in_pod_namespace inp) (pre @ ord @ ''-keys''))"

subsection \<open>Mounted keys and client authorization\<close>

definition copy_entry :: "host \<Rightarrow> string \<times> file_stat \<Rightarrow> step" where
  "copy_entry h e =
     (case snd e of
        StatFails \<Rightarrow> stop_with (StatError (fst e))
      | NotRegular \<Rightarrow> skip_step
      | RegularFile body \<Rightarrow> copy_file h (fst e) body)"

definition copy_mount :: "host \<Rightarrow> (string \<times> file_stat) list option \<Rightarrow> step" where
  "copy_mount h src =
     (case src of None \<Rightarrow> stop_with SourceUnreadable | Some es \<Rightarrow> for_each (copy_entry h) es)"

text \<open>
  \<open>WriteAuthorizedClients\<close> on the volume: the subdirectory is made when absent, new files have mode
  0600. Its error is only logged.
\<close>

definition auth_subtree :: "hs_volume \<Rightarrow> node option" where
  "auth_subtree v =
     (case hs_tree v of Some (Dir m es) \<Rightarrow> map_of es authorized_clients_subdir | _ \<Rightarrow> None)"

definition auth_mkdir_ok :: "host \<Rightarrow> hs_volume \<Rightarrow> bool" where
  "auth_mkdir_ok h v =
     (case (hs_tree v, auth_subtree v) of
        (Some (Dir m _), None) \<Rightarrow> can_create h m
      | (Some (Dir _ _), Some (Dir _ _)) \<Rightarrow> True
      | _ \<Rightarrow> False)"

definition auth_dir :: "host \<Rightarrow> hs_volume \<Rightarrow> perm \<times> (string \<times> node) list" where
  "auth_dir h v =
     (case auth_subtree v of
        Some (Dir m fs) \<Rightarrow> (m, fs)
      | _ \<Rightarrow> (masked h authorized_clients_dir_mode, []))"

definition auth_can_write :: "host \<Rightarrow> perm \<times> (string \<times> node) list \<Rightarrow> string \<Rightarrow> bool" where
  "auth_can_write h d f =
     (can_create h (fst d) \<and> disk_ok h (authorized_clients_subdir @ ''/'' @ f) \<and>
      (case map_of (snd d) f of
         None \<Rightarrow> True | Some (File m) \<Rightarrow> can_open_write h m | Some (Dir _ _) \<Rightarrow> False))"

definition lay_down_clients :: "host \<Rightarrow> string \<Rightarrow> string gomap \<Rightarrow> hs_volume \<Rightarrow> hs_volume" where
  "lay_down_clients h dst clients v =
     (case hs_tree v of
        Some (Dir m es) \<Rightarrow>
          if dst = [] \<or> \<not> auth_mkdir_ok h v then v
          else
            let d = auth_dir h v;
                files = fst (write_authorized_clients True (auth_can_write h d) dst clients (hs_auth v));
                new = filter (\<lambda>f. map_of (snd d) f = None) (map fst files);
                fs = snd d @ map (\<lambda>f. (f, File (masked h secret_key_mode))) new
            in v\<lparr>hs_tree := Some (Dir m (AList.update authorized_clients_subdir (Dir (fst d) fs) es)),
                 hs_auth := files\<rparr>
      | _ \<Rightarrow> v)"

definition lay_down_client_auth :: "host \<Rightarrow> string \<Rightarrow> dir_entry list option \<Rightarrow> step" where
  "lay_down_client_auth h dst src v =
     (case load_authorized_clients src of
        Inl f \<Rightarrow> (v, Some (ClientAuthUnreadable f))
      | Inr clients \<Rightarrow> (lay_down_clients h dst clients v, None))"

subsection \<open>Permissions and \<open>ob_config\<close>\<close>

definition fix_volume :: "host \<Rightarrow> step" where
  "fix_volume h v =
     (case hs_tree v of
        None \<Rightarrow> (v, Some (FixFails OpenFailed))
      | Some t \<Rightarrow> (case fix_permissions (can_list h) (owns h) t of
          (t', e) \<Rightarrow> (v\<lparr>hs_tree := Some t'\<rparr>, map_option FixFails e)))"

definition with_onion :: "string \<Rightarrow> string" where
  "with_onion a = (if has_suffix a ''.onion'' then a else a @ ''.onion'')"

definition ob_config_mode :: perm where "ob_config_mode = 0x100"

definition ob_config_text :: "string \<Rightarrow> string" where
  "ob_config_text addr = ''MasterOnionAddress '' @ with_onion (trim_space addr) @ [nl]"

definition write_ob_config :: "host \<Rightarrow> string \<Rightarrow> step" where
  "write_ob_config h addr = write_file h (WriteFails ''ob_config'') ob_config_mode ''ob_config'' (ob_config_text addr)"

subsection \<open>The run\<close>

record init_args =
  a_src :: string
  a_dst :: string
  a_client_auth :: string
  a_ob_master :: string
  a_api_fetch :: string
  a_api_prefix :: string

definition init_flag_defaults :: "string gomap" where
  "init_flag_defaults =
     [(''src'', ''/etc/tor-keys''), (''dst'', ''/var/lib/tor/hs''), (''client-auth-src'', []),
      (''ob-master-address'', []), (''api-fetch-secret'', []), (''api-fetch-secret-prefix'', [])]"

definition parse_init_args :: "string list \<Rightarrow> init_args option" where
  "parse_init_args args =
     map_option (\<lambda>fl. \<lparr>a_src = flag_or_empty fl ''src'', a_dst = flag_or_empty fl ''dst'',
         a_client_auth = flag_or_empty fl ''client-auth-src'', a_ob_master = flag_or_empty fl ''ob-master-address'',
         a_api_fetch = flag_or_empty fl ''api-fetch-secret'',
         a_api_prefix = flag_or_empty fl ''api-fetch-secret-prefix''\<rparr>)
       (go_flags init_flag_defaults args)"

definition tor_hs_dir_mode :: "init_args \<Rightarrow> bool" where
  "tor_hs_dir_mode a \<longleftrightarrow> a_src a \<noteq> [] \<or> a_api_prefix a \<noteq> [] \<or> a_ob_master a \<noteq> [] \<or> a_client_auth a \<noteq> []"

definition init_run :: "host \<Rightarrow> cluster \<Rightarrow> init_input \<Rightarrow> init_args \<Rightarrow> step" where
  "init_run h cl inp a =
     and_then (if a_dst a = [] then stop_with MkdirFails else make_dir h)
     (and_then (step_if (a_api_fetch a \<noteq> []) (run_api_fetch h cl (a_api_fetch a)))
     (and_then (step_if (a_api_prefix a \<noteq> []) (run_api_fetch_prefix h cl inp (a_api_prefix a)))
     (and_then (step_if (a_src a \<noteq> []) (copy_mount h (in_src inp)))
     (and_then (step_if (a_client_auth a \<noteq> []) (lay_down_client_auth h (a_dst a) (in_clients inp)))
     (and_then (step_if (tor_hs_dir_mode a) (fix_volume h))
       (step_if (a_ob_master a \<noteq> []) (write_ob_config h (a_ob_master a))))))))"

definition init_exit_code :: "init_error option \<Rightarrow> nat" where
  "init_exit_code e = (if e = None then 0 else 1)"

subsection \<open>Steps\<close>

lemma and_then_ok: "and_then f g v = (v', None) \<longleftrightarrow> (\<exists>u. f v = (u, None) \<and> g u = (v', None))"
  by (auto simp: and_then_def split: prod.splits option.splits)

lemma and_then_simps:
  "f v = (u, None) \<Longrightarrow> and_then f g v = g u" "f v = (u, Some e) \<Longrightarrow> and_then f g v = (u, Some e)"
  by (simp_all add: and_then_def)

lemma step_if_simps [simp]: "step_if True f = f" "step_if False f = skip_step"
  by (simp_all add: step_if_def)

lemma skip_step_simp [simp]: "skip_step v = (v, None)" "and_then skip_step g = g"
  by (simp_all add: skip_step_def and_then_def fun_eq_iff)

lemma stop_with_simp [simp]: "stop_with e v = (v, Some e)" "and_then (stop_with e) g = stop_with e"
  by (simp_all add: stop_with_def and_then_def fun_eq_iff)

lemma update_same: "map_of m k = Some x \<Longrightarrow> AList.update k x m = m"
  by (induction m) (auto split: if_splits)

lemma update_new: "map_of m k = None \<Longrightarrow> AList.update k x m = m @ [(k, x)]"
  by (induction m) (auto split: if_splits)

text \<open>What a sequence of writes leaves.\<close>

lemma write_file_body:
  "write_file h e mode k b v = (v', None) \<Longrightarrow> map_of (hs_body v') = (map_of (hs_body v))(k \<mapsto> b)"
  by (auto simp: write_file_def update_conv' split: option.splits node.splits if_splits)

lemma write_files_body:
  assumes "for_each (\<lambda>(k, b). write_file h (e k) mode k b) es v = (v', None)" "distinct (map fst es)"
  shows "map_of (hs_body v') = map_of (hs_body v) ++ map_of es"
  using assms
proof (induction es arbitrary: v)
  case (Cons p es)
  obtain k b where p: "p = (k, b)" by (cases p)
  obtain u where u: "write_file h (e k) mode k b v = (u, None)"
    and rest: "for_each (\<lambda>(k, b). write_file h (e k) mode k b) es u = (v', None)"
    using Cons.prems by (auto simp: p and_then_ok)
  have "map_of (hs_body v') = (map_of (hs_body v))(k \<mapsto> b) ++ map_of es"
    using Cons.IH [OF rest] Cons.prems(2) write_file_body [OF u] by (simp add: p fun_upd_def)
  moreover have "map_of es k = None" using Cons.prems by (simp add: p map_of_eq_None_iff)
  ultimately show ?case by (auto simp: p fun_eq_iff map_add_def split: option.splits)
qed simp

text \<open>Entries keep their modes and the root keeps its own under writes.\<close>

lemma make_dir_body: "make_dir h v = (v', x) \<Longrightarrow> hs_body v' = hs_body v"
  by (auto simp: make_dir_def split: option.splits node.splits if_splits)

lemma make_dir_ok: "make_dir h v = (v', None) \<Longrightarrow> make_dir h v' = (v', None)"
  by (auto simp: make_dir_def split: option.splits node.splits if_splits)

lemma make_dir_present: "hs_tree v = Some (Dir m es) \<Longrightarrow> make_dir h v = (v, None)"
  by (simp add: make_dir_def)

text \<open>The contents of the mounted files.\<close>

definition regular_files :: "(string \<times> file_stat) list \<Rightarrow> string gomap" where
  "regular_files es =
     List.map_filter (\<lambda>(n, st). case st of RegularFile (Some b) \<Rightarrow> Some (n, b) | _ \<Rightarrow> None) es"

lemma regular_files_keys_sub: "set (map fst (regular_files es)) \<subseteq> fst ` set es"
  by (force simp: regular_files_def map_filter_def split: file_stat.splits option.splits)

lemma regular_files_keys_distinct: "distinct (map fst es) \<Longrightarrow> distinct (map fst (regular_files es))"
proof (induction es)
  case (Cons p es)
  then show ?case
    using regular_files_keys_sub [of es]
    by (cases p) (auto simp: regular_files_def map_filter_simps split: file_stat.splits option.splits)
qed (simp add: regular_files_def map_filter_simps)

lemma copy_entries_body:
  assumes "for_each (copy_entry h) es v = (v', None)" "distinct (map fst es)"
  shows "map_of (hs_body v') = map_of (hs_body v) ++ map_of (regular_files es)"
  using assms
proof (induction es arbitrary: v)
  case (Cons p es)
  obtain n st where p: "p = (n, st)" by (cases p)
  obtain u where u: "copy_entry h p v = (u, None)" and rest: "for_each (copy_entry h) es u = (v', None)"
    using Cons.prems by (auto simp: and_then_ok)
  have none: "map_of (regular_files es) n = None"
    using Cons.prems regular_files_keys_sub [of es] by (auto simp: p map_of_eq_None_iff)
  have IH: "map_of (hs_body v') = map_of (hs_body u) ++ map_of (regular_files es)"
    using Cons.IH [OF rest] Cons.prems by simp
  show ?case
  proof (cases st)
    case (RegularFile body)
    then obtain b where b: "body = Some b" "write_file h (OpenFails n) secret_key_mode n b v = (u, None)"
      using u by (cases body) (auto simp: p copy_entry_def copy_file_def)
    show ?thesis
      using IH none write_file_body [OF b(2)]
      by (auto simp: p b RegularFile regular_files_def map_filter_simps fun_eq_iff map_add_def
          split: option.splits)
  qed (use u IH in \<open>auto simp: p copy_entry_def regular_files_def map_filter_simps\<close>)
qed (simp add: regular_files_def map_filter_simps)

subsection \<open>What the check sees of a write\<close>

lemma entries_modes_append: "entries_modes (es @ [(n, nd)]) = entries_modes es @ node_modes n nd"
  by (induction es) auto

lemma compliant_fix_id:
  "list_all (entry_compliant cl) (node_modes n nd) \<Longrightarrow> (\<And>p. own p) \<Longrightarrow> fix_node cl own r n nd = (nd, None)"
  "list_all (entry_compliant cl) (entries_modes es) \<Longrightarrow> (\<And>p. own p) \<Longrightarrow> fix_entries cl own r es = (es, None)"
  by (induction n nd and es arbitrary: r and r rule: node_modes_entries_modes.induct)
    (auto simp: entry_compliant_def fix_file_mode_def fix_dir_mode_def mode_consts Let_def)

definition compliant_volume :: "host \<Rightarrow> hs_volume \<Rightarrow> bool" where
  "compliant_volume h v \<longleftrightarrow>
     (\<exists>es. hs_tree v = Some (Dir hidden_service_dir_mode es) \<and> can_list h hidden_service_dir_mode \<and>
        list_all (entry_compliant (can_list h)) (entries_modes es))"

lemma compliant_check:
  "compliant_volume h v \<longleftrightarrow>
     (\<exists>t. hs_tree v = Some t \<and> check_permissions (can_list h) p t = Inr ())"
  by (auto simp: compliant_volume_def check_permissions_iff hidden_service_dir_mode_def)

lemma fix_volume_compliant: "fix_volume h v = (v', None) \<Longrightarrow> compliant_volume h v'"
proof -
  assume a: "fix_volume h v = (v', None)"
  then obtain m es es' where "hs_tree v = Some (Dir m es)" and es': "fix_entries (can_list h) (owns h) ''.'' es = (es', None)"
    and v': "v' = v\<lparr>hs_tree := Some (Dir hidden_service_dir_mode es')\<rparr>" "can_list h hidden_service_dir_mode"
    by (auto simp: fix_volume_def fix_permissions_def split: option.splits node.splits if_splits prod.splits)
  have "check_entries (can_list h) [] es' = Inr []" by (rule check_fixed(2) [OF es'])
  then show ?thesis using v' by (simp add: compliant_volume_def check_node_iff)
qed

lemma fix_volume_id: "compliant_volume h v \<Longrightarrow> (\<And>p. owns h p) \<Longrightarrow> fix_volume h v = (v, None)"
  by (auto simp: compliant_volume_def fix_volume_def fix_permissions_def compliant_fix_id)

lemma fix_volume_body: "fix_volume h v = (v', x) \<Longrightarrow> hs_body v' = hs_body v"
  by (auto simp: fix_volume_def split: option.splits node.splits if_splits prod.splits)

lemma ob_mode_compliant: "masked h ob_config_mode AND NOT public_key_max_mode = 0"
proof -
  have "masked h ob_config_mode AND NOT public_key_max_mode
      = (ob_config_mode AND NOT public_key_max_mode) AND NOT (umask h)"
    by (simp add: masked_def ac_simps)
  then show ?thesis by (simp add: ob_config_mode_def public_key_max_mode_def)
qed

lemma write_ob_config_compliant:
  assumes "compliant_volume h v" "write_ob_config h addr v = (v', None)"
  shows "compliant_volume h v'"
proof -
  obtain es where es: "hs_tree v = Some (Dir hidden_service_dir_mode es)" "can_list h hidden_service_dir_mode"
    "list_all (entry_compliant (can_list h)) (entries_modes es)"
    using assms(1) by (auto simp: compliant_volume_def)
  have new: "entry_compliant (can_list h) (''ob_config'', False, masked h ob_config_mode)"
    using ob_mode_compliant by (simp add: entry_compliant_def file_secret_key_name_def public_key_max_mode_def)
  show ?thesis
    using assms(2) es new
    by (auto simp: write_ob_config_def write_file_def compliant_volume_def update_new entries_modes_append
        split: option.splits node.splits if_splits)
qed

lemma lay_down_clients_body: "hs_body (lay_down_clients h dst clients v) = hs_body v"
  by (auto simp: lay_down_clients_def Let_def split: option.splits node.splits)

lemma lay_down_client_auth_body: "lay_down_client_auth h dst src v = (v', x) \<Longrightarrow> hs_body v' = hs_body v"
  by (auto simp: lay_down_client_auth_def lay_down_clients_body split: sum.splits)

text \<open>What a successful run went through.\<close>

lemma init_runE:
  assumes "init_run h cl inp a v = (v', None)"
  obtains u1 u2 u3 where
    "step_if (a_src a \<noteq> []) (copy_mount h (in_src inp)) u1 = (u2, None)"
    "hs_body u3 = hs_body u2"
    "tor_hs_dir_mode a \<Longrightarrow> compliant_volume h u3"
    "step_if (a_ob_master a \<noteq> []) (write_ob_config h (a_ob_master a)) u3 = (v', None)"
proof -
  from assms obtain u1 u2 w u3 where
    src: "step_if (a_src a \<noteq> []) (copy_mount h (in_src inp)) u1 = (u2, None)"
    and auth: "step_if (a_client_auth a \<noteq> []) (lay_down_client_auth h (a_dst a) (in_clients inp)) u2 = (w, None)"
    and fix': "step_if (tor_hs_dir_mode a) (fix_volume h) w = (u3, None)"
    and ob: "step_if (a_ob_master a \<noteq> []) (write_ob_config h (a_ob_master a)) u3 = (v', None)"
    unfolding init_run_def and_then_ok by blast
  have "hs_body w = hs_body u2"
    using auth by (auto simp: step_if_def dest: lay_down_client_auth_body split: if_splits)
  moreover have "hs_body u3 = hs_body w"
    using fix' by (auto simp: step_if_def dest: fix_volume_body split: if_splits)
  moreover have "tor_hs_dir_mode a \<Longrightarrow> compliant_volume h u3"
    using fix' fix_volume_compliant by simp
  ultimately show thesis using that src ob by simp
qed

text \<open>
  C35: The init container hands tor a directory it accepts. Whenever \<open>tor-init\<close> succeeds on a
  HiddenServiceDir (any combination of mounted keys, fetched keys, client authorization and
  \<open>ob_config\<close>, whatever was in the volume before), the directory passes \<open>CheckPermissions\<close>, the later
  write of \<open>ob_config\<close> included, and every regular file of the key mount is in it with exactly its
  bytes.
\<close>

theorem init_leaves_compliant_dir:
  assumes "init_run h cl inp a v = (v', None)" "tor_hs_dir_mode a"
    and "\<And>es. in_src inp = Some es \<Longrightarrow> distinct (map fst es)"
  shows "(\<exists>t. hs_tree v' = Some t \<and> check_permissions (can_list h) p t = Inr ())
    \<and> (a_src a \<noteq> [] \<longrightarrow> (\<exists>es. in_src inp = Some es \<and>
          (\<forall>n b. (n, RegularFile (Some b)) \<in> set es \<and> n \<noteq> ''ob_config'' \<longrightarrow> map_of (hs_body v') n = Some b)))"
proof -
  from init_runE [OF assms(1)] obtain u1 u2 u3 where
    src: "step_if (a_src a \<noteq> []) (copy_mount h (in_src inp)) u1 = (u2, None)"
    and body: "hs_body u3 = hs_body u2" and u3: "compliant_volume h u3"
    and ob: "step_if (a_ob_master a \<noteq> []) (write_ob_config h (a_ob_master a)) u3 = (v', None)"
    using assms(2) by metis
  have "compliant_volume h v'"
    using ob u3 write_ob_config_compliant by (cases "a_ob_master a = []") auto
  moreover have v': "map_of (hs_body v') n = map_of (hs_body u3) n" if "n \<noteq> ''ob_config''" for n
    using ob that by (cases "a_ob_master a = []") (auto simp: write_ob_config_def dest: write_file_body)
  have "\<exists>es. in_src inp = Some es \<and>
      (\<forall>n b. (n, RegularFile (Some b)) \<in> set es \<and> n \<noteq> ''ob_config'' \<longrightarrow> map_of (hs_body v') n = Some b)"
    if a: "a_src a \<noteq> []"
  proof -
    obtain es where es: "in_src inp = Some es" "for_each (copy_entry h) es u1 = (u2, None)"
      using src a by (cases "in_src inp") (auto simp: copy_mount_def)
    note dist = assms(3) [OF es(1)]
    have "map_of (regular_files es) n = Some b" if "(n, RegularFile (Some b)) \<in> set es" for n b
    proof (rule map_of_is_SomeI)
      show "distinct (map fst (regular_files es))"
        using dist regular_files_keys_distinct by blast
      show "(n, b) \<in> set (regular_files es)"
        using that by (force simp: regular_files_def map_filter_def)
    qed
    then show ?thesis
      using es(1) copy_entries_body [OF es(2) dist] v' body by auto
  qed
  ultimately show ?thesis using compliant_check by blast
qed

subsection \<open>The init container of a backend pod\<close>

definition benign_host :: "host \<Rightarrow> bool" where
  "benign_host h \<longleftrightarrow> mkdir_allowed h \<and> (\<forall>p. owns h p) \<and> (\<forall>n. disk_ok h n) \<and>
     masked h hidden_service_dir_mode = hidden_service_dir_mode \<and> masked h secret_key_mode = secret_key_mode \<and>
     can_create h hidden_service_dir_mode \<and> can_list h hidden_service_dir_mode \<and>
     can_open_write h secret_key_mode"

definition fresh_volume :: hs_volume where
  "fresh_volume = \<lparr>hs_tree = None, hs_body = [], hs_auth = []\<rparr>"

definition key_nodes :: "string gomap \<Rightarrow> (string \<times> node) list" where
  "key_nodes es = map (\<lambda>(k, b). (k, File secret_key_mode)) es"

definition backend_volume :: "host \<Rightarrow> string gomap \<Rightarrow> onion_address \<Rightarrow> hs_volume" where
  "backend_volume h entries master =
     \<lparr>hs_tree = Some (Dir hidden_service_dir_mode
        (key_nodes entries @ [(''ob_config'', File (masked h ob_config_mode))])),
      hs_body = entries @ [(''ob_config'', ''MasterOnionAddress '' @ onion_string master @ [nl])], hs_auth = []\<rparr>"

lemma key_nodes_lookup: "map_of (key_nodes es) k = (if k \<in> fst ` set es then Some (File secret_key_mode) else None)"
  by (induction es) (auto simp: key_nodes_def)

lemma key_nodes_compliant: "list_all (entry_compliant cl) (entries_modes (key_nodes es))"
proof -
  have "entry_compliant cl (k, False, secret_key_mode)" for k
    by (simp add: entry_compliant_def secret_key_mode_def)
  then show ?thesis by (induction es) (auto simp: key_nodes_def)
qed

lemma write_files_fresh:
  assumes "benign_host h" "distinct (map fst es)" "fst ` set es \<inter> fst ` set es0 = {}"
  shows "for_each (\<lambda>(k, b). write_file h (WriteFails k) secret_key_mode k b) es
      \<lparr>hs_tree = Some (Dir hidden_service_dir_mode (key_nodes es0)), hs_body = es0, hs_auth = c\<rparr> =
    (\<lparr>hs_tree = Some (Dir hidden_service_dir_mode (key_nodes (es0 @ es))), hs_body = es0 @ es, hs_auth = c\<rparr>, None)"
  using assms(2,3)
proof (induction es arbitrary: es0)
  case (Cons p es)
  obtain k b where p: "p = (k, b)" by (cases p)
  have none: "map_of (key_nodes es0) k = None" "map_of es0 k = None"
    using Cons.prems by (auto simp: p key_nodes_lookup map_of_eq_None_iff)
  have "write_file h (WriteFails k) secret_key_mode k b
      \<lparr>hs_tree = Some (Dir hidden_service_dir_mode (key_nodes es0)), hs_body = es0, hs_auth = c\<rparr> =
    (\<lparr>hs_tree = Some (Dir hidden_service_dir_mode (key_nodes (es0 @ [p]))), hs_body = es0 @ [p], hs_auth = c\<rparr>, None)"
    using assms(1) none by (simp add: write_file_def benign_host_def update_new) (simp add: key_nodes_def p)
  then show ?case
    using Cons.IH [of "es0 @ [p]"] Cons.prems by (auto simp: p and_then_simps)
qed simp

lemma write_file_again:
  assumes "hs_tree v = Some (Dir m es)" "map_of es k = Some (File fm)" "map_of (hs_body v) k = Some b"
    and "can_create h m" "can_open_write h fm" "disk_ok h k"
  shows "write_file h e mode k b v = (v, None)"
  using assms by (simp add: write_file_def update_same)

lemma write_files_again:
  assumes "hs_tree v = Some (Dir m ns)" "can_create h m" "\<And>n. disk_ok h n"
    and "\<And>k b. (k, b) \<in> set es \<Longrightarrow> map_of (hs_body v) k = Some b \<and>
           (\<exists>fm. map_of ns k = Some (File fm) \<and> can_open_write h fm)"
  shows "for_each (\<lambda>(k, b). write_file h (e k) mode k b) es v = (v, None)"
  using assms(4)
proof (induction es)
  case (Cons p es)
  obtain k b where p: "p = (k, b)" by (cases p)
  then obtain fm where "map_of (hs_body v) k = Some b" "map_of ns k = Some (File fm)" "can_open_write h fm"
    using Cons.prems by auto
  then have "write_file h (e k) mode k b v = (v, None)"
    using assms(1-3) by (simp add: write_file_again)
  moreover have "for_each (\<lambda>(k, b). write_file h (e k) mode k b) es v = (v, None)"
    using Cons.prems by (intro Cons.IH) auto
  ultimately show ?case by (simp add: p and_then_simps)
qed simp

lemma pod_ordinal_backend: "pod_ordinal (s @ ''-'' @ show_nat i) = Inr (show_nat i)"
proof -
  have "CHR ''-'' \<notin> set (rev (show_nat i))"
    by (metis digit_char_not_sign set_rev show_nat_digits)
  then have "takeWhile (\<lambda>c. c \<noteq> CHR ''-'') (rev (show_nat i) @ CHR ''-'' # rev s) = rev (show_nat i)"
    by (rule takeWhile_name)
  then show ?thesis by (simp add: pod_ordinal_def Let_def)
qed

lemma fetch_prefix_backend:
  assumes "in_pod_name inp = backend_stateful_set_name g @ ''-'' @ show_nat i" "in_pod_namespace inp = gw_ns g"
    and "gw_ns g \<noteq> []"
  shows "run_api_fetch_prefix h cl inp (gw_name g @ ''-backend-'')
    = api_fetch_secret_to_dir h cl (gw_ns g) (backend_key_secret_name g i)"
proof -
  have "in_pod_name inp \<noteq> []" using assms(1) by simp
  then show ?thesis
    using assms pod_ordinal_backend [of "backend_stateful_set_name g" i]
    by (simp add: run_api_fetch_prefix_def backend_key_secret_name_def)
qed

definition backend_init_args :: "gateway \<Rightarrow> onion_address \<Rightarrow> init_args" where
  "backend_init_args g master =
     \<lparr>a_src = [], a_dst = hs_service_dir, a_client_auth = [], a_ob_master = onion_string master,
      a_api_fetch = [], a_api_prefix = gw_name g @ ''-backend-''\<rparr>"

lemma parse_backend_args:
  "parse_init_args (ct_args (backend_init_container g master images)) = Some (backend_init_args g master)"
proof -
  let ?d = "init_flag_defaults"
  let ?d4 = "AList.update ''api-fetch-secret-prefix'' (gw_name g @ ''-backend-'')
      (AList.update ''ob-master-address'' (onion_string master)
        (AList.update ''src'' [] (AList.update ''dst'' hs_service_dir ?d)))"
  have "go_flags ?d (ct_args (backend_init_container g master images)) = Some ?d4"
    using go_flags_eq [of "''dst''" ?d hs_service_dir] go_flags_eq [of "''src''" _ "[]"]
      go_flags_eq [of "''ob-master-address''" _ "onion_string master"]
      go_flags_eq [of "''api-fetch-secret-prefix''" _ "gw_name g @ ''-backend-''"]
    by (simp add: backend_init_container_def blank_container_def init_flag_defaults_def)
  then show ?thesis
    by (simp add: parse_init_args_def flag_or_empty_def init_flag_defaults_def backend_init_args_def)
qed

lemma onion_string_flag:
  assumes "length (pub_key a) = 32"
  shows "onion_string a \<noteq> []" "ob_config_text (onion_string a) = ''MasterOnionAddress '' @ onion_string a @ [nl]"
proof -
  show "onion_string a \<noteq> []" by (metis length_onion_string [OF assms] list.size(3) zero_neq_numeral)
  have "has_suffix (onion_string a) ''.onion''"
    using onion_string_valid [OF assms] by (simp add: onion_suffix_def)
  then show "ob_config_text (onion_string a) = ''MasterOnionAddress '' @ onion_string a @ [nl]"
    using onion_string_fixed(2) [OF assms] by (simp add: ob_config_text_def with_onion_def trim_space_id)
qed

lemma backend_run:
  assumes "length (pub_key master) = 32"
    and "in_pod_name inp = backend_stateful_set_name g @ ''-'' @ show_nat i"
    and "in_pod_namespace inp = gw_ns g" "gw_ns g \<noteq> []"
  shows "init_run h cl inp (backend_init_args g master) =
    and_then (make_dir h) (and_then (api_fetch_secret_to_dir h cl (gw_ns g) (backend_key_secret_name g i))
      (and_then (fix_volume h) (write_ob_config h (onion_string master))))"
  using fetch_prefix_backend [OF assms(2-4)] onion_string_flag(1) [OF assms(1)]
  by (simp add: init_run_def backend_init_args_def hs_service_dir_def tor_hs_dir_mode_def)

lemma backend_fetch_fresh:
  assumes "benign_host h" "in_cluster cl" "client_ok cl" "ns \<noteq> []" "name \<noteq> []"
    and "secret_data cl ns name = Some es" "distinct (map fst es)"
    and v: "v = \<lparr>hs_tree = Some (Dir hidden_service_dir_mode []), hs_body = [], hs_auth = []\<rparr>"
  shows "api_fetch_secret_to_dir h cl ns name v =
    (\<lparr>hs_tree = Some (Dir hidden_service_dir_mode (key_nodes es)), hs_body = es, hs_auth = []\<rparr>, None)"
  using write_files_fresh [OF assms(1,7), of "[]" "[]"] assms
  by (simp add: api_fetch_secret_to_dir_def fetch_secret_to_dir_def and_then_simps make_dir_present key_nodes_def)

lemma backend_volume_compliant:
  assumes "benign_host h"
  shows "compliant_volume h (backend_volume h es master)"
    "compliant_volume h \<lparr>hs_tree = Some (Dir hidden_service_dir_mode (key_nodes es)), hs_body = es, hs_auth = []\<rparr>"
proof -
  have "entry_compliant (can_list h) (''ob_config'', False, masked h ob_config_mode)"
    using ob_mode_compliant by (simp add: entry_compliant_def file_secret_key_name_def public_key_max_mode_def)
  then show "compliant_volume h (backend_volume h es master)"
    using assms key_nodes_compliant
    by (simp add: compliant_volume_def backend_volume_def benign_host_def entries_modes_append)
  show "compliant_volume h \<lparr>hs_tree = Some (Dir hidden_service_dir_mode (key_nodes es)), hs_body = es, hs_auth = []\<rparr>"
    using assms key_nodes_compliant by (simp add: compliant_volume_def benign_host_def)
qed

lemma backend_run_fresh:
  assumes "benign_host h" "in_cluster cl" "client_ok cl" "length (pub_key master) = 32" "gw_ns g \<noteq> []"
    and "in_pod_name inp = backend_stateful_set_name g @ ''-'' @ show_nat i" "in_pod_namespace inp = gw_ns g"
    and "secret_data cl (gw_ns g) (backend_key_secret_name g i) = Some es"
    and "distinct (map fst es)" "''ob_config'' \<notin> fst ` set es"
  shows "init_run h cl inp (backend_init_args g master) fresh_volume = (backend_volume h es master, None)"
proof -
  let ?v1 = "\<lparr>hs_tree = Some (Dir hidden_service_dir_mode []), hs_body = [], hs_auth = []\<rparr>"
  let ?v2 = "\<lparr>hs_tree = Some (Dir hidden_service_dir_mode (key_nodes es)), hs_body = es, hs_auth = []\<rparr>"
  have mk: "make_dir h fresh_volume = (?v1, None)"
    using assms(1) by (simp add: make_dir_def fresh_volume_def benign_host_def)
  have fetch: "api_fetch_secret_to_dir h cl (gw_ns g) (backend_key_secret_name g i) ?v1 = (?v2, None)"
    using assms by (intro backend_fetch_fresh) (auto simp: backend_key_secret_name_def)
  have fixed: "fix_volume h ?v2 = (?v2, None)"
    using assms(1) by (intro fix_volume_id backend_volume_compliant(2)) (auto simp: benign_host_def)
  have none: "map_of (key_nodes es) ''ob_config'' = None" "map_of es ''ob_config'' = None"
    using assms(10) by (auto simp: key_nodes_lookup map_of_eq_None_iff)
  have "write_ob_config h (onion_string master) ?v2 = (backend_volume h es master, None)"
    using assms(1) none onion_string_flag(2) [OF assms(4)]
    by (simp add: write_ob_config_def write_file_def backend_volume_def benign_host_def update_new)
  then show ?thesis
    by (simp add: backend_run [OF assms(4,6,7,5)] and_then_def mk fetch fixed)
qed

lemma backend_rerun:
  assumes "benign_host h" "in_cluster cl" "client_ok cl" "length (pub_key master) = 32" "gw_ns g \<noteq> []"
    and "in_pod_name inp = backend_stateful_set_name g @ ''-'' @ show_nat i" "in_pod_namespace inp = gw_ns g"
    and "secret_data cl (gw_ns g) (backend_key_secret_name g i) = Some es"
    and "distinct (map fst es)" "''ob_config'' \<notin> fst ` set es"
  shows "init_run h cl inp (backend_init_args g master) (backend_volume h es master) =
    (backend_volume h es master,
     if can_open_write h (masked h ob_config_mode) then None else Some (WriteFails ''ob_config''))"
proof -
  let ?v = "backend_volume h es master"
  let ?ns = "key_nodes es @ [(''ob_config'', File (masked h ob_config_mode))]"
  have tree: "hs_tree ?v = Some (Dir hidden_service_dir_mode ?ns)" by (simp add: backend_volume_def)
  have mk: "make_dir h ?v = (?v, None)" using tree by (rule make_dir_present)
  have "map_of (hs_body ?v) k = Some b \<and> (\<exists>fm. map_of ?ns k = Some (File fm) \<and> can_open_write h fm)"
    if "(k, b) \<in> set es" for k b
  proof -
    have "map_of es k = Some b" "k \<in> fst ` set es" using assms(9) that by force+
    then show ?thesis
      using assms(1) by (simp add: backend_volume_def map_add_def key_nodes_lookup benign_host_def
          split: option.splits)
  qed
  then have "for_each (\<lambda>(k, b). write_file h (WriteFails k) secret_key_mode k b) es ?v = (?v, None)"
    using assms(1) by (intro write_files_again [OF tree]) (auto simp: benign_host_def)
  then have fetch: "api_fetch_secret_to_dir h cl (gw_ns g) (backend_key_secret_name g i) ?v = (?v, None)"
    using assms by (simp add: api_fetch_secret_to_dir_def fetch_secret_to_dir_def and_then_def mk)
      (simp add: backend_key_secret_name_def)
  have fixed: "fix_volume h ?v = (?v, None)"
    using assms(1) by (intro fix_volume_id backend_volume_compliant(1)) (auto simp: benign_host_def)
  have none: "map_of es ''ob_config'' = None" using assms(10) by (simp add: map_of_eq_None_iff)
  have "map_of ?ns ''ob_config'' = Some (File (masked h ob_config_mode))"
    "map_of (hs_body ?v) ''ob_config'' = Some (ob_config_text (onion_string master))"
    using assms(10) onion_string_flag(2) [OF assms(4)] none
    by (simp_all add: key_nodes_lookup backend_volume_def map_add_def)
  then have "write_ob_config h (onion_string master) ?v =
    (?v, if can_open_write h (masked h ob_config_mode) then None else Some (WriteFails ''ob_config''))"
    using assms(1) by (simp add: write_ob_config_def write_file_def tree benign_host_def update_same)
  then show ?thesis
    by (simp add: backend_run [OF assms(4,6,7,5)] and_then_def mk fetch fixed)
qed

text \<open>
  C36: The operator's command line and the init container agree on which key a backend runs with. In
  pod \<open>i\<close> of the backend StatefulSet, \<open>tor-init\<close> started with the arguments that
  \<open>BuildBackendStatefulSet\<close> writes reads exactly the Secret that the operator makes for index
  \<open>i\<close>, and with that Secret present it succeeds on the fresh volume: the volume holds exactly the
  Secret's entries and an \<open>ob_config\<close> line naming the master address the operator passed, and it
  passes \<open>CheckPermissions\<close>.
\<close>

theorem backend_pod_gets_own_key:
  assumes "benign_host h" "in_cluster cl" "client_ok cl" "length (pub_key master) = 32" "gw_ns g \<noteq> []"
    and "in_pod_name inp = backend_stateful_set_name g @ ''-'' @ show_nat i" "in_pod_namespace inp = gw_ns g"
    and "secret_data cl (gw_ns g) (backend_key_secret_name g i) = Some es"
    and "distinct (map fst es)" "''ob_config'' \<notin> fst ` set es"
    and "c \<in> set (pod_init (backend_pod g p master images))" "parse_init_args (ct_args c) = Some a"
  shows "\<exists>v. init_run h cl inp a fresh_volume = (v, None)
     \<and> map_of (hs_body v) = (map_of es)(''ob_config'' \<mapsto> ''MasterOnionAddress '' @ onion_string master @ [nl])
     \<and> (\<exists>t. hs_tree v = Some t \<and> check_permissions (can_list h) hs_service_dir t = Inr ())"
proof -
  have a: "a = backend_init_args g master"
    using assms(11,12) parse_backend_args by (simp add: backend_pod_def)
  have none: "map_of es ''ob_config'' = None" using assms(10) by (simp add: map_of_eq_None_iff)
  have "map_of (hs_body (backend_volume h es master)) k =
      ((map_of es)(''ob_config'' \<mapsto> ''MasterOnionAddress '' @ onion_string master @ [nl])) k" for k
    using none by (auto simp: backend_volume_def map_add_def split: option.splits)
  then show ?thesis
    using backend_run_fresh [OF assms(1-10)] backend_volume_compliant(1) [OF assms(1)] compliant_check
    unfolding a by blast
qed

definition demo_host :: host where
  "demo_host = \<lparr>umask = 0x12, can_list = (\<lambda>m. m AND 0x140 = 0x140), can_create = (\<lambda>m. m AND 0xC0 = 0xC0),
     can_open_write = (\<lambda>m. m AND 0x80 \<noteq> 0), mkdir_allowed = True, owns = (\<lambda>_. True), disk_ok = (\<lambda>_. True)\<rparr>"

lemma demo_host_benign: "benign_host demo_host" "\<not> can_open_write demo_host (masked demo_host ob_config_mode)"
  by (simp_all add: benign_host_def demo_host_def masked_def hidden_service_dir_mode_def secret_key_mode_def
      ob_config_mode_def)

definition demo_cluster :: "gateway \<Rightarrow> cluster" where
  "demo_cluster g = \<lparr>in_cluster = True, client_ok = True,
     secret_data = (\<lambda>ns n. if ns = gw_ns g \<and> n = backend_key_secret_name g 2
       then Some [(''hostname'', ''x.onion''), (''hs_ed25519_secret_key'', ''key'')] else None)\<rparr>"

definition demo_input :: "gateway \<Rightarrow> init_input" where
  "demo_input g = \<lparr>in_src = None, in_clients = None, in_pod_name = backend_stateful_set_name g @ ''-2'',
     in_pod_namespace = gw_ns g\<rparr>"

lemma show_two: "show_nat 2 = ''2''"
  by (subst show_nat.simps) (simp add: digit_char_def digit_alphabet_def)

theorem backend_pod_gets_own_key_witness:
  "\<exists>v. init_run demo_host (demo_cluster (sample_gateway ''shop'')) (demo_input (sample_gateway ''shop''))
      (backend_init_args (sample_gateway ''shop'') \<lparr>pub_key = replicate 32 0\<rparr>) fresh_volume = (v, None)
    \<and> map_of (hs_body v) ''hs_ed25519_secret_key'' = Some ''key''"
proof -
  let ?g = "sample_gateway ''shop''" and ?m = "\<lparr>pub_key = replicate 32 (0::byte)\<rparr>"
  show ?thesis
    using backend_pod_gets_own_key [OF demo_host_benign(1), of "demo_cluster ?g" ?m ?g "demo_input ?g" 2 _
        "backend_init_container ?g ?m sample_images" _ sample_images "backend_init_args ?g ?m"]
    by (auto simp: demo_cluster_def demo_input_def show_two sample_gateway_def backend_pod_def parse_backend_args)
qed

theorem init_leaves_compliant_dir_witness:
  "\<exists>v t. init_run demo_host (demo_cluster (sample_gateway ''shop'')) (demo_input (sample_gateway ''shop''))
      (backend_init_args (sample_gateway ''shop'') \<lparr>pub_key = replicate 32 0\<rparr>) fresh_volume = (v, None)
    \<and> hs_tree v = Some t \<and> check_permissions (can_list demo_host) ''/hs'' t = Inr ()"
proof -
  let ?g = "sample_gateway ''shop''" and ?m = "\<lparr>pub_key = replicate 32 (0::byte)\<rparr>"
  have "tor_hs_dir_mode (backend_init_args ?g ?m)" by (simp add: tor_hs_dir_mode_def backend_init_args_def)
  moreover obtain v where v: "init_run demo_host (demo_cluster ?g) (demo_input ?g) (backend_init_args ?g ?m) fresh_volume = (v, None)"
    using backend_run_fresh [OF demo_host_benign(1), of "demo_cluster ?g" ?m ?g "demo_input ?g" 2]
    by (auto simp: demo_cluster_def demo_input_def show_two sample_gateway_def)
  moreover have "\<And>es. in_src (demo_input ?g) = Some es \<Longrightarrow> distinct (map fst es)" by (simp add: demo_input_def)
  ultimately show ?thesis using init_leaves_compliant_dir [OF v, of "''/hs''"] v by blast
qed

text \<open>
  C37: The init container of a backend pod can only be run again by a process that may write read-only
  files. On the volume that its first run left, a second run of \<open>tor-init\<close> repeats every step without
  changing anything and then opens \<open>ob_config\<close>, which the first run made with mode 0400 and which
  \<open>FixPermissions\<close> leaves at that mode: it succeeds exactly when the process may open a file of that
  mode for writing, and otherwise the container fails on every restart.
\<close>

theorem backend_init_rerun:
  assumes "benign_host h" "in_cluster cl" "client_ok cl" "length (pub_key master) = 32" "gw_ns g \<noteq> []"
    and "in_pod_name inp = backend_stateful_set_name g @ ''-'' @ show_nat i" "in_pod_namespace inp = gw_ns g"
    and "secret_data cl (gw_ns g) (backend_key_secret_name g i) = Some es"
    and "distinct (map fst es)" "''ob_config'' \<notin> fst ` set es"
    and "init_run h cl inp (backend_init_args g master) fresh_volume = (v, None)"
  shows "init_run h cl inp (backend_init_args g master) v =
    (v, if can_open_write h (0x100 AND NOT (umask h)) then None else Some (WriteFails ''ob_config''))"
  using assms(11) backend_run_fresh [OF assms(1-10)] backend_rerun [OF assms(1-10)]
  by (simp add: masked_def ob_config_mode_def)

theorem backend_init_rerun_witness:
  "snd (init_run demo_host (demo_cluster (sample_gateway ''shop'')) (demo_input (sample_gateway ''shop''))
      (backend_init_args (sample_gateway ''shop'') \<lparr>pub_key = replicate 32 0\<rparr>)
      (backend_volume demo_host [(''hostname'', ''x.onion''), (''hs_ed25519_secret_key'', ''key'')]
        \<lparr>pub_key = replicate 32 0\<rparr>)) = Some (WriteFails ''ob_config'')"
proof -
  let ?g = "sample_gateway ''shop''" and ?m = "\<lparr>pub_key = replicate 32 (0::byte)\<rparr>"
  let ?es = "[(''hostname'', ''x.onion''), (''hs_ed25519_secret_key'', ''key'')]"
  let ?cl = "demo_cluster ?g" and ?inp = "demo_input ?g"
  have facts: "in_cluster ?cl" "client_ok ?cl" "length (pub_key ?m) = 32" "gw_ns ?g \<noteq> []"
    "in_pod_name ?inp = backend_stateful_set_name ?g @ ''-'' @ show_nat 2" "in_pod_namespace ?inp = gw_ns ?g"
    "secret_data ?cl (gw_ns ?g) (backend_key_secret_name ?g 2) = Some ?es" "distinct (map fst ?es)"
    "''ob_config'' \<notin> fst ` set ?es"
    by (simp_all add: demo_cluster_def demo_input_def show_two sample_gateway_def)
  have "\<not> can_open_write demo_host (0x100 AND NOT (umask demo_host))" by (simp add: demo_host_def)
  then show ?thesis
    using backend_init_rerun [OF demo_host_benign(1) facts backend_run_fresh [OF demo_host_benign(1) facts]]
    by simp
qed

subsection \<open>Fetching a named Secret\<close>

lemma split_ref_iff:
  "split_ref ref = Some (ns, name) \<longleftrightarrow> ref = ns @ ''/'' @ name \<and> ns \<noteq> [] \<and> CHR ''/'' \<notin> set ns \<and> name \<noteq> []"
proof
  let ?ns = "takeWhile (\<lambda>c. c \<noteq> CHR ''/'') ref"
  assume a: "split_ref ref = Some (ns, name)"
  then have slash: "CHR ''/'' \<in> set ref" and ns: "ns = ?ns" "name = drop (length ?ns + 1) ref" "ns \<noteq> []" "name \<noteq> []"
    by (auto simp: split_ref_def Let_def split: if_splits)
  have "dropWhile (\<lambda>c. c \<noteq> CHR ''/'') ref = CHR ''/'' # tl (dropWhile (\<lambda>c. c \<noteq> CHR ''/'') ref)"
    using slash by (induction ref) auto
  then have "ref = ns @ ''/'' @ tl (dropWhile (\<lambda>c. c \<noteq> CHR ''/'') ref)"
    using takeWhile_dropWhile_id [of "\<lambda>c. c \<noteq> CHR ''/''" ref] by (simp add: ns(1))
  moreover have "name = tl (dropWhile (\<lambda>c. c \<noteq> CHR ''/'') ref)"
    by (simp add: ns(2) dropWhile_eq_drop drop_Suc tl_drop)
  ultimately show "ref = ns @ ''/'' @ name \<and> ns \<noteq> [] \<and> CHR ''/'' \<notin> set ns \<and> name \<noteq> []"
    using ns set_takeWhileD [of "CHR ''/''" "\<lambda>c. c \<noteq> CHR ''/''" ref] by auto
next
  assume a: "ref = ns @ ''/'' @ name \<and> ns \<noteq> [] \<and> CHR ''/'' \<notin> set ns \<and> name \<noteq> []"
  then show "split_ref ref = Some (ns, name)"
    using takeWhile_name [of "CHR ''/''" ns name] by (simp add: split_ref_def Let_def)
qed

lemma split_ref_None: "split_ref ref = None \<longleftrightarrow>
    (\<nexists>ns name. ref = ns @ ''/'' @ name \<and> ns \<noteq> [] \<and> CHR ''/'' \<notin> set ns \<and> name \<noteq> [])"
proof -
  have "split_ref ref = None \<longleftrightarrow> (\<nexists>ns name. split_ref ref = Some (ns, name))"
    by (cases "split_ref ref") auto
  then show ?thesis by (simp only: split_ref_iff)
qed

lemma write_files_error:
  "for_each (\<lambda>(k, b). write_file h (WriteFails k) mode k b) es v = (v', Some e) \<Longrightarrow> \<exists>k \<in> fst ` set es. e = WriteFails k"
proof (induction es arbitrary: v)
  case (Cons p es)
  obtain k b where p: "p = (k, b)" by (cases p)
  obtain u x where u: "write_file h (WriteFails k) mode k b v = (u, x)" by (cases "write_file h (WriteFails k) mode k b v")
  show ?case
  proof (cases x)
    case None
    then have "for_each (\<lambda>(k, b). write_file h (WriteFails k) mode k b) es u = (v', Some e)"
      using Cons.prems u by (simp add: p and_then_def)
    from Cons.IH [OF this] show ?thesis by auto
  next
    case (Some e')
    have "e' = WriteFails k"
      using u Some by (auto simp: write_file_def split: option.splits node.splits if_splits)
    then show ?thesis using Cons.prems u Some by (simp add: p and_then_def)
  qed
qed simp

text \<open>
  Every way in which \<open>--api-fetch-secret\<close> can fail is told apart, and until the Secret has been
  read nothing is written. A value that is not \<open>NAMESPACE/NAME\<close> with both parts non-empty is refused
  as such; for any other value the errors are: no in-cluster configuration, no client, a Secret that
  cannot be read (with exactly the namespace and name of the value, split at the first slash), a
  directory that cannot be made, or the failed write of one of that Secret's entries.
\<close>

lemma api_fetch_errors:
  assumes "run_api_fetch h cl ref v = (v', Some e)"
  shows "(v' = v \<and> e = BadSecretRef ref \<and>
      (\<nexists>ns name. ref = ns @ ''/'' @ name \<and> ns \<noteq> [] \<and> CHR ''/'' \<notin> set ns \<and> name \<noteq> []))
    \<or> (\<exists>ns name. ref = ns @ ''/'' @ name \<and> ns \<noteq> [] \<and> CHR ''/'' \<notin> set ns \<and> name \<noteq> [] \<and>
        (v' = v \<and> e = NoInClusterConfig \<and> \<not> in_cluster cl
       \<or> v' = v \<and> e = NoKubeClient \<and> \<not> client_ok cl
       \<or> v' = v \<and> e = SecretUnavailable ns name \<and> secret_data cl ns name = None
       \<or> (\<exists>es. secret_data cl ns name = Some es \<and>
             (v' = v \<and> e = MkdirFails \<or> (\<exists>k \<in> fst ` set es. e = WriteFails k)))))"
proof (cases "split_ref ref")
  case None
  then have "v' = v \<and> e = BadSecretRef ref" using assms by (simp add: run_api_fetch_def)
  then show ?thesis using None [unfolded split_ref_None] by blast
next
  case (Some r)
  obtain ns name where r: "r = (ns, name)" by (cases r)
  note ref = Some [unfolded r split_ref_iff]
  have run: "api_fetch_secret_to_dir h cl ns name v = (v', Some e)"
    using assms Some by (simp add: run_api_fetch_def r)
  show ?thesis
  proof (cases "in_cluster cl \<and> client_ok cl")
    case True
    show ?thesis
    proof (cases "secret_data cl ns name")
      case (Some es)
      have "v' = v \<and> e = MkdirFails \<or> (\<exists>k \<in> fst ` set es. e = WriteFails k)"
        using run True Some ref write_files_error
        by (auto simp: api_fetch_secret_to_dir_def fetch_secret_to_dir_def and_then_def make_dir_def
            split: prod.splits option.splits node.splits if_splits)
      then show ?thesis using ref Some by blast
    qed (use run True ref in \<open>auto simp: api_fetch_secret_to_dir_def fetch_secret_to_dir_def\<close>)
  qed (use run ref in \<open>auto simp: api_fetch_secret_to_dir_def split: if_splits\<close>)
qed

end
