(* ===== verification/Httproute_Controller.thy ===== *)
theory Httproute_Controller
  imports Reference_Grants Conditions Names Router
begin

text \<open>
  \<open>internal/controller/httproute_controller.go\<close>: the reconciler that accepts HTTPRoutes, reports
  whether their backend references are permitted, and keeps the count of attached routes of each
  listener. \<open>now\<close> is the time that \<open>metav1.Now()\<close> returns.
\<close>

subsection \<open>Parent references\<close>

definition parent_ref_group_kind_is_gateway :: "parent_ref \<Rightarrow> bool" where
  "parent_ref_group_kind_is_gateway pr =
     (if pr_group pr \<noteq> None \<and> pr_group pr \<noteq> Some [] \<and> pr_group pr \<noteq> Some gateway_api_group then False
      else if pr_kind pr \<noteq> None \<and> pr_kind pr \<noteq> Some [] \<and> pr_kind pr \<noteq> Some gateway_kind then False
      else True)"

definition parent_ref_matches :: "parent_ref \<Rightarrow> string \<Rightarrow> string \<Rightarrow> string \<Rightarrow> bool" where
  "parent_ref_matches pr name ns route_ns =
     (if \<not> parent_ref_group_kind_is_gateway pr then False
      else pr_name pr = name \<and> deref route_ns (pr_namespace pr) = ns)"

text \<open>\<open>parentManagedByUs\<close>: whether the parent is a Gateway of ours, and whether the section
  exists.\<close>

definition parent_managed_by_us :: "parent_ref \<Rightarrow> string \<Rightarrow> (api_error, bool \<times> bool) act" where
  "parent_managed_by_us pr default_ns =
     (if deref gateway_api_group (pr_group pr) \<noteq> gateway_api_group \<or>
         deref gateway_kind (pr_kind pr) \<noteq> gateway_kind then okA (False, False)
      else bindP (get_obj KGateway un_gateway (deref default_ns (pr_namespace pr), pr_name pr)) (\<lambda>r.
        case r of
          Inl e \<Rightarrow> if e = NotFound then okA (False, False) else failA e
        | Inr g \<Rightarrow> bindP (get_obj KGatewayClass un_gateway_class ([], gw_class g)) (\<lambda>r.
            case r of
              Inl e \<Rightarrow> if e = NotFound then okA (False, False) else failA e
            | Inr gc \<Rightarrow>
                if gc_controller gc \<noteq> controller_name then okA (False, False)
                else case pr_section pr of
                       Some sec \<Rightarrow> okA (True, list_ex (\<lambda>l. ls_name l = sec) (gw_listeners g))
                     | None \<Rightarrow> okA (True, True))))"

subsection \<open>Backend references\<close>

definition route_from_ref :: "http_route \<Rightarrow> from_ref" where
  "route_from_ref rt =
     \<lparr>fr_group = gateway_api_group, fr_kind = ''HTTPRoute'', fr_namespace = rt_ns rt\<rparr>"

definition service_to_ref :: "string \<Rightarrow> to_ref" where
  "service_to_ref name = \<lparr>to_group = [], to_kind = ''Service'', to_name = name\<rparr>"

definition backend_ns :: "http_route \<Rightarrow> backend_ref \<Rightarrow> string" where
  "backend_ns rt b = deref (rt_ns rt) (br_namespace b)"

fun refs_permitted :: "http_route \<Rightarrow> backend_ref list \<Rightarrow> (api_error, bool) act" where
  "refs_permitted rt [] = okA True"
| "refs_permitted rt (b # bs) =
     (if backend_ns rt b = rt_ns rt then refs_permitted rt bs
      else bindA (list_objs KGrant un_grant (Some (backend_ns rt b)) []) (\<lambda>grants.
        if \<not> allows grants (route_from_ref rt) (service_to_ref (br_name b)) then okA False
        else refs_permitted rt bs))"

definition backend_refs_permitted :: "http_route \<Rightarrow> (api_error, bool) act" where
  "backend_refs_permitted rt = refs_permitted rt (concat (map hr_backends (rt_rules rt)))"

subsection \<open>Parent statuses\<close>

definition accepted_condition :: "time \<Rightarrow> http_route \<Rightarrow> bool \<Rightarrow> condition" where
  "accepted_condition now rt listener_exists =
     (let c = \<lparr>cond_type = ''Accepted'', cond_status = condition_true,
               cond_generation = rt_generation rt, cond_transition = now, cond_reason = ''Accepted'',
               cond_message = ''Route accepted by tor-gateway''\<rparr>
      in if \<not> listener_exists
         then c\<lparr>cond_status := condition_false, cond_reason := ''NoMatchingParent'',
                cond_message := ''ParentRef sectionName does not match any listener''\<rparr>
         else c)"

definition resolved_condition :: "time \<Rightarrow> http_route \<Rightarrow> bool \<Rightarrow> condition" where
  "resolved_condition now rt resolved =
     (let c = \<lparr>cond_type = ''ResolvedRefs'', cond_status = condition_true,
               cond_generation = rt_generation rt, cond_transition = now,
               cond_reason = ''ResolvedRefs'', cond_message = ''All backendRefs resolved''\<rparr>
      in if \<not> resolved
         then c\<lparr>cond_status := condition_false, cond_reason := ''RefNotPermitted'',
                cond_message :=
                  ''A cross-namespace backendRef is not permitted by any ReferenceGrant''\<rparr>
         else c)"

definition build_route_parent_statuses ::
    "time \<Rightarrow> http_route \<Rightarrow> (api_error, route_parent_status list) act" where
  "build_route_parent_statuses now rt =
     bindA (backend_refs_permitted rt) (\<lambda>resolved.
       foldA (\<lambda>pr out. bindA (parent_managed_by_us pr (rt_ns rt)) (\<lambda>(managed, listener_exists).
           if \<not> managed then okA out
           else okA (out @ [\<lparr>ps_parent = pr, ps_controller = controller_name,
                  ps_conditions = [accepted_condition now rt listener_exists,
                                   resolved_condition now rt resolved]\<rparr>])))
         (rt_parent_refs rt) [])"

definition merge_route_parent_statuses ::
    "http_route \<Rightarrow> route_parent_status list \<Rightarrow> http_route \<times> bool" where
  "merge_route_parent_statuses rt desired =
     (let kept = filter (\<lambda>p. ps_controller p \<noteq> controller_name) (rt_parents rt);
          merged = kept @ desired
      in if route_parents_equal (rt_parents rt) merged then (rt, False)
         else (rt\<lparr>rt_parents := merged\<rparr>, True))"

subsection \<open>Attached routes\<close>

definition count_incr :: "nat gomap \<Rightarrow> string \<Rightarrow> nat gomap" where
  "count_incr m k = (case map_of m k of None \<Rightarrow> m | Some n \<Rightarrow> AList.update k (Suc n) m)"

definition count_ref :: "string \<Rightarrow> string \<Rightarrow> http_route \<Rightarrow> parent_ref \<Rightarrow> nat gomap \<Rightarrow> nat gomap" where
  "count_ref name ns rt pr counts =
     (if \<not> parent_ref_matches pr name ns (rt_ns rt) then counts
      else case pr_section pr of
             Some sec \<Rightarrow> count_incr counts sec
           | None \<Rightarrow> map (\<lambda>(k, n). (k, Suc n)) counts)"

definition count_attached :: "string \<Rightarrow> string \<Rightarrow> listener list \<Rightarrow> http_route list \<Rightarrow> nat gomap" where
  "count_attached name ns listeners routes =
     fold (\<lambda>rt. fold (count_ref name ns rt) (rt_parent_refs rt)) routes
       (fold (\<lambda>l. AList.update (ls_name l) 0) listeners [])"

definition set_attached :: "nat gomap \<Rightarrow> listener_status list \<Rightarrow> listener_status list" where
  "set_attached counts =
     map (\<lambda>ls. ls\<lparr>lst_attached := (case map_of counts (lst_name ls) of None \<Rightarrow> 0 | Some n \<Rightarrow> n)\<rparr>)"

definition update_gateway_attached_routes :: "string \<Rightarrow> string \<Rightarrow> (api_error, unit) act" where
  "update_gateway_attached_routes name ns =
     bindP (get_obj KGateway un_gateway (ns, name)) (\<lambda>r. case r of
       Inl e \<Rightarrow> if e = NotFound then okA () else failA e
     | Inr g \<Rightarrow> bindA (list_objs KRoute un_route None []) (\<lambda>routes.
         let counts = count_attached name ns (gw_listeners g) routes;
             status = set_attached counts (gw_listener_status g)
         in if status = gw_listener_status g then okA ()
            else write_call (StatusUpdate (OGateway (g\<lparr>gw_listener_status := status\<rparr>)))))"

subsection \<open>The reconciler\<close>

definition httproute_reconcile :: "time \<Rightarrow> nsname \<Rightarrow> (api_error, unit) act" where
  "httproute_reconcile now key =
     bindP (get_obj KRoute un_route key) (\<lambda>r. case r of
       Inl e \<Rightarrow> if e = NotFound then okA () else failA e
     | Inr rt \<Rightarrow> bindA (build_route_parent_statuses now rt) (\<lambda>parents.
         case merge_route_parent_statuses rt parents of (rt', changed) \<Rightarrow>
           bindA (if changed then write_call (StatusUpdate (ORoute rt')) else okA ()) (\<lambda>_.
             eachA (\<lambda>p. update_gateway_attached_routes (pr_name (ps_parent p))
                 (deref (rt_ns rt) (pr_namespace (ps_parent p)))) parents)))"

text \<open>The watch on ReferenceGrants: the routes of every namespace the grant trusts, once each; a
  namespace whose routes cannot be listed is passed over.\<close>

fun routes_for_grant_froms :: "grant_from list \<Rightarrow> string list \<Rightarrow> nsname list \<Rightarrow> nsname list prog" where
  "routes_for_grant_froms [] seen reqs = Ret reqs"
| "routes_for_grant_froms (f # fs) seen reqs =
     (if gf_group f \<noteq> gateway_group \<or> gf_kind f \<noteq> ''HTTPRoute'' then routes_for_grant_froms fs seen reqs
      else if gf_namespace f \<in> set seen then routes_for_grant_froms fs seen reqs
      else bindP (list_objs KRoute un_route (Some (gf_namespace f)) []) (\<lambda>r. case r of
             Inl _ \<Rightarrow> routes_for_grant_froms fs (gf_namespace f # seen) reqs
           | Inr rts \<Rightarrow> routes_for_grant_froms fs (gf_namespace f # seen)
               (reqs @ map (\<lambda>rt. (rt_ns rt, rt_name rt)) rts)))"

definition httproutes_for_reference_grant :: "reference_grant \<Rightarrow> nsname list prog" where
  "httproutes_for_reference_grant g = routes_for_grant_froms (rg_from g) [] []"

subsection \<open>What the status says\<close>

text \<open>
  A world in which the route being reconciled is \<open>rt\<close>, the grants of each namespace are \<open>G\<close>, a Gateway read
  at a key is one of those that \<open>stored\<close> allows there (it may change between two reads), and the listing of
  all routes is \<open>routes\<close> when it succeeds; every other answer is arbitrary.
\<close>

definition route_world ::
    "(string \<Rightarrow> reference_grant list) \<Rightarrow> (nsname \<Rightarrow> gateway \<Rightarrow> bool) \<Rightarrow> http_route list \<Rightarrow>
     nsname \<Rightarrow> http_route \<Rightarrow> call \<Rightarrow> answer \<Rightarrow> bool" where
  "route_world G stored routes key rt c r \<longleftrightarrow>
     grants_are G c r \<and> (c = Get KRoute key \<longrightarrow> r = Object (ORoute rt)) \<and>
     (\<forall>k g. c = Get KGateway k \<and> r = Object (OGateway g) \<longrightarrow> stored k g) \<and>
     (c = ListObjs KRoute None [] \<longrightarrow> r = Objects (map ORoute routes) \<or> (\<exists>e. r = Failed e))"

text \<open>The routes attached to a listener: the parent references that name the Gateway and, if they name a
  section, that listener. A status entry for a listener that the Gateway no longer has counts none.\<close>

definition refs_gateway :: "nsname \<Rightarrow> http_route \<Rightarrow> parent_ref \<Rightarrow> bool" where
  "refs_gateway k rt pr \<longleftrightarrow>
     pr_group pr \<in> {None, Some [], Some ''gateway.networking.k8s.io''} \<and>
     pr_kind pr \<in> {None, Some [], Some ''Gateway''} \<and> pr_name pr = snd k \<and>
     (case pr_namespace pr of None \<Rightarrow> rt_ns rt | Some n \<Rightarrow> n) = fst k"

definition attached_routes :: "nsname \<Rightarrow> http_route list \<Rightarrow> gateway \<Rightarrow> string \<Rightarrow> nat" where
  "attached_routes k routes g l =
     (if l \<in> ls_name ` set (gw_listeners g)
      then sum_list (map (\<lambda>rt. length (filter (\<lambda>pr. refs_gateway k rt pr \<and> pr_section pr \<in> {None, Some l})
             (rt_parent_refs rt))) routes)
      else 0)"

text \<open>A Gateway with its listener counts brought up to date, and nothing else changed.\<close>

definition recounted :: "nsname \<Rightarrow> http_route list \<Rightarrow> gateway \<Rightarrow> gateway" where
  "recounted k routes g = g\<lparr>gw_listener_status :=
     map (\<lambda>s. s\<lparr>lst_attached := attached_routes k routes g (lst_name s)\<rparr>) (gw_listener_status g)\<rparr>"

lemma parent_ref_matches_iff:
  "parent_ref_matches pr (snd k) (fst k) (rt_ns rt) \<longleftrightarrow> refs_gateway k rt pr"
  by (auto simp: parent_ref_matches_def parent_ref_group_kind_is_gateway_def refs_gateway_def
      gateway_api_group_def gateway_kind_def split: option.splits)

lemma count_ref_lookup:
  "map_of (count_ref (snd k) (fst k) rt pr m) l =
     map_option (\<lambda>n. n + (if refs_gateway k rt pr \<and> pr_section pr \<in> {None, Some l} then 1 else 0)) (map_of m l)"
proof -
  have "map_of (map (\<lambda>(k, n). (k, Suc n)) m) l = map_option Suc (map_of m l)" for m :: "nat gomap"
    by (induction m) auto
  then show ?thesis
    by (auto simp: count_ref_def parent_ref_matches_iff count_incr_def update_conv' option.map_ident
        split: option.splits)
qed

lemma count_refs_lookup:
  "map_of (fold (count_ref (snd k) (fst k) rt) prs m) l =
     map_option (\<lambda>n. n + length (filter (\<lambda>pr. refs_gateway k rt pr \<and> pr_section pr \<in> {None, Some l}) prs)) (map_of m l)"
  by (induction prs arbitrary: m) (auto simp: count_ref_lookup option.map_comp o_def option.map_ident)

lemma count_routes_lookup:
  "map_of (fold (\<lambda>rt. fold (count_ref (snd k) (fst k) rt) (rt_parent_refs rt)) routes m) l =
     map_option (\<lambda>n. n + sum_list (map (\<lambda>rt. length (filter (\<lambda>pr. refs_gateway k rt pr \<and>
       pr_section pr \<in> {None, Some l}) (rt_parent_refs rt))) routes)) (map_of m l)"
  by (induction routes arbitrary: m)
    (simp_all add: count_refs_lookup option.map_comp o_def option.map_ident add.assoc)

lemma zero_counts:
  "map_of (fold (\<lambda>l. AList.update (ls_name l) (0 :: nat)) ls m) l =
     (if l \<in> ls_name ` set ls then Some 0 else map_of m l)"
  by (induction ls arbitrary: m) (auto simp: update_conv')

lemma set_attached_recounted:
  "g\<lparr>gw_listener_status := set_attached (count_attached (snd k) (fst k) (gw_listeners g) routes)
     (gw_listener_status g)\<rparr> = recounted k routes g"
  by (auto simp: recounted_def set_attached_def count_attached_def attached_routes_def count_routes_lookup
      zero_counts split: option.splits)

definition ref_permitted :: "(string \<Rightarrow> reference_grant list) \<Rightarrow> http_route \<Rightarrow> backend_ref \<Rightarrow> bool" where
  "ref_permitted G rt b \<longleftrightarrow>
     backend_ns rt b = rt_ns rt \<or>
     allows (G (backend_ns rt b)) (route_from_ref rt) (service_to_ref (br_name b))"

definition route_refs_permitted :: "(string \<Rightarrow> reference_grant list) \<Rightarrow> http_route \<Rightarrow> bool" where
  "route_refs_permitted G rt \<longleftrightarrow>
     list_all (ref_permitted G rt) (concat (map hr_backends (rt_rules rt)))"

text \<open>An entry of ours: for one of the route's parents, a Gateway, with the two conditions.\<close>

definition own_status :: "time \<Rightarrow> http_route \<Rightarrow> bool \<Rightarrow> route_parent_status \<Rightarrow> bool" where
  "own_status now rt permitted p \<longleftrightarrow>
     ps_controller p = controller_name \<and> ps_parent p \<in> set (rt_parent_refs rt) \<and>
     pr_group (ps_parent p) \<in> {None, Some ''gateway.networking.k8s.io''} \<and>
     pr_kind (ps_parent p) \<in> {None, Some ''Gateway''} \<and>
     (\<exists>le. ps_conditions p = [accepted_condition now rt le, resolved_condition now rt permitted])"

definition written_status ::
    "(string \<Rightarrow> reference_grant list) \<Rightarrow> time \<Rightarrow> http_route \<Rightarrow> http_route \<Rightarrow> bool" where
  "written_status G now rt rt' \<longleftrightarrow>
     (\<exists>ps. rt' = rt\<lparr>rt_parents :=
          filter (\<lambda>p. ps_controller p \<noteq> controller_name) (rt_parents rt) @ ps\<rparr>
        \<and> list_all (own_status now rt (route_refs_permitted G rt)) ps)"

lemma always_refs_permitted:
  assumes "\<And>c r. E c r \<Longrightarrow> grants_are G c r" "\<And>c. is_read c \<Longrightarrow> P c"
  shows "always E P (\<lambda>r. r = Inr (list_all (ref_permitted G rt) bs)) (refs_permitted rt bs)"
proof (induction bs)
  case (Cons b bs)
  have l: "r = Objects (map OGrant (G ns))" if "E (ListObjs KGrant (Some ns) []) r" for ns r
    using assms(1) [OF that] by (simp add: grants_are_def)
  show ?case
    using Cons assms(2)
    by (auto simp: list_objs_def ref_permitted_def dest!: l)
qed simp

lemma reads_parent_managed:
  assumes "\<And>c. is_read c \<Longrightarrow> P c"
  shows "always E P (\<lambda>r. case r of Inr (True, _) \<Rightarrow> pr_group pr \<in> {None, Some ''gateway.networking.k8s.io''} \<and>
      pr_kind pr \<in> {None, Some ''Gateway''} | _ \<Rightarrow> True) (parent_managed_by_us pr ns)"
  by (cases "pr_group pr"; cases "pr_kind pr")
    (auto simp: parent_managed_by_us_def get_obj_def gateway_api_group_def gateway_kind_def assms
      split: sum.splits option.splits)

lemma always_build_statuses:
  assumes E: "\<And>c r. E c r \<Longrightarrow> grants_are G c r" and P: "\<And>c. is_read c \<Longrightarrow> P c"
  shows "always E P
    (\<lambda>r. case r of Inl _ \<Rightarrow> True | Inr ps \<Rightarrow> list_all (own_status now rt (route_refs_permitted G rt)) ps)
    (build_route_parent_statuses now rt)"
proof -
  let ?perm = "route_refs_permitted G rt"
  let ?I = "\<lambda>ps. list_all (own_status now rt ?perm) ps"
  let ?body = "\<lambda>pr out. bindA (parent_managed_by_us pr (rt_ns rt)) (\<lambda>(managed, listener_exists).
      if \<not> managed then okA out
      else okA (out @ [\<lparr>ps_parent = pr, ps_controller = controller_name,
             ps_conditions = [accepted_condition now rt listener_exists,
                              resolved_condition now rt ?perm]\<rparr>]))"
  have "always E P (\<lambda>r. case r of Inl _ \<Rightarrow> True | Inr ps \<Rightarrow> ?I ps)
      (foldA ?body (rt_parent_refs rt) [])"
  proof (rule always_foldA [where I = ?I])
    fix pr out assume pr: "pr \<in> set (rt_parent_refs rt)" "?I out"
    from reads_parent_managed [OF P, where E = E and pr = pr and ns = "rt_ns rt"]
    show "always E P (\<lambda>r. case r of Inl e \<Rightarrow> case Inl e of Inl _ \<Rightarrow> True | Inr ps \<Rightarrow> ?I ps
        | Inr a' \<Rightarrow> ?I a') (?body pr out)"
      unfolding always_bindA
      by (rule always_mono) (use pr in \<open>auto simp: own_status_def split: sum.splits\<close>)
  qed simp_all
  moreover have "always E P (\<lambda>r. r = Inr ?perm) (backend_refs_permitted rt)"
    unfolding backend_refs_permitted_def route_refs_permitted_def
    by (rule always_refs_permitted [OF E P])
  ultimately show ?thesis
    unfolding build_route_parent_statuses_def always_bindA
    by (elim always_mono) auto
qed

lemma reads_update_attached:
  assumes "\<And>c r. E c r \<Longrightarrow> route_world G stored routes key rt c r" "\<And>c. is_read c \<Longrightarrow> P c"
    and "\<And>g. stored (ns, name) g \<Longrightarrow> recounted (ns, name) routes g \<noteq> g \<Longrightarrow>
      P (StatusUpdate (OGateway (recounted (ns, name) routes g)))"
  shows "always E P (\<lambda>_. True) (update_gateway_attached_routes name ns)"
proof -
  have g: "stored (ns, name) g" if "E (Get KGateway (ns, name)) (Object ob)" "un_gateway ob = Some g" for ob g
    using assms(1) [OF that(1)] that(2) by (auto simp: route_world_def un_gateway_def split: obj.splits)
  have un: "those (map (un_route \<circ> ORoute) routes) = Some routes"
    using those_map_un [of un_route ORoute routes] by (simp add: un_route_def)
  have l: "rts = routes" if "E (ListObjs KRoute None []) r" "decode_list un_route r = Inr rts" for r rts
    using assms(1) [OF that(1)] that(2)
    by (auto simp: route_world_def decode_list_def un)
  have w: "P (StatusUpdate (OGateway (g\<lparr>gw_listener_status := st\<rparr>)))"
    if "stored (ns, name) g" "st = set_attached (count_attached name ns (gw_listeners g) routes) (gw_listener_status g)"
      "st \<noteq> gw_listener_status g" for g st
  proof -
    have e: "g\<lparr>gw_listener_status := st\<rparr> = recounted (ns, name) routes g"
      using set_attached_recounted [where g = g and k = "(ns, name)" and routes = routes] that(2) by simp
    moreover have "g\<lparr>gw_listener_status := st\<rparr> \<noteq> g"
      using that(3) by (metis gateway.select_convs gateway.surjective gateway.update_convs)
    ultimately show ?thesis using assms(3) [OF that(1)] by simp
  qed
  show ?thesis
    by (auto simp: update_gateway_attached_routes_def get_obj_def list_objs_def write_call_def Let_def
        assms(2) dest!: g l intro: w split: sum.splits option.splits answer.splits)
qed


end
