(* ===== verification/Network_Policy.thy ===== *)
theory Network_Policy
  imports Resources Httproute_Controller "HOL-Library.Product_Lexorder"
begin

text \<open>
  \<open>internal/controller/network_policy.go\<close> and \<open>network_policy_resolve.go\<close>: the egress policy of a
  Gateway's pods, and how the backends that its routes refer to are resolved. Iterating over a Go
  map is an arbitrary reordering, the argument \<open>order\<close>. The theorems say which peers the pods can
  reach.
\<close>

record resolved_backend =
  rb_namespace :: string
  rb_pod_selector :: "string gomap"
  rb_target_port :: int_or_string
  rb_protocol :: string

subsection \<open>Rules\<close>

definition namespace_labels :: "string \<Rightarrow> string gomap" where
  "namespace_labels ns = [(''kubernetes.io/metadata.name'', ns)]"

definition port_of :: "string \<Rightarrow> int \<Rightarrow> policy_port" where
  "port_of proto p = \<lparr>pp_protocol = proto, pp_port = IntPort p, pp_end_port = None\<rparr>"

definition dns_egress :: egress_rule where
  "dns_egress = \<lparr>eg_to = [NamespacePeer (namespace_labels ''kube-system'')],
     eg_ports = [port_of ''UDP'' 53, port_of ''TCP'' 53]\<rparr>"

definition apiserver_egress :: egress_rule where
  "apiserver_egress = \<lparr>eg_to = [NamespacePeer (namespace_labels ''kube-system'')],
     eg_ports = [port_of ''TCP'' 6443, port_of ''TCP'' 443]\<rparr>"

definition public_internet_egress :: "string list \<Rightarrow> egress_rule" where
  "public_internet_egress cidrs = \<lparr>eg_to = [IpBlockPeer ''0.0.0.0/0'' cidrs], eg_ports = []\<rparr>"

definition chutney_pod_label :: string where "chutney_pod_label = ''chutney''"
definition chutney_or_ports :: "int \<times> int" where "chutney_or_ports = (5000, 5005)"
definition chutney_dir_ports :: "int \<times> int" where "chutney_dir_ports = (7000, 7005)"

definition port_range :: "int \<times> int \<Rightarrow> policy_port" where
  "port_range r = \<lparr>pp_protocol = ''TCP'', pp_port = IntPort (fst r), pp_end_port = Some (snd r)\<rparr>"

definition testing_network_egress :: "string \<Rightarrow> egress_rule" where
  "testing_network_egress ns =
     \<lparr>eg_to = [PodPeer (namespace_labels ns) [(''app'', chutney_pod_label)]],
      eg_ports = [port_range chutney_or_ports, port_range chutney_dir_ports]\<rparr>"

definition backend_egress :: "resolved_backend \<Rightarrow> egress_rule" where
  "backend_egress b =
     \<lparr>eg_to = [PodPeer (namespace_labels (rb_namespace b)) (rb_pod_selector b)],
      eg_ports = [\<lparr>pp_protocol = rb_protocol b, pp_port = rb_target_port b, pp_end_port = None\<rparr>]\<rparr>"

definition first_label_key :: "string gomap \<Rightarrow> string" where
  "first_label_key m = (case sort (map fst m) of [] \<Rightarrow> [] | k # _ \<Rightarrow> k)"

text \<open>The stable sort by namespace, then port, then first label key.\<close>

definition backend_sort_key :: "resolved_backend \<Rightarrow> string \<times> string \<times> string" where
  "backend_sort_key b = (rb_namespace b, port_string (rb_target_port b), first_label_key (rb_pod_selector b))"

definition final_egress :: "string list \<Rightarrow> string \<Rightarrow> egress_rule" where
  "final_egress cidrs testing_ns =
     (if testing_ns \<noteq> [] then testing_network_egress testing_ns else public_internet_egress cidrs)"

definition build_network_policy ::
    "gateway \<Rightarrow> resolved_backend list \<Rightarrow> string list \<Rightarrow> string \<Rightarrow> (string, network_policy) result" where
  "build_network_policy g backends cidrs testing_ns =
     (case filter (\<lambda>b. rb_pod_selector b = []) backends of
        b # _ \<Rightarrow> Inl (rb_namespace b)
      | [] \<Rightarrow> Inr
          \<lparr>np_meta = child_meta g (network_policy_name (gw_name g)) (child_labels (gw_name g)),
           np_pod_selector = child_labels (gw_name g), np_policy_types = [''Egress''],
           np_egress = [dns_egress, apiserver_egress] @
             map backend_egress (sort_key backend_sort_key backends) @ [final_egress cidrs testing_ns]\<rparr>)"

subsection \<open>Resolving backends\<close>

text \<open>The first port of the Service with the requested number; a zero target port means the same
  port, an empty protocol TCP.\<close>

definition resolve_target_port :: "service \<Rightarrow> int \<Rightarrow> (int_or_string \<times> string) option" where
  "resolve_target_port svc requested =
     (case find (\<lambda>p. svp_port p = requested) (svc_ports svc) of
        None \<Rightarrow> None
      | Some p \<Rightarrow> Some
          (if svp_target p = IntPort 0 then IntPort (svp_port p) else svp_target p,
           if svp_protocol p = [] then ''TCP'' else svp_protocol p))"

type_synonym grant_cache = "reference_grant list gomap"

definition grants_in :: "string \<Rightarrow> grant_cache \<Rightarrow> (api_error, reference_grant list \<times> grant_cache) act" where
  "grants_in ns cache =
     (case map_of cache ns of
        Some v \<Rightarrow> okA (v, cache)
      | None \<Rightarrow> bindA (list_objs KGrant un_grant (Some ns) []) (\<lambda>gs.
          okA (gs, AList.update ns gs cache)))"

type_synonym resolve_state = "(nsname \<times> resolved_backend) list \<times> grant_cache"

definition read_backend ::
    "string \<Rightarrow> backend_ref \<Rightarrow> resolve_state \<Rightarrow> (api_error, resolve_state) act" where
  "read_backend ns ref st =
     (let name = br_name ref; port = deref 0 (br_port ref) in
      bindP (get_obj KService un_service (ns, name)) (\<lambda>r. case r of
        Inl e \<Rightarrow> if e = NotFound then okA st else failA e
      | Inr svc \<Rightarrow>
          if svc_selector svc = [] then okA st
          else (case resolve_target_port svc port of
            None \<Rightarrow> okA st
          | Some (target, proto) \<Rightarrow> okA
              (AList.update (ns, name) \<lparr>rb_namespace = ns, rb_pod_selector = svc_selector svc,
                 rb_target_port = target, rb_protocol = proto\<rparr> (fst st), snd st))))"

definition resolve_backend ::
    "http_route \<Rightarrow> backend_ref \<Rightarrow> resolve_state \<Rightarrow> (api_error, resolve_state) act" where
  "resolve_backend rt ref st =
     (let ns = backend_ns rt ref in
      if ns \<noteq> rt_ns rt then
        bindA (grants_in ns (snd st)) (\<lambda>(grants, cache).
          if \<not> allows grants (route_from_ref rt) (service_to_ref (br_name ref)) then okA (fst st, cache)
          else read_backend ns ref (fst st, cache))
      else read_backend ns ref st)"

definition route_backend_refs :: "http_route list \<Rightarrow> (http_route \<times> backend_ref) list" where
  "route_backend_refs routes =
     concat (map (\<lambda>rt. map (Pair rt) (concat (map hr_backends (rt_rules rt)))) routes)"

definition resolve_backends ::
    "(resolved_backend list \<Rightarrow> resolved_backend list) \<Rightarrow> http_route list \<Rightarrow>
     (api_error, resolved_backend list) act" where
  "resolve_backends order routes =
     bindA (foldA (\<lambda>(rt, ref) st. resolve_backend rt ref st) (route_backend_refs routes) ([], []))
       (\<lambda>st. okA (order (map snd (fst st))))"

subsection \<open>What is resolved\<close>

text \<open>The entry that a reference gives, in a cluster with given grants and Services.\<close>

definition wanted_backend ::
    "(string \<Rightarrow> reference_grant list) \<Rightarrow> (kind \<Rightarrow> nsname \<Rightarrow> answer) \<Rightarrow> http_route \<Rightarrow> backend_ref \<Rightarrow>
     resolved_backend option" where
  "wanted_backend G S rt ref =
     (if \<not> ref_permitted G rt ref then None
      else case S KService (backend_ns rt ref, br_name ref) of
        Object (OService svc) \<Rightarrow>
          if svc_selector svc = [] then None
          else map_option (\<lambda>(target, proto).
             \<lparr>rb_namespace = backend_ns rt ref, rb_pod_selector = svc_selector svc,
              rb_target_port = target, rb_protocol = proto\<rparr>)
            (resolve_target_port svc (deref 0 (br_port ref)))
      | _ \<Rightarrow> None)"

text \<open>Later references to the same Service replace earlier ones.\<close>

definition add_wanted ::
    "(string \<Rightarrow> reference_grant list) \<Rightarrow> (kind \<Rightarrow> nsname \<Rightarrow> answer) \<Rightarrow> http_route \<times> backend_ref \<Rightarrow>
     (nsname \<times> resolved_backend) list \<Rightarrow> (nsname \<times> resolved_backend) list" where
  "add_wanted G S x seen =
     (case x of (rt, ref) \<Rightarrow>
       (case wanted_backend G S rt ref of
          None \<Rightarrow> seen
        | Some b \<Rightarrow> AList.update (backend_ns rt ref, br_name ref) b seen))"

definition wanted_backends ::
    "(string \<Rightarrow> reference_grant list) \<Rightarrow> (kind \<Rightarrow> nsname \<Rightarrow> answer) \<Rightarrow> http_route list \<Rightarrow>
     (nsname \<times> resolved_backend) list" where
  "wanted_backends G S routes = fold (add_wanted G S) (route_backend_refs routes) []"

definition cache_ok :: "(string \<Rightarrow> reference_grant list) \<Rightarrow> grant_cache \<Rightarrow> bool" where
  "cache_ok G cache \<longleftrightarrow> (\<forall>ns v. map_of cache ns = Some v \<longrightarrow> v = G ns)"

definition netpol_world ::
    "(string \<Rightarrow> reference_grant list) \<Rightarrow> (kind \<Rightarrow> nsname \<Rightarrow> answer) \<Rightarrow> call \<Rightarrow> answer \<Rightarrow> bool" where
  "netpol_world G S c r \<longleftrightarrow> grants_are G c r \<and> snapshot S c r"

lemma always_read_backend:
  assumes E: "\<And>c r. E c r \<Longrightarrow> netpol_world G S c r" and P: "\<And>c. is_read c \<Longrightarrow> P c"
    and permitted: "ref_permitted G rt ref"
  shows "always E P (\<lambda>r. case r of Inl _ \<Rightarrow> True | Inr st' \<Rightarrow>
      fst st' = add_wanted G S (rt, ref) (fst st) \<and> snd st' = snd st)
      (read_backend (backend_ns rt ref) ref st)"
  unfolding read_backend_def Let_def always_bindP
  by (rule always_get_snapshot [where S = S])
    (use E permitted in \<open>auto simp: P netpol_world_def add_wanted_def wanted_backend_def un_service_def
      split: answer.splits obj.splits option.splits\<close>)

lemma always_grants_in:
  assumes E: "\<And>c r. E c r \<Longrightarrow> netpol_world G S c r" and P: "\<And>c. is_read c \<Longrightarrow> P c"
    and "cache_ok G cache"
  shows "always E P (\<lambda>r. case r of Inl _ \<Rightarrow> True | Inr (gs, cache') \<Rightarrow> gs = G ns \<and> cache_ok G cache')
      (grants_in ns cache)"
proof (cases "map_of cache ns")
  case None
  have g: "r = Objects (map OGrant (G ns))" if "E (ListObjs KGrant (Some ns) []) r" for r
    using E [OF that] by (simp add: netpol_world_def grants_are_def)
  have "cache_ok G (AList.update ns (G ns) cache)"
    using assms(3) by (auto simp: cache_ok_def update_conv')
  with None P show ?thesis
    by (auto simp: grants_in_def list_objs_def dest!: g)
qed (use assms(3) in \<open>auto simp: grants_in_def cache_ok_def\<close>)

lemma always_resolve_backend:
  assumes E: "\<And>c r. E c r \<Longrightarrow> netpol_world G S c r" and P: "\<And>c. is_read c \<Longrightarrow> P c"
    and ok: "cache_ok G (snd st)"
  shows "always E P (\<lambda>r. case r of Inl _ \<Rightarrow> True | Inr st' \<Rightarrow>
      fst st' = add_wanted G S (rt, ref) (fst st) \<and> cache_ok G (snd st')) (resolve_backend rt ref st)"
proof (cases "backend_ns rt ref = rt_ns rt")
  case True
  then have "ref_permitted G rt ref" by (simp add: ref_permitted_def)
  have "always E P (\<lambda>r. case r of Inl _ \<Rightarrow> True | Inr st' \<Rightarrow>
      fst st' = add_wanted G S (rt, ref) (fst st) \<and> cache_ok G (snd st'))
      (read_backend (backend_ns rt ref) ref st)"
    by (rule always_mono [OF always_read_backend [OF E P \<open>ref_permitted G rt ref\<close>]])
      (use ok in \<open>auto split: sum.splits\<close>)
  with True show ?thesis by (simp add: resolve_backend_def Let_def)
next
  case False
  have rest: "always E P (\<lambda>r. case r of Inl _ \<Rightarrow> True | Inr st' \<Rightarrow>
      fst st' = add_wanted G S (rt, ref) (fst st) \<and> cache_ok G (snd st'))
      (if \<not> allows (G (backend_ns rt ref)) (route_from_ref rt) (service_to_ref (br_name ref))
       then okA (fst st, cache) else read_backend (backend_ns rt ref) ref (fst st, cache))"
    if "cache_ok G cache" for cache
  proof (cases "ref_permitted G rt ref")
    case True
    have "always E P (\<lambda>r. case r of Inl _ \<Rightarrow> True | Inr st' \<Rightarrow>
        fst st' = add_wanted G S (rt, ref) (fst st) \<and> cache_ok G (snd st'))
        (read_backend (backend_ns rt ref) ref (fst st, cache))"
      by (rule always_mono [OF always_read_backend [OF E P True]])
        (use that in \<open>auto split: sum.splits\<close>)
    with True False show ?thesis by (simp add: ref_permitted_def)
  qed (use False that in \<open>auto simp: ref_permitted_def add_wanted_def wanted_backend_def\<close>)
  have "resolve_backend rt ref st = bindA (grants_in (backend_ns rt ref) (snd st)) (\<lambda>(grants, cache).
      if \<not> allows grants (route_from_ref rt) (service_to_ref (br_name ref)) then okA (fst st, cache)
      else read_backend (backend_ns rt ref) ref (fst st, cache))"
    using False by (simp add: resolve_backend_def Let_def)
  moreover define Q where "Q = (\<lambda>r :: (api_error, resolve_state) result. case r of Inl _ \<Rightarrow> True | Inr st' \<Rightarrow>
      fst st' = add_wanted G S (rt, ref) (fst st) \<and> cache_ok G (snd st'))"
  ultimately have "always E P Q (resolve_backend rt ref st)"
    using rest [folded Q_def]
    by (simp only: always_bindA, intro always_mono [OF always_grants_in [OF E P ok]])
      (auto simp: Q_def [THEN fun_cong, of "Inl _"] split: sum.splits)
  then show ?thesis by (simp add: Q_def)
qed

lemma always_resolve_backends:
  assumes E: "\<And>c r. E c r \<Longrightarrow> netpol_world G S c r" and P: "\<And>c. is_read c \<Longrightarrow> P c"
  shows "always E P (\<lambda>r. case r of Inl _ \<Rightarrow> True
      | Inr bs \<Rightarrow> bs = order (map snd (wanted_backends G S routes))) (resolve_backends order routes)"
proof -
  have "always E P (\<lambda>r. case r of Inl _ \<Rightarrow> True
      | Inr st' \<Rightarrow> fst st' = fold (add_wanted G S) xs (fst st) \<and> cache_ok G (snd st'))
      (foldA (\<lambda>(rt, ref) st. resolve_backend rt ref st) xs st)" if "cache_ok G (snd st)" for xs st
    using that
  proof (induction xs arbitrary: st)
    case (Cons x xs)
    obtain rt ref where x: "x = (rt, ref)" by (cases x)
    show ?case
      unfolding foldA.simps always_bindA x prod.case
      by (rule always_mono [OF always_resolve_backend [OF E P Cons.prems]])
        (use Cons.IH in \<open>auto simp del: split_paired_All split: sum.splits\<close>)
  qed simp
  from this [of "([], [])" "route_backend_refs routes"]
  show ?thesis
    unfolding resolve_backends_def always_bindA
    by (auto simp: wanted_backends_def cache_ok_def elim!: always_mono split: sum.splits)
qed

lemma in_alist_update: "(k, b) \<in> set (AList.update k' v al) \<Longrightarrow> k = k' \<and> b = v \<or> (k, b) \<in> set al"
  by (induction al) (auto split: if_splits)

lemma wanted_sound:
  "(k, b) \<in> set (fold (add_wanted G S) xs acc) \<Longrightarrow> (k, b) \<in> set acc \<or>
     (\<exists>rt ref. (rt, ref) \<in> set xs \<and> wanted_backend G S rt ref = Some b)"
proof (induction xs arbitrary: acc)
  case (Cons x xs)
  obtain rt ref where x: "x = (rt, ref)" by (cases x)
  have "(k, b) \<in> set acc \<or> wanted_backend G S rt ref = Some b" if "(k, b) \<in> set (add_wanted G S x acc)"
    using that by (auto simp: add_wanted_def x dest!: in_alist_update split: option.splits)
  with Cons.IH [of "add_wanted G S x acc"] Cons.prems x show ?case by fastforce
qed simp

text \<open>A Service gives one namespace and one selector, whatever the port.\<close>

definition service_peer :: "(kind \<Rightarrow> nsname \<Rightarrow> answer) \<Rightarrow> nsname \<Rightarrow> resolved_backend \<Rightarrow> bool" where
  "service_peer S k b \<longleftrightarrow> (\<exists>svc. S KService k = Object (OService svc) \<and>
     rb_namespace b = fst k \<and> rb_pod_selector b = svc_selector svc \<and> svc_selector svc \<noteq> [])"

lemma wanted_backend_peer:
  "wanted_backend G S rt ref = Some b \<Longrightarrow> service_peer S (backend_ns rt ref, br_name ref) b"
  by (auto simp: wanted_backend_def service_peer_def split: if_splits answer.splits obj.splits)

lemma service_peer_unique:
  "service_peer S k b \<Longrightarrow> service_peer S k b' \<Longrightarrow>
     rb_namespace b' = rb_namespace b \<and> rb_pod_selector b' = rb_pod_selector b"
  by (auto simp: service_peer_def)

lemma wanted_complete:
  "list_all (\<lambda>(k, b). service_peer S k b) acc \<Longrightarrow>
   list_all (\<lambda>(k, b). service_peer S k b) (fold (add_wanted G S) xs acc) \<and>
   dom (map_of (fold (add_wanted G S) xs acc)) =
     dom (map_of acc) \<union> {(backend_ns rt ref, br_name ref) | rt ref. (rt, ref) \<in> set xs \<and>
       wanted_backend G S rt ref \<noteq> None}"
proof (induction xs arbitrary: acc)
  case (Cons x xs)
  obtain rt ref where x: "x = (rt, ref)" by (cases x)
  have "list_all (\<lambda>(k, b). service_peer S k b) (add_wanted G S x acc)"
    using Cons.prems
    by (auto simp: add_wanted_def x list_all_iff dest!: in_alist_update dest: wanted_backend_peer
        split: option.splits)
  moreover have "dom (map_of (add_wanted G S x acc)) = dom (map_of acc) \<union>
      (if wanted_backend G S rt ref = None then {} else {(backend_ns rt ref, br_name ref)})"
    by (auto simp: add_wanted_def x update_conv' split: option.splits)
  ultimately show ?case
    using Cons.IH [of "add_wanted G S x acc"] by (auto simp: x)
qed auto

lemma wanted_backends_peers:
  assumes "(rt, ref) \<in> set (route_backend_refs routes)" "wanted_backend G S rt ref = Some b"
  shows "\<exists>b' \<in> snd ` set (wanted_backends G S routes).
     rb_namespace b' = rb_namespace b \<and> rb_pod_selector b' = rb_pod_selector b"
proof -
  let ?w = "wanted_backends G S routes" and ?k = "(backend_ns rt ref, br_name ref)"
  have w: "list_all (\<lambda>(k, b). service_peer S k b) ?w" "?k \<in> dom (map_of ?w)"
    using wanted_complete [of S "[]" G "route_backend_refs routes"] assms
    by (auto simp: wanted_backends_def)
  then obtain b' where "map_of ?w ?k = Some b'" by auto
  then have "(?k, b') \<in> set ?w" by (rule map_of_SomeD)
  moreover from this w(1) have "service_peer S ?k b'" by (auto simp: list_all_iff)
  ultimately show ?thesis
    using service_peer_unique [OF wanted_backend_peer [OF assms(2)]] by force
qed

lemma wanted_backends_nonempty:
  "b \<in> snd ` set (wanted_backends G S routes) \<Longrightarrow> rb_pod_selector b \<noteq> []"
  using wanted_complete [of S "[]" G "route_backend_refs routes"]
  by (auto simp: wanted_backends_def list_all_iff service_peer_def)

lemma build_network_policy_wanted:
  assumes "mset (order (map snd (wanted_backends G S routes))) = mset (map snd (wanted_backends G S routes))"
  shows "\<exists>np. build_network_policy g (order (map snd (wanted_backends G S routes))) cidrs tns = Inr np \<and>
     np_pod_selector np = child_labels (gw_name g) \<and> np_policy_types np = [''Egress''] \<and>
     np_meta np = child_meta g (network_policy_name (gw_name g)) (child_labels (gw_name g)) \<and>
     set (np_egress np) = {dns_egress, apiserver_egress, final_egress cidrs tns} \<union>
       backend_egress ` snd ` set (wanted_backends G S routes)"
proof -
  have "set (order (map snd (wanted_backends G S routes))) = snd ` set (wanted_backends G S routes)"
    using mset_eq_setD [OF assms] by simp
  moreover from this wanted_backends_nonempty have
    "filter (\<lambda>b. rb_pod_selector b = []) (order (map snd (wanted_backends G S routes))) = []"
    by (auto simp: filter_empty_conv)
  ultimately show ?thesis
    by (auto simp: build_network_policy_def)
qed

end
