(* ===== verification/Vanity.thy ===== *)
theory Vanity
  imports Resources
begin

text \<open>
  \<open>internal/tor/vanity.go\<close> and \<open>internal/controller/vanity_resources.go\<close>: the Job that searches for a
  key with a wanted address prefix, and the account, role and output Secret it runs with.
\<close>

subsection \<open>The Job\<close>

record vanity_job_config =
  vj_job_name :: string
  vj_namespace :: string
  vj_prefix :: string
  vj_output_secret :: string
  vj_service_account :: string
  vj_mkp224o_image :: string
  vj_finalize_image :: string
  vj_active_deadline :: int
  vj_labels :: "string gomap"
  vj_annotations :: "string gomap"
  vj_resources :: resource_requirements

datatype vanity_error =
    NamesMissing | InvalidPrefix string | OutputSecretMissing | ServiceAccountMissing | VanityImagesMissing

text \<open>The pattern \<open>^[a-z2-7]{1,8}$\<close>; without the multi-line flag the end is the end of the text.\<close>

definition base32_char :: "char \<Rightarrow> bool" where
  "base32_char c \<longleftrightarrow> c \<in> set ''abcdefghijklmnopqrstuvwxyz234567''"

definition vanity_prefix_ok :: "string \<Rightarrow> bool" where
  "vanity_prefix_ok p \<longleftrightarrow> 1 \<le> length p \<and> length p \<le> 8 \<and> list_all base32_char p"

definition nano_second :: int where "nano_second = 1000000000"

text \<open>A duration of at most zero means one hour; \<open>int64(d.Seconds())\<close> truncates.\<close>

definition deadline_seconds :: "int \<Rightarrow> int" where
  "deadline_seconds d = (if d \<le> 0 then 3600 else d div nano_second)"

text \<open>A list without a CPU entry, or with a zero one, counts as absent.\<close>

definition cpu_is_zero :: "string gomap \<Rightarrow> bool" where
  "cpu_is_zero m \<longleftrightarrow> map_index m ''cpu'' \<in> {[], ''0''}"

definition vanity_resources :: "resource_requirements \<Rightarrow> resource_requirements" where
  "vanity_resources r =
     \<lparr>rq_requests = (if cpu_is_zero (rq_requests r) then [(''cpu'', ''500m''), (''memory'', ''128Mi'')]
        else rq_requests r),
      rq_limits = (if cpu_is_zero (rq_limits r) then [(''cpu'', ''2''), (''memory'', ''256Mi'')]
        else rq_limits r)\<rparr>"

text \<open>\<open>maps.Copy\<close> over a base: later entries win.\<close>

definition merge_labels :: "string gomap \<Rightarrow> string gomap \<Rightarrow> string gomap" where
  "merge_labels base extra = fold (\<lambda>(k, v). AList.update k v) extra base"

definition vanity_workdir :: string where "vanity_workdir = ''/workdir''"

definition vanity_pod :: "vanity_job_config \<Rightarrow> pod_spec" where
  "vanity_pod cfg =
     \<lparr>pod_service_account = vj_service_account cfg, pod_share_process = False,
      pod_restart_policy = ''Never'', pod_security = pod_hardening,
      pod_volumes = [\<lparr>vol_name = ''workdir'', vol_source = EmptyDirVolume\<rparr>],
      pod_init = [(blank_container ''mkp224o'' (vj_mkp224o_image cfg))
        \<lparr>ct_pull_policy := ''IfNotPresent'',
         ct_args := [''-d'', vanity_workdir, ''-n'', ''1'', ''-q'', vj_prefix cfg],
         ct_resources := vanity_resources (vj_resources cfg),
         ct_security := Some container_hardening,
         ct_mounts := [mount_rw ''workdir'' vanity_workdir]\<rparr>],
      pod_containers = [(blank_container ''finalize'' (vj_finalize_image cfg))
        \<lparr>ct_pull_policy := ''IfNotPresent'',
         ct_args := [''--workdir'', vanity_workdir, ''--namespace'', vj_namespace cfg,
           ''--secret-name'', vj_output_secret cfg],
         ct_security := Some container_hardening,
         ct_mounts := [mount_ro ''workdir'' vanity_workdir]\<rparr>],
      pod_spread = []\<rparr>"

definition vanity_job :: "vanity_job_config \<Rightarrow> (vanity_error, job) result" where
  "vanity_job cfg =
     guardE (vj_job_name cfg = [] \<or> vj_namespace cfg = []) NamesMissing
    (guardE (\<not> vanity_prefix_ok (vj_prefix cfg)) (InvalidPrefix (vj_prefix cfg))
    (guardE (vj_output_secret cfg = []) OutputSecretMissing
    (guardE (vj_service_account cfg = []) ServiceAccountMissing
    (guardE (vj_mkp224o_image cfg = [] \<or> vj_finalize_image cfg = []) VanityImagesMissing
      (let labels = merge_labels
             [(''app.kubernetes.io/managed-by'', ''tor-gateway''), (''app.kubernetes.io/component'', ''vanity'')]
             (vj_labels cfg)
       in Inr
        \<lparr>job_meta = bare_meta (vj_namespace cfg) (vj_job_name cfg) labels,
         job_backoff_limit = 0, job_active_deadline = deadline_seconds (vj_active_deadline cfg),
         job_ttl = 3600, job_pod_labels = labels, job_pod_annotations = vj_annotations cfg,
         job_pod = vanity_pod cfg, job_conditions = []\<rparr>)))))"

subsection \<open>Account, role and output Secret\<close>

definition build_vanity_service_account :: "gateway \<Rightarrow> service_account" where
  "build_vanity_service_account g =
     \<lparr>sac_meta = child_meta g (vanity_rbac_name (gw_name g)) (child_labels (gw_name g))\<rparr>"

definition build_vanity_role :: "gateway \<Rightarrow> role" where
  "build_vanity_role g =
     \<lparr>role_meta = child_meta g (vanity_rbac_name (gw_name g)) (child_labels (gw_name g)),
      role_rules = [\<lparr>pr_api_groups = [[]], pr_resources = [''secrets''],
        pr_verbs = [''get'', ''update'', ''patch''],
        pr_resource_names = [vanity_out_secret_name (gw_name g)]\<rparr>]\<rparr>"

definition build_vanity_role_binding :: "gateway \<Rightarrow> role_binding" where
  "build_vanity_role_binding g =
     (let n = vanity_rbac_name (gw_name g) in
      bind_role n (account_subject n (gw_ns g)) (child_meta g n (child_labels (gw_name g))))"

definition build_vanity_out_secret :: "gateway \<Rightarrow> secret" where
  "build_vanity_out_secret g =
     \<lparr>sec_meta = child_meta g (vanity_out_secret_name (gw_name g)) (child_labels (gw_name g)),
      sec_data = []\<rparr>"

lemma vanity_pod_ok: "hardened_pod (vanity_pod cfg)" "consistent_pod (vanity_pod cfg)"
  by (simp_all add: vanity_pod_def hardened_pod_def consistent_pod_def container_defs)

text \<open>The search runs for an accepted prefix only, so no argument of the search program can be taken
  for a flag, and its deadline is positive for a deadline of at least a second or of none.\<close>

lemma vanity_job_prefix:
  assumes "vanity_job cfg = Inr j"
  shows "vanity_prefix_ok (vj_prefix cfg)" "ct_args (hd (pod_init (job_pod j))) =
      [''-d'', vanity_workdir, ''-n'', ''1'', ''-q'', vj_prefix cfg]" "hd (vj_prefix cfg) \<noteq> CHR ''-''"
proof -
  show v: "vanity_prefix_ok (vj_prefix cfg)"
    using assms by (auto simp: vanity_job_def guardE_Inr_iff)
  show "ct_args (hd (pod_init (job_pod j))) =
      [''-d'', vanity_workdir, ''-n'', ''1'', ''-q'', vj_prefix cfg]"
    using assms by (auto simp: vanity_job_def guardE_Inr_iff vanity_pod_def Let_def)
  show "hd (vj_prefix cfg) \<noteq> CHR ''-''"
    using v by (cases "vj_prefix cfg") (auto simp: vanity_prefix_ok_def base32_char_def)
qed

lemma deadline_positive: "d \<le> 0 \<or> nano_second \<le> d \<Longrightarrow> 0 < deadline_seconds d"
  by (auto simp: deadline_seconds_def nano_second_def)

end
