(* ===== verification/Gateway_Upserts.thy ===== *)
theory Gateway_Upserts
  imports Network_Policy Resources_Ha Vanity
begin

text \<open>
  The writes of the Gateway controller (\<open>internal/controller/gateway_controller.go\<close>): the settings of
  the reconciler, and the operations that create or update one child each. \<open>CreateOrUpdate\<close> fetches
  the named object (or starts from a blank one), applies a closure, and writes the outcome; the
  closures are the \<open>put_*\<close> functions. The property says what the egress policy of a Gateway is.
\<close>

subsection \<open>The reconciler\<close>

record gateway_reconciler =
  gr_images :: runtime_images
  gr_recorder :: bool
  gr_vanity_deadline :: int
  gr_api_reader :: bool
  gr_network_policy_enabled :: bool
  gr_pod_cidrs :: "string list"
  gr_testing_include :: string
  gr_testing_namespace :: string

datatype gateway_error =
    ApiFailed api_error | BuildFailed build_error | KeyFailed key_error | MasterFailed master_error
  | VanityFailed vanity_error | SelectorEmpty string | GrantMissing nsname

definition event_on :: "gateway_reconciler \<Rightarrow> gateway \<Rightarrow> string \<Rightarrow> ('e, unit) act" where
  "event_on R g reason =
     (if gr_recorder R then record_event (meta_key (gw_meta g)) reason else okA ())"

text \<open>A step of the API whose error is passed on, and one built first.\<close>

abbreviation apiA :: "(api_error, 'a) act \<Rightarrow> (gateway_error, 'a) act" where
  "apiA \<equiv> wrapA ApiFailed"

definition built :: "('e \<Rightarrow> gateway_error) \<Rightarrow> ('e, 'a) result \<Rightarrow> ('a \<Rightarrow> (gateway_error, 'b) act) \<Rightarrow>
    (gateway_error, 'b) act" where
  "built h r k = (case r of Inl e \<Rightarrow> failA (h e) | Inr x \<Rightarrow> k x)"

lemma built_simps [simp]: "built h (Inl e) k = failA (h e)" "built h (Inr x) k = k x"
  by (simp_all add: built_def)

subsection \<open>The closures\<close>

text \<open>Every closure takes the labels and the owners of the wanted object; the rest of the metadata
  stays as it was.\<close>

definition adopt :: "object_meta \<Rightarrow> object_meta \<Rightarrow> object_meta" where
  "adopt want m = m\<lparr>om_labels := om_labels want, om_owners := om_owners want\<rparr>"

definition put_config_map :: "config_map \<Rightarrow> obj \<Rightarrow> obj" where
  "put_config_map want ob = (case ob of
     OConfigMap c \<Rightarrow> OConfigMap (c\<lparr>cm_meta := adopt (cm_meta want) (cm_meta c), cm_data := cm_data want\<rparr>)
   | _ \<Rightarrow> ob)"

definition put_deployment :: "deployment \<Rightarrow> obj \<Rightarrow> obj" where
  "put_deployment want ob = (case ob of
     ODeployment d \<Rightarrow> ODeployment (want\<lparr>dep_meta := adopt (dep_meta want) (dep_meta d),
       dep_conditions := dep_conditions d\<rparr>)
   | _ \<Rightarrow> ob)"

definition put_service_account :: "service_account \<Rightarrow> obj \<Rightarrow> obj" where
  "put_service_account want ob = (case ob of
     OServiceAccount a \<Rightarrow> OServiceAccount (a\<lparr>sac_meta := adopt (sac_meta want) (sac_meta a)\<rparr>)
   | _ \<Rightarrow> ob)"

definition put_role :: "role \<Rightarrow> obj \<Rightarrow> obj" where
  "put_role want ob = (case ob of
     ORole r \<Rightarrow> ORole (r\<lparr>role_meta := adopt (role_meta want) (role_meta r), role_rules := role_rules want\<rparr>)
   | _ \<Rightarrow> ob)"

definition put_role_binding :: "role_binding \<Rightarrow> obj \<Rightarrow> obj" where
  "put_role_binding want ob = (case ob of
     ORoleBinding b \<Rightarrow> ORoleBinding (want\<lparr>rb_meta := adopt (rb_meta want) (rb_meta b)\<rparr>)
   | _ \<Rightarrow> ob)"

text \<open>The cluster IP is immutable: it is set only when it is empty.\<close>

definition put_service :: "service \<Rightarrow> obj \<Rightarrow> obj" where
  "put_service want ob = (case ob of
     OService s \<Rightarrow> OService (s\<lparr>svc_meta := adopt (svc_meta want) (svc_meta s),
       svc_cluster_ip := (if svc_cluster_ip s = [] then svc_cluster_ip want else svc_cluster_ip s),
       svc_selector := svc_selector want, svc_ports := svc_ports want\<rparr>)
   | _ \<Rightarrow> ob)"

definition put_network_policy :: "network_policy \<Rightarrow> obj \<Rightarrow> obj" where
  "put_network_policy want ob = (case ob of
     ONetworkPolicy n \<Rightarrow> ONetworkPolicy (want\<lparr>np_meta := adopt (np_meta want) (np_meta n)\<rparr>)
   | _ \<Rightarrow> ob)"

definition put_stateful_set :: "stateful_set \<Rightarrow> obj \<Rightarrow> obj" where
  "put_stateful_set want ob = (case ob of
     OStatefulSet s \<Rightarrow> OStatefulSet (want\<lparr>ss_meta := adopt (ss_meta want) (ss_meta s),
       ss_status_replicas := ss_status_replicas s\<rparr>)
   | _ \<Rightarrow> ob)"

text \<open>Key material is written only when the Secret is created, that is, while it has no resource
  version.\<close>

definition put_backend_secret :: "secret \<Rightarrow> obj \<Rightarrow> obj" where
  "put_backend_secret want ob = (case ob of
     OSecret s \<Rightarrow> OSecret (s\<lparr>sec_data := (if om_version (sec_meta s) = [] then sec_data want else sec_data s),
       sec_meta := adopt (sec_meta want) (sec_meta s)\<rparr>)
   | _ \<Rightarrow> ob)"

subsection \<open>One child each\<close>

definition upsert :: "kind \<Rightarrow> object_meta \<Rightarrow> (obj \<Rightarrow> obj) \<Rightarrow> (gateway_error, unit) act" where
  "upsert k m f = apiA (write_call (Upsert k (meta_key m) f))"

definition ensure_ha_config_map :: "config_map \<Rightarrow> (gateway_error, unit) act" where
  "ensure_ha_config_map w = upsert KConfigMap (cm_meta w) (put_config_map w)"
definition ensure_ha_service :: "service \<Rightarrow> (gateway_error, unit) act" where
  "ensure_ha_service w = upsert KService (svc_meta w) (put_service w)"
definition ensure_ha_service_account :: "service_account \<Rightarrow> (gateway_error, unit) act" where
  "ensure_ha_service_account w = upsert KServiceAccount (sac_meta w) (put_service_account w)"
definition ensure_ha_role :: "role \<Rightarrow> (gateway_error, unit) act" where
  "ensure_ha_role w = upsert KRole (role_meta w) (put_role w)"
definition ensure_ha_role_binding :: "role_binding \<Rightarrow> (gateway_error, unit) act" where
  "ensure_ha_role_binding w = upsert KRoleBinding (rb_meta w) (put_role_binding w)"
definition ensure_ha_stateful_set :: "stateful_set \<Rightarrow> (gateway_error, unit) act" where
  "ensure_ha_stateful_set w = upsert KStatefulSet (ss_meta w) (put_stateful_set w)"
definition ensure_ha_deployment :: "deployment \<Rightarrow> (gateway_error, unit) act" where
  "ensure_ha_deployment w = upsert KDeployment (dep_meta w) (put_deployment w)"
definition ensure_backend_key_secret :: "secret \<Rightarrow> (gateway_error, unit) act" where
  "ensure_backend_key_secret w = upsert KSecret (sec_meta w) (put_backend_secret w)"

definition ensure_torrc_config_map ::
    "gateway_reconciler \<Rightarrow> gateway \<Rightarrow> effective_service_policy \<Rightarrow> effective_client_auth \<Rightarrow>
     (gateway_error, unit) act" where
  "ensure_torrc_config_map R g policy auth =
     built BuildFailed (build_torrc_config_map g policy auth (gr_testing_include R)) (\<lambda>w.
       upsert KConfigMap (cm_meta w) (put_config_map w))"

definition ensure_deployment ::
    "gateway_reconciler \<Rightarrow> gateway \<Rightarrow> effective_service_policy \<Rightarrow> effective_client_auth \<Rightarrow>
     (gateway_error, unit) act" where
  "ensure_deployment R g policy auth =
     built BuildFailed (build_deployment g policy auth (gr_images R)) (\<lambda>w.
       upsert KDeployment (dep_meta w) (put_deployment w))"

definition ensure_service_account :: "gateway \<Rightarrow> (gateway_error, unit) act" where
  "ensure_service_account g =
     (let w = build_service_account g in upsert KServiceAccount (sac_meta w) (put_service_account w))"

definition ensure_role :: "gateway \<Rightarrow> onion_balance_policy option \<Rightarrow> (gateway_error, unit) act" where
  "ensure_role g obp = (let w = build_role g obp in upsert KRole (role_meta w) (put_role w))"

definition ensure_role_binding :: "gateway \<Rightarrow> (gateway_error, unit) act" where
  "ensure_role_binding g =
     (let w = build_role_binding g in upsert KRoleBinding (rb_meta w) (put_role_binding w))"

definition ensure_router_rbac :: "gateway \<Rightarrow> onion_balance_policy option \<Rightarrow> (gateway_error, unit) act" where
  "ensure_router_rbac g obp =
     bindA (ensure_service_account g) (\<lambda>_. bindA (ensure_role g obp) (\<lambda>_. ensure_role_binding g))"

definition ensure_service :: "gateway \<Rightarrow> (gateway_error, unit) act" where
  "ensure_service g = (let w = build_service g in upsert KService (svc_meta w) (put_service w))"

text \<open>The egress policy: deleted when the feature is off. \<open>order\<close> is the order in which Go iterates
  the map of resolved backends.\<close>

definition ensure_network_policy ::
    "(resolved_backend list \<Rightarrow> resolved_backend list) \<Rightarrow> gateway_reconciler \<Rightarrow> gateway \<Rightarrow>
     http_route list \<Rightarrow> (gateway_error, unit) act" where
  "ensure_network_policy order R g routes =
     (if \<not> gr_network_policy_enabled R
      then apiA (delete_if_present KNetworkPolicy (gw_ns g, network_policy_name (gw_name g)))
      else bindA (apiA (resolve_backends order routes)) (\<lambda>backends.
        built SelectorEmpty (build_network_policy g backends (gr_pod_cidrs R) (gr_testing_namespace R)) (\<lambda>w.
          upsert KNetworkPolicy (np_meta w) (put_network_policy w))))"

text \<open>A backend key: an existing one is fetched first, and generated only when there is none.\<close>

definition read_entropy :: "(byte list option \<Rightarrow> 'a prog) \<Rightarrow> 'a prog" where
  "read_entropy k = Call Entropy (\<lambda>r. k (case r of RandomBytes b \<Rightarrow> b | _ \<Rightarrow> None))"

definition ensure_backend_key_secret_for_index ::
    "(byte list \<Rightarrow> byte list) \<Rightarrow> gateway \<Rightarrow> nat \<Rightarrow> (gateway_error, unit) act" where
  "ensure_backend_key_secret_for_index bm g idx =
     bindP (get_obj KSecret un_secret (gw_ns g, backend_key_secret_name g idx)) (\<lambda>r.
       let upsert_key = (\<lambda>existing.
         if has_key_material existing
         then built KeyFailed (build_backend_key_secret bm g idx existing None) ensure_backend_key_secret
         else read_entropy (\<lambda>b.
           built KeyFailed (build_backend_key_secret bm g idx existing b) ensure_backend_key_secret))
       in case r of
            Inl e \<Rightarrow> if e \<noteq> NotFound then failA (ApiFailed e) else upsert_key None
          | Inr s \<Rightarrow> upsert_key (Some s))"

subsection \<open>The egress policy of a Gateway\<close>

text \<open>
  What the policy is to allow, rule by rule and with the numbers written out: name resolution, the API
  server, the public internet less the cluster's own address ranges (or, in a test set-up, the private
  Tor network of one namespace), and the backends of the routes.
\<close>

definition name_service_rule :: egress_rule where
  "name_service_rule = \<lparr>eg_to = [NamespacePeer [(''kubernetes.io/metadata.name'', ''kube-system'')]],
     eg_ports = [\<lparr>pp_protocol = ''UDP'', pp_port = IntPort 53, pp_end_port = None\<rparr>,
                 \<lparr>pp_protocol = ''TCP'', pp_port = IntPort 53, pp_end_port = None\<rparr>]\<rparr>"

definition api_server_rule :: egress_rule where
  "api_server_rule = \<lparr>eg_to = [NamespacePeer [(''kubernetes.io/metadata.name'', ''kube-system'')]],
     eg_ports = [\<lparr>pp_protocol = ''TCP'', pp_port = IntPort 6443, pp_end_port = None\<rparr>,
                 \<lparr>pp_protocol = ''TCP'', pp_port = IntPort 443, pp_end_port = None\<rparr>]\<rparr>"

definition tor_rule :: "string list \<Rightarrow> string \<Rightarrow> egress_rule" where
  "tor_rule excluded test_ns =
     (if test_ns = [] then \<lparr>eg_to = [IpBlockPeer ''0.0.0.0/0'' excluded], eg_ports = []\<rparr>
      else \<lparr>eg_to = [PodPeer [(''kubernetes.io/metadata.name'', test_ns)] [(''app'', ''chutney'')]],
             eg_ports = [\<lparr>pp_protocol = ''TCP'', pp_port = IntPort 5000, pp_end_port = Some 5005\<rparr>,
                         \<lparr>pp_protocol = ''TCP'', pp_port = IntPort 7000, pp_end_port = Some 7005\<rparr>]\<rparr>)"

text \<open>The pods of one Service, at one of its ports.\<close>

definition service_port_rule :: "string \<Rightarrow> service \<Rightarrow> service_port \<Rightarrow> egress_rule" where
  "service_port_rule ns svc p =
     \<lparr>eg_to = [PodPeer [(''kubernetes.io/metadata.name'', ns)] (svc_selector svc)],
      eg_ports = [\<lparr>pp_protocol = (if svp_protocol p = [] then ''TCP'' else svp_protocol p),
        pp_port = (if svp_target p = IntPort 0 then IntPort (svp_port p) else svp_target p), pp_end_port = None\<rparr>]\<rparr>"

text \<open>The backend references of the routes in order; the Service that one names; whether it may be used,
  in its own namespace or by a ReferenceGrant of the other one; and the port that it resolves to.\<close>

definition references :: "http_route list \<Rightarrow> (http_route \<times> backend_ref) list" where
  "references routes = [(rt, ref). rt \<leftarrow> routes, rule \<leftarrow> rt_rules rt, ref \<leftarrow> hr_backends rule]"

definition names_service :: "http_route \<Rightarrow> backend_ref \<Rightarrow> nsname" where
  "names_service rt ref = (case br_namespace ref of None \<Rightarrow> rt_ns rt | Some ns \<Rightarrow> ns, br_name ref)"

definition granted_service :: "(string \<Rightarrow> reference_grant list) \<Rightarrow> http_route \<Rightarrow> nsname \<Rightarrow> bool" where
  "granted_service G rt key \<longleftrightarrow> fst key = rt_ns rt \<or>
     (\<exists>grant \<in> set (G (fst key)).
        (\<exists>f \<in> set (rg_from grant). gf_group f = ''gateway.networking.k8s.io'' \<and> gf_kind f = ''HTTPRoute'' \<and>
           gf_namespace f = rt_ns rt) \<and>
        (\<exists>t \<in> set (rg_to grant). gt_group t = [] \<and> gt_kind t = ''Service'' \<and>
           gt_name t \<in> {None, Some [], Some (snd key)}))"

definition resolves ::
    "(string \<Rightarrow> reference_grant list) \<Rightarrow> (kind \<Rightarrow> nsname \<Rightarrow> answer) \<Rightarrow> http_route \<times> backend_ref \<Rightarrow>
     service \<Rightarrow> service_port \<Rightarrow> bool" where
  "resolves G S x svc p \<longleftrightarrow> (case x of (rt, ref) \<Rightarrow>
     granted_service G rt (names_service rt ref) \<and>
     S KService (names_service rt ref) = Object (OService svc) \<and> svc_selector svc \<noteq> [] \<and>
     find (\<lambda>q. svp_port q = (case br_port ref of None \<Rightarrow> 0 | Some n \<Rightarrow> n)) (svc_ports svc) = Some p)"

definition last_for_service ::
    "(string \<Rightarrow> reference_grant list) \<Rightarrow> (kind \<Rightarrow> nsname \<Rightarrow> answer) \<Rightarrow> http_route list \<Rightarrow>
     http_route \<times> backend_ref \<Rightarrow> bool" where
  "last_for_service G S routes x \<longleftrightarrow>
     (\<exists>before after. references routes = before @ x # after \<and>
        (\<forall>y \<in> set after. case_prod names_service y = case_prod names_service x \<longrightarrow> (\<nexists>svc p. resolves G S y svc p)))"

text \<open>
  The policy: exactly these rules. A reference that does not resolve gives no rule; of several references
  to one Service the last that resolves gives its rule, and the ports that the others ask for are not opened.
\<close>

definition exact_egress ::
    "(string \<Rightarrow> reference_grant list) \<Rightarrow> (kind \<Rightarrow> nsname \<Rightarrow> answer) \<Rightarrow> gateway_reconciler \<Rightarrow> gateway \<Rightarrow>
     http_route list \<Rightarrow> network_policy \<Rightarrow> bool" where
  "exact_egress G S R g routes np \<longleftrightarrow>
     np_pod_selector np = child_labels (gw_name g) \<and> np_policy_types np = [''Egress''] \<and>
     set (np_egress np) =
       {name_service_rule, api_server_rule, tor_rule (gr_pod_cidrs R) (gr_testing_namespace R)} \<union>
       {service_port_rule (fst (names_service rt ref)) svc p | rt ref svc p.
          last_for_service G S routes (rt, ref) \<and> resolves G S (rt, ref) svc p}"

definition writes_egress ::
    "(string \<Rightarrow> reference_grant list) \<Rightarrow> (kind \<Rightarrow> nsname \<Rightarrow> answer) \<Rightarrow> gateway_reconciler \<Rightarrow> gateway \<Rightarrow>
     http_route list \<Rightarrow> call \<Rightarrow> bool" where
  "writes_egress G S R g routes c \<longleftrightarrow>
     (let key = (gw_ns g, network_policy_name (gw_name g)) in
      if gr_network_policy_enabled R
      then \<exists>f. c = Upsert KNetworkPolicy key f \<and>
             (\<forall>old. \<exists>np. f (ONetworkPolicy old) = ONetworkPolicy np \<and> exact_egress G S R g routes np \<and>
                owned_by_uid (gw_uid g) (np_meta np))
      else c = Delete KNetworkPolicy key)"

lemma fixed_rules:
  "dns_egress = name_service_rule" "apiserver_egress = api_server_rule" "final_egress cidrs ns = tor_rule cidrs ns"
  by (simp_all add: dns_egress_def name_service_rule_def apiserver_egress_def api_server_rule_def final_egress_def
      tor_rule_def testing_network_egress_def public_internet_egress_def namespace_labels_def port_of_def
      port_range_def chutney_or_ports_def chutney_dir_ports_def chutney_pod_label_def)

lemma references: "references routes = route_backend_refs routes"
proof -
  have rules: "concat (map (\<lambda>rule. map (Pair rt) (hr_backends rule)) rs) = map (Pair rt) (concat (map hr_backends rs))" for rt rs
    by (induction rs) simp_all
  show ?thesis by (simp only: references_def route_backend_refs_def rules)
qed

lemma names_service: "names_service rt ref = (backend_ns rt ref, br_name ref)"
  by (cases "br_namespace ref") (simp_all add: names_service_def backend_ns_def)

lemma granted_service: "granted_service G rt (names_service rt ref) = ref_permitted G rt ref"
  by (auto simp: granted_service_def names_service ref_permitted_def allows_def list_ex_iff grant_matches_from_def
      grant_matches_to_def route_from_ref_def service_to_ref_def gateway_api_group_def)

lemma deref_case: "(case v of None \<Rightarrow> d | Some n \<Rightarrow> n) = deref d v"
  by (cases v) simp_all

lemma resolves_wanted:
  "resolves G S (rt, ref) svc p \<Longrightarrow> \<exists>b. wanted_backend G S rt ref = Some b \<and>
     backend_egress b = service_port_rule (fst (names_service rt ref)) svc p"
  unfolding resolves_def prod.case granted_service deref_case
  by (simp add: names_service wanted_backend_def resolve_target_port_def backend_egress_def service_port_rule_def
      namespace_labels_def)

lemma wanted_resolves: "wanted_backend G S rt ref = Some b \<Longrightarrow> \<exists>svc p. resolves G S (rt, ref) svc p"
  unfolding resolves_def prod.case granted_service deref_case
  by (auto simp: names_service wanted_backend_def resolve_target_port_def split: if_splits answer.splits obj.splits
      option.splits)

lemma wanted_none: "wanted_backend G S rt ref = None \<longleftrightarrow> (\<nexists>svc p. resolves G S (rt, ref) svc p)"
  using wanted_resolves [of G S rt ref] resolves_wanted [of G S rt ref] by fastforce

lemma split_last: "(\<exists>before y after. xs @ [x] = before @ y # after \<and> Q y after) \<longleftrightarrow>
    Q x [] \<or> (\<exists>before y after. xs = before @ y # after \<and> Q y (after @ [x]))" (is "?l = ?r")
proof
  assume ?l
  then obtain before y after where "xs @ [x] = before @ y # after" "Q y after" by blast
  then show ?r by (cases after rule: rev_exhaust) auto
next
  assume ?r
  then show ?l
  proof
    assume "Q x []"
    then show ?l by blast
  next
    assume "\<exists>before y after. xs = before @ y # after \<and> Q y (after @ [x])"
    then show ?l by (metis append.assoc append_Cons)
  qed
qed

text \<open>Looking up a Service finds the last reference to it that resolves.\<close>

lemma fold_wanted_last:
  "map_of (fold (add_wanted G S) xs []) k = Some b \<longleftrightarrow>
     (\<exists>before rt ref after. xs = before @ (rt, ref) # after \<and> names_service rt ref = k \<and> wanted_backend G S rt ref = Some b \<and>
        (\<forall>(rt', ref') \<in> set after. names_service rt' ref' = k \<longrightarrow> wanted_backend G S rt' ref' = None))"
proof (induction xs rule: rev_induct)
  case (snoc x xs)
  obtain rt ref where x: "x = (rt, ref)" by (cases x)
  have split: "(\<exists>before rt' ref' after. xs @ [x] = before @ (rt', ref') # after \<and> P rt' ref' after) \<longleftrightarrow>
      P rt ref [] \<or> (\<exists>before rt' ref' after. xs = before @ (rt', ref') # after \<and> P rt' ref' (after @ [x]))" for P
  proof -
    have "(\<exists>before y after. xs @ [x] = before @ y # after \<and> Q y after) \<longleftrightarrow>
        Q x [] \<or> (\<exists>before y after. xs = before @ y # after \<and> Q y (after @ [x]))" for Q
      using split_last [of xs x Q] .
    from this [of "\<lambda>y. P (fst y) (snd y)"] show ?thesis by (simp add: x)
  qed
  show ?case
  proof (cases "wanted_backend G S rt ref")
    case None
    then show ?thesis
      unfolding split using snoc.IH by (simp add: add_wanted_def x)
  next
    case (Some b')
    then show ?thesis
      unfolding split using snoc.IH by (simp add: add_wanted_def x update_conv' names_service)
  qed
qed simp

text \<open>There is at most one entry, so at most one port, per Service: of two references to different ports of
  a Service only the later one is allowed out.\<close>

lemma one_port_per_service: "distinct (map fst (wanted_backends G S routes))"
proof -
  have "distinct (map fst (fold (add_wanted G S) xs acc))" if "distinct (map fst acc)" for xs acc
    using that
  proof (induction xs arbitrary: acc)
    case (Cons x xs)
    have "distinct (map fst (add_wanted G S x acc))"
      using Cons.prems by (auto simp: add_wanted_def distinct_update split: prod.splits option.splits)
    then show ?case using Cons.IH by simp
  qed simp
  from this [of "[]"] show ?thesis by (simp add: wanted_backends_def)
qed

lemma backend_rules:
  "backend_egress ` snd ` set (wanted_backends G S routes) =
     {service_port_rule (fst (names_service rt ref)) svc p | rt ref svc p.
        last_for_service G S routes (rt, ref) \<and> resolves G S (rt, ref) svc p}" (is "?A = ?B")
proof
  have entry: "(k, b) \<in> set (wanted_backends G S routes) \<longleftrightarrow> map_of (wanted_backends G S routes) k = Some b" for k b
    by (simp add: one_port_per_service)
  note last = fold_wanted_last [of G S "references routes", folded wanted_backends_def [of G S routes, folded references]]
  have after: "(\<forall>(rt', ref') \<in> set after. names_service rt' ref' = k \<longrightarrow> wanted_backend G S rt' ref' = None) \<longleftrightarrow>
      (\<forall>y \<in> set after. case_prod names_service y = k \<longrightarrow> (\<nexists>svc p. resolves G S y svc p))" for after k
    using wanted_none [of G S] by (intro ball_cong) auto
  show "?A \<subseteq> ?B"
  proof
    fix r assume "r \<in> ?A"
    then obtain k b where b: "(k, b) \<in> set (wanted_backends G S routes)" "r = backend_egress b" by force
    then obtain before rt ref after where x: "references routes = before @ (rt, ref) # after" "names_service rt ref = k"
      "wanted_backend G S rt ref = Some b"
      "\<forall>y \<in> set after. case_prod names_service y = k \<longrightarrow> (\<nexists>svc p. resolves G S y svc p)"
      unfolding entry last after by blast
    obtain svc p where res: "resolves G S (rt, ref) svc p" using wanted_resolves [OF x(3)] by blast
    then have "r = service_port_rule (fst (names_service rt ref)) svc p"
      using resolves_wanted [OF res] x(3) b(2) by simp
    moreover have "last_for_service G S routes (rt, ref)"
      using x(1,2,4) unfolding last_for_service_def by auto
    ultimately show "r \<in> ?B" using res by blast
  qed
  show "?B \<subseteq> ?A"
  proof
    fix r assume "r \<in> ?B"
    then obtain rt ref svc p where r: "r = service_port_rule (fst (names_service rt ref)) svc p"
      "last_for_service G S routes (rt, ref)" "resolves G S (rt, ref) svc p" by blast
    then obtain b where b: "wanted_backend G S rt ref = Some b" "backend_egress b = r"
      using resolves_wanted by metis
    have "(names_service rt ref, b) \<in> set (wanted_backends G S routes)"
      unfolding entry last after using r(2) b(1) by (auto simp: last_for_service_def)
    then show "r \<in> ?A" using b(2) by force
  qed
qed

definition same_rules :: "network_policy \<Rightarrow> network_policy \<Rightarrow> bool" where
  "same_rules a b \<longleftrightarrow> np_egress a = np_egress b \<and> np_pod_selector a = np_pod_selector b \<and>
     np_policy_types a = np_policy_types b"

lemma wanted_policy_exact:
  assumes "\<And>xs. mset (order xs) = mset xs"
  obtains np where "build_network_policy g (order (map snd (wanted_backends G S routes)))
      (gr_pod_cidrs R) (gr_testing_namespace R) = Inr np"
    and "np_meta np = child_meta g (network_policy_name (gw_name g)) (child_labels (gw_name g))"
    and "\<And>np'. same_rules np' np \<Longrightarrow> exact_egress G S R g routes np'"
proof -
  let ?bs = "order (map snd (wanted_backends G S routes))"
  obtain np where np: "build_network_policy g ?bs (gr_pod_cidrs R) (gr_testing_namespace R) = Inr np"
    "np_pod_selector np = child_labels (gw_name g)" "np_policy_types np = [''Egress'']"
    "np_meta np = child_meta g (network_policy_name (gw_name g)) (child_labels (gw_name g))"
    "set (np_egress np) = {dns_egress, apiserver_egress, final_egress (gr_pod_cidrs R) (gr_testing_namespace R)} \<union>
       backend_egress ` snd ` set (wanted_backends G S routes)"
    using build_network_policy_wanted [where order = order and G = G and S = S and routes = routes, OF assms]
    by meson
  have "exact_egress G S R g routes np'" if "same_rules np' np" for np'
    using that np(2,3,5) unfolding exact_egress_def same_rules_def by (simp add: fixed_rules backend_rules)
  then show thesis by (rule that [OF np(1,4)])
qed

lemma put_network_policy_owned:
  "np_meta w = child_meta g n l \<Longrightarrow> \<exists>np. put_network_policy w (ONetworkPolicy old) = ONetworkPolicy np \<and>
     np_egress np = np_egress w \<and> np_pod_selector np = np_pod_selector w \<and>
     np_policy_types np = np_policy_types w \<and> owned_by_uid (gw_uid g) (np_meta np)"
  by (simp add: put_network_policy_def adopt_def owned_by_uid_def controller_reference_def)


subsection \<open>An instance\<close>

definition sample_reconciler :: gateway_reconciler where
  "sample_reconciler =
     \<lparr>gr_images = sample_images, gr_recorder = True, gr_vanity_deadline = 0, gr_api_reader = True,
      gr_network_policy_enabled = True, gr_pod_cidrs = [''10.0.0.0/8''], gr_testing_include = [],
      gr_testing_namespace = []\<rparr>"

definition sample_http_route :: http_route where
  "sample_http_route =
     \<lparr>rt_ns = ''web'', rt_name = ''r'', rt_generation = 1, rt_parent_refs = [],
      rt_rules = [\<lparr>hr_matches = [], hr_backends = [\<lparr>br_group = None, br_kind = None,
        br_namespace = None, br_name = ''api'', br_port = Some 80\<rparr>]\<rparr>],
      rt_parents = []\<rparr>"

definition sample_services :: "kind \<Rightarrow> nsname \<Rightarrow> answer" where
  "sample_services k key =
     (if k = KService \<and> key = (''web'', ''api'') then Object (OService
        \<lparr>svc_meta = bare_meta ''web'' ''api'' [], svc_cluster_ip = [], svc_selector = [(''app'', ''api'')],
         svc_ports = [\<lparr>svp_name = [], svp_port = 80, svp_target = IntPort 8080, svp_protocol = []\<rparr>]\<rparr>)
      else Failed NotFound)"


end
