(* ===== verification/Api_Logic.thy ===== *)
theory Api_Logic
  imports Api_Prog
begin

text \<open>
  Introduction rules for statements about the calls of a reconciler. \<open>gives E P I p\<close> says that
  whatever a server bound by \<open>E\<close> answers, every call of \<open>p\<close> satisfies \<open>P\<close> and a success satisfies
  \<open>I\<close>; there is one rule per construct, so that a handler is taken apart by its syntax.
\<close>

named_theorems gives_intros \<open>introduction rules of gives\<close>

definition gives ::
    "(call \<Rightarrow> answer \<Rightarrow> bool) \<Rightarrow> (call \<Rightarrow> bool) \<Rightarrow> ('a \<Rightarrow> bool) \<Rightarrow> ('e, 'a) act \<Rightarrow> bool" where
  "gives E P I p \<longleftrightarrow> always E P (\<lambda>r. case r of Inl _ \<Rightarrow> True | Inr x \<Rightarrow> I x) p"

abbreviation every :: "'a \<Rightarrow> bool" where "every \<equiv> \<lambda>_. True"

declare TrueI [gives_intros]

lemma gives_ok [gives_intros]: "I x \<Longrightarrow> gives E P I (okA x)"
  by (simp add: gives_def)

lemma gives_fail [gives_intros]: "gives E P I (failA e)"
  by (simp add: gives_def)

lemma gives_mono: "gives E P I p \<Longrightarrow> (\<And>c. P c \<Longrightarrow> P' c) \<Longrightarrow> (\<And>x. I x \<Longrightarrow> I' x) \<Longrightarrow> gives E P' I' p"
  unfolding gives_def by (erule always_mono) (auto split: sum.split_asm sum.split)

lemma gives_weaken: "gives E P I p \<Longrightarrow> gives E P every p"
  by (erule gives_mono) simp_all

lemma gives_world: "gives E P I p \<Longrightarrow> (\<And>c r. E' c r \<Longrightarrow> E c r) \<Longrightarrow> gives E' P I p"
proof -
  have "always E P Q q \<Longrightarrow> (\<And>c r. E' c r \<Longrightarrow> E c r) \<Longrightarrow> always E' P Q q" for Q and q :: "'x prog"
    by (induction q) auto
  then show "gives E P I p \<Longrightarrow> (\<And>c r. E' c r \<Longrightarrow> E c r) \<Longrightarrow> gives E' P I p"
    unfolding gives_def by blast
qed

text \<open>Sequencing; the first form keeps what the success of the first step says, the last two drop it.\<close>

lemma gives_bindA:
  assumes "gives E P I p" "\<And>x. I x \<Longrightarrow> gives E P J (f x)"
  shows "gives E P J (bindA p f)"
  using assms unfolding gives_def always_bindA
  by (elim always_mono) (auto split: sum.splits)

lemma gives_bindA_every:
  "gives E P every p \<Longrightarrow> (\<And>x. gives E P J (f x)) \<Longrightarrow> gives E P J (bindA p f)"
  by (rule gives_bindA)

lemma gives_bindP:
  assumes "gives E P I p" "\<And>e. gives E P J (f (Inl e))" "\<And>x. I x \<Longrightarrow> gives E P J (f (Inr x))"
  shows "gives E P J (bindP p f)"
  using assms unfolding gives_def always_bindP
  by (elim always_mono) (auto split: sum.splits)

lemma gives_then:
  assumes "always E P Q p" "\<And>x. Q x \<Longrightarrow> gives E P J (f x)"
  shows "gives E P J (bindP p f)"
  using assms unfolding gives_def always_bindP by (elim always_mono) auto

lemma gives_wrapA [gives_intros]: "gives E P I p \<Longrightarrow> gives E P I (wrapA h p)"
  unfolding gives_def always_wrapA by (elim always_mono) (auto split: sum.splits)

text \<open>Case distinctions.\<close>

lemma gives_if [gives_intros]:
  "(b \<Longrightarrow> gives E P I p) \<Longrightarrow> (\<not> b \<Longrightarrow> gives E P I q) \<Longrightarrow> gives E P I (if b then p else q)"
  by simp

lemma gives_sum [gives_intros]:
  "(\<And>e. r = Inl e \<Longrightarrow> gives E P I (f e)) \<Longrightarrow> (\<And>x. r = Inr x \<Longrightarrow> gives E P I (g x)) \<Longrightarrow>
     gives E P I (case r of Inl e \<Rightarrow> f e | Inr x \<Rightarrow> g x)"
  by (cases r) simp_all

lemma gives_option [gives_intros]:
  "(r = None \<Longrightarrow> gives E P I p) \<Longrightarrow> (\<And>x. r = Some x \<Longrightarrow> gives E P I (f x)) \<Longrightarrow>
     gives E P I (case r of None \<Rightarrow> p | Some x \<Rightarrow> f x)"
  by (cases r) simp_all

lemma gives_prod [gives_intros]:
  "(\<And>x y. r = (x, y) \<Longrightarrow> gives E P I (f x y)) \<Longrightarrow> gives E P I (case r of (x, y) \<Rightarrow> f x y)"
  by (cases r) simp

text \<open>Loops.\<close>

lemma gives_eachA [gives_intros]:
  "(\<And>x. x \<in> set xs \<Longrightarrow> gives E P every (body x)) \<Longrightarrow> gives E P every (eachA body xs)"
  by (induction xs) (auto intro: gives_ok gives_bindA_every)

lemma gives_foldA:
  assumes "\<And>x a. x \<in> set xs \<Longrightarrow> I a \<Longrightarrow> gives E P I (body x a)" "I a"
  shows "gives E P I (foldA body xs a)"
  using assms by (induction xs arbitrary: a) (auto intro: gives_ok gives_bindA)

lemma gives_retry [gives_intros]: "gives E P I p \<Longrightarrow> gives E P I (retry_on_conflict n p)"
proof (induction n)
  case (Suc n)
  have "always E P (\<lambda>x. always E P (\<lambda>r. case r of Inl _ \<Rightarrow> True | Inr x \<Rightarrow> I x)
      (if x = Inl Conflict then retry_on_conflict n p else Ret x)) p"
    using Suc.prems Suc.IH [OF Suc.prems] unfolding gives_def
    by (elim always_mono) auto
  then show ?case by (simp add: gives_def)
qed simp

text \<open>Single calls.\<close>

lemma gives_get:
  assumes "P (Get k key)" "\<And>ob x. E (Get k key) (Object ob) \<Longrightarrow> un ob = Some x \<Longrightarrow> I x"
  shows "gives E P I (get_obj k un key)"
  using assms by (auto simp: gives_def get_obj_def split: answer.splits option.splits)

lemma gives_list:
  assumes "P (ListObjs k ns ls)"
    "\<And>obs xs. E (ListObjs k ns ls) (Objects obs) \<Longrightarrow> those (map un obs) = Some xs \<Longrightarrow> I xs"
  shows "gives E P I (list_objs k un ns ls)"
  using assms by (auto simp: gives_def list_objs_def decode_list_def split: answer.splits option.splits)

lemma gives_write [gives_intros]: "P c \<Longrightarrow> gives E P every (write_call c)"
  by (simp add: gives_def write_call_def split: answer.splits)

lemma gives_delete [gives_intros]: "P (Delete k key) \<Longrightarrow> gives E P every (delete_if_present k key)"
  by (simp add: gives_def delete_if_present_def split: answer.splits)

lemma gives_event [gives_intros]: "P (RecordEvent key reason) \<Longrightarrow> gives E P every (record_event key reason)"
  by (simp add: gives_def record_event_def)

lemma those_in: "those (map un obs) = Some xs \<Longrightarrow> x \<in> set xs \<Longrightarrow> \<exists>ob \<in> set obs. un ob = Some x"
  by (induction obs arbitrary: xs) (auto split: option.splits)

text \<open>From a statement about calls to one about a run.\<close>

lemma gives_always: "gives E P I p \<Longrightarrow> always E P (\<lambda>_. True) p"
  unfolding gives_def by (erule always_mono) simp_all

end
