(* ===== verification/Vanity_Controller.thy ===== *)
theory Vanity_Controller
  imports Gateway_Upserts Api_Logic
begin

text \<open>
  \<open>internal/controller/vanity.go\<close>: the search for a vanity key before a Gateway's key Secret exists.
  The sentinel errors of the source are outcomes here. The source keeps writing to the Gateway it
  holds, and a write replaces it by what the server answers; the operations return the Gateway that
  the caller holds afterwards.
\<close>

subsection \<open>The Gateway in hand\<close>

definition write_gateway :: "call \<Rightarrow> (api_error, gateway) act" where
  "write_gateway c = Call c (\<lambda>r. Ret (case r of
     Failed e \<Rightarrow> Inl e
   | Object ob \<Rightarrow> (case un_gateway ob of Some g \<Rightarrow> Inr g | None \<Rightarrow> Inl bad_answer)
   | _ \<Rightarrow> Inl bad_answer))"

definition gw_annotation :: "gateway \<Rightarrow> string \<Rightarrow> string" where
  "gw_annotation g k = map_index (om_annotations (gw_meta g)) k"

definition annotate :: "string \<Rightarrow> string \<Rightarrow> gateway \<Rightarrow> gateway" where
  "annotate k v g = g\<lparr>gw_meta := (gw_meta g)\<lparr>om_annotations :=
     AList.update k v (om_annotations (gw_meta g))\<rparr>\<rparr>"

definition drop_annotation :: "string \<Rightarrow> gateway \<Rightarrow> gateway" where
  "drop_annotation k g = g\<lparr>gw_meta := (gw_meta g)\<lparr>om_annotations :=
     AList.delete k (om_annotations (gw_meta g))\<rparr>\<rparr>"

definition gateway_condition :: "time \<Rightarrow> gateway \<Rightarrow> string \<Rightarrow> string \<Rightarrow> string \<Rightarrow> string \<Rightarrow> condition" where
  "gateway_condition now g ty status reason msg =
     \<lparr>cond_type = ty, cond_status = status, cond_generation = om_generation (gw_meta g),
      cond_transition = now, cond_reason = reason, cond_message = msg\<rparr>"

definition accepted_gateway :: "time \<Rightarrow> gateway \<Rightarrow> condition" where
  "accepted_gateway now g =
     gateway_condition now g ''Accepted'' condition_true ''Accepted'' ''Gateway accepted by tor-gateway''"

text \<open>\<open>setProgrammingCondition\<close>: accepted, and not programmed for a reason.\<close>

definition set_programming_condition ::
    "time \<Rightarrow> gateway \<Rightarrow> string \<Rightarrow> string \<Rightarrow> (gateway_error, unit) act" where
  "set_programming_condition now g reason msg =
     (case set_conditions (gw_conditions g)
         [accepted_gateway now g, gateway_condition now g ''Programmed'' condition_false reason msg] of
        (cs, changed) \<Rightarrow>
          if \<not> changed then okA ()
          else apiA (write_call (StatusUpdate (OGateway (g\<lparr>gw_conditions := cs\<rparr>)))))"

subsection \<open>The Job and its results\<close>

datatype key_outcome = KeyReady key_pair | HarvestPending | HarvestFailed | AwaitingVanityPolicy

definition reason_harvest_in_progress :: string where "reason_harvest_in_progress = ''VanityHarvestInProgress''"
definition reason_harvest_failed :: string where "reason_harvest_failed = ''VanityHarvestFailed''"
definition reason_awaiting_vanity_policy :: string where
  "reason_awaiting_vanity_policy = ''AwaitingVanityPolicy''"

definition vanity_out_populated :: "secret \<Rightarrow> bool" where
  "vanity_out_populated s \<longleftrightarrow>
     length (data_entry (sec_data s) file_secret_key_name) = secret_key_file_size \<and>
     length (data_entry (sec_data s) file_public_key_name) = public_key_file_size"

definition job_failed :: "job \<Rightarrow> bool" where
  "job_failed j = list_ex (\<lambda>(ty, st). ty = ''Failed'' \<and> st = condition_true) (job_conditions j)"

definition ensure_vanity_rbac :: "gateway \<Rightarrow> (gateway_error, unit) act" where
  "ensure_vanity_rbac g =
     (let sa = build_vanity_service_account g; role = build_vanity_role g; rb = build_vanity_role_binding g in
      bindA (upsert KServiceAccount (sac_meta sa) (put_service_account sa)) (\<lambda>_.
      bindA (upsert KRole (role_meta role) (put_role role)) (\<lambda>_.
        upsert KRoleBinding (rb_meta rb) (put_role_binding rb))))"

text \<open>The output Secret is created when absent and never updated; its data belongs to the Job.\<close>

definition ensure_vanity_out_secret :: "gateway \<Rightarrow> (gateway_error, unit) act" where
  "ensure_vanity_out_secret g =
     bindP (get_obj KSecret un_secret (gw_ns g, vanity_out_secret_name (gw_name g))) (\<lambda>r. case r of
       Inr _ \<Rightarrow> okA ()
     | Inl e \<Rightarrow> if e \<noteq> NotFound then failA (ApiFailed e)
               else apiA (write_call (Create (OSecret (build_vanity_out_secret g)))))"

definition vanity_config :: "gateway_reconciler \<Rightarrow> gateway \<Rightarrow> string \<Rightarrow> vanity_job_config" where
  "vanity_config R g wanted =
     \<lparr>vj_job_name = vanity_rbac_name (gw_name g), vj_namespace = gw_ns g, vj_prefix = wanted,
      vj_output_secret = vanity_out_secret_name (gw_name g),
      vj_service_account = vanity_rbac_name (gw_name g),
      vj_mkp224o_image = im_mkp224o (gr_images R), vj_finalize_image = im_vanity_finalize (gr_images R),
      vj_active_deadline = gr_vanity_deadline R,
      vj_labels = [(gateway_label_key, gw_name g), (vanity_prefix_label, wanted)],
      vj_annotations = [], vj_resources = no_resources\<rparr>"

definition create_vanity_job :: "gateway_reconciler \<Rightarrow> gateway \<Rightarrow> string \<Rightarrow> (gateway_error, unit) act" where
  "create_vanity_job R g wanted =
     built VanityFailed (vanity_job (vanity_config R g wanted)) (\<lambda>j.
       apiA (write_call (Create (OJob
         (j\<lparr>job_meta := (job_meta j)\<lparr>om_owners := [controller_reference g]\<rparr>\<rparr>)))))"

definition delete_vanity_job :: "job \<Rightarrow> (gateway_error, unit) act" where
  "delete_vanity_job j = apiA (delete_if_present KJob (meta_key (job_meta j)))"

definition mark_vanity_failed :: "gateway \<Rightarrow> string \<Rightarrow> (gateway_error, gateway) act" where
  "mark_vanity_failed g wanted =
     (if gw_annotation g vanity_failed_annotation = wanted then okA g
      else apiA (write_gateway (PatchMeta (OGateway (annotate vanity_failed_annotation wanted g)))))"

definition clear_vanity_failed :: "gateway \<Rightarrow> (gateway_error, gateway) act" where
  "clear_vanity_failed g =
     (if map_of (om_annotations (gw_meta g)) vanity_failed_annotation = None then okA g
      else apiA (write_gateway (PatchMeta (OGateway (drop_annotation vanity_failed_annotation g)))))"

text \<open>Once the key Secret exists the clean-up is best effort; the key has been promoted.\<close>

definition promote_vanity_key ::
    "gateway \<Rightarrow> secret \<Rightarrow> job \<Rightarrow> (gateway_error, gateway \<times> key_outcome) act" where
  "promote_vanity_key g out j =
     built KeyFailed (parse_files (data_entry (sec_data out) file_secret_key_name)
         (data_entry (sec_data out) file_public_key_name)) (\<lambda>kp.
       bindA (apiA (write_call (Create (OSecret (build_key_secret g kp))))) (\<lambda>_.
       bindP (write_call (Delete KSecret (meta_key (sec_meta out)))) (\<lambda>_.
       bindP (delete_vanity_job j) (\<lambda>_.
       bindP (clear_vanity_failed g) (\<lambda>r.
         okA (case r of Inr g' \<Rightarrow> g' | Inl _ \<Rightarrow> drop_annotation vanity_failed_annotation g,
              KeyReady kp))))))"

definition run_vanity_harvest ::
    "gateway_reconciler \<Rightarrow> gateway \<Rightarrow> string \<Rightarrow> (gateway_error, gateway \<times> key_outcome) act" where
  "run_vanity_harvest R g wanted =
     (if gw_annotation g vanity_failed_annotation = wanted then okA (g, HarvestFailed)
      else bindA (ensure_vanity_rbac g) (\<lambda>_. bindA (ensure_vanity_out_secret g) (\<lambda>_.
        bindP (get_obj KJob un_job (gw_ns g, vanity_rbac_name (gw_name g))) (\<lambda>r. case r of
          Inl e \<Rightarrow>
            if e \<noteq> NotFound then failA (ApiFailed e)
            else bindA (create_vanity_job R g wanted) (\<lambda>_.
                 bindA (event_on R g ''VanityHarvestStarted'') (\<lambda>_. okA (g, HarvestPending)))
        | Inr j \<Rightarrow>
            if map_index (om_labels (job_meta j)) vanity_prefix_label \<noteq> wanted
            then bindA (delete_vanity_job j) (\<lambda>_.
                 bindA (clear_vanity_failed g) (\<lambda>g'. okA (g', HarvestPending)))
            else bindA (apiA (get_obj KSecret un_secret (gw_ns g, vanity_out_secret_name (gw_name g)))) (\<lambda>out.
              if vanity_out_populated out then promote_vanity_key g out j
              else if job_failed j
              then bindA (mark_vanity_failed g wanted) (\<lambda>g'.
                   bindA (event_on R g' ''VanityHarvestFailed'') (\<lambda>_. okA (g', HarvestFailed)))
              else okA (g, HarvestPending))))))"

end
