(* ===== verification/Vanity_Finalize.thy ===== *)
theory Vanity_Finalize
  imports Cmd_Flags Vanity_Controller Resources_Ha
begin

text \<open>
  \<open>cmd/vanity-finalize\<close>: the second container of the vanity Job, which copies the key files that the
  search program left in its working directory into the output Secret the operator made. A run is
  the exit code with the Secret it updated, if any. What it reads from outside is a
  \<open>finalize_world\<close>: the directories by path, in the order they are listed, and the API server.
\<close>

record workdir_entry =
  we_name :: string
  we_is_dir :: bool
  we_files :: "byte list gomap"

record finalize_world =
  fw_dir :: "string \<Rightarrow> workdir_entry list option"
  fw_client :: bool
  fw_get :: "string \<Rightarrow> string \<Rightarrow> secret option"
  fw_update :: bool

datatype finalize_error = WorkdirUnreadable | NoOnionDir | KeyFileUnreadable string

definition key_files :: "string list" where
  "key_files = [''hs_ed25519_secret_key'', ''hs_ed25519_public_key'', ''hostname'']"

definition is_onion_dir :: "workdir_entry \<Rightarrow> bool" where
  "is_onion_dir e \<longleftrightarrow> we_is_dir e \<and> has_suffix (we_name e) ''.onion''"

definition onion_subdir :: "workdir_entry list option \<Rightarrow> (finalize_error, workdir_entry) result" where
  "onion_subdir entries =
     (case entries of
        None \<Rightarrow> Inl WorkdirUnreadable
      | Some es \<Rightarrow> (case find is_onion_dir es of None \<Rightarrow> Inl NoOnionDir | Some d \<Rightarrow> Inr d))"

fun read_files :: "byte list gomap \<Rightarrow> string list \<Rightarrow> (finalize_error, byte list gomap) result" where
  "read_files files [] = Inr []"
| "read_files files (f # fs) =
     (case map_of files f of
        None \<Rightarrow> Inl (KeyFileUnreadable f)
      | Some b \<Rightarrow> bindE (read_files files fs) (\<lambda>out. Inr ((f, b) # out)))"

definition read_key_files :: "workdir_entry list option \<Rightarrow> (finalize_error, byte list gomap) result" where
  "read_key_files entries = bindE (onion_subdir entries) (\<lambda>d. read_files (we_files d) key_files)"

definition copy_data :: "byte list gomap \<Rightarrow> byte list gomap \<Rightarrow> byte list gomap" where
  "copy_data dst src = fold (\<lambda>(k, v). AList.update k v) src dst"

definition finalize_flag_defaults :: "string gomap" where
  "finalize_flag_defaults = [(''workdir'', ''/workdir''), (''namespace'', []), (''secret-name'', [])]"

definition finalize_run :: "finalize_world \<Rightarrow> string \<Rightarrow> string \<Rightarrow> string \<Rightarrow> nat \<times> secret option" where
  "finalize_run w dir ns name =
     (if ns = [] \<or> name = [] then (2, None)
      else case read_key_files (fw_dir w dir) of
        Inl _ \<Rightarrow> (1, None)
      | Inr data \<Rightarrow>
          if \<not> fw_client w then (1, None)
          else case fw_get w ns name of
            None \<Rightarrow> (1, None)
          | Some s \<Rightarrow>
              if fw_update w then (0, Some (s\<lparr>sec_data := copy_data (sec_data s) data\<rparr>)) else (1, None))"

definition finalize_main :: "finalize_world \<Rightarrow> string list \<Rightarrow> nat \<times> secret option" where
  "finalize_main w args =
     (case go_flags finalize_flag_defaults args of
        None \<Rightarrow> (2, None)
      | Some fl \<Rightarrow>
          finalize_run w (flag_or_empty fl ''workdir'') (flag_or_empty fl ''namespace'')
            (flag_or_empty fl ''secret-name''))"

lemma copy_data_lookup:
  "distinct (map fst src) \<Longrightarrow>
     map_of (copy_data dst src) k = (case map_of src k of Some v \<Rightarrow> Some v | None \<Rightarrow> map_of dst k)"
proof (induction src arbitrary: dst)
  case (Cons p src)
  obtain a b where p: "p = (a, b)" by (cases p)
  then have "map_of src a = None" using Cons.prems by (simp add: map_of_eq_None_iff)
  then show ?case using Cons by (auto simp: p copy_data_def update_conv' split: option.splits)
qed (simp add: copy_data_def)

lemma finalize_args:
  "go_flags finalize_flag_defaults
     [''--workdir'', dir, ''--namespace'', ns, ''--secret-name'', name]
   = Some [(''workdir'', dir), (''namespace'', ns), (''secret-name'', name)]"
  using go_flags_next [of "''workdir''" finalize_flag_defaults] go_flags_next [of "''namespace''"]
    go_flags_next [of "''secret-name''"]
  by (simp add: finalize_flag_defaults_def)

text \<open>
  C38: A harvested key reaches the operator. When the search has left a directory with the files of a
  well-formed key pair, the finalize container, run with the arguments of the Job that the operator
  builds, updates exactly the output Secret the operator made (which its role permits it to read and
  update, and no other), keeps that Secret's metadata and other entries, and the operator then sees
  it as populated and parses exactly that key pair from it.
\<close>

theorem harvested_key_reaches_operator:
  assumes "vanity_job (vanity_config R g wanted) = Inr j" "c \<in> set (pod_containers (job_pod j))"
    and "fw_dir w ''/workdir'' = Some es" "find is_onion_dir es = Some d" "wf_key_pair kp"
    and "map_of (we_files d) ''hs_ed25519_secret_key'' = Some (secret_key_file kp)"
    and "map_of (we_files d) ''hs_ed25519_public_key'' = Some (public_key_file kp)"
    and "map_of (we_files d) ''hostname'' = Some h"
    and "fw_client w" "fw_update w" "fw_get w (gw_ns g) (vanity_out_secret_name (gw_name g)) = Some s"
  shows "\<exists>s'. finalize_main w (ct_args c) = (0, Some s') \<and> sec_meta s' = sec_meta s
    \<and> vanity_out_populated s'
    \<and> parse_files (data_entry (sec_data s') file_secret_key_name) (data_entry (sec_data s') file_public_key_name) = Inr kp
    \<and> (\<forall>k. k \<notin> set key_files \<longrightarrow> map_of (sec_data s') k = map_of (sec_data s) k)
    \<and> (\<forall>v n. v \<in> {''get'', ''update''} \<longrightarrow>
         role_allows (build_vanity_role g) v [] ''secrets'' n = (n = vanity_out_secret_name (gw_name g)))"
proof -
  let ?data = "[(''hs_ed25519_secret_key'', secret_key_file kp), (''hs_ed25519_public_key'', public_key_file kp), (''hostname'', h)]"
  let ?s' = "s\<lparr>sec_data := copy_data (sec_data s) ?data\<rparr>"
  have ns: "gw_ns g \<noteq> []" "vanity_out_secret_name (gw_name g) \<noteq> []"
    using assms(1) by (auto simp: vanity_job_def guardE_Inr_iff vanity_config_def)
  have args: "ct_args c = [''--workdir'', ''/workdir'', ''--namespace'', gw_ns g,
      ''--secret-name'', vanity_out_secret_name (gw_name g)]"
    using assms(1,2) by (auto simp: vanity_job_def guardE_Inr_iff vanity_config_def vanity_pod_def
        blank_container_def vanity_workdir_def Let_def)
  have data: "read_key_files (fw_dir w ''/workdir'') = Inr ?data"
    using assms(3,4,6-8) by (simp add: read_key_files_def onion_subdir_def key_files_def)
  have "finalize_main w (ct_args c) = (0, Some ?s')"
    using ns assms(9-11) unfolding args
    by (simp add: finalize_main_def finalize_args flag_or_empty_def finalize_run_def data)
  moreover have look: "map_of (sec_data ?s') k = (case map_of ?data k of Some v \<Rightarrow> Some v | None \<Rightarrow> map_of (sec_data s) k)" for k
    by (simp add: copy_data_lookup)
  then have entries: "data_entry (sec_data ?s') file_secret_key_name = secret_key_file kp"
    "data_entry (sec_data ?s') file_public_key_name = public_key_file kp"
    by (simp_all add: data_entry_def key_names)
  moreover have "parse_files (secret_key_file kp) (public_key_file kp) = Inr kp"
    using assms(5) by (simp add: parse_files_Inr)
  moreover have "vanity_out_populated ?s'"
    unfolding vanity_out_populated_def entries
    using assms(5) by (simp add: secret_key_file_def public_key_file_def wf_key_pair_def key_consts)
  moreover have "k \<notin> set key_files \<Longrightarrow> map_of (sec_data ?s') k = map_of (sec_data s) k" for k
    using look [of k] by (simp add: key_files_def)
  moreover have "role_allows (build_vanity_role g) v [] ''secrets'' n = (n = vanity_out_secret_name (gw_name g))"
    if "v \<in> {''get'', ''update''}" for v n
    using that by (auto simp: role_allows_def rule_allows_def build_vanity_role_def)
  ultimately show ?thesis by (intro exI [of _ ?s']) simp
qed

definition demo_pair :: key_pair where
  "demo_pair = \<lparr>kp_public = replicate 32 0, kp_expanded = replicate 31 0 @ 0x40 # replicate 32 0\<rparr>"

definition demo_found :: workdir_entry where
  "demo_found = \<lparr>we_name = ''abcxyz.onion'', we_is_dir = True,
     we_files = [(''hostname'', []), (''hs_ed25519_public_key'', public_key_file demo_pair),
       (''hs_ed25519_secret_key'', secret_key_file demo_pair)]\<rparr>"

definition demo_finalize_world :: finalize_world where
  "demo_finalize_world =
     \<lparr>fw_dir = (\<lambda>d. if d = ''/workdir'' then Some [demo_found] else None), fw_client = True,
      fw_get = (\<lambda>ns n. Some (build_vanity_out_secret (sample_gateway ''shop''))), fw_update = True\<rparr>"

lemma demo_pair_wf: "wf_key_pair demo_pair"
  by (simp add: wf_key_pair_def demo_pair_def looks_clamped_def nth_append expanded_secret_len_def)

theorem harvested_key_reaches_operator_witness:
  "\<exists>j s'. vanity_job (vanity_config sample_reconciler (sample_gateway ''shop'') ''abc'') = Inr j
     \<and> finalize_main demo_finalize_world (ct_args (hd (pod_containers (job_pod j)))) = (0, Some s')
     \<and> vanity_out_populated s'"
proof -
  obtain j where j: "vanity_job (vanity_config sample_reconciler (sample_gateway ''shop'') ''abc'') = Inr j"
    by (auto simp: vanity_job_def vanity_config_def guardE_def sample_reconciler_def sample_images_def
        sample_gateway_def vanity_prefix_ok_def base32_char_def vanity_rbac_name_def vanity_out_secret_name_def Let_def)
  have c: "hd (pod_containers (job_pod j)) \<in> set (pod_containers (job_pod j))"
    using j by (auto simp: vanity_job_def guardE_Inr_iff vanity_pod_def Let_def)
  show ?thesis
    using harvested_key_reaches_operator [OF j c, of demo_finalize_world "[demo_found]" demo_found demo_pair "[]"] j
    by (auto simp: demo_finalize_world_def demo_found_def demo_pair_wf is_onion_dir_def has_suffix_def)
qed

end
