(* ===== verification/Router_Main.thy ===== *)
theory Router_Main
  imports Cmd_Flags Router Resources_Ha
begin

text \<open>
  \<open>cmd/router\<close>: the flags of the in-pod router, its exit codes and its probe handler. A run is the exit
  code with the configuration given to \<open>router.New\<close> and the address it listens on, or the exit before
  that. What the run meets is a \<open>router_host\<close>: the calls \<open>router.New\<close> makes, and how the traffic listener
  ends (an error other than a shutdown, or a shutdown). Probe paths are the cleaned ones; the probe
  listener's failure is only logged.
\<close>

record router_host =
  rh_calls :: router_calls
  rh_listen_fails :: bool

datatype router_outcome =
    UsageError
  | FlagsMissing
  | InitFailed router_error
  | Served string string proxy bool

definition exit_code :: "router_outcome \<Rightarrow> nat" where
  "exit_code r = (case r of
     UsageError \<Rightarrow> 2 | FlagsMissing \<Rightarrow> 2 | InitFailed _ \<Rightarrow> 1 | Served _ _ _ failed \<Rightarrow> if failed then 1 else 0)"

definition healthz_status :: "string \<Rightarrow> nat" where
  "healthz_status path = (if path = ''/healthz'' then 200 else 404)"

definition router_flag_defaults :: "string gomap" where
  "router_flag_defaults =
     [(''listen'', ''127.0.0.1:9080''), (''probe-addr'', '':8081''), (''gateway'', []), (''namespace'', [])]"

definition router_config_of :: "string \<Rightarrow> string \<Rightarrow> router_config" where
  "router_config_of name ns =
     \<lparr>rc_gateway_name = name, rc_gateway_namespace = ns, rc_rest_config = False, rc_resolve = None\<rparr>"

definition router_main :: "router_host \<Rightarrow> string list \<Rightarrow> router_outcome" where
  "router_main h args =
     (case go_flags router_flag_defaults args of
        None \<Rightarrow> UsageError
      | Some fl \<Rightarrow>
          if flag_or_empty fl ''gateway'' = [] \<or> flag_or_empty fl ''namespace'' = [] then FlagsMissing
          else case router_new (router_config_of (flag_or_empty fl ''gateway'') (flag_or_empty fl ''namespace'')) (rh_calls h) of
            Inl e \<Rightarrow> InitFailed e
          | Inr p \<Rightarrow> Served (flag_or_empty fl ''listen'') (flag_or_empty fl ''probe-addr'') p (rh_listen_fails h))"

lemma backend_router_args:
  "go_flags router_flag_defaults (ct_args (backend_router_container g images)) =
     Some [(''listen'', ''127.0.0.1:9080''), (''probe-addr'', '':8081''), (''gateway'', gw_name g), (''namespace'', gw_ns g)]"
  using go_flags_eq [of "''gateway''" router_flag_defaults "gw_name g"] go_flags_eq [of "''namespace''" _ "gw_ns g" "[]"]
  by (simp add: backend_router_container_def blank_container_def router_flag_defaults_def)

lemma listen_port: "show_int 9080 = ''9080''" "show_int 8081 = ''8081''"
  by (simp_all add: show_int_def show_nat.simps digit_char_def digit_alphabet_def)

lemma sidecar_router_args:
  "go_flags router_flag_defaults (ct_args (router_sidecar g images)) =
     Some [(''listen'', ''127.0.0.1:9080''), (''probe-addr'', '':8081''), (''gateway'', gw_name g), (''namespace'', gw_ns g)]"
  using go_flags_next [of "''listen''" router_flag_defaults] go_flags_next [of "''probe-addr''"]
    go_flags_next [of "''gateway''"] go_flags_next [of "''namespace''" _ "gw_ns g" "[]"]
  by (simp add: router_sidecar_def blank_container_def router_flag_defaults_def listen_port
      loopback_target_host_def loopback_target_port_def router_probe_port_def)

text \<open>The router of a pod of either mode serves the Gateway it belongs to, on the address the torrc
  forwards to, and its probe port is the one the pod's probes use.\<close>

lemma router_container_main:
  assumes "args \<in> {ct_args (router_sidecar g images), ct_args (backend_router_container g images)}"
    and "gw_name g \<noteq> []" "gw_ns g \<noteq> []"
  shows "router_main h args =
    (case router_new (router_config_of (gw_name g) (gw_ns g)) (rh_calls h) of
       Inl e \<Rightarrow> InitFailed e
     | Inr p \<Rightarrow> Served ''127.0.0.1:9080'' '':8081'' p (rh_listen_fails h))"
  using assms by (auto simp: router_main_def backend_router_args sidecar_router_args flag_or_empty_def split: sum.splits)

end
