(* ===== verification/Router_Process.thy ===== *)
theory Router_Process
  imports Router_Main
begin

text \<open>
  The router process of \<open>cmd/router\<close> once \<open>router.New\<close> has returned: the main goroutine in
  \<open>ListenAndServe\<close>, the goroutine that waits for the signal and shuts the two servers down, and the one of
  the probe listener, as a step relation. \<open>rp_in_flight\<close> counts the requests that have been accepted
  and not answered. The steps of the servers are what \<open>net/http\<close> documents: as soon as \<open>Shutdown\<close>
  is called the listener is closed and \<open>ListenAndServe\<close> returns \<open>ErrServerClosed\<close>, while \<open>Shutdown\<close>
  itself waits for the requests in flight or for its context. When \<open>main\<close> returns the process ends, and with it
  its other goroutines: no step leaves such a state. The two calls of the shutdown goroutine share one
  deadline; the second, which closes the probe listener, is part of the step that ends the first.
\<close>

datatype main_phase = Starting | Listening | Exited nat

datatype shutdown_phase = Waiting | Draining | Finished

datatype probe_phase = ProbeStarting | ProbeUp | ProbeDown

record router_process =
  rp_main :: main_phase
  rp_signalled :: bool
  rp_shutdown :: shutdown_phase
  rp_probe :: probe_phase
  rp_in_flight :: nat

definition router_started :: router_process where
  "router_started =
     \<lparr>rp_main = Starting, rp_signalled = False, rp_shutdown = Waiting, rp_probe = ProbeStarting, rp_in_flight = 0\<rparr>"

definition running :: "router_process \<Rightarrow> bool" where
  "running s \<longleftrightarrow> rp_main s = Starting \<or> rp_main s = Listening"

inductive router_step :: "router_process \<Rightarrow> router_process \<Rightarrow> bool" where
  signal: "running s \<Longrightarrow> router_step s (s\<lparr>rp_signalled := True\<rparr>)"
| bind_ok: "rp_main s = Starting \<Longrightarrow> rp_shutdown s = Waiting \<Longrightarrow> router_step s (s\<lparr>rp_main := Listening\<rparr>)"
| bind_fails: "rp_main s = Starting \<Longrightarrow> router_step s (s\<lparr>rp_main := Exited 1\<rparr>)"
| accept_ok: "rp_main s = Listening \<Longrightarrow> rp_shutdown s = Waiting
    \<Longrightarrow> router_step s (s\<lparr>rp_in_flight := rp_in_flight s + 1\<rparr>)"
| accept_fails: "rp_main s = Listening \<Longrightarrow> rp_shutdown s = Waiting \<Longrightarrow> router_step s (s\<lparr>rp_main := Exited 1\<rparr>)"
| answer: "running s \<Longrightarrow> 0 < rp_in_flight s \<Longrightarrow> router_step s (s\<lparr>rp_in_flight := rp_in_flight s - 1\<rparr>)"
| closed: "running s \<Longrightarrow> rp_shutdown s \<noteq> Waiting \<Longrightarrow> router_step s (s\<lparr>rp_main := Exited 0\<rparr>)"
| shut: "running s \<Longrightarrow> rp_signalled s \<Longrightarrow> rp_shutdown s = Waiting \<Longrightarrow> router_step s (s\<lparr>rp_shutdown := Draining\<rparr>)"
| drained: "running s \<Longrightarrow> rp_shutdown s = Draining \<Longrightarrow> rp_in_flight s = 0
    \<Longrightarrow> router_step s (s\<lparr>rp_shutdown := Finished, rp_probe := ProbeDown\<rparr>)"
| expired: "running s \<Longrightarrow> rp_shutdown s = Draining
    \<Longrightarrow> router_step s (s\<lparr>rp_shutdown := Finished, rp_probe := ProbeDown\<rparr>)"
| probe_bind: "running s \<Longrightarrow> rp_probe s = ProbeStarting \<Longrightarrow> router_step s (s\<lparr>rp_probe := ProbeUp\<rparr>)"
| probe_fails: "running s \<Longrightarrow> rp_probe s \<noteq> ProbeDown \<Longrightarrow> router_step s (s\<lparr>rp_probe := ProbeDown\<rparr>)"

abbreviation router_steps :: "router_process \<Rightarrow> router_process \<Rightarrow> bool" where
  "router_steps \<equiv> router_step\<^sup>*\<^sup>*"

inductive_cases router_step_cases: "router_step s s'"

lemma exited_no_step: "router_step s s' \<Longrightarrow> running s"
  by (erule router_step_cases) (auto simp: running_def)

lemmas router_step_intros = router_step.intros converse_rtranclp_into_rtranclp [of router_step]

text \<open>How the process may end: with 1 only when a listener failed, with 0 only after a signal.\<close>

definition process_inv :: "router_process \<Rightarrow> bool" where
  "process_inv s \<longleftrightarrow>
     (rp_shutdown s \<noteq> Waiting \<longrightarrow> rp_signalled s) \<and>
     (rp_shutdown s = Finished \<longrightarrow> rp_probe s = ProbeDown) \<and>
     (case rp_main s of
        Starting \<Rightarrow> rp_in_flight s = 0
      | Listening \<Rightarrow> True
      | Exited c \<Rightarrow> c = 1 \<or> c = 0 \<and> rp_shutdown s \<noteq> Waiting)"

lemma process_inv_step: "router_step s s' \<Longrightarrow> process_inv s \<Longrightarrow> process_inv s'"
  by (induction rule: router_step.induct) (auto simp: process_inv_def running_def split: main_phase.splits)

lemma process_inv_started: "process_inv router_started"
  by (simp add: process_inv_def router_started_def)

lemma process_inv_reachable: "router_steps router_started s \<Longrightarrow> process_inv s"
  by (induction rule: rtranclp_induct) (simp_all add: process_inv_started process_inv_step)

text \<open>The exit code is the one \<open>router_main\<close> gives for a run that ended that way.\<close>

lemma process_exit_code:
  assumes "router_steps router_started s" "rp_main s = Exited c"
    and "router_main h args = Served l a p (c = 1)"
  shows "exit_code (router_main h args) = c" "c = 0 \<longrightarrow> rp_signalled s"
  using process_inv_reachable [OF assms(1)] assms(2,3) by (auto simp: process_inv_def exit_code_def)

text \<open>The failure of the probe listener never ends the process, and no request is accepted once the
  shutdown has begun.\<close>

lemma shutdown_accepts_nothing:
  "router_step s s' \<Longrightarrow> rp_shutdown s \<noteq> Waiting \<Longrightarrow> rp_in_flight s' \<le> rp_in_flight s"
  by (induction rule: router_step.induct) auto

text \<open>
  After a signal nothing can keep the process alive, and nothing makes it wait either: from every
  running state two steps of its own end it with code 0, whatever is in flight.
\<close>

lemma signalled_exits:
  assumes "running s" "rp_signalled s"
  shows "\<exists>s'. router_steps s s' \<and> rp_main s' = Exited 0 \<and> rp_in_flight s' = rp_in_flight s"
proof (cases "rp_shutdown s = Waiting")
  case True
  then have "router_step s (s\<lparr>rp_shutdown := Draining\<rparr>)" using assms by (rule_tac shut)
  moreover have "router_step (s\<lparr>rp_shutdown := Draining\<rparr>) (s\<lparr>rp_shutdown := Draining, rp_main := Exited 0\<rparr>)"
    using closed [of "s\<lparr>rp_shutdown := Draining\<rparr>"] assms by (simp add: running_def)
  ultimately show ?thesis
    by (intro exI [of _ "s\<lparr>rp_shutdown := Draining, rp_main := Exited 0\<rparr>"]) (auto intro: router_step_intros)
next
  case False
  then have "router_step s (s\<lparr>rp_main := Exited 0\<rparr>)" using assms by (rule_tac closed)
  then show ?thesis by (intro exI [of _ "s\<lparr>rp_main := Exited 0\<rparr>"]) auto
qed

definition serving_requests :: "nat \<Rightarrow> router_process" where
  "serving_requests n = router_started\<lparr>rp_main := Listening, rp_in_flight := n\<rparr>"

lemma serving_requests_reachable: "router_steps router_started (serving_requests n)"
proof (induction n)
  case 0
  show ?case using bind_ok [of router_started] by (auto simp: serving_requests_def router_started_def)
next
  case (Suc n)
  have "router_step (serving_requests n) (serving_requests (Suc n))"
    using accept_ok [of "serving_requests n"] by (simp add: serving_requests_def router_started_def)
  then show ?case using Suc.IH by (rule rtranclp.rtrancl_into_rtrancl [rotated])
qed

text \<open>So the 15 seconds of the shutdown are not granted: any number of requests may be cut off by an
  orderly termination.\<close>

lemma shutdown_drops_requests:
  "\<exists>s. router_steps router_started s \<and> rp_main s = Exited 0 \<and> rp_in_flight s = n"
proof -
  let ?s = "(serving_requests n)\<lparr>rp_signalled := True\<rparr>"
  have "router_step (serving_requests n) ?s"
    by (rule router_step.signal) (simp add: running_def serving_requests_def)
  then have r: "router_steps router_started ?s"
    using serving_requests_reachable by (rule rtranclp.rtrancl_into_rtrancl [rotated])
  have "running ?s" "rp_signalled ?s" "rp_in_flight ?s = n" by (simp_all add: running_def serving_requests_def)
  then show ?thesis using signalled_exits [of ?s] r by (auto intro: rtranclp_trans)
qed

text \<open>The probe may answer before the traffic listener is bound: the two listeners start on their own.\<close>

lemma probe_before_listener:
  "\<exists>s. router_steps router_started s \<and> rp_probe s = ProbeUp \<and> rp_main s = Starting"
proof -
  have "router_step router_started (router_started\<lparr>rp_probe := ProbeUp\<rparr>)"
    by (rule probe_bind) (simp_all add: running_def router_started_def)
  then show ?thesis by (intro exI [of _ "router_started\<lparr>rp_probe := ProbeUp\<rparr>"]) (auto simp: router_started_def)
qed

end
