(* ===== verification/Manager.thy ===== *)
theory Manager
  imports Gateway_Upserts Resources_Ha
begin

text \<open>
  \<open>cmd/manager\<close>: what the operator makes of its command line. \<open>prepare\<close> is the part of \<open>main\<close> before the
  manager exists (the checks, the pod networks, the test network file, the server options and the
  reconciler it builds), with the exit code as the error; \<open>start_manager\<close> is the rest: the
  registration of the controllers and health checks, each of which may fail, and the run.
  \<open>manager_flags\<close> are the parsed flags. The controller-runtime calls are known by their outcome;
  the zap flags and log lines are left out.
\<close>

subsection \<open>Flags\<close>

record manager_flags =
  mf_metrics_addr :: string
  mf_metrics_cert_path :: string
  mf_metrics_cert_name :: string
  mf_metrics_cert_key :: string
  mf_webhook_cert_path :: string
  mf_webhook_cert_name :: string
  mf_webhook_cert_key :: string
  mf_leader_elect :: bool
  mf_probe_addr :: string
  mf_secure_metrics :: bool
  mf_http2 :: bool
  mf_tor_image :: string
  mf_router_image :: string
  mf_init_image :: string
  mf_mkp224o_image :: string
  mf_finalize_image :: string
  mf_vanity_deadline :: int
  mf_onionbalance_image :: string
  mf_obrefresh_image :: string
  mf_network_policy :: bool
  mf_pod_cidrs :: string
  mf_testing_file :: string
  mf_testing_namespace :: string

definition manager_defaults :: manager_flags where
  "manager_defaults =
     \<lparr>mf_metrics_addr = ''0'', mf_metrics_cert_path = [], mf_metrics_cert_name = ''tls.crt'',
      mf_metrics_cert_key = ''tls.key'', mf_webhook_cert_path = [], mf_webhook_cert_name = ''tls.crt'',
      mf_webhook_cert_key = ''tls.key'', mf_leader_elect = False, mf_probe_addr = '':8081'',
      mf_secure_metrics = True, mf_http2 = False, mf_tor_image = ''ghcr.io/chimbosonic/tor:0.4.9'',
      mf_router_image = ''ghcr.io/chimbosonic/tor-gateway-router:dev'',
      mf_init_image = ''ghcr.io/chimbosonic/tor-gateway-tor-init:dev'',
      mf_mkp224o_image = ''ghcr.io/chimbosonic/mkp224o:dev'',
      mf_finalize_image = ''ghcr.io/chimbosonic/tor-gateway-vanity-finalize:dev'',
      mf_vanity_deadline = 3600 * 1000000000, mf_onionbalance_image = [], mf_obrefresh_image = [],
      mf_network_policy = True, mf_pod_cidrs = [], mf_testing_file = [], mf_testing_namespace = []\<rparr>"

subsection \<open>Pod networks\<close>

text \<open>
  \<open>net.ParseCIDR\<close>: an address without a zone, a slash, and a decimal mask of at most the address's
  width. The text before the first of \<open>.\<close>, \<open>:\<close> and \<open>%\<close> decides which kind of address it is.
\<close>

definition is_ipv4_text :: "string \<Rightarrow> bool" where
  "is_ipv4_text s \<longleftrightarrow>
     (case filter (\<lambda>c. c = CHR ''.'' \<or> c = CHR '':'' \<or> c = CHR ''%'') s of
        [] \<Rightarrow> False | c # _ \<Rightarrow> c = CHR ''.'')"

definition cidr_ok :: "string \<Rightarrow> bool" where
  "cidr_ok s \<longleftrightarrow>
     (let addr = takeWhile (\<lambda>c. c \<noteq> CHR ''/'') s; mask = drop (length addr + 1) s in
      CHR ''/'' \<in> set s \<and> parse_ip addr \<noteq> None \<and>
      (case parse_nat mask of None \<Rightarrow> False
       | Some n \<Rightarrow> n \<le> (if is_ipv4_text addr then 32 else 128)))"

definition pod_cidrs :: "string \<Rightarrow> (nat, string list) result" where
  "pod_cidrs raw =
     (if raw = [] then Inr []
      else let cs = map trim_space (split_on CHR '','' raw)
           in guardE (\<not> list_all cidr_ok cs) 2 (Inr cs))"

subsection \<open>Servers\<close>

record server_options =
  so_addr :: string
  so_next_protos :: "string list option"
  so_secure :: bool
  so_authn_filter :: bool
  so_cert_dir :: string
  so_cert_name :: string
  so_key_name :: string

definition tls_next_protos :: "manager_flags \<Rightarrow> string list option" where
  "tls_next_protos f = (if mf_http2 f then None else Some [''http/1.1''])"

definition webhook_options :: "manager_flags \<Rightarrow> server_options" where
  "webhook_options f =
     (let given = mf_webhook_cert_path f \<noteq> [] in
      \<lparr>so_addr = [], so_next_protos = tls_next_protos f, so_secure = True, so_authn_filter = False,
       so_cert_dir = (if given then mf_webhook_cert_path f else []),
       so_cert_name = (if given then mf_webhook_cert_name f else []),
       so_key_name = (if given then mf_webhook_cert_key f else [])\<rparr>)"

definition metrics_options :: "manager_flags \<Rightarrow> server_options" where
  "metrics_options f =
     (let given = mf_metrics_cert_path f \<noteq> [] in
      \<lparr>so_addr = mf_metrics_addr f, so_next_protos = tls_next_protos f, so_secure = mf_secure_metrics f,
       so_authn_filter = mf_secure_metrics f,
       so_cert_dir = (if given then mf_metrics_cert_path f else []),
       so_cert_name = (if given then mf_metrics_cert_name f else []),
       so_key_name = (if given then mf_metrics_cert_key f else [])\<rparr>)"

subsection \<open>Preparation\<close>

record manager_setup =
  ms_reconciler :: gateway_reconciler
  ms_metrics :: server_options
  ms_webhook :: server_options
  ms_probe_addr :: string
  ms_leader_election :: bool
  ms_leader_id :: string

definition runtime_images_of :: "manager_flags \<Rightarrow> runtime_images" where
  "runtime_images_of f =
     \<lparr>im_tor = mf_tor_image f, im_router = mf_router_image f, im_tor_init = mf_init_image f,
      im_mkp224o = mf_mkp224o_image f, im_vanity_finalize = mf_finalize_image f, im_operator = [],
      im_onionbalance = mf_onionbalance_image f, im_obrefresh = mf_obrefresh_image f\<rparr>"

definition testing_include :: "(string \<Rightarrow> string option) \<Rightarrow> manager_flags \<Rightarrow> (nat, string) result" where
  "testing_include read f =
     (if mf_testing_file f = [] then Inr []
      else case read (mf_testing_file f) of None \<Rightarrow> Inl 1 | Some t \<Rightarrow> Inr t)"

definition prepare :: "(string \<Rightarrow> string option) \<Rightarrow> manager_flags \<Rightarrow> (nat, manager_setup) result" where
  "prepare read f =
     guardE (mf_tor_image f = [] \<or> mf_init_image f = []) 2
      (bindE (pod_cidrs (mf_pod_cidrs f)) (\<lambda>cidrs.
       bindE (testing_include read f) (\<lambda>include. Inr
         \<lparr>ms_reconciler =
            \<lparr>gr_images = runtime_images_of f, gr_recorder = True, gr_vanity_deadline = mf_vanity_deadline f,
             gr_api_reader = True, gr_network_policy_enabled = mf_network_policy f, gr_pod_cidrs = cidrs,
             gr_testing_include = include, gr_testing_namespace = mf_testing_namespace f\<rparr>,
          ms_metrics = metrics_options f, ms_webhook = webhook_options f, ms_probe_addr = mf_probe_addr f,
          ms_leader_election = mf_leader_elect f, ms_leader_id = ''6a89356d.torgateway.io''\<rparr>)))"

subsection \<open>Schemes\<close>

text \<open>
  The Go types a client can encode are those of its scheme; a kind is registered under the group and
  version of the package it comes from. \<open>init\<close> puts four packages into the scheme of the operator: the
  contents of client-go and of the two Gateway API packages are arguments, those of the policy
  package are what the \<open>init\<close> functions of \<open>api/v1alpha1\<close> register.
\<close>

type_synonym scheme_entry = "(string \<times> string) \<times> kind"

definition policy_group_version :: "string \<times> string" where
  "policy_group_version = (''policy.torgateway.io'', ''v1alpha1'')"

definition policy_scheme :: "scheme_entry list" where
  "policy_scheme = map (Pair policy_group_version) [KObp, KTcap, KTsp]"

definition group_version_of :: "kind \<Rightarrow> string \<times> string" where
  "group_version_of k =
     (case k of
        KTsp \<Rightarrow> policy_group_version | KTcap \<Rightarrow> policy_group_version | KObp \<Rightarrow> policy_group_version
      | KGateway \<Rightarrow> (gateway_api_group, ''v1'') | KGatewayClass \<Rightarrow> (gateway_api_group, ''v1'') | KRoute \<Rightarrow> (gateway_api_group, ''v1'')
      | KGrant \<Rightarrow> (gateway_api_group, ''v1beta1'')
      | KDeployment \<Rightarrow> (''apps'', ''v1'') | KStatefulSet \<Rightarrow> (''apps'', ''v1'') | KJob \<Rightarrow> (''batch'', ''v1'')
      | KRole \<Rightarrow> (''rbac.authorization.k8s.io'', ''v1'') | KRoleBinding \<Rightarrow> (''rbac.authorization.k8s.io'', ''v1'')
      | KNetworkPolicy \<Rightarrow> (''networking.k8s.io'', ''v1'')
      | _ \<Rightarrow> ([], ''v1''))"

definition manager_scheme ::
    "scheme_entry list \<Rightarrow> scheme_entry list \<Rightarrow> scheme_entry list \<Rightarrow> scheme_entry list" where
  "manager_scheme clientgo gwv1 gwv1beta1 = clientgo @ policy_scheme @ gwv1 @ gwv1beta1"

definition encodable :: "scheme_entry list \<Rightarrow> kind \<Rightarrow> bool" where
  "encodable sch k \<longleftrightarrow> (group_version_of k, k) \<in> set sch"

text \<open>Every kind the controllers read or write can be encoded, and each installation is needed for
  some of them.\<close>

lemma manager_scheme_complete:
  assumes "\<forall>k. k \<in> {KTsp, KTcap, KObp, KGateway, KGatewayClass, KRoute, KGrant} \<or> encodable clientgo k"
    and "encodable gwv1 KGateway" "encodable gwv1 KGatewayClass" "encodable gwv1 KRoute" "encodable gwv1beta1 KGrant"
  shows "encodable (manager_scheme clientgo gwv1 gwv1beta1) k"
proof -
  have "encodable policy_scheme k" if "k \<in> {KTsp, KTcap, KObp}"
    using that by (auto simp: encodable_def policy_scheme_def group_version_of_def)
  with assms show ?thesis unfolding manager_scheme_def encodable_def set_append by blast
qed

lemma grants_need_v1beta1:
  assumes "\<forall>e \<in> set (clientgo @ gwv1). fst e \<noteq> (gateway_api_group, ''v1beta1'')"
  shows "\<not> encodable (manager_scheme clientgo gwv1 []) KGrant"
  using assms by (force simp: encodable_def manager_scheme_def policy_scheme_def group_version_of_def)

subsection \<open>Start\<close>

text \<open>The calls after the preparation, in order; \<open>ok\<close> says which succeed.\<close>

definition manager_calls :: "string list" where
  "manager_calls =
     [''NewManager'', ''gatewayclass'', ''gateway'', ''httproute'', ''torservicepolicy'',
      ''torclientauthpolicy'', ''onionbalancepolicy'', ''healthz'', ''readyz'', ''Start'']"

fun start_manager :: "(string \<Rightarrow> bool) \<Rightarrow> string list \<Rightarrow> nat \<times> string list" where
  "start_manager ok [] = (0, [])"
| "start_manager ok (c # cs) =
     (if \<not> ok c then (1, []) else case start_manager ok cs of (code, done) \<Rightarrow> (code, c # done))"

definition manager_main ::
    "(string \<Rightarrow> string option) \<Rightarrow> (string \<Rightarrow> bool) \<Rightarrow> manager_flags \<Rightarrow> nat \<times> string list" where
  "manager_main read ok f =
     (case prepare read f of Inl code \<Rightarrow> (code, []) | Inr _ \<Rightarrow> start_manager ok manager_calls)"

lemma start_manager_prefix:
  "start_manager ok cs = (let d = takeWhile ok cs in (if d = cs then 0 else 1, d))"
  by (induction cs) (auto simp: Let_def)

lemma pod_cidrs_Inr:
  "pod_cidrs raw = Inr cs \<longleftrightarrow>
     (if raw = [] then cs = [] else cs = map trim_space (split_on CHR '','' raw) \<and> list_all cidr_ok cs)"
  by (auto simp: pod_cidrs_def guardE_Inr_iff Let_def)

text \<open>
  What the operator runs with is what its flags say, and nothing less strict. When \<open>main\<close> gets past
  its checks: the tor and init images are set, so a Deployment can be refused for a missing image
  only when the router image is empty; every pod network it passes on is a valid CIDR, and a
  NetworkPolicy built with it excludes exactly these networks from the public egress (unless a
  test network replaces that rule); HTTP/2 is off on both servers unless asked for; the metrics
  server filters requests whenever it is served securely; and no test directives are added
  unless a file was named.
\<close>

lemma manager_setup_sound:
  assumes "prepare read f = Inr s"
  shows "(build_deployment g pol auth (gr_images (ms_reconciler s)) = Inl MissingImages \<longleftrightarrow> mf_router_image f = [])
    \<and> list_all cidr_ok (gr_pod_cidrs (ms_reconciler s))
    \<and> final_egress (gr_pod_cidrs (ms_reconciler s)) (gr_testing_namespace (ms_reconciler s)) =
        (if mf_testing_namespace f \<noteq> [] then testing_network_egress (mf_testing_namespace f)
         else public_internet_egress
           (if mf_pod_cidrs f = [] then [] else map trim_space (split_on CHR '','' (mf_pod_cidrs f))))
    \<and> gr_network_policy_enabled (ms_reconciler s) = mf_network_policy f
    \<and> (\<not> mf_http2 f \<longrightarrow> so_next_protos (ms_metrics s) = Some [''http/1.1''] \<and>
          so_next_protos (ms_webhook s) = Some [''http/1.1''])
    \<and> (so_secure (ms_metrics s) \<longrightarrow> so_authn_filter (ms_metrics s))
    \<and> (gr_testing_include (ms_reconciler s) \<noteq> [] \<longrightarrow> read (mf_testing_file f) = Some (gr_testing_include (ms_reconciler s)))"
proof -
  from assms obtain cidrs incl where
    images: "mf_tor_image f \<noteq> []" "mf_init_image f \<noteq> []"
    and cidrs: "pod_cidrs (mf_pod_cidrs f) = Inr cidrs" and inc: "testing_include read f = Inr incl"
    and s: "gr_images (ms_reconciler s) = runtime_images_of f" "gr_pod_cidrs (ms_reconciler s) = cidrs"
      "gr_testing_include (ms_reconciler s) = incl"
      "gr_testing_namespace (ms_reconciler s) = mf_testing_namespace f"
      "gr_network_policy_enabled (ms_reconciler s) = mf_network_policy f"
      "ms_metrics s = metrics_options f" "ms_webhook s = webhook_options f"
    by (auto simp: prepare_def result_iffs)
  have "build_deployment g pol auth (runtime_images_of f) = Inl MissingImages \<longleftrightarrow> mf_router_image f = []"
    using images by (simp add: build_deployment_def runtime_images_of_def guardE_def Let_def)
  moreover have "list_all cidr_ok cidrs"
    using cidrs by (auto simp: pod_cidrs_Inr split: if_splits)
  moreover have "cidrs = (if mf_pod_cidrs f = [] then [] else map trim_space (split_on CHR '','' (mf_pod_cidrs f)))"
    using cidrs by (auto simp: pod_cidrs_Inr split: if_splits)
  moreover have "incl \<noteq> [] \<Longrightarrow> read (mf_testing_file f) = Some incl"
    using inc by (auto simp: testing_include_def split: if_splits option.splits)
  ultimately show ?thesis
    unfolding s by (simp add: final_egress_def metrics_options_def webhook_options_def tls_next_protos_def Let_def)
qed

text \<open>A dual-stack list passes the check although the policy rule it ends in excludes from
  \<open>0.0.0.0/0\<close>.\<close>

lemma pod_network_examples:
  "cidr_ok ''fd00::/8''" "cidr_ok ''10.0.0.0/8''" "\<not> cidr_ok ''10.0.0.0/33''" "\<not> cidr_ok ''10.0.0.0''"
proof -
  have "parse_ipv6_fields 8 [] None ''fd00::'' = Some ([253, 0], Some 2, [])"
    using parse_ipv6_fields.simps(2) [of 7 "[]" None "''fd00::''"] by (simp add: net_defs string_defs upt_rec)
  then show "cidr_ok ''fd00::/8''"
    by (simp add: cidr_ok_def is_ipv4_text_def net_defs string_defs upt_rec)
qed (simp_all add: cidr_ok_def is_ipv4_text_def net_defs string_defs upt_rec)

end
