(* ===== verification/Child_Names.thy ===== *)
theory Child_Names
  imports Names
begin

text \<open>
  How long a Gateway's name may be. Every child of a Gateway is named by a suffix on the Gateway's
  name (\<open>internal/controller/names.go\<close> and the HA resources), and the API server holds names of
  Services and Jobs, pod hostnames and label values to a DNS label of 63 characters. The theorem
  gives the exact bound under which all names the operator makes are labels; nothing in the operator
  checks it.
\<close>

definition dns_char :: "char \<Rightarrow> bool" where
  "dns_char c \<longleftrightarrow> is_lower_alnum c \<or> c = CHR ''-''"

definition dns_label :: "string \<Rightarrow> bool" where
  "dns_label s \<longleftrightarrow>
     s \<noteq> [] \<and> length s \<le> 63 \<and> is_lower_alnum (hd s) \<and> is_lower_alnum (last s) \<and> list_all dns_char s"

definition child_names :: "gateway \<Rightarrow> nat \<Rightarrow> string list" where
  "child_names g replicas =
     [key_secret_name (gw_name g), torrc_config_map_name (gw_name g), deployment_name (gw_name g),
      service_name (gw_name g), router_rbac_name (gw_name g), vanity_rbac_name (gw_name g),
      vanity_out_secret_name (gw_name g), network_policy_name (gw_name g), frontend_name g,
      backend_stateful_set_name g, backend_headless_service_name g, onionbalance_config_map_name g,
      backend_torrc_config_map_name g, frontend_torrc_config_map_name g, cross_ns_master_role_name g]
     @ map (backend_key_secret_name g) [0..<replicas]"

lemma dns_label_extend:
  assumes "s \<noteq> []" "suf \<noteq> []" "list_all dns_char suf" "is_lower_alnum (last suf)"
  shows "dns_label (s @ suf) \<longleftrightarrow>
    is_lower_alnum (hd s) \<and> list_all dns_char s \<and> length s + length suf \<le> 63"
  using assms by (auto simp: dns_label_def)

lemma dns_labelD: "dns_label s \<Longrightarrow> s \<noteq> [] \<and> is_lower_alnum (hd s) \<and> list_all dns_char s"
  by (simp add: dns_label_def)

lemma child_fits:
  assumes "dns_label s" "length s \<le> k" "suf \<noteq> []" "list_all dns_char suf" "is_lower_alnum (last suf)"
    and "length suf + k \<le> 63"
  shows "dns_label (s @ suf)"
  using assms dns_labelD [OF assms(1)] by (subst dns_label_extend) auto

lemma show_nat_dns: "list_all dns_char (show_nat n)"
proof -
  have "d < 10 \<Longrightarrow> digit_char d \<in> set digit_alphabet" for d
    unfolding digit_char_def by (rule nth_mem) (simp add: digit_alphabet_def)
  then show ?thesis
    by (auto simp: list_all_iff dns_char_def is_lower_alnum_def dest!: show_nat_digits)
qed

lemma length_show_nat: "n < 100 \<Longrightarrow> length (show_nat n) \<le> 2"
proof -
  assume "n < 100"
  then have "n div 10 < 10" by simp
  then have "length (show_nat (n div 10)) = 1" by (subst show_nat.simps) simp
  then show ?thesis by (subst show_nat.simps) simp
qed

lemma backend_secret_fits:
  assumes "dns_label (gw_name g)" "length (gw_name g) \<le> 41" "i < 100"
  shows "dns_label (backend_key_secret_name g i)"
proof -
  have "list_all dns_char (''-backend-'' @ show_nat i @ ''-keys'')"
    using show_nat_dns by (simp add: dns_char_def string_defs)
  then show ?thesis
    using assms length_show_nat [of i] unfolding backend_key_secret_name_def
    by (intro child_fits [where k = 41]) (auto simp: is_lower_alnum_def lower_alphabet_def)
qed

text \<open>
  C39: The exact bound on a Gateway's name. All names that the operator derives from it, in both modes
  and for up to a hundred replicas, are DNS labels if and only if the Gateway's name is a DNS label
  of at most 41 characters; the headless Service of the backends alone allows 54.
\<close>

theorem child_names_fit:
  assumes "replicas \<le> 100"
  shows "(list_all dns_label (child_names g replicas) \<longleftrightarrow> dns_label (gw_name g) \<and> length (gw_name g) \<le> 41)
    \<and> (dns_label (gw_name g) \<longrightarrow>
         (dns_label (backend_headless_service_name g) \<longleftrightarrow> length (gw_name g) \<le> 54))"
proof -
  let ?n = "gw_name g"
  have alnum: "is_lower_alnum c \<longleftrightarrow> c \<in> set (lower_alphabet @ digit_alphabet)" for c
    by (simp add: is_lower_alnum_def)
  note chars = alnum dns_char_def lower_alphabet_def digit_alphabet_def
  have fits: "list_all dns_label (child_names g replicas)" if d: "dns_label ?n" and l: "length ?n \<le> 41"
  proof -
    have *: "dns_label (?n @ suf)"
      if "suf \<noteq> []" "list_all dns_char suf" "is_lower_alnum (last suf)" "length suf \<le> 22" for suf
      using d l that by (intro child_fits [where k = 41]) auto
    have "list_all dns_label (map (backend_key_secret_name g) [0..<replicas])"
      using backend_secret_fits [OF d l] assms by (auto simp: list_all_iff)
    then show ?thesis
      using d by (simp add: child_names_def key_secret_name_def torrc_config_map_name_def deployment_name_def
          service_name_def router_rbac_name_def vanity_rbac_name_def vanity_out_secret_name_def
          network_policy_name_def frontend_name_def backend_stateful_set_name_def
          backend_headless_service_name_def onionbalance_config_map_name_def
          backend_torrc_config_map_name_def frontend_torrc_config_map_name_def
          cross_ns_master_role_name_def * chars)
  qed
  have "dns_label ?n \<and> length ?n \<le> 41" if all: "list_all dns_label (child_names g replicas)"
  proof -
    have "dns_label ?n" "dns_label (cross_ns_master_role_name g)"
      using all by (simp_all add: child_names_def deployment_name_def)
    then show ?thesis by (simp add: cross_ns_master_role_name_def frontend_name_def dns_label_def)
  qed
  moreover have "dns_label (backend_headless_service_name g) \<longleftrightarrow> length ?n \<le> 54" if "dns_label ?n"
    unfolding backend_headless_service_name_def using dns_labelD [OF that]
    by (subst dns_label_extend) (auto simp: chars)
  ultimately show ?thesis using fits by blast
qed

theorem child_names_fit_witness:
  "(12::nat) \<le> 100 \<and> (list_all dns_label (child_names (sample_gateway (replicate 42 CHR ''a'')) 12) \<longleftrightarrow> False)"
  using child_names_fit [of 12 "sample_gateway (replicate 42 CHR ''a'')"] by (simp add: sample_gateway_def)

end
