(* ===== verification/Gateway_Controller.thy ===== *)
theory Gateway_Controller
  imports Vanity_Controller Selection "HOL-Library.Char_ord" "HOL-Library.List_Lexorder"
begin

text \<open>
  \<open>internal/controller/gateway_controller.go\<close>: the reconciler of Gateways. It selects the policies of
  a Gateway, decides between a single Tor pod (Mode A), a pool behind Onionbalance (Mode B) and
  refusing to do either, provisions the children of the mode, removes those of the other, and
  publishes the onion address. What the code takes from elsewhere is the record \<open>env\<close>: base-point
  multiplication, the order of a map iteration, the clock, and the texts of API errors.
\<close>

record env =
  ev_bm :: "byte list \<Rightarrow> byte list"
  ev_order :: "resolved_backend list \<Rightarrow> resolved_backend list"
  ev_now :: time
  ev_text :: "api_error \<Rightarrow> string"

subsection \<open>The policies of a Gateway\<close>

definition gateway_class_managed_by_us :: "string \<Rightarrow> (api_error, bool) act" where
  "gateway_class_managed_by_us name =
     (if name = [] then okA False
      else bindP (get_obj KGatewayClass un_gateway_class ([], name)) (\<lambda>r. case r of
        Inl e \<Rightarrow> if e = NotFound then okA False else failA e
      | Inr gc \<Rightarrow> okA (gc_controller gc = controller_name)))"

text \<open>The loop of the three selections: the lexically first name wins.\<close>

definition first_named :: "('p \<Rightarrow> string) \<Rightarrow> 'p list \<Rightarrow> 'p option" where
  "first_named name = foldl (keep_better (\<lambda>x y. name x < name y)) None"

definition select_tsp :: "gateway \<Rightarrow> tor_service_policy list \<Rightarrow> tor_service_policy option" where
  "select_tsp g ps = first_named (\<lambda>p. om_name (tsp_meta p))
     (filter (\<lambda>p. policy_targets (tsp_target_refs (tsp_spec p)) (gw_name g)) ps)"

definition select_tcap :: "gateway \<Rightarrow> tor_client_auth_policy list \<Rightarrow> tor_client_auth_policy option" where
  "select_tcap g ps = first_named (\<lambda>p. om_name (tcap_meta p))
     (filter (\<lambda>p. policy_targets (tcap_target_refs (tcap_spec p)) (gw_name g)) ps)"

definition select_obp :: "gateway \<Rightarrow> onion_balance_policy list \<Rightarrow> onion_balance_policy option" where
  "select_obp g ps = first_named (\<lambda>p. om_name (obp_meta p))
     (filter (\<lambda>p. policy_targets (obp_target_refs (obp_spec p)) (gw_name g)) ps)"

text \<open>The listing goes through the cache or, when it must not be stale, straight to the server.\<close>

definition effective_policy_from :: "bool \<Rightarrow> gateway \<Rightarrow> (api_error, effective_service_policy) act" where
  "effective_policy_from uncached g =
     Call ((if uncached then ApiServerList else ListObjs) KTsp (Some (gw_ns g)) [])
       (\<lambda>r. Ret (bindE (decode_list un_tsp r) (\<lambda>ps. Inr (from_tor_service_policy (select_tsp g ps)))))"

definition find_effective_policy :: "gateway \<Rightarrow> (api_error, effective_service_policy) act" where
  "find_effective_policy g = effective_policy_from False g"

definition client_auth_from :: "tor_client_auth_policy option \<Rightarrow> effective_client_auth" where
  "client_auth_from po =
     (case po of
        None \<Rightarrow> \<lparr>ea_enabled = False, ea_secret_name = []\<rparr>
      | Some p \<Rightarrow>
          if tcap_mode (tcap_spec p) = client_auth_mode_audit then \<lparr>ea_enabled = False, ea_secret_name = []\<rparr>
          else \<lparr>ea_enabled = True, ea_secret_name = sr_name (tcap_clients_secret (tcap_spec p))\<rparr>)"

definition find_effective_client_auth :: "gateway \<Rightarrow> (api_error, effective_client_auth) act" where
  "find_effective_client_auth g =
     bindA (list_objs KTcap un_tcap (Some (gw_ns g)) []) (\<lambda>ps. okA (client_auth_from (select_tcap g ps)))"

definition accepted_for_gw :: "onion_balance_policy \<Rightarrow> string \<Rightarrow> bool" where
  "accepted_for_gw p name =
     list_ex (\<lambda>a. pr_name (an_ref a) = name \<and>
         list_ex (\<lambda>c. cond_type c = ''Accepted'' \<and> cond_status c = condition_true) (an_conditions a))
       (obp_ancestors p)"

definition find_effective_onion_balance ::
    "gateway \<Rightarrow> (api_error, (onion_balance_policy \<times> bool) option) act" where
  "find_effective_onion_balance g =
     bindA (list_objs KObp un_obp (Some (gw_ns g)) []) (\<lambda>ps.
       okA (map_option (\<lambda>p. (p, accepted_for_gw p (gw_name g))) (select_obp g ps)))"

subsection \<open>The key of a Gateway\<close>

text \<open>\<open>strconv.ParseBool\<close>, whose error the caller ignores.\<close>

definition parse_bool :: "string \<Rightarrow> bool" where
  "parse_bool s \<longleftrightarrow> s \<in> {''1'', ''t'', ''T'', ''TRUE'', ''true'', ''True''}"

definition fresh_key_secret ::
    "env \<Rightarrow> gateway \<Rightarrow> (gateway_error, gateway \<times> key_outcome) act" where
  "fresh_key_secret V g =
     read_entropy (\<lambda>b. built KeyFailed (generate_key_pair (ev_bm V) b) (\<lambda>kp.
       bindA (apiA (write_call (Create (OSecret (build_key_secret g kp))))) (\<lambda>_. okA (g, KeyReady kp))))"

definition ensure_key_secret ::
    "env \<Rightarrow> gateway_reconciler \<Rightarrow> gateway \<Rightarrow> effective_service_policy \<Rightarrow>
     (gateway_error, gateway \<times> key_outcome) act" where
  "ensure_key_secret V R g policy =
     bindP (get_obj KSecret un_secret (gw_ns g, key_secret_name (gw_name g))) (\<lambda>r. case r of
       Inl e \<Rightarrow>
         if e \<noteq> NotFound then failA (ApiFailed e)
         else if ep_vanity_prefix policy \<noteq> [] then run_vanity_harvest R g (ep_vanity_prefix policy)
         else bindA (apiA (effective_policy_from (gr_api_reader R) g)) (\<lambda>fresh.
           if ep_vanity_prefix fresh \<noteq> [] then run_vanity_harvest R g (ep_vanity_prefix fresh)
           else if parse_bool (gw_annotation g await_vanity_annotation) then okA (g, AwaitingVanityPolicy)
           else fresh_key_secret V g)
     | Inr s \<Rightarrow>
         built KeyFailed (parse_files (data_entry (sec_data s) file_secret_key_name)
             (data_entry (sec_data s) file_public_key_name)) (\<lambda>kp.
           bindA (if ep_vanity_prefix policy \<noteq> [] \<and>
                     \<not> has_prefix (onion_string (key_onion_address kp)) (ep_vanity_prefix policy)
                  then event_on R g ''VanityPrefixIgnored'' else okA ()) (\<lambda>_.
             okA (g, KeyReady kp))))"

subsection \<open>Status in Mode A\<close>

definition onion_status_address :: "string \<Rightarrow> status_address" where
  "onion_status_address onion = \<lparr>sa_type = Some ''Hostname'', sa_value = onion\<rparr>"

definition wanted_listener_status :: "time \<Rightarrow> gateway \<Rightarrow> listener \<Rightarrow> listener_status" where
  "wanted_listener_status now g l =
     \<lparr>lst_name = ls_name l, lst_kinds = [(Some gateway_api_group, ''HTTPRoute'')],
      lst_attached = foldl (\<lambda>n e. if lst_name e = ls_name l then lst_attached e else n) 0 (gw_listener_status g),
      lst_conditions =
        [gateway_condition now g ''Accepted'' condition_true ''Accepted'' ''Listener accepted'',
         gateway_condition now g ''Programmed'' condition_true ''Programmed'' ''Listener programmed'']\<rparr>"

definition next_status :: "time \<Rightarrow> string \<Rightarrow> gateway \<Rightarrow> gateway \<times> bool" where
  "next_status now onion g =
     (let addrs = [onion_status_address onion];
          c1 = \<not> equal_gateway_addresses (gw_addresses g) addrs;
          (conds, c2) = set_conditions (gw_conditions g)
            [accepted_gateway now g,
             gateway_condition now g ''Programmed'' condition_true ''Programmed''
               ''Tor pod provisioned; .onion published''];
          lss = map (wanted_listener_status now g) (gw_listeners g);
          c3 = \<not> equal_listener_status (gw_listener_status g) lss
      in (g\<lparr>gw_addresses := (if c1 then addrs else gw_addresses g), gw_conditions := conds,
           gw_listener_status := (if c3 then lss else gw_listener_status g)\<rparr>, c1 \<or> c2 \<or> c3))"

definition update_status :: "time \<Rightarrow> gateway \<Rightarrow> key_pair \<Rightarrow> (gateway_error, unit) act" where
  "update_status now g kp =
     (case next_status now (onion_string (key_onion_address kp)) g of (g', changed) \<Rightarrow>
        if \<not> changed then okA () else apiA (write_call (StatusUpdate (OGateway g'))))"

end
