(* ===== verification/Gateway_Modes.thy ===== *)
theory Gateway_Modes
  imports Gateway_Controller
begin

text \<open>
  The rest of \<open>internal/controller/gateway_controller.go\<close>: provisioning and status in high-availability
  mode, the removal of each mode's children, the garbage collection of backend keys, the reconciler
  itself, and the watches that requeue a Gateway.
\<close>

subsection \<open>Children of the master key's namespace\<close>

definition owner_uid_labels :: "gateway \<Rightarrow> string gomap" where
  "owner_uid_labels g =
     [(''app.kubernetes.io/managed-by'', ''tor-gateway''), (''torgateway.io/owner-uid'', gw_uid g)]"

text \<open>Deleting what a listing returned, except in one namespace.\<close>

definition delete_outside :: "kind \<Rightarrow> string option \<Rightarrow> object_meta list \<Rightarrow> (gateway_error, unit) act" where
  "delete_outside k keep ms =
     eachA (\<lambda>m. if Some (om_ns m) = keep then okA () else apiA (delete_if_present k (meta_key m))) ms"

definition delete_labelled_roles :: "gateway \<Rightarrow> string option \<Rightarrow> (gateway_error, unit) act" where
  "delete_labelled_roles g keep =
     bindA (apiA (list_objs KRole un_role None (owner_uid_labels g))) (\<lambda>rs.
     bindA (delete_outside KRole keep (map role_meta rs)) (\<lambda>_.
     bindA (apiA (list_objs KRoleBinding un_role_binding None (owner_uid_labels g))) (\<lambda>bs.
       delete_outside KRoleBinding keep (map rb_meta bs))))"

definition ensure_cross_ns_master_rbac :: "gateway \<Rightarrow> onion_balance_policy \<Rightarrow> (gateway_error, unit) act" where
  "ensure_cross_ns_master_rbac g p =
     (let ref = obp_master_key (obp_spec p) in
      bindA (apiA (master_key_reference_grant_allows p)) (\<lambda>ok.
        if \<not> ok then failA (GrantMissing (sr_namespace ref, sr_name ref))
        else built BuildFailed (build_cross_ns_master_role g p) (\<lambda>role.
          bindA (ensure_ha_role role) (\<lambda>_.
          built BuildFailed (build_cross_ns_master_role_binding g p) (\<lambda>rb.
          bindA (ensure_ha_role_binding rb) (\<lambda>_.
            delete_labelled_roles g (Some (sr_namespace ref))))))))"

subsection \<open>Mode B\<close>

definition ensure_mode_b_network_resources ::
    "gateway \<Rightarrow> onion_balance_policy \<Rightarrow> (gateway_error, unit) act" where
  "ensure_mode_b_network_resources g p =
     bindA (ensure_ha_service (build_backend_headless_service g)) (\<lambda>_.
     bindA (ensure_ha_service_account (build_frontend_service_account g)) (\<lambda>_.
     bindA (ensure_ha_role (build_frontend_role g p)) (\<lambda>_.
       ensure_ha_role_binding (build_frontend_role_binding g))))"

definition gc_orphan_backend_secrets :: "gateway \<Rightarrow> nat \<Rightarrow> (gateway_error, unit) act" where
  "gc_orphan_backend_secrets g replicas =
     bindA (apiA (list_objs KSecret un_secret (Some (gw_ns g)) (backend_selector g))) (\<lambda>ss.
       eachA (\<lambda>s. let idx = backend_secret_index (om_name (sec_meta s)) (gw_name g) in
           if idx < 0 \<or> idx < int replicas then okA ()
           else apiA (delete_if_present KSecret (meta_key (sec_meta s)))) ss)"

text \<open>Only once the set has as many pods as it wants.\<close>

definition gc_backend_secrets_if_settled ::
    "gateway \<Rightarrow> stateful_set \<Rightarrow> nat \<Rightarrow> (gateway_error, unit) act" where
  "gc_backend_secrets_if_settled g ss replicas =
     bindP (get_obj KStatefulSet un_stateful_set (meta_key (ss_meta ss))) (\<lambda>r. case r of
       Inl e \<Rightarrow> if e = NotFound then okA () else failA (ApiFailed e)
     | Inr cur \<Rightarrow>
         if ss_replicas cur = None \<or> ss_replicas cur \<noteq> Some (ss_status_replicas cur) then okA ()
         else gc_orphan_backend_secrets g replicas)"

definition ann_last_replicas :: string where "ann_last_replicas = ''torgateway.io/last-known-replicas''"
definition ann_pow_emitted :: string where "ann_pow_emitted = ''torgateway.io/pow-override-emitted''"
definition ann_true :: string where "ann_true = ''true''"

definition previous_onion :: "gateway \<Rightarrow> string" where
  "previous_onion g = (case gw_addresses g of [] \<Rightarrow> [] | a # _ \<Rightarrow> sa_value a)"

text \<open>Whether Mode B is healthy as far as the API shows, with a reason and a message.\<close>

definition mode_b_health :: "env \<Rightarrow> gateway \<Rightarrow> (bool \<times> string \<times> string) prog" where
  "mode_b_health V g =
     bindP (get_obj KDeployment un_deployment (gw_ns g, frontend_name g)) (\<lambda>r. case r of
       Inl e \<Rightarrow> Ret (False, ''FrontendNotReady'',
           if e = NotFound then ''frontend Deployment not found yet''
           else ''failed to get frontend Deployment: '' @ ev_text V e)
     | Inr fe \<Rightarrow>
         if \<not> list_ex (\<lambda>(ty, st). ty = ''Available'' \<and> st = condition_true) (dep_conditions fe)
         then Ret (False, ''FrontendNotReady'', ''frontend Deployment not yet Available'')
         else bindP (count_ready_backends g) (\<lambda>n. case n of
           Inl e \<Rightarrow> Ret (False, ''BackendsNotReady'', ''failed to list backend Secrets: '' @ ev_text V e)
         | Inr ready \<Rightarrow>
             if ready < 1 then Ret (False, ''BackendsNotReady'', ''0 backend instance(s) ready; need at least 1'')
             else Ret (True, ''Programmed'', ''Mode B provisioned; frontend Available and '' @ show_nat ready @
                '' backend(s) ready (reconcile-observable; Tor descriptor liveness not verified here)'')))"

text \<open>The number \<open>strconv.Atoi\<close> returns, also beside an error.\<close>

definition atoi_value :: "string \<Rightarrow> int" where
  "atoi_value s =
     (let (neg, ds) = (case s of [] \<Rightarrow> (False, [])
                       | c # cs \<Rightarrow> if c = CHR ''-'' then (True, cs)
                                  else if c = CHR ''+'' then (False, cs) else (False, s))
      in case parse_nat ds of None \<Rightarrow> 0
         | Some n \<Rightarrow> if neg then max (- (2 ^ 63)) (- int n) else min (2 ^ 63 - 1) (int n))"

text \<open>The onion address replaces the first one that ends in \<open>.onion\<close>; further ones go.\<close>

fun merge_onion :: "status_address \<Rightarrow> bool \<Rightarrow> status_address list \<Rightarrow> status_address list" where
  "merge_onion m found [] = (if found then [] else [m])"
| "merge_onion m found (a # as) =
     (if has_suffix (sa_value a) ''.onion''
      then (if found then merge_onion m True as else m # merge_onion m True as)
      else a # merge_onion m found as)"

definition annotate_mode_b :: "env \<Rightarrow> gateway \<Rightarrow> onion_balance_policy \<Rightarrow> (api_error, gateway) act" where
  "annotate_mode_b V g p =
     retry_on_conflict 4 (bindA (get_obj KGateway un_gateway (meta_key (gw_meta g))) (\<lambda>fresh.
       let f1 = annotate ann_last_replicas (show_nat (obp_replicas (obp_spec p))) fresh in
       bindP (pow_forced_off f1) (\<lambda>off.
         write_gateway (Update (OGateway (if off then annotate ann_pow_emitted ann_true f1 else f1))))))"

definition publish_mode_b ::
    "env \<Rightarrow> gateway \<Rightarrow> onion_address \<Rightarrow> bool \<times> string \<times> string \<Rightarrow> (api_error, unit) act" where
  "publish_mode_b V g master health =
     (case health of (healthy, reason, msg) \<Rightarrow>
      retry_on_conflict 4 (bindA (get_obj KGateway un_gateway (meta_key (gw_meta g))) (\<lambda>fresh.
        let addrs = merge_onion (onion_status_address (onion_string master)) False (gw_addresses fresh);
            conds = fst (set_conditions (gw_conditions fresh)
              [accepted_gateway (ev_now V) fresh,
               gateway_condition (ev_now V) fresh ''Programmed''
                 (if healthy then condition_true else condition_false) reason msg])
        in write_call (StatusUpdate (OGateway (fresh\<lparr>gw_addresses := addrs, gw_conditions := conds\<rparr>))))))"

definition update_status_mode_b ::
    "env \<Rightarrow> gateway_reconciler \<Rightarrow> gateway \<Rightarrow> onion_address \<Rightarrow> onion_balance_policy \<Rightarrow>
     (gateway_error, unit) act" where
  "update_status_mode_b V R g master p =
     bindA (if previous_onion g \<noteq> [] \<and> previous_onion g \<noteq> onion_string master
            then event_on R g ''MasterDescriptorChanged'' else okA ()) (\<lambda>_.
     let rolled = atoi_value (gw_annotation g ann_last_replicas) \<noteq> int (obp_replicas (obp_spec p)) in
     bindA (if rolled then event_on R g ''BackendsRolling'' else okA ()) (\<lambda>_.
     bindP (pow_forced_off g) (\<lambda>off.
     let pow = off \<and> gw_annotation g ann_pow_emitted \<noteq> ann_true in
     bindA (if pow then event_on R g ''PoWForcedOffInHA'' else okA ()) (\<lambda>_.
     bindA (if rolled \<or> pow then apiA (annotate_mode_b V g p) else okA g) (\<lambda>g'.
     bindP (mode_b_health V g') (\<lambda>health. apiA (publish_mode_b V g' master health)))))))"

definition routes_for_gateway :: "gateway \<Rightarrow> (api_error, http_route list) act" where
  "routes_for_gateway g =
     bindA (list_objs KRoute un_route None []) (\<lambda>rts. okA (filter (\<lambda>rt.
       list_ex (\<lambda>pr. parent_ref_matches pr (gw_name g) (gw_ns g) (rt_ns rt)) (rt_parent_refs rt)) rts))"

text \<open>The steps of Mode B after the master key: Secrets, network resources, torrc files, RBAC,
  workloads, garbage collection, egress policy and status.\<close>

definition provision_mode_b ::
    "env \<Rightarrow> gateway_reconciler \<Rightarrow> gateway \<Rightarrow> onion_balance_policy \<Rightarrow> onion_address \<Rightarrow>
     (gateway_error, unit) act" where
  "provision_mode_b V R g p master =
     bindA (eachA (ensure_backend_key_secret_for_index (ev_bm V) g) [0..<obp_replicas (obp_spec p)]) (\<lambda>_.
     bindA (ensure_mode_b_network_resources g p) (\<lambda>_.
     bindA (ensure_ha_config_map (build_frontend_torrc_config_map g (gr_testing_include R))) (\<lambda>_.
     bindA (apiA (find_effective_policy g)) (\<lambda>policy.
     bindA (apiA (find_effective_client_auth g)) (\<lambda>auth.
     built BuildFailed (build_backend_torrc_config_map g policy auth (gr_testing_include R)) (\<lambda>torrc.
     bindA (ensure_ha_config_map torrc) (\<lambda>_.
     bindA (ensure_router_rbac g (Some p)) (\<lambda>_.
     built BuildFailed (build_backend_stateful_set g p master (gr_images R)) (\<lambda>ss.
     bindA (ensure_ha_stateful_set ss) (\<lambda>_.
     bindA (gc_backend_secrets_if_settled g ss (obp_replicas (obp_spec p))) (\<lambda>_.
     built BuildFailed (build_frontend_deployment g p master (gr_images R) (gr_testing_include R \<noteq> [])) (\<lambda>d.
     bindA (ensure_ha_deployment d) (\<lambda>_.
     bindA (apiA (routes_for_gateway g)) (\<lambda>routes.
     bindA (ensure_network_policy (ev_order V) R g routes) (\<lambda>_.
       update_status_mode_b V R g master p)))))))))))))))"

definition ensure_mode_b ::
    "env \<Rightarrow> gateway_reconciler \<Rightarrow> gateway \<Rightarrow> onion_balance_policy \<Rightarrow> (gateway_error, unit) act" where
  "ensure_mode_b V R g p =
     (let ref = obp_master_key (obp_spec p) in
      bindA (if sr_namespace ref \<noteq> [] \<and> sr_namespace ref \<noteq> gw_ns g
             then ensure_cross_ns_master_rbac g p else okA ()) (\<lambda>_.
      bindP (get_obj KSecret un_secret (master_ns p, sr_name ref)) (\<lambda>r. case r of
        Inl e \<Rightarrow>
          if e \<noteq> NotFound then failA (ApiFailed e)
          else bindA (event_on R g ''MasterSecretNotFound'') (\<lambda>_.
            set_programming_condition (ev_now V) g ''MasterSecretNotFound''
              (''master key Secret '' @ master_ns p @ ''/'' @ sr_name ref @ '' not found''))
      | Inr sec \<Rightarrow>
          built MasterFailed (master_onion_from_secret (ev_bm V) (sec_data sec)) (provision_mode_b V R g p))))"

subsection \<open>Removing the children of a mode\<close>

definition mode_a_children :: "gateway \<Rightarrow> (kind \<times> string) list" where
  "mode_a_children g =
     [(KDeployment, deployment_name (gw_name g)), (KService, service_name (gw_name g)),
      (KSecret, key_secret_name (gw_name g)), (KConfigMap, torrc_config_map_name (gw_name g)),
      (KNetworkPolicy, network_policy_name (gw_name g)),
      (KServiceAccount, vanity_rbac_name (gw_name g)), (KRole, vanity_rbac_name (gw_name g)),
      (KRoleBinding, vanity_rbac_name (gw_name g)), (KSecret, vanity_out_secret_name (gw_name g)),
      (KJob, vanity_rbac_name (gw_name g))]"

definition mode_b_children :: "gateway \<Rightarrow> (kind \<times> string) list" where
  "mode_b_children g =
     [(KDeployment, frontend_name g), (KStatefulSet, backend_stateful_set_name g),
      (KService, backend_headless_service_name g), (KConfigMap, onionbalance_config_map_name g),
      (KConfigMap, frontend_torrc_config_map_name g), (KConfigMap, backend_torrc_config_map_name g),
      (KServiceAccount, frontend_name g), (KRole, frontend_name g), (KRoleBinding, frontend_name g)]"

definition delete_children :: "gateway \<Rightarrow> (kind \<times> string) list \<Rightarrow> (gateway_error, unit) act" where
  "delete_children g = eachA (\<lambda>(k, n). apiA (delete_if_present k (gw_ns g, n)))"

definition cleanup_mode_a_resources :: "gateway \<Rightarrow> (gateway_error, unit) act" where
  "cleanup_mode_a_resources g = delete_children g (mode_a_children g)"

definition cleanup_mode_b_resources :: "gateway \<Rightarrow> (gateway_error, gateway) act" where
  "cleanup_mode_b_resources g =
     bindA (delete_children g (mode_b_children g)) (\<lambda>_.
     bindA (delete_labelled_roles g None) (\<lambda>_.
     bindA (apiA (list_objs KSecret un_secret (Some (gw_ns g)) (backend_selector g))) (\<lambda>ss.
     bindA (eachA (\<lambda>s. apiA (delete_if_present KSecret (meta_key (sec_meta s)))) ss) (\<lambda>_.
       if map_of (om_annotations (gw_meta g)) ann_last_replicas \<noteq> None \<or>
          map_of (om_annotations (gw_meta g)) ann_pow_emitted \<noteq> None
       then apiA (write_gateway (Update (OGateway
              (drop_annotation ann_pow_emitted (drop_annotation ann_last_replicas g)))))
       else okA g))))"

subsection \<open>The reconciler\<close>

definition set_finalizers :: "(string list \<Rightarrow> string list) \<Rightarrow> gateway \<Rightarrow> gateway" where
  "set_finalizers f g = g\<lparr>gw_meta := (gw_meta g)\<lparr>om_finalizers := f (om_finalizers (gw_meta g))\<rparr>\<rparr>"

abbreviation held :: "gateway \<Rightarrow> bool" where
  "held g \<equiv> finalizer_name \<in> set (om_finalizers (gw_meta g))"

definition hold_gateway :: "gateway \<Rightarrow> (api_error, gateway) act" where
  "hold_gateway g =
     (if held g then okA g
      else write_gateway (Update (OGateway (set_finalizers (\<lambda>fs. fs @ [finalizer_name]) g))))"

definition release_gateway :: "gateway \<Rightarrow> (api_error, unit) act" where
  "release_gateway g =
     retry_on_conflict 4 (bindA (get_obj KGateway un_gateway (meta_key (gw_meta g))) (\<lambda>fresh.
       if \<not> held fresh then okA ()
       else write_call (Update (OGateway (set_finalizers (filter (\<lambda>f. f \<noteq> finalizer_name)) fresh)))))"

definition finalize_gateway :: "gateway \<Rightarrow> (gateway_error, unit) act" where
  "finalize_gateway g =
     (if held g then bindA (cleanup_mode_b_resources g) (\<lambda>g'. apiA (release_gateway g')) else okA ())"

text \<open>Mode A once the key exists.\<close>

definition provision_mode_a ::
    "env \<Rightarrow> gateway_reconciler \<Rightarrow> gateway \<Rightarrow> effective_service_policy \<Rightarrow> effective_client_auth \<Rightarrow>
     key_pair \<Rightarrow> (gateway_error, unit) act" where
  "provision_mode_a V R g policy auth kp =
     bindA (ensure_torrc_config_map R g policy auth) (\<lambda>_.
     bindA (ensure_router_rbac g None) (\<lambda>_.
     bindA (ensure_deployment R g policy auth) (\<lambda>_.
     bindA (ensure_service g) (\<lambda>_.
     bindA (apiA (routes_for_gateway g)) (\<lambda>routes.
     bindA (ensure_network_policy (ev_order V) R g routes) (\<lambda>_.
       update_status (ev_now V) g kp))))))"

definition reconcile_mode_a :: "env \<Rightarrow> gateway_reconciler \<Rightarrow> gateway \<Rightarrow> (gateway_error, unit) act" where
  "reconcile_mode_a V R g =
     bindA (apiA (find_effective_policy g)) (\<lambda>policy.
     bindA (apiA (find_effective_client_auth g)) (\<lambda>auth.
     bindA (ensure_key_secret V R g policy) (\<lambda>(g', outcome).
       case outcome of
         HarvestPending \<Rightarrow> set_programming_condition (ev_now V) g' reason_harvest_in_progress
           ''vanity .onion harvest in progress''
       | HarvestFailed \<Rightarrow> set_programming_condition (ev_now V) g' reason_harvest_failed
           ''vanity harvest exceeded its deadline; choose a shorter vanityPrefix''
       | AwaitingVanityPolicy \<Rightarrow> set_programming_condition (ev_now V) g' reason_awaiting_vanity_policy
           ''awaiting a TorServicePolicy with a vanityPrefix (torgateway.io/await-vanity=true)''
       | KeyReady kp \<Rightarrow> provision_mode_a V R g' policy auth kp)))"

definition reconcile_managed :: "env \<Rightarrow> gateway_reconciler \<Rightarrow> gateway \<Rightarrow> (gateway_error, unit) act" where
  "reconcile_managed V R g =
     bindA (apiA (find_effective_onion_balance g)) (\<lambda>po. case po of
       Some (p, accepted) \<Rightarrow>
         if \<not> accepted
         then set_programming_condition (ev_now V) g ''PolicyNotAccepted''
           (''OnionBalancePolicy '' @ om_name (obp_meta p) @
            '' is not Accepted; refusing to fall back to Mode A while HA is intended'')
         else bindA (cleanup_mode_a_resources g) (\<lambda>_. ensure_mode_b V R g p)
     | None \<Rightarrow> bindA (cleanup_mode_b_resources g) (\<lambda>g'. reconcile_mode_a V R g'))"

definition gateway_reconcile :: "env \<Rightarrow> gateway_reconciler \<Rightarrow> nsname \<Rightarrow> (gateway_error, unit) act" where
  "gateway_reconcile V R key =
     bindP (get_obj KGateway un_gateway key) (\<lambda>r. case r of
       Inl e \<Rightarrow> if e = NotFound then okA () else failA (ApiFailed e)
     | Inr g \<Rightarrow> bindA (apiA (gateway_class_managed_by_us (gw_class g))) (\<lambda>managed.
         if \<not> managed then okA ()
         else if om_deleting (gw_meta g) then finalize_gateway g
         else bindA (apiA (hold_gateway g)) (\<lambda>g'. reconcile_managed V R g')))"

subsection \<open>Watches\<close>

definition requests_for_targets :: "string \<Rightarrow> target_ref list \<Rightarrow> nsname list" where
  "requests_for_targets ns refs =
     map (\<lambda>r. (ns, tr_name r)) (filter (\<lambda>r. tr_group r = gateway_api_group \<and> tr_kind r = gateway_kind) refs)"

definition gateways_for_http_route :: "http_route \<Rightarrow> nsname list" where
  "gateways_for_http_route rt =
     map (\<lambda>p. (deref (rt_ns rt) (pr_namespace p), pr_name p))
       (filter parent_ref_group_kind_is_gateway (rt_parent_refs rt))"

definition gateways_for_service_policy :: "tor_service_policy \<Rightarrow> nsname list" where
  "gateways_for_service_policy p = requests_for_targets (om_ns (tsp_meta p)) (tsp_target_refs (tsp_spec p))"

definition gateways_for_client_auth_policy :: "tor_client_auth_policy \<Rightarrow> nsname list" where
  "gateways_for_client_auth_policy p =
     requests_for_targets (om_ns (tcap_meta p)) (tcap_target_refs (tcap_spec p))"

definition gateways_for_onion_balance_policy :: "onion_balance_policy \<Rightarrow> nsname list" where
  "gateways_for_onion_balance_policy p =
     requests_for_targets (om_ns (obp_meta p)) (obp_target_refs (obp_spec p))"

end
