(* ===== verification/Gateway_Status.thy ===== *)
theory Gateway_Status
  imports Gateway_Modes
begin

text \<open>
  What the Gateway controller computes from a listing or writes into an object: which policy wins and
  whom a change requeues, what each closure of \<open>CreateOrUpdate\<close> may touch, and that both status
  writers settle.
\<close>

subsection \<open>Which policy wins\<close>

lemma first_named_best: "first_best (first_named name) (\<lambda>x y. name x < (name y :: string))"
  unfolding first_named_def by (rule first_best_fold) (auto intro: less_trans)

interpretation tsp_pick: first_best "first_named (\<lambda>p :: tor_service_policy. om_name (tsp_meta p))"
  "\<lambda>x y. om_name (tsp_meta x) < om_name (tsp_meta y)"
  by (rule first_named_best)

interpretation tcap_pick: first_best "first_named (\<lambda>p :: tor_client_auth_policy. om_name (tcap_meta p))"
  "\<lambda>x y. om_name (tcap_meta x) < om_name (tcap_meta y)"
  by (rule first_named_best)

interpretation obp_pick: first_best "first_named (\<lambda>p :: onion_balance_policy. om_name (obp_meta p))"
  "\<lambda>x y. om_name (obp_meta x) < om_name (obp_meta y)"
  by (rule first_named_best)

text \<open>The winner among the policies that satisfy a predicate, for names that are distinct as they are
  within a namespace.\<close>

definition wins :: "('p \<Rightarrow> string) \<Rightarrow> ('p \<Rightarrow> bool) \<Rightarrow> 'p list \<Rightarrow> 'p \<Rightarrow> bool" where
  "wins name targets ps p \<longleftrightarrow>
     p \<in> set ps \<and> targets p \<and> (\<forall>q \<in> set ps. targets q \<longrightarrow> name p \<le> name q)"


lemma first_named_wins:
  fixes name :: "'p \<Rightarrow> string"
  assumes "distinct (map name ps)"
  shows "first_named name (filter targets ps) = Some p \<longleftrightarrow> wins name targets ps p"
proof
  note best = first_named_best [of name]
  assume "first_named name (filter targets ps) = Some p"
  then have "first_best.first_maximal (\<lambda>x y. name x < name y) (filter targets ps) p"
    by (rule first_best.pick_first_maximal [OF best])
  then show "wins name targets ps p"
    using first_best.first_maximal_in [OF best] first_best.first_maximal_max [OF best]
    by (fastforce simp: wins_def not_less)
next
  assume w: "wins name targets ps p"
  then show "first_named name (filter targets ps) = Some p"
    using assms
    by (intro first_best.pick_unique [OF first_named_best])
      (auto simp: wins_def not_less distinct_map inj_on_def order.strict_iff_order)
qed

text \<open>
  C31: Conflicts between policies are settled by name alone. For each of the three kinds, the policy
  that takes effect on a Gateway is the one with the lexically least name among those that target the
  Gateway, and none takes effect when none targets it; the order in which the cache lists them does
  not matter.
\<close>

theorem policy_selection_exact:
  assumes "distinct (map (\<lambda>p. om_name (tsp_meta p)) ts)" "distinct (map (\<lambda>p. om_name (tcap_meta p)) cs)"
    and "distinct (map (\<lambda>p. om_name (obp_meta p)) obs)"
  shows "(select_tsp g ts = Some t \<longleftrightarrow>
       wins (\<lambda>p. om_name (tsp_meta p)) (\<lambda>p. policy_targets (tsp_target_refs (tsp_spec p)) (gw_name g)) ts t)
   \<and> (select_tcap g cs = Some c \<longleftrightarrow>
       wins (\<lambda>p. om_name (tcap_meta p)) (\<lambda>p. policy_targets (tcap_target_refs (tcap_spec p)) (gw_name g)) cs c)
   \<and> (select_obp g obs = Some ob \<longleftrightarrow>
       wins (\<lambda>p. om_name (obp_meta p)) (\<lambda>p. policy_targets (obp_target_refs (obp_spec p)) (gw_name g)) obs ob)
   \<and> (select_tsp g ts = None \<longleftrightarrow> \<not> list_ex (\<lambda>p. policy_targets (tsp_target_refs (tsp_spec p)) (gw_name g)) ts)
   \<and> (select_tcap g cs = None \<longleftrightarrow> \<not> list_ex (\<lambda>p. policy_targets (tcap_target_refs (tcap_spec p)) (gw_name g)) cs)
   \<and> (select_obp g obs = None \<longleftrightarrow> \<not> list_ex (\<lambda>p. policy_targets (obp_target_refs (obp_spec p)) (gw_name g)) obs)"
  unfolding select_tsp_def select_tcap_def select_obp_def
  by (intro conjI first_named_wins assms)
    (simp_all add: tsp_pick.pick_None_iff tcap_pick.pick_None_iff obp_pick.pick_None_iff
      filter_empty_conv list_ex_iff)

definition sample_tsp :: "string \<Rightarrow> tor_service_policy" where
  "sample_tsp name =
     \<lparr>tsp_meta = bare_meta ''web'' name [],
      tsp_spec = \<lparr>tsp_target_refs = [\<lparr>tr_group = gateway_api_group, tr_kind = gateway_kind, tr_name = ''shop''\<rparr>],
        tsp_vanity_prefix = [], tsp_vanity_acknowledge = False, tsp_log_level = [], tsp_pow = None,
        tsp_resources = None\<rparr>,
      tsp_ancestors = []\<rparr>"

theorem policy_selection_exact_witness:
  "select_tsp (sample_gateway ''shop'') [sample_tsp ''b'', sample_tsp ''a''] = Some (sample_tsp ''a'')"
proof -
  have names: "om_name (tsp_meta (sample_tsp n)) = n" "policy_targets (tsp_target_refs (tsp_spec (sample_tsp n))) ''shop''"
    for n
    by (simp_all add: sample_tsp_def policy_targets_def)
  have "''a'' < ''b''" by (simp add: less_char_def)
  then have "wins (\<lambda>p. om_name (tsp_meta p)) (\<lambda>p. policy_targets (tsp_target_refs (tsp_spec p)) (gw_name (sample_gateway ''shop'')))
      [sample_tsp ''b'', sample_tsp ''a''] (sample_tsp ''a'')"
    by (simp add: wins_def names)
  then show ?thesis
    using policy_selection_exact [of "[sample_tsp ''b'', sample_tsp ''a'']" "[]" "[]"
        "sample_gateway ''shop''" "sample_tsp ''a''"] by (simp add: names)
qed

subsection \<open>Who is requeued\<close>

lemma requests_iff:
  "(ns', name) \<in> set (requests_for_targets ns refs) \<longleftrightarrow> ns' = ns \<and> policy_targets refs name"
  by (auto simp: requests_for_targets_def policy_targets_def list_ex_iff)

lemma selectable:
  "(\<exists>ps. select_tsp g ps = Some t) \<longleftrightarrow> policy_targets (tsp_target_refs (tsp_spec t)) (gw_name g)"
  "(\<exists>ps. select_tcap g ps = Some c) \<longleftrightarrow> policy_targets (tcap_target_refs (tcap_spec c)) (gw_name g)"
  "(\<exists>ps. select_obp g ps = Some p) \<longleftrightarrow> policy_targets (obp_target_refs (obp_spec p)) (gw_name g)"
proof -
  have sel: "(\<exists>ps. first_named name (filter targets ps) = Some x) \<longleftrightarrow> targets x"
    for name :: "'x \<Rightarrow> string" and targets x
  proof
    assume "\<exists>ps. first_named name (filter targets ps) = Some x"
    then obtain ps where "first_named name (filter targets ps) = Some x" ..
    then have "x \<in> set (filter targets ps)"
      using first_best.pick_first_maximal [OF first_named_best]
        first_best.first_maximal_in [OF first_named_best] by metis
    then show "targets x" by simp
  next
    assume "targets x"
    then have "first_named name (filter targets [x]) = Some x"
      by (simp add: first_named_def keep_better_def)
    then show "\<exists>ps. first_named name (filter targets ps) = Some x" ..
  qed
  show "(\<exists>ps. select_tsp g ps = Some t) \<longleftrightarrow> policy_targets (tsp_target_refs (tsp_spec t)) (gw_name g)"
    unfolding select_tsp_def by (rule sel)
  show "(\<exists>ps. select_tcap g ps = Some c) \<longleftrightarrow> policy_targets (tcap_target_refs (tcap_spec c)) (gw_name g)"
    unfolding select_tcap_def by (rule sel)
  show "(\<exists>ps. select_obp g ps = Some p) \<longleftrightarrow> policy_targets (obp_target_refs (obp_spec p)) (gw_name g)"
    unfolding select_obp_def by (rule sel)
qed

text \<open>
  A change requeues exactly the Gateways it can affect: a policy requeues a Gateway if and only if
  it is in the Gateway's namespace and there is a listing from which it would be selected, and an
  HTTPRoute requeues a Gateway if and only if the Gateway's egress policy would take it into account.
\<close>

lemma gateway_watches_exact:
  "((gw_ns g, gw_name g) \<in> set (gateways_for_service_policy t) \<longleftrightarrow>
      om_ns (tsp_meta t) = gw_ns g \<and> (\<exists>ps. select_tsp g ps = Some t))
   \<and> ((gw_ns g, gw_name g) \<in> set (gateways_for_client_auth_policy c) \<longleftrightarrow>
      om_ns (tcap_meta c) = gw_ns g \<and> (\<exists>ps. select_tcap g ps = Some c))
   \<and> ((gw_ns g, gw_name g) \<in> set (gateways_for_onion_balance_policy p) \<longleftrightarrow>
      om_ns (obp_meta p) = gw_ns g \<and> (\<exists>ps. select_obp g ps = Some p))
   \<and> ((gw_ns g, gw_name g) \<in> set (gateways_for_http_route rt) \<longleftrightarrow>
      snd (replay (\<lambda>_. Objects [ORoute rt]) (routes_for_gateway g)) = Inr [rt])"
proof -
  have "snd (replay (\<lambda>_. Objects [ORoute rt]) (routes_for_gateway g)) =
      Inr (filter (\<lambda>rt. list_ex (\<lambda>pr. parent_ref_matches pr (gw_name g) (gw_ns g) (rt_ns rt)) (rt_parent_refs rt)) [rt])"
    by (simp add: routes_for_gateway_def bindA_def replay_bindP decode_list_def un_route_def)
  moreover have "(gw_ns g, gw_name g) \<in> set (gateways_for_http_route rt) \<longleftrightarrow>
      list_ex (\<lambda>pr. parent_ref_matches pr (gw_name g) (gw_ns g) (rt_ns rt)) (rt_parent_refs rt)"
    by (auto simp: gateways_for_http_route_def parent_ref_matches_def list_ex_iff image_iff)
  ultimately show ?thesis
    by (auto simp: gateways_for_service_policy_def gateways_for_client_auth_policy_def
        gateways_for_onion_balance_policy_def requests_iff selectable)
qed

subsection \<open>What a closure may touch\<close>

text \<open>The nine closures, for the object that is wanted.\<close>

datatype child_write =
    WriteConfigMap config_map | WriteDeployment deployment | WriteServiceAccount service_account
  | WriteRole role | WriteRoleBinding role_binding | WriteService service
  | WriteNetworkPolicy network_policy | WriteStatefulSet stateful_set | WriteBackendSecret secret

fun closure :: "child_write \<Rightarrow> obj \<Rightarrow> obj" where
  "closure (WriteConfigMap w) = put_config_map w"
| "closure (WriteDeployment w) = put_deployment w"
| "closure (WriteServiceAccount w) = put_service_account w"
| "closure (WriteRole w) = put_role w"
| "closure (WriteRoleBinding w) = put_role_binding w"
| "closure (WriteService w) = put_service w"
| "closure (WriteNetworkPolicy w) = put_network_policy w"
| "closure (WriteStatefulSet w) = put_stateful_set w"
| "closure (WriteBackendSecret w) = put_backend_secret w"

lemmas put_defs = put_config_map_def put_deployment_def put_service_account_def put_role_def
  put_role_binding_def put_service_def put_network_policy_def put_stateful_set_def put_backend_secret_def

lemma adopt_simps [simp]:
  "om_ns (adopt w m) = om_ns m" "om_name (adopt w m) = om_name m" "om_version (adopt w m) = om_version m"
  "adopt w (adopt w m) = adopt w m"
  by (simp_all add: adopt_def)

text \<open>
  C32: Upserting is well typed and settles. Each closure keeps the kind, namespace and name of the
  object it is applied to, so the write goes to the object that was read; applying it to its own
  outcome changes nothing, so a reconcile of an unchanged cluster writes no child; it never moves an
  assigned cluster IP; and it leaves the key material of an existing Secret alone.
\<close>

theorem upserts_well_typed:
  "obj_kind (closure w ob) = obj_kind ob \<and> obj_key (closure w ob) = obj_key ob
   \<and> closure w (closure w ob) = closure w ob
   \<and> (case (ob, closure w ob) of
        (OSecret s, OSecret s') \<Rightarrow> om_version (sec_meta s) = [] \<or> sec_data s' = sec_data s
      | (OService s, OService s') \<Rightarrow> svc_cluster_ip s = [] \<or> svc_cluster_ip s' = svc_cluster_ip s
      | _ \<Rightarrow> True)"
  by (cases w; cases ob) (simp_all add: put_defs meta_key_def)

text \<open>An existing backend Secret without key material gets none: a key pair is generated for it on
  every reconcile and thrown away by the closure.\<close>

lemma empty_backend_key_stays:
  "om_version (sec_meta s) \<noteq> [] \<Longrightarrow>
     \<exists>s'. put_backend_secret w (OSecret s) = OSecret s' \<and> sec_data s' = sec_data s"
  by (simp add: put_backend_secret_def)

subsection \<open>Status\<close>

lemma set_condition_unchanged:
  "snd (set_condition cs c) = (case find_condition (cond_type c) cs of None \<Rightarrow> True | Some e \<Rightarrow> \<not> same_condition e c)"
  by (induction cs) (auto split: prod.splits)

lemma set_condition_find_other:
  "t \<noteq> cond_type c \<Longrightarrow> find_condition t (fst (set_condition cs c)) = find_condition t cs"
  by (induction cs) (auto split: prod.splits)

text \<open>Two conditions of different types, merged again at another time.\<close>

lemma set_two_again:
  assumes "cond_type a \<noteq> cond_type b"
  shows "snd (set_conditions (fst (set_conditions cs [a, b]))
    [a\<lparr>cond_transition := t\<rparr>, b\<lparr>cond_transition := u\<rparr>]) = False"
proof -
  let ?a = "a\<lparr>cond_transition := t\<rparr>" and ?b = "b\<lparr>cond_transition := u\<rparr>"
  let ?c1 = "fst (set_condition cs a)"
  let ?c2 = "fst (set_condition ?c1 b)"
  have two: "set_conditions xs [x, y] = (fst (set_condition (fst (set_condition xs x)) y),
      snd (set_condition xs x) \<or> snd (set_condition (fst (set_condition xs x)) y))" for xs x y
    by (simp split: prod.splits)
  have "find_condition (cond_type a) ?c2 = find_condition (cond_type a) ?c1"
    using assms by (rule set_condition_find_other)
  then have a: "snd (set_condition ?c2 ?a) = False"
    using set_condition_find [of a cs]
    by (auto simp: set_condition_unchanged same_condition_def split: option.splits)
  then have "fst (set_condition ?c2 ?a) = ?c2" using set_condition_changed by blast
  moreover have "snd (set_condition ?c2 ?b) = False" by (rule set_condition_again)
  ultimately show ?thesis using a by (simp add: two del: set_conditions.simps)
qed

lemma set_two_changed:
  assumes "cond_type a \<noteq> cond_type b"
  shows "snd (set_conditions cs [a, b]) = (fst (set_conditions cs [a, b]) \<noteq> cs)"
proof
  assume "snd (set_conditions cs [a, b])"
  moreover have "snd (set_conditions (fst (set_conditions cs [a, b])) [a, b]) = False"
    using set_two_again [OF assms, of cs "cond_transition a" "cond_transition b"] by simp
  ultimately show "fst (set_conditions cs [a, b]) \<noteq> cs" by auto
next
  assume "fst (set_conditions cs [a, b]) \<noteq> cs"
  then show "snd (set_conditions cs [a, b])"
    using set_condition_changed [of cs a] set_condition_changed [of "fst (set_condition cs a)" b]
    by (auto split: prod.splits)
qed

definition attached_of :: "listener_status list \<Rightarrow> string \<Rightarrow> nat" where
  "attached_of ss name = foldl (\<lambda>n e. if lst_name e = name then lst_attached e else n) 0 ss"

lemma attached_of_view: "map listener_status_view a = map listener_status_view b \<Longrightarrow> attached_of a = attached_of b"
proof
  fix name
  assume "map listener_status_view a = map listener_status_view b"
  then have "foldl (\<lambda>n (m, k, _). if m = name then k else n) z (map listener_status_view a) =
      foldl (\<lambda>n (m, k, _). if m = name then k else n) z (map listener_status_view b)" for z
    by simp
  then show "attached_of a name = attached_of b name"
    by (simp add: attached_of_def listener_status_view_def foldl_map)
qed

lemma attached_of_const:
  "\<exists>e \<in> set ss. lst_name e = name \<Longrightarrow> (\<And>e. e \<in> set ss \<Longrightarrow> lst_name e = name \<Longrightarrow> lst_attached e = v) \<Longrightarrow>
     attached_of ss name = v"
proof (induction ss rule: rev_induct)
  case (snoc x xs)
  then show ?case by (cases "lst_name x = name") (auto simp: attached_of_def)
qed simp

definition listeners_view :: "time \<Rightarrow> gateway \<Rightarrow> (string \<times> nat \<times> (string \<times> string \<times> string) list) list" where
  "listeners_view now g = map (\<lambda>l. listener_status_view (wanted_listener_status now g l)) (gw_listeners g)"

lemma wanted_view:
  "listener_status_view (wanted_listener_status now g l) =
     (ls_name l, attached_of (gw_listener_status g) (ls_name l),
      [(''Accepted'', condition_true, ''Accepted''), (''Programmed'', condition_true, ''Programmed'')])"
  by (simp add: listener_status_view_def wanted_listener_status_def attached_of_def condition_key_def
      gateway_condition_def)

text \<open>The status written, and the one wanted next, show the same.\<close>

lemma attached_settle:
  assumes "map listener_status_view new = map listener_status_view (map (wanted_listener_status now g) (gw_listeners g))"
    and "l \<in> set (gw_listeners g)"
  shows "attached_of new (ls_name l) = attached_of (gw_listener_status g) (ls_name l)"
  unfolding attached_of_view [OF assms(1)]
  by (rule attached_of_const) (use assms(2) in \<open>auto simp: wanted_listener_status_def attached_of_def\<close>)

lemma listeners_settle:
  assumes "map listener_status_view (gw_listener_status g') =
      map listener_status_view (map (wanted_listener_status now g) (gw_listeners g))"
    and "gw_listeners g' = gw_listeners g"
  shows "equal_listener_status (gw_listener_status g') (map (wanted_listener_status now' g') (gw_listeners g'))"
proof -
  have "listener_status_view (wanted_listener_status now' g' l) =
      listener_status_view (wanted_listener_status now g l)" if "l \<in> set (gw_listeners g)" for l
    using that attached_settle [OF assms(1)] by (simp add: wanted_view)
  then have "map listener_status_view (map (wanted_listener_status now' g') (gw_listeners g')) =
      map listener_status_view (map (wanted_listener_status now g) (gw_listeners g))"
    by (simp add: assms(2))
  with assms(1) show ?thesis by (simp add: listeners.eq_iff)
qed

lemma update_three_id:
  "(g\<lparr>gw_addresses := a, gw_conditions := c, gw_listener_status := l\<rparr> = g) =
     (a = gw_addresses g \<and> c = gw_conditions g \<and> l = gw_listener_status g)"
  by (cases g) auto

lemma next_status_parts:
  fixes g :: gateway and onion :: string and now :: time
  defines "prog \<equiv> \<lambda>now (h :: gateway). gateway_condition now h ''Programmed'' condition_true ''Programmed''
      ''Tor pod provisioned; .onion published''"
  defines "n \<equiv> next_status now onion g"
  shows "gw_addresses (fst n) = [onion_status_address onion]"
    and "gw_conditions (fst n) = fst (set_conditions (gw_conditions g) [accepted_gateway now g, prog now g])"
    and "map listener_status_view (gw_listener_status (fst n)) =
      map listener_status_view (map (wanted_listener_status now g) (gw_listeners g))"
    and "gw_listeners (fst n) = gw_listeners g" "gw_meta (fst n) = gw_meta g"
    and "snd n \<longleftrightarrow> gw_addresses g \<noteq> [onion_status_address onion] \<or>
      snd (set_conditions (gw_conditions g) [accepted_gateway now g, prog now g]) \<or>
      \<not> equal_listener_status (gw_listener_status g) (map (wanted_listener_status now g) (gw_listeners g))"
  unfolding n_def prog_def next_status_def Let_def
  by (simp_all add: addresses.eq_iff listeners.eq_iff del: set_conditions.simps split: prod.splits)

lemma gateway_condition_later:
  "gateway_condition now' g ty st r m = (gateway_condition now g ty st r m)\<lparr>cond_transition := now'\<rparr>"
  by (simp add: gateway_condition_def)

lemma gateway_condition_meta:
  "gw_meta g' = gw_meta g \<Longrightarrow> gateway_condition now g' ty st r m = gateway_condition now g ty st r m"
  by (simp add: gateway_condition_def)

lemma next_status_types:
  "cond_type (accepted_gateway now g) \<noteq> cond_type (gateway_condition now g ''Programmed'' condition_true ''Programmed''
      ''Tor pod provisioned; .onion published'')"
  by (simp add: accepted_gateway_def gateway_condition_def)

lemma next_status_again: "snd (next_status now' onion (fst (next_status now onion g))) = False"
proof -
  let ?n = "next_status now onion g"
  let ?prog = "\<lambda>now. gateway_condition now g ''Programmed'' condition_true ''Programmed''
      ''Tor pod provisioned; .onion published''"
  note parts = next_status_parts [where now = now and onion = onion and g = g]
  have later: "accepted_gateway now' (fst ?n) = (accepted_gateway now g)\<lparr>cond_transition := now'\<rparr>"
    "gateway_condition now' (fst ?n) ''Programmed'' condition_true ''Programmed''
      ''Tor pod provisioned; .onion published'' = (?prog now)\<lparr>cond_transition := now'\<rparr>"
    unfolding accepted_gateway_def gateway_condition_meta [OF parts(5)]
    by (rule gateway_condition_later)+
  show ?thesis
    using next_status_parts(6) [where now = now' and onion = onion and g = "fst ?n"]
      parts(1,2) listeners_settle [OF parts(3,4)]
      set_two_again [OF next_status_types, of "gw_conditions g" now g now' now']
    unfolding later by simp
qed

lemma next_status_changed: "snd (next_status now onion g) = (fst (next_status now onion g) \<noteq> g)"
proof -
  let ?n = "next_status now onion g"
  note parts = next_status_parts [where now = now and onion = onion and g = g]
  have upd: "fst ?n = g\<lparr>gw_addresses := gw_addresses (fst ?n), gw_conditions := gw_conditions (fst ?n),
      gw_listener_status := gw_listener_status (fst ?n)\<rparr>"
    by (simp add: next_status_def Let_def del: set_conditions.simps split: prod.splits)
  have "fst ?n = g \<longleftrightarrow> gw_addresses (fst ?n) = gw_addresses g \<and> gw_conditions (fst ?n) = gw_conditions g \<and>
      gw_listener_status (fst ?n) = gw_listener_status g"
    by (subst upd) (simp only: update_three_id)
  moreover have "gw_listener_status (fst ?n) = gw_listener_status g \<longleftrightarrow>
      equal_listener_status (gw_listener_status g) (map (wanted_listener_status now g) (gw_listeners g))"
    by (auto simp: next_status_def Let_def listeners.eq_refl simp del: set_conditions.simps split: prod.splits)
  ultimately show ?thesis
    using parts(1,2,6) set_two_changed [OF next_status_types, of "gw_conditions g" now g] by auto
qed

text \<open>
  The status of Mode A settles. The status computed for a Gateway is reported as changed exactly
  when it differs from the present one; and computed again from its own outcome, at any later time, it
  is unchanged, with the counts of attached routes that the HTTPRoute controller keeps there intact.
  So two controllers that write one status do not fight, and a reconcile does not requeue itself.
\<close>

lemma status_settles:
  "snd (next_status now onion g) = (fst (next_status now onion g) \<noteq> g)
   \<and> snd (next_status now' onion (fst (next_status now onion g))) = False
   \<and> map (\<lambda>l. attached_of (gw_listener_status (fst (next_status now onion g))) (ls_name l)) (gw_listeners g) =
       map (\<lambda>l. attached_of (gw_listener_status g) (ls_name l)) (gw_listeners g)"
proof (intro conjI next_status_changed next_status_again)
  show "map (\<lambda>l. attached_of (gw_listener_status (fst (next_status now onion g))) (ls_name l)) (gw_listeners g) =
      map (\<lambda>l. attached_of (gw_listener_status g) (ls_name l)) (gw_listeners g)"
    using attached_settle [OF next_status_parts(3)] by simp
qed

text \<open>Mode B.\<close>

definition onion_address_entry :: "status_address \<Rightarrow> bool" where
  "onion_address_entry a = has_suffix (sa_value a) ''.onion''"

lemma merge_onion_filters:
  assumes "onion_address_entry m"
  shows "filter onion_address_entry (merge_onion m found as) = (if found then [] else [m])"
    and "filter (\<lambda>a. \<not> onion_address_entry a) (merge_onion m found as) = filter (\<lambda>a. \<not> onion_address_entry a) as"
  using assms by (induction m found as rule: merge_onion.induct) (auto simp: onion_address_entry_def)

lemma merge_onion_found: "filter onion_address_entry as = [] \<Longrightarrow> merge_onion m True as = as"
  by (induction as) (auto simp: onion_address_entry_def split: if_splits)

lemma merge_onion_again:
  assumes "onion_address_entry m" shows "merge_onion m False (merge_onion m False as) = merge_onion m False as"
  using assms
proof (induction as)
  case (Cons a as)
  have "merge_onion m True (merge_onion m True as) = merge_onion m True as"
    by (rule merge_onion_found) (simp add: merge_onion_filters(1) [OF assms])
  with Cons show ?case by (auto simp: onion_address_entry_def)
qed (simp add: onion_address_entry_def)

lemma onion_string_entry:
  "length (pub_key a) = public_key_size \<Longrightarrow> onion_address_entry (onion_status_address (onion_string a))"
  by (simp add: onion_address_entry_def onion_status_address_def onion_string_def onion_suffix_def)

text \<open>
  In high-availability mode a Gateway publishes one onion address. Whatever addresses the status
  held, with none, one or several onion addresses among them, the list written contains the master's
  address exactly once and no other onion address, keeps every other address in its place, and does
  not change when it is written again.
\<close>

lemma one_onion_published:
  "case master_onion_from_secret bm d of Inl _ \<Rightarrow> True | Inr master \<Rightarrow>
     (let m = onion_status_address (onion_string master); new = merge_onion m False addrs in
      filter onion_address_entry new = [m]
      \<and> filter (\<lambda>a. \<not> onion_address_entry a) new = filter (\<lambda>a. \<not> onion_address_entry a) addrs
      \<and> merge_onion m False new = new)"
proof (cases "master_onion_from_secret bm d")
  case (Inr master)
  then obtain kp where "wf_key_pair kp" "master = key_onion_address kp"
    by (auto simp: master_onion_from_secret_def bindE_Inr_iff validate_master_key_secret_iff)
  then have "length (pub_key master) = public_key_size"
    by (simp add: wf_key_pair_def public_key_size_def)
  from onion_string_entry [OF this] Inr show ?thesis
    by (simp add: Let_def merge_onion_filters merge_onion_again)
qed simp

end
