(* ===== verification/Call_Bounds.thy ===== *)
theory Call_Bounds
  imports Gateway_Status
begin

text \<open>
  How many calls a program makes, and what its last call is. \<open>within p n l Q\<close>: whatever the server
  answers, \<open>p\<close> ends after at most \<open>n\<close> calls, with a last call and a result that satisfy \<open>Q\<close>; \<open>l\<close> is the last
  call before \<open>p\<close>. With it, the retry loops of the controller are shown to end.
\<close>

primrec within :: "'a prog \<Rightarrow> nat \<Rightarrow> call option \<Rightarrow> (call option \<Rightarrow> 'a \<Rightarrow> bool) \<Rightarrow> bool" where
  "within (Ret x) n l Q = Q l x"
| "within (Call c k) n l Q = (0 < n \<and> (\<forall>r. within (k r) (n - 1) (Some c) Q))"

lemma within_mono:
  "within p n l Q \<Longrightarrow> n \<le> m \<Longrightarrow> (\<And>l x. Q l x \<Longrightarrow> Q' l x) \<Longrightarrow> within p m l Q'"
  by (induction p arbitrary: n m l) (auto, blast intro: diff_le_mono)

lemma within_bindP:
  assumes "within p m l (\<lambda>l' x. within (f x) n l' Q)"
  shows "within (bindP p f) (m + n) l Q"
  using assms
proof (induction p arbitrary: m l)
  case (Ret x)
  then show ?case by (auto intro: within_mono)
next
  case (Call c k)
  then show ?case
    by (cases m) (auto simp: Suc_diff_le)
qed

lemma within_bindA:
  assumes "within p m l (\<lambda>l' r. case r of Inl e \<Rightarrow> Q l' (Inl e) | Inr x \<Rightarrow> within (f x) n l' Q)"
  shows "within (bindA p f) (m + n) l Q"
  unfolding bindA_def using assms
  by (intro within_bindP) (erule within_mono, auto split: sum.splits)

lemma within_wrapA: "within p n l (\<lambda>l' r. Q l' (mapErr h r)) \<Longrightarrow> within (wrapA h p) n l Q"
  using within_bindP [of p n l "\<lambda>r. Ret (mapErr h r)" 0 Q] by (simp add: wrapA_def)

lemma within_retry:
  assumes "\<And>l. within p m l Q"
  shows "within (retry_on_conflict k p) (Suc k * m) l Q"
proof (induction k arbitrary: l)
  case (Suc k)
  have "within p m l (\<lambda>l' x. within (if x = Inl Conflict then retry_on_conflict k p else Ret x) (Suc k * m) l' Q)"
    by (rule within_mono [OF assms order_refl]) (use Suc.IH in auto)
  from within_bindP [OF this] show ?case by simp
qed (simp add: assms)

text \<open>What it says of a run.\<close>

lemma within_run:
  assumes "within p n l Q"
  shows "case run_prog serve p w of ((cs, x), w') \<Rightarrow>
    length cs \<le> n \<and> Q (if cs = [] then l else Some (last cs)) x"
  using assms
proof (induction p arbitrary: n l w)
  case (Call c k)
  obtain r w1 where s: "serve w c = (r, w1)" by (cases "serve w c")
  obtain cs x w2 where t: "run_prog serve (k r) w1 = ((cs, x), w2)"
    by (metis prod.exhaust)
  have "case run_prog serve (k r) w1 of ((cs, x), w') \<Rightarrow>
    length cs \<le> n - 1 \<and> Q (if cs = [] then Some c else Some (last cs)) x"
    using Call.prems by (intro Call.IH) auto
  then show ?case using Call.prems by (auto simp: s t split: if_splits)
qed simp

text \<open>Single calls.\<close>

lemma within_get: "(\<And>x. Q (Some (Get k key)) x) \<Longrightarrow> within (get_obj k un key) 1 l Q"
  by (simp add: get_obj_def)

lemma within_list: "(\<And>x. Q (Some (ListObjs k ns ls)) x) \<Longrightarrow> within (list_objs k un ns ls) 1 l Q"
  by (simp add: list_objs_def)

lemma within_write_call: "(\<And>x. Q (Some c) x) \<Longrightarrow> within (write_call c) 1 l Q"
  by (simp add: write_call_def)

lemma within_write_gateway: "(\<And>x. Q (Some c) x) \<Longrightarrow> within (write_gateway c) 1 l Q"
  by (simp add: write_gateway_def)

lemma within_event: "(\<And>l'. Q l' (Inr ())) \<Longrightarrow> within (event_on R g reason) 1 l Q"
  by (simp add: event_on_def record_event_def)

lemma within_event_if: "(\<And>l'. Q l' (Inr ())) \<Longrightarrow> within (if b then event_on R g reason else okA ()) 1 l Q"
  by (simp add: event_on_def record_event_def)

lemma within_pow: "(\<And>l' b. Q l' b) \<Longrightarrow> within (pow_forced_off g) 1 l Q"
  by (auto simp: pow_forced_off_def list_objs_def split: sum.splits)

lemma within_health: "(\<And>l' h. Q l' h) \<Longrightarrow> within (mode_b_health V g) 2 l Q"
  by (auto simp: mode_b_health_def get_obj_def count_ready_backends_def list_objs_def bindA_def
      split: sum.splits)

text \<open>The retry loops of Mode B.\<close>

lemma within_annotate: "(\<And>l' r. Q l' r) \<Longrightarrow> within (annotate_mode_b V g p) 15 l Q"
proof -
  assume Q: "\<And>l' r. Q l' r"
  have step: "within (bindP (pow_forced_off f1) (\<lambda>off.
         write_gateway (Update (OGateway (if off then annotate ann_pow_emitted ann_true f1 else f1))))) (1 + 1) l Q"
    for l f1
    by (intro within_bindP within_pow within_write_gateway Q)
  have "within (bindA (get_obj KGateway un_gateway (meta_key (gw_meta g))) (\<lambda>fresh.
       let f1 = annotate ann_last_replicas (show_nat (obp_replicas (obp_spec p))) fresh in
       bindP (pow_forced_off f1) (\<lambda>off.
         write_gateway (Update (OGateway (if off then annotate ann_pow_emitted ann_true f1 else f1)))))) (1 + (1 + 1)) l Q" for l
    unfolding Let_def using Q step by (intro within_bindA within_get) (auto split: sum.split)
  from within_retry [OF this, of 4] show ?thesis by (simp add: annotate_mode_b_def)
qed

text \<open>The status write of Mode B: the last call of a success.\<close>

definition published :: "onion_address \<Rightarrow> call option \<Rightarrow> bool" where
  "published master c \<longleftrightarrow>
     (\<exists>g. c = Some (StatusUpdate (OGateway g)) \<and>
        filter onion_address_entry (gw_addresses g) = [onion_status_address (onion_string master)])"

lemma within_publish:
  assumes "length (pub_key master) = public_key_size"
    and "\<And>l' e. Q l' (Inl e)" "\<And>l'. published master l' \<Longrightarrow> Q l' (Inr ())"
  shows "within (publish_mode_b V g master health) 10 l Q"
proof -
  obtain b reason msg where h: "health = (b, reason, msg)" by (cases health)
  have "published master (Some (StatusUpdate (OGateway (fresh\<lparr>gw_addresses :=
      merge_onion (onion_status_address (onion_string master)) False (gw_addresses fresh), gw_conditions := cs\<rparr>))))"
    for fresh cs
    using merge_onion_filters(1) onion_string_entry [OF assms(1)] by (simp add: published_def)
  then have put: "within (write_call (StatusUpdate (OGateway (fresh\<lparr>gw_addresses :=
      merge_onion (onion_status_address (onion_string master)) False (gw_addresses fresh), gw_conditions := cs\<rparr>)))) 1 l Q"
    for fresh cs l
    using assms(2,3) by (auto simp: write_call_def split: answer.split)
  have "within (bindA (get_obj KGateway un_gateway (meta_key (gw_meta g))) (\<lambda>fresh.
        let addrs = merge_onion (onion_status_address (onion_string master)) False (gw_addresses fresh);
            conds = fst (set_conditions (gw_conditions fresh)
              [accepted_gateway (ev_now V) fresh,
               gateway_condition (ev_now V) fresh ''Programmed''
                 (if b then condition_true else condition_false) reason msg])
        in write_call (StatusUpdate (OGateway (fresh\<lparr>gw_addresses := addrs, gw_conditions := conds\<rparr>))))) (1 + 1) l Q" for l
    unfolding Let_def using assms(2) put by (intro within_bindA within_get) (auto split: sum.split)
  from within_retry [OF this, of 4] show ?thesis by (simp add: publish_mode_b_def h)
qed

text \<open>
  C40: The status of a Gateway in high-availability mode is written in a bounded number of calls.
  Whatever the server answers (conflicts on every write included), the status update of Mode B
  with its events, its annotation and its two retry loops ends after at most 31 calls, and
  when it reports success its last call was a write of that Gateway's status with the master's
  address as the one onion address.
\<close>

theorem mode_b_status_ends:
  assumes "master_onion_from_secret bm d = Inr master"
  shows "case run_prog serve (update_status_mode_b V R g master p) w of ((cs, r), w') \<Rightarrow>
    length cs \<le> 31 \<and>
    (r = Inr () \<longrightarrow> cs \<noteq> [] \<and> (\<exists>g'. last cs = StatusUpdate (OGateway g') \<and>
       filter onion_address_entry (gw_addresses g') = [onion_status_address (onion_string master)]))"
proof -
  obtain kp where "wf_key_pair kp" "master = key_onion_address kp"
    using assms by (auto simp: master_onion_from_secret_def bindE_Inr_iff validate_master_key_secret_iff)
  then have len: "length (pub_key master) = public_key_size"
    by (simp add: wf_key_pair_def public_key_size_def)
  define Q where "Q = (\<lambda>l (r :: (gateway_error, unit) result). r = Inr () \<longrightarrow> published master l)"
  have Q: "Q l (Inl e)" "published master l \<Longrightarrow> Q l (Inr ())" for l e
    by (auto simp: Q_def)
  have publish: "within (apiA (publish_mode_b V g' master health)) 10 l Q" for g' health l
    by (rule within_wrapA, rule within_publish [OF len]) (auto simp: Q_def published_def)
  have health: "within (bindP (mode_b_health V g') (\<lambda>health. apiA (publish_mode_b V g' master health))) (2 + 10) l Q" for g' l
    by (intro within_bindP within_health publish)
  have annotate: "within (bindA (if b then apiA (annotate_mode_b V g p) else okA g)
      (\<lambda>g'. bindP (mode_b_health V g') (\<lambda>health. apiA (publish_mode_b V g' master health)))) (15 + (2 + 10)) l Q" for b l
    by (rule within_bindA) (use health in \<open>auto intro!: within_wrapA within_annotate simp: Q split: sum.split\<close>)
  have events: "within (bindA (if b then event_on R g reason else okA ()) f) (1 + n) l Q"
    if "\<And>l x. within (f x) n l Q" for b reason f n l
    by (rule within_bindA, rule within_event_if) (simp add: that)
  have "within (update_status_mode_b V R g master p) (1 + (1 + (1 + (1 + (15 + (2 + 10)))))) None Q"
    unfolding update_status_mode_b_def Let_def
    by (intro events within_bindP within_pow annotate)
  from within_run [OF this, of serve w] show ?thesis
    by (auto simp: Q_def published_def split: prod.splits if_splits)
qed

definition conflict_server :: "unit \<Rightarrow> call \<Rightarrow> answer \<times> unit" where
  "conflict_server w c = (Failed Conflict, w)"

definition sample_env :: env where
  "sample_env = \<lparr>ev_bm = (\<lambda>_. replicate 32 7), ev_order = (\<lambda>bs. bs), ev_now = 0, ev_text = (\<lambda>_. ''conflict'')\<rparr>"

lemma sample_master: "\<exists>master. master_onion_from_secret (\<lambda>_. replicate 32 7)
    (key_secret_data \<lparr>kp_public = replicate 32 7, kp_expanded = replicate 31 0 @ 0x40 # replicate 32 0\<rparr>) = Inr master"
proof -
  let ?kp = "\<lparr>kp_public = replicate 32 7, kp_expanded = replicate 31 (0 :: byte) @ 0x40 # replicate 32 0\<rparr>"
  have "wf_key_pair ?kp"
    by (simp add: wf_key_pair_def looks_clamped_def nth_append expanded_secret_len_def)
  then have "validate_master_key_secret (\<lambda>_. replicate 32 7) (key_secret_data ?kp) = Inr ?kp"
    by (simp add: validate_master_key_secret_iff)
  then show ?thesis by (simp add: master_onion_from_secret_def)
qed

theorem mode_b_status_ends_witness:
  "\<exists>master. case run_prog conflict_server (update_status_mode_b sample_env sample_reconciler (sample_gateway ''shop'') master sample_obp) ()
     of ((cs, r), w') \<Rightarrow> length cs \<le> 31"
proof -
  obtain master where m: "master_onion_from_secret (\<lambda>_. replicate 32 7)
    (key_secret_data \<lparr>kp_public = replicate 32 7, kp_expanded = replicate 31 0 @ 0x40 # replicate 32 0\<rparr>) = Inr master"
    using sample_master by blast
  from mode_b_status_ends [OF m, of conflict_server sample_env sample_reconciler "sample_gateway ''shop''" sample_obp "()"]
  show ?thesis by (intro exI [of _ master]) (simp split: prod.splits)
qed

end
