(* ===== verification/Server_Defaults.thy ===== *)
theory Server_Defaults
  imports Gateway_Status
begin

text \<open>
  What the API server adds to an object it stores. A field that is left empty may get a default (the
  restart policy of a pod template, the pull policy of a container, the protocol of a port, ...); a field
  that is set is kept. Which defaults there are is the server's matter: a function \<open>fill\<close>, known by the laws of
  the locale \<open>defaulting\<close>. \<open>same_spec\<close> compares what a controller may set of an object of one kind, apart from
  metadata, status and the allocated cluster IP; \<open>declared fill want ob\<close> says that \<open>ob\<close> is what the server makes of
  \<open>want\<close>: same labels and owners, and the completed specification. It does not mention how a controller
  writes objects.
\<close>

subsection \<open>Objects and their metadata\<close>

fun map_meta :: "(object_meta \<Rightarrow> object_meta) \<Rightarrow> obj \<Rightarrow> obj" where
  "map_meta h (OGateway x) = OGateway (x\<lparr>gw_meta := h (gw_meta x)\<rparr>)"
| "map_meta h (OTsp x) = OTsp (x\<lparr>tsp_meta := h (tsp_meta x)\<rparr>)"
| "map_meta h (OTcap x) = OTcap (x\<lparr>tcap_meta := h (tcap_meta x)\<rparr>)"
| "map_meta h (OObp x) = OObp (x\<lparr>obp_meta := h (obp_meta x)\<rparr>)"
| "map_meta h (OSecret x) = OSecret (x\<lparr>sec_meta := h (sec_meta x)\<rparr>)"
| "map_meta h (OConfigMap x) = OConfigMap (x\<lparr>cm_meta := h (cm_meta x)\<rparr>)"
| "map_meta h (OService x) = OService (x\<lparr>svc_meta := h (svc_meta x)\<rparr>)"
| "map_meta h (ODeployment x) = ODeployment (x\<lparr>dep_meta := h (dep_meta x)\<rparr>)"
| "map_meta h (OStatefulSet x) = OStatefulSet (x\<lparr>ss_meta := h (ss_meta x)\<rparr>)"
| "map_meta h (OServiceAccount x) = OServiceAccount (x\<lparr>sac_meta := h (sac_meta x)\<rparr>)"
| "map_meta h (ORole x) = ORole (x\<lparr>role_meta := h (role_meta x)\<rparr>)"
| "map_meta h (ORoleBinding x) = ORoleBinding (x\<lparr>rb_meta := h (rb_meta x)\<rparr>)"
| "map_meta h (OJob x) = OJob (x\<lparr>job_meta := h (job_meta x)\<rparr>)"
| "map_meta h (ONetworkPolicy x) = ONetworkPolicy (x\<lparr>np_meta := h (np_meta x)\<rparr>)"
| "map_meta h ob = ob"

definition strip_meta :: "object_meta \<Rightarrow> object_meta" where
  "strip_meta m = m\<lparr>om_uid := [], om_version := [], om_generation := 0\<rparr>"

definition strip :: "obj \<Rightarrow> obj" where
  "strip = map_meta strip_meta"

fun meta_of :: "obj \<Rightarrow> object_meta" where
  "meta_of (OGateway x) = gw_meta x"
| "meta_of (OTsp x) = tsp_meta x"
| "meta_of (OTcap x) = tcap_meta x"
| "meta_of (OObp x) = obp_meta x"
| "meta_of (OSecret x) = sec_meta x"
| "meta_of (OConfigMap x) = cm_meta x"
| "meta_of (OService x) = svc_meta x"
| "meta_of (ODeployment x) = dep_meta x"
| "meta_of (OStatefulSet x) = ss_meta x"
| "meta_of (OServiceAccount x) = sac_meta x"
| "meta_of (ORole x) = role_meta x"
| "meta_of (ORoleBinding x) = rb_meta x"
| "meta_of (OJob x) = job_meta x"
| "meta_of (ONetworkPolicy x) = np_meta x"
| "meta_of ob = bare_meta [] [] []"

definition obj_labels :: "obj \<Rightarrow> string gomap" where
  "obj_labels ob = om_labels (meta_of ob)"

definition place :: "obj \<Rightarrow> kind \<times> nsname" where
  "place ob = (obj_kind ob, obj_key ob)"

text \<open>Objects that are equal up to what the server stamps differ in their metadata only.\<close>

lemma map_meta_kind [simp]: "obj_kind (map_meta h ob) = obj_kind ob"
  by (cases ob) simp_all

lemma strip_kind: "strip a = strip b \<Longrightarrow> obj_kind a = obj_kind b"
  unfolding strip_def by (metis map_meta_kind)

lemma meta_of_strip: "map_meta (\<lambda>_. meta_of a) a = a" "map_meta (\<lambda>_. m) (strip a) = map_meta (\<lambda>_. m) a"
  by (cases a; simp add: strip_def)+

lemma strip_eqD:
  assumes "strip a = strip c"
  shows "a = map_meta (\<lambda>_. meta_of a) c" "strip_meta (meta_of a) = strip_meta (meta_of c)"
proof -
  show "a = map_meta (\<lambda>_. meta_of a) c"
    using meta_of_strip(1) [of a] meta_of_strip(2) [of "meta_of a" a] meta_of_strip(2) [of "meta_of a" c] assms by simp
  have "meta_of (strip ob) = strip_meta (meta_of ob)" for ob
    by (cases ob) (simp_all add: strip_def strip_meta_def bare_meta_def)
  then show "strip_meta (meta_of a) = strip_meta (meta_of c)"
    using assms by metis
qed

lemma map_meta_place: "(\<And>m. meta_key (h m) = meta_key m) \<Longrightarrow> place (map_meta h ob) = place ob"
  by (cases ob) (simp_all add: place_def)

subsection \<open>Completion\<close>

definition text_kept :: "string \<Rightarrow> string \<Rightarrow> bool" where
  "text_kept a b \<longleftrightarrow> a = [] \<or> b = a"

definition nat_kept :: "nat \<Rightarrow> nat \<Rightarrow> bool" where
  "nat_kept a b \<longleftrightarrow> a = 0 \<or> b = a"

fun handler_kept :: "probe_handler \<Rightarrow> probe_handler \<Rightarrow> bool" where
  "handler_kept (HttpGet p n) (HttpGet q m) = (text_kept p q \<and> m = n)"
| "handler_kept a b = (b = a)"

definition probe_kept :: "probe \<Rightarrow> probe \<Rightarrow> bool" where
  "probe_kept a b \<longleftrightarrow>
     handler_kept (pb_handler a) (pb_handler b) \<and> pb_initial_delay b = pb_initial_delay a \<and>
     nat_kept (pb_period a) (pb_period b) \<and> nat_kept (pb_timeout a) (pb_timeout b) \<and>
     nat_kept (pb_failure_threshold a) (pb_failure_threshold b)"

definition container_port_kept :: "container_port \<Rightarrow> container_port \<Rightarrow> bool" where
  "container_port_kept a b \<longleftrightarrow> cp_name b = cp_name a \<and> cp_port b = cp_port a \<and> text_kept (cp_protocol a) (cp_protocol b)"

text \<open>Missing requests are taken from the limits.\<close>

definition resources_kept :: "resource_requirements \<Rightarrow> resource_requirements \<Rightarrow> bool" where
  "resources_kept a b \<longleftrightarrow> rq_limits b = rq_limits a \<and> (\<forall>(k, v) \<in> set (rq_requests a). (k, v) \<in> set (rq_requests b))"

definition container_kept :: "container \<Rightarrow> container \<Rightarrow> bool" where
  "container_kept a b \<longleftrightarrow>
     ct_name b = ct_name a \<and> ct_image b = ct_image a \<and> ct_args b = ct_args a \<and> ct_env b = ct_env a \<and>
     ct_mounts b = ct_mounts a \<and> ct_security b = ct_security a \<and> text_kept (ct_pull_policy a) (ct_pull_policy b) \<and>
     resources_kept (ct_resources a) (ct_resources b) \<and> list_all2 container_port_kept (ct_ports a) (ct_ports b) \<and>
     rel_option probe_kept (ct_startup a) (ct_startup b) \<and> rel_option probe_kept (ct_liveness a) (ct_liveness b) \<and>
     rel_option probe_kept (ct_readiness a) (ct_readiness b)"

fun source_kept :: "volume_source \<Rightarrow> volume_source \<Rightarrow> bool" where
  "source_kept (SecretVolume n m) (SecretVolume n' m') = (n' = n \<and> (m = 0 \<or> m' = m))"
| "source_kept a b = (b = a)"

definition volume_kept :: "volume \<Rightarrow> volume \<Rightarrow> bool" where
  "volume_kept a b \<longleftrightarrow> vol_name b = vol_name a \<and> source_kept (vol_source a) (vol_source b)"

definition pod_kept :: "pod_spec \<Rightarrow> pod_spec \<Rightarrow> bool" where
  "pod_kept a b \<longleftrightarrow>
     text_kept (pod_service_account a) (pod_service_account b) \<and> pod_share_process b = pod_share_process a \<and>
     text_kept (pod_restart_policy a) (pod_restart_policy b) \<and> pod_security b = pod_security a \<and>
     list_all2 volume_kept (pod_volumes a) (pod_volumes b) \<and> list_all2 container_kept (pod_init a) (pod_init b) \<and>
     list_all2 container_kept (pod_containers a) (pod_containers b) \<and> pod_spread b = pod_spread a"

definition service_port_kept :: "service_port \<Rightarrow> service_port \<Rightarrow> bool" where
  "service_port_kept a b \<longleftrightarrow>
     svp_name b = svp_name a \<and> svp_port b = svp_port a \<and> (svp_target a = IntPort 0 \<or> svp_target b = svp_target a) \<and>
     text_kept (svp_protocol a) (svp_protocol b)"

definition policy_port_kept :: "policy_port \<Rightarrow> policy_port \<Rightarrow> bool" where
  "policy_port_kept a b \<longleftrightarrow>
     text_kept (pp_protocol a) (pp_protocol b) \<and> pp_port b = pp_port a \<and> pp_end_port b = pp_end_port a"

definition egress_rule_kept :: "egress_rule \<Rightarrow> egress_rule \<Rightarrow> bool" where
  "egress_rule_kept a b \<longleftrightarrow> eg_to b = eg_to a \<and> list_all2 policy_port_kept (eg_ports a) (eg_ports b)"

text \<open>Of a Job nothing is said: its controller adds labels to the pod template.\<close>

definition spec_kept :: "obj \<Rightarrow> obj \<Rightarrow> bool" where
  "spec_kept want ob \<longleftrightarrow> (case want of
     ODeployment a \<Rightarrow> (case ob of ODeployment b \<Rightarrow>
       dep_replicas b = dep_replicas a \<and> dep_selector b = dep_selector a \<and> text_kept (dep_strategy a) (dep_strategy b) \<and>
       dep_pod_labels b = dep_pod_labels a \<and> pod_kept (dep_pod a) (dep_pod b) \<and> dep_conditions b = dep_conditions a
       | _ \<Rightarrow> False)
   | OStatefulSet a \<Rightarrow> (case ob of OStatefulSet b \<Rightarrow>
       (ss_replicas a = None \<or> ss_replicas b = ss_replicas a) \<and> ss_selector b = ss_selector a \<and>
       ss_service_name b = ss_service_name a \<and> text_kept (ss_pod_management a) (ss_pod_management b) \<and>
       ss_pod_labels b = ss_pod_labels a \<and> pod_kept (ss_pod a) (ss_pod b) \<and> ss_status_replicas b = ss_status_replicas a
       | _ \<Rightarrow> False)
   | OService a \<Rightarrow> (case ob of OService b \<Rightarrow>
       svc_cluster_ip b = svc_cluster_ip a \<and> svc_selector b = svc_selector a \<and>
       list_all2 service_port_kept (svc_ports a) (svc_ports b)
       | _ \<Rightarrow> False)
   | ORoleBinding a \<Rightarrow> (case ob of ORoleBinding b \<Rightarrow>
       text_kept (rb_role_group a) (rb_role_group b) \<and> rb_role_kind b = rb_role_kind a \<and>
       rb_role_name b = rb_role_name a \<and> rb_subjects b = rb_subjects a
       | _ \<Rightarrow> False)
   | ONetworkPolicy a \<Rightarrow> (case ob of ONetworkPolicy b \<Rightarrow>
       np_pod_selector b = np_pod_selector a \<and> (np_policy_types a = [] \<or> np_policy_types b = np_policy_types a) \<and>
       list_all2 egress_rule_kept (np_egress a) (np_egress b)
       | _ \<Rightarrow> False)
   | OJob a \<Rightarrow> obj_kind ob = KJob
   | _ \<Rightarrow> ob = want)"

definition completes :: "obj \<Rightarrow> obj \<Rightarrow> bool" where
  "completes a b \<longleftrightarrow> obj_kind b = obj_kind a \<and> meta_of b = meta_of a \<and> spec_kept a b"

text \<open>What a controller sets of a child, apart from labels and owners.\<close>

definition same_spec :: "obj \<Rightarrow> obj \<Rightarrow> bool" where
  "same_spec ob ob' \<longleftrightarrow> (case ob of
     OConfigMap a \<Rightarrow> (case ob' of OConfigMap b \<Rightarrow> cm_data a = cm_data b | _ \<Rightarrow> False)
   | OServiceAccount a \<Rightarrow> obj_kind ob' = KServiceAccount
   | ORole a \<Rightarrow> (case ob' of ORole b \<Rightarrow> role_rules a = role_rules b | _ \<Rightarrow> False)
   | ORoleBinding a \<Rightarrow> (case ob' of ORoleBinding b \<Rightarrow>
       rb_role_group a = rb_role_group b \<and> rb_role_kind a = rb_role_kind b \<and> rb_role_name a = rb_role_name b \<and>
       rb_subjects a = rb_subjects b | _ \<Rightarrow> False)
   | OService a \<Rightarrow> (case ob' of OService b \<Rightarrow> svc_selector a = svc_selector b \<and> svc_ports a = svc_ports b | _ \<Rightarrow> False)
   | ODeployment a \<Rightarrow> (case ob' of ODeployment b \<Rightarrow>
       dep_replicas a = dep_replicas b \<and> dep_selector a = dep_selector b \<and> dep_strategy a = dep_strategy b \<and>
       dep_pod_labels a = dep_pod_labels b \<and> dep_pod a = dep_pod b | _ \<Rightarrow> False)
   | OStatefulSet a \<Rightarrow> (case ob' of OStatefulSet b \<Rightarrow>
       ss_replicas a = ss_replicas b \<and> ss_selector a = ss_selector b \<and> ss_service_name a = ss_service_name b \<and>
       ss_pod_management a = ss_pod_management b \<and> ss_pod_labels a = ss_pod_labels b \<and> ss_pod a = ss_pod b
       | _ \<Rightarrow> False)
   | ONetworkPolicy a \<Rightarrow> (case ob' of ONetworkPolicy b \<Rightarrow>
       np_pod_selector a = np_pod_selector b \<and> np_policy_types a = np_policy_types b \<and> np_egress a = np_egress b
       | _ \<Rightarrow> False)
   | _ \<Rightarrow> False)"

locale defaulting =
  fixes fill :: "obj \<Rightarrow> obj"
  assumes fill_law: "completes ob (fill ob)"
    and fill_spec_law: "same_spec a b \<Longrightarrow> same_spec (fill a) (fill b)"
begin

lemma fill_simps [simp]: "obj_kind (fill ob) = obj_kind ob" "meta_of (fill ob) = meta_of ob"
  "obj_key (fill ob) = obj_key ob"
  "fill (OSecret s) = OSecret s" "fill (OGateway g) = OGateway g" "fill (OConfigMap c) = OConfigMap c"
proof -
  show "obj_kind (fill ob) = obj_kind ob" and m: "meta_of (fill ob) = meta_of ob"
    using fill_law [of ob] by (simp_all add: completes_def)
  show "obj_key (fill ob) = obj_key ob"
    using fill_law [of ob] by (cases ob; cases "fill ob") (auto simp: completes_def spec_kept_def)
qed (use fill_law [of "OSecret s"] fill_law [of "OGateway g"] fill_law [of "OConfigMap c"] in
  \<open>simp_all add: completes_def spec_kept_def\<close>)

lemma fill_place [simp]: "place (fill ob) = place ob"
  by (simp add: place_def)

end

subsection \<open>Declared children\<close>

text \<open>The server gives every Service a cluster IP; one that is there is kept.\<close>

fun has_ip :: "obj \<Rightarrow> bool" where
  "has_ip (OService s) = (svc_cluster_ip s \<noteq> [])"
| "has_ip ob = True"

fun allocate :: "string \<Rightarrow> obj \<Rightarrow> obj" where
  "allocate ip (OService s) = OService (if svc_cluster_ip s = [] then s\<lparr>svc_cluster_ip := ip\<rparr> else s)"
| "allocate ip ob = ob"

text \<open>What the server stores for \<open>ob\<close>: uid, version and generation are its own.\<close>

definition stamped :: "obj \<Rightarrow> obj \<Rightarrow> bool" where
  "stamped ob ob' \<longleftrightarrow> (\<exists>ip. strip ob' = strip (allocate ip ob)) \<and> has_ip ob'"

lemma allocate_place [simp]: "place (allocate ip ob) = place ob"
  by (cases ob) (simp_all add: place_def)

definition declared :: "(obj \<Rightarrow> obj) \<Rightarrow> obj \<Rightarrow> obj \<Rightarrow> bool" where
  "declared fill want ob \<longleftrightarrow>
     obj_kind ob = obj_kind want \<and> om_labels (meta_of ob) = om_labels (meta_of want) \<and>
     om_owners (meta_of ob) = om_owners (meta_of want) \<and> same_spec ob (fill want) \<and> has_ip ob"

text \<open>Fields that an update may not change.\<close>

definition keeps_fixed :: "obj \<Rightarrow> obj \<Rightarrow> bool" where
  "keeps_fixed old new \<longleftrightarrow> (case old of
     ODeployment a \<Rightarrow> (case new of ODeployment b \<Rightarrow> dep_selector b = dep_selector a | _ \<Rightarrow> True)
   | OStatefulSet a \<Rightarrow> (case new of OStatefulSet b \<Rightarrow>
       ss_selector b = ss_selector a \<and> ss_service_name b = ss_service_name a \<and> ss_pod_management b = ss_pod_management a
       | _ \<Rightarrow> True)
   | ORoleBinding a \<Rightarrow> (case new of ORoleBinding b \<Rightarrow>
       rb_role_group b = rb_role_group a \<and> rb_role_kind b = rb_role_kind a \<and> rb_role_name b = rb_role_name a | _ \<Rightarrow> True)
   | OService a \<Rightarrow> (case new of OService b \<Rightarrow> svc_cluster_ip a = [] \<or> svc_cluster_ip b = svc_cluster_ip a | _ \<Rightarrow> True)
   | _ \<Rightarrow> True)"

definition alterable :: "obj option \<Rightarrow> obj \<Rightarrow> bool" where
  "alterable old new \<longleftrightarrow> (case old of None \<Rightarrow> True | Some ob \<Rightarrow> keeps_fixed ob new)"

subsection \<open>Defaults of a server\<close>

definition or_default :: "string \<Rightarrow> string \<Rightarrow> string" where
  "or_default a d = (if a = [] then d else a)"

definition fill_container :: "container \<Rightarrow> container" where
  "fill_container c = c\<lparr>ct_pull_policy := or_default (ct_pull_policy c) ''IfNotPresent'',
     ct_ports := map (\<lambda>p. p\<lparr>cp_protocol := or_default (cp_protocol p) ''TCP''\<rparr>) (ct_ports c)\<rparr>"

definition fill_pod :: "pod_spec \<Rightarrow> pod_spec" where
  "fill_pod p = p\<lparr>pod_restart_policy := or_default (pod_restart_policy p) ''Always'',
     pod_init := map fill_container (pod_init p), pod_containers := map fill_container (pod_containers p)\<rparr>"

fun usual_defaults :: "obj \<Rightarrow> obj" where
  "usual_defaults (ODeployment d) =
     ODeployment (d\<lparr>dep_strategy := or_default (dep_strategy d) ''RollingUpdate'', dep_pod := fill_pod (dep_pod d)\<rparr>)"
| "usual_defaults (OStatefulSet s) = OStatefulSet (s\<lparr>ss_pod := fill_pod (ss_pod s)\<rparr>)"
| "usual_defaults (OService s) =
     OService (s\<lparr>svc_ports := map (\<lambda>p. p\<lparr>svp_protocol := or_default (svp_protocol p) ''TCP''\<rparr>) (svc_ports s)\<rparr>)"
| "usual_defaults ob = ob"

lemma kept_refl [simp]:
  "text_kept a a" "text_kept a (or_default a d)" "nat_kept n n"
  by (simp_all add: text_kept_def or_default_def nat_kept_def)

lemma handler_kept_refl [simp]: "handler_kept h h"
  by (cases h) (simp_all add: text_kept_def)

lemma source_kept_refl [simp]: "source_kept v v"
  by (cases v) simp_all

lemma list_all2_map_self: "(\<And>x. x \<in> set xs \<Longrightarrow> R x (f x)) \<Longrightarrow> list_all2 R xs (map f xs)"
  by (induction xs) auto

lemma rel_option_self: "(\<And>x. R x x) \<Longrightarrow> rel_option R o' o'"
  by (cases o') auto

lemma fill_container_kept: "container_kept c (fill_container c)"
  by (simp add: container_kept_def fill_container_def resources_kept_def list_all2_map_self container_port_kept_def
      probe_kept_def rel_option_self case_prod_unfold)

lemma fill_pod_kept: "pod_kept p (fill_pod p)"
proof -
  have "list_all2 volume_kept vs vs" for vs by (simp add: list_all2_same volume_kept_def)
  then show ?thesis by (simp add: pod_kept_def fill_pod_def list_all2_map_self fill_container_kept)
qed

lemma egress_kept_refl: "list_all2 egress_rule_kept rs rs"
  by (simp add: list_all2_same egress_rule_kept_def policy_port_kept_def)

interpretation usual: defaulting usual_defaults
proof
  show "completes ob (usual_defaults ob)" for ob
    by (cases ob) (simp_all add: completes_def spec_kept_def fill_pod_kept list_all2_map_self service_port_kept_def egress_kept_refl)
  show "same_spec (usual_defaults a) (usual_defaults b)" if "same_spec a b" for a b
    using that by (cases a; cases b) (simp_all add: same_spec_def)
qed

end
