(* ===== verification/Cluster.thy ===== *)
theory Cluster
  imports Server_Defaults
begin

text \<open>
  What a reconcile does to a cluster. The other theories speak of the calls a reconcile makes,
  whatever the server answers; here the server is one that keeps its documented promises (the
  locale \<open>api_server\<close>): it holds one object per kind and name, a read gives what is there and changes
  nothing, a successful write is stored, and nobody else writes meanwhile. The objects are the
  state; what the server itself puts on an object it stores (uid, resource version, generation) is
  left open, by comparing objects up to \<open>strip\<close>, and so are the defaults it fills in and the cluster IP it
  allocates (\<open>Server_Defaults\<close>). \<open>store_serve\<close> is such a server.
\<close>

subsection \<open>Running a program\<close>

primrec exec :: "('w \<Rightarrow> call \<Rightarrow> answer \<times> 'w) \<Rightarrow> 'a prog \<Rightarrow> 'w \<Rightarrow> 'a \<times> 'w" where
  "exec serve (Ret x) w = (x, w)"
| "exec serve (Call c k) w = (case serve w c of (r, w') \<Rightarrow> exec serve (k r) w')"

lemma exec_run_prog: "exec serve p w = (snd (fst (run_prog serve p w)), snd (run_prog serve p w))"
  by (induction p arbitrary: w) (auto split: prod.splits)

lemma exec_bindP: "exec serve (bindP p f) w = (case exec serve p w of (x, u) \<Rightarrow> exec serve (f x) u)"
  by (induction p arbitrary: w) (auto split: prod.splits)

lemma exec_bindA: "exec serve (bindA p f) w =
    (case exec serve p w of (Inl e, u) \<Rightarrow> (Inl e, u) | (Inr x, u) \<Rightarrow> exec serve (f x) u)"
  by (auto simp: bindA_def exec_bindP split: prod.splits sum.splits)

lemma exec_wrapA: "exec serve (wrapA h p) w = (case exec serve p w of (x, u) \<Rightarrow> (mapErr h x, u))"
  by (simp add: wrapA_def exec_bindP)

lemma exec_bindA_ok: "exec serve (bindA p f) w = (Inr y, w') \<longleftrightarrow>
    (\<exists>x u. exec serve p w = (Inr x, u) \<and> exec serve (f x) u = (Inr y, w'))"
  by (auto simp: exec_bindA split: prod.splits sum.splits)

lemma exec_wrapA_ok: "exec serve (wrapA h p) w = (Inr y, w') \<longleftrightarrow> exec serve p w = (Inr y, w')"
  by (auto simp: exec_wrapA mapErr_Inr_iff split: prod.splits)

lemma exec_built_ok: "exec serve (built h r k) w = (Inr y, w') \<longleftrightarrow>
    (\<exists>x. r = Inr x \<and> exec serve (k x) w = (Inr y, w'))"
  by (cases r) auto

lemmas exec_ok = exec_bindA_ok exec_wrapA_ok exec_built_ok

text \<open>What holds of all calls and results of a program, when the answers of the server are bound by \<open>E\<close>
  as long as \<open>I\<close> holds of its state.\<close>

lemma always_exec:
  assumes "always E P Q p" "I w"
    and "\<And>w c r w'. I w \<Longrightarrow> P c \<Longrightarrow> serve w c = (r, w') \<Longrightarrow> E c r \<and> I w'"
  shows "Q (fst (exec serve p w)) \<and> I (snd (exec serve p w))"
  using assms(1,2)
proof (induction p arbitrary: w)
  case (Call c k)
  obtain r w' where s: "serve w c = (r, w')" by (cases "serve w c")
  then have "E c r" "I w'" using assms(3) Call.prems by auto
  then show ?case using Call s by auto
qed simp

subsection \<open>Objects\<close>

text \<open>The typed zero values that \<open>CreateOrUpdate\<close> starts from.\<close>

definition no_pod :: pod_spec where
  "no_pod = \<lparr>pod_service_account = [], pod_share_process = False, pod_restart_policy = [],
     pod_security = pod_hardening, pod_volumes = [], pod_init = [], pod_containers = [], pod_spread = []\<rparr>"

definition blank :: "kind \<Rightarrow> nsname \<Rightarrow> obj" where
  "blank k n = (let m = bare_meta (fst n) (snd n) [] in case k of
     KConfigMap \<Rightarrow> OConfigMap \<lparr>cm_meta = m, cm_data = []\<rparr>
   | KService \<Rightarrow> OService \<lparr>svc_meta = m, svc_cluster_ip = [], svc_selector = [], svc_ports = []\<rparr>
   | KDeployment \<Rightarrow> ODeployment \<lparr>dep_meta = m, dep_replicas = 0, dep_selector = [], dep_strategy = [],
       dep_pod_labels = [], dep_pod = no_pod, dep_conditions = []\<rparr>
   | KStatefulSet \<Rightarrow> OStatefulSet \<lparr>ss_meta = m, ss_replicas = None, ss_selector = [], ss_service_name = [],
       ss_pod_management = [], ss_pod_labels = [], ss_pod = no_pod, ss_status_replicas = 0\<rparr>
   | KServiceAccount \<Rightarrow> OServiceAccount \<lparr>sac_meta = m\<rparr>
   | KRole \<Rightarrow> ORole \<lparr>role_meta = m, role_rules = []\<rparr>
   | KRoleBinding \<Rightarrow> ORoleBinding \<lparr>rb_meta = m, rb_role_group = [], rb_role_kind = [], rb_role_name = [],
       rb_subjects = []\<rparr>
   | KNetworkPolicy \<Rightarrow> ONetworkPolicy \<lparr>np_meta = m, np_pod_selector = [], np_policy_types = [], np_egress = []\<rparr>
   | _ \<Rightarrow> OSecret \<lparr>sec_meta = m, sec_data = []\<rparr>)"

text \<open>The object a write starts from.\<close>

type_synonym objects = "kind \<times> nsname \<Rightarrow> obj option"

definition existing :: "objects \<Rightarrow> kind \<times> nsname \<Rightarrow> obj" where
  "existing L x = (case L x of Some ob \<Rightarrow> ob | None \<Rightarrow> blank (fst x) (snd x))"

text \<open>\<open>L'\<close> is \<open>L\<close> with \<open>ob\<close> stored at \<open>x\<close>.\<close>

definition stored :: "kind \<times> nsname \<Rightarrow> obj \<Rightarrow> objects \<Rightarrow> objects \<Rightarrow> bool" where
  "stored x ob L L' \<longleftrightarrow> (\<exists>ob'. L' = L(x \<mapsto> ob') \<and> stamped ob ob')"

text \<open>The status of a Gateway is a subresource: a status update takes only the status, and an update
  everything else.\<close>

definition with_status :: "gateway \<Rightarrow> gateway \<Rightarrow> gateway" where
  "with_status g h = h\<lparr>gw_addresses := gw_addresses g, gw_conditions := gw_conditions g,
     gw_listener_status := gw_listener_status g\<rparr>"

definition versioned :: "string \<Rightarrow> int \<Rightarrow> gateway \<Rightarrow> gateway" where
  "versioned v n g = g\<lparr>gw_meta := (gw_meta g)\<lparr>om_version := v, om_generation := n\<rparr>\<rparr>"

lemma with_status_simps [simp]:
  "gw_meta (with_status g h) = gw_meta h" "gw_class (with_status g h) = gw_class h"
  "gw_listeners (with_status g h) = gw_listeners h" "gw_addresses (with_status g h) = gw_addresses g"
  "gw_conditions (with_status g h) = gw_conditions g" "gw_listener_status (with_status g h) = gw_listener_status g"
  by (simp_all add: with_status_def)

lemma versioned_simps [simp]:
  "meta_key (gw_meta (versioned v n g)) = meta_key (gw_meta g)" "om_ns (gw_meta (versioned v n g)) = om_ns (gw_meta g)"
  "om_name (gw_meta (versioned v n g)) = om_name (gw_meta g)" "om_uid (gw_meta (versioned v n g)) = om_uid (gw_meta g)"
  "om_annotations (gw_meta (versioned v n g)) = om_annotations (gw_meta g)"
  "om_finalizers (gw_meta (versioned v n g)) = om_finalizers (gw_meta g)"
  "om_deleting (gw_meta (versioned v n g)) = om_deleting (gw_meta g)"
  "om_generation (gw_meta (versioned v n g)) = n"
  "gw_class (versioned v n g) = gw_class g" "gw_listeners (versioned v n g) = gw_listeners g"
  "gw_addresses (versioned v n g) = gw_addresses g" "gw_conditions (versioned v n g) = gw_conditions g"
  "gw_listener_status (versioned v n g) = gw_listener_status g"
  by (simp_all add: versioned_def meta_key_def)

definition gateway_place :: "gateway \<Rightarrow> kind \<times> nsname" where
  "gateway_place g = (KGateway, meta_key (gw_meta g))"

definition status_stored :: "gateway \<Rightarrow> objects \<Rightarrow> objects \<Rightarrow> bool" where
  "status_stored g L L' \<longleftrightarrow> (\<exists>g0 v. L (gateway_place g) = Some (OGateway g0) \<and>
     L' = L(gateway_place g \<mapsto> OGateway (with_status g (versioned v (om_generation (gw_meta g0)) g0))))"

definition gateway_stored :: "gateway \<Rightarrow> answer \<Rightarrow> objects \<Rightarrow> objects \<Rightarrow> bool" where
  "gateway_stored g r L L' \<longleftrightarrow> (\<exists>g0 v n. L (gateway_place g) = Some (OGateway g0) \<and>
     r = Object (OGateway (with_status g0 (versioned v n g))) \<and>
     L' = L(gateway_place g \<mapsto> OGateway (with_status g0 (versioned v n g))))"

definition listed :: "objects \<Rightarrow> kind \<Rightarrow> string option \<Rightarrow> string gomap \<Rightarrow> obj set" where
  "listed L k ns ls = {ob. \<exists>n. L (k, n) = Some ob \<and> (\<forall>m. ns = Some m \<longrightarrow> fst n = m) \<and>
     matching_labels ls (obj_labels ob)}"

definition succeeded :: "answer \<Rightarrow> bool" where
  "succeeded r \<longleftrightarrow> (\<forall>e. r \<noteq> Failed e)"

subsection \<open>The server\<close>

text \<open>
  Reads are answered from the objects there are; a write may fail at any time, and then nothing is
  said of it. What is written is stored with the server's defaults, \<open>fill\<close>; an update that, completed, changes
  nothing is not stored. Deleting removes what has no finalizers, and only the Gateways have them here.
\<close>

locale api_server = defaulting fill
  for fill :: "obj \<Rightarrow> obj" +
  fixes serve :: "'w \<Rightarrow> call \<Rightarrow> answer \<times> 'w" and look :: "'w \<Rightarrow> objects"
  assumes placed_law: "look w (k, n) = Some ob \<Longrightarrow> obj_kind ob = k \<and> obj_key ob = n"
    and read_law: "is_read c \<Longrightarrow> snd (serve w c) = w"
    and silent_law: "look (snd (serve w (RecordEvent n s))) = look w" "look (snd (serve w Entropy)) = look w"
    and get_law: "fst (serve w (Get k n)) = (case look w (k, n) of Some ob \<Rightarrow> Object ob | None \<Rightarrow> Failed NotFound)"
    and list_law: "\<exists>obs. fst (serve w (ListObjs k ns ls)) = Objects obs \<and> set obs = listed (look w) k ns ls \<and>
          distinct (map obj_key obs)"
    and direct_list_law: "(\<exists>e. fst (serve w (ApiServerList k ns ls)) = Failed e) \<or>
          (\<exists>obs. fst (serve w (ApiServerList k ns ls)) = Objects obs \<and> set obs = listed (look w) k ns ls)"
    and upsert_law: "serve w (Upsert k n f) = (r, w') \<Longrightarrow> succeeded r \<Longrightarrow>
          stored (k, n) (fill (f (existing (look w) (k, n)))) (look w) (look w')"
    and upsert_same_law: "look w (k, n) = Some ob \<Longrightarrow> has_ip ob \<Longrightarrow> strip (fill (f ob)) = strip ob \<Longrightarrow>
          look (snd (serve w (Upsert k n f))) = look w"
    and create_law: "serve w (Create ob) = (r, w') \<Longrightarrow> succeeded r \<Longrightarrow>
          look w (obj_kind ob, obj_key ob) = None \<and> stored (obj_kind ob, obj_key ob) (fill ob) (look w) (look w')"
    and update_law: "\<not> om_deleting (gw_meta g) \<Longrightarrow> serve w (Update (OGateway g)) = (r, w') \<Longrightarrow> succeeded r \<Longrightarrow>
          gateway_stored g r (look w) (look w')"
    and status_law: "serve w (StatusUpdate (OGateway g)) = (r, w') \<Longrightarrow> succeeded r \<Longrightarrow>
          status_stored g (look w) (look w')"
    and delete_law: "k \<noteq> KGateway \<Longrightarrow> serve w (Delete k n) = (r, w') \<Longrightarrow> succeeded r \<or> r = Failed NotFound \<Longrightarrow>
          look w' = (look w)((k, n) := None)"
begin

lemma serve_get: "serve w (Get k n) = (case look w (k, n) of Some ob \<Rightarrow> Object ob | None \<Rightarrow> Failed NotFound, w)"
  using read_law [of "Get k n" w] by (simp add: prod_eq_iff get_law)

lemma exec_get: "exec serve (get_obj k un n) w = (case look w (k, n) of
     None \<Rightarrow> Inl NotFound
   | Some ob \<Rightarrow> (case un ob of Some x \<Rightarrow> Inr x | None \<Rightarrow> Inl bad_answer), w)"
  by (simp add: get_obj_def serve_get split: option.splits)

lemma exec_list: "exec serve (list_objs k un ns ls) w = (decode_list un (fst (serve w (ListObjs k ns ls))), w)"
  using read_law [of "ListObjs k ns ls" w] by (auto simp: list_objs_def split: prod.splits)

lemma exec_silent: "look (snd (exec serve (event_on R g reason) w)) = look w"
  "exec serve (event_on R g reason) w = (x, w') \<Longrightarrow> look w' = look w"
  using silent_law(1) [of w "meta_key (gw_meta g)" reason]
  by (auto simp: event_on_def record_event_def split: prod.splits if_splits)

lemma exec_upsert:
  assumes "exec serve (upsert k m f) w = (Inr (), w')"
  shows "stored (k, meta_key m) (fill (f (existing (look w) (k, meta_key m)))) (look w) (look w')"
  using assms upsert_law
  by (fastforce simp: upsert_def exec_wrapA_ok write_call_def succeeded_def split: prod.splits answer.splits)

lemma exec_upsert_same:
  assumes "exec serve (upsert k m f) w = (x, w')" "look w (k, meta_key m) = Some ob" "has_ip ob"
    "strip (fill (f ob)) = strip ob"
  shows "look w' = look w"
  using assms(1) upsert_same_law [where f = f, OF assms(2-4)]
  by (auto simp: upsert_def exec_wrapA write_call_def split: prod.splits)

lemma exec_create:
  assumes "exec serve (write_call (Create ob)) w = (Inr (), w')"
  shows "look w (obj_kind ob, obj_key ob) = None" "stored (obj_kind ob, obj_key ob) (fill ob) (look w) (look w')"
  using assms create_law by (fastforce simp: write_call_def succeeded_def split: prod.splits answer.splits)+

lemma exec_status:
  assumes "exec serve (write_call (StatusUpdate (OGateway g))) w = (Inr (), w')"
  shows "status_stored g (look w) (look w')"
  using assms status_law by (fastforce simp: write_call_def succeeded_def split: prod.splits answer.splits)

lemma exec_update:
  assumes "exec serve (write_gateway (Update (OGateway g))) w = (Inr g', w')" "\<not> om_deleting (gw_meta g)"
  shows "\<exists>g0 v n. look w (gateway_place g) = Some (OGateway g0) \<and> g' = with_status g0 (versioned v n g) \<and>
    look w' = (look w)(gateway_place g \<mapsto> OGateway g')"
proof -
  obtain r where r: "serve w (Update (OGateway g)) = (r, w')"
    using assms(1) by (auto simp: write_gateway_def split: prod.splits)
  with assms(1) have "succeeded r" "r = Object (OGateway g')"
    by (auto simp: write_gateway_def succeeded_def un_gateway_def split: answer.splits option.splits obj.splits)
  with update_law [OF assms(2) r] show ?thesis by (auto simp: gateway_stored_def)
qed

lemma exec_delete:
  assumes "exec serve (delete_if_present k n) w = (Inr (), w')" "k \<noteq> KGateway"
  shows "look w' = (look w)((k, n) := None)"
  using assms(1) delete_law [OF assms(2)]
  by (cases "serve w (Delete k n)"; cases "fst (serve w (Delete k n))")
    (simp_all add: delete_if_present_def succeeded_def split: if_splits)

lemma exec_list_ok:
  assumes "exec serve (list_objs k un ns ls) w = (Inr xs, w')" "\<And>ob x. un ob = Some x \<longleftrightarrow> ob = mk x"
  shows "w' = w" "mk ` set xs = listed (look w) k ns ls" "distinct (map (\<lambda>x. obj_key (mk x)) xs)"
proof -
  obtain obs where obs: "fst (serve w (ListObjs k ns ls)) = Objects obs" "set obs = listed (look w) k ns ls"
    "distinct (map obj_key obs)"
    using list_law by blast
  with assms(1) have "those (map un obs) = Some xs" "w' = w"
    by (auto simp: exec_list decode_list_def split: option.splits)
  moreover have "those (map un obs) = Some xs \<Longrightarrow> obs = map mk xs" for obs
    by (induction obs arbitrary: xs) (auto simp: assms(2) split: option.splits)
  ultimately have "obs = map mk xs" "w' = w" by auto
  with obs show "w' = w" "mk ` set xs = listed (look w) k ns ls" "distinct (map (\<lambda>x. obj_key (mk x)) xs)"
    by (auto simp: o_def)
qed

end

subsection \<open>A server\<close>

text \<open>Objects in a list, a clock for the versions it hands out, and what the random source
  answers.\<close>

record store =
  st_objects :: "obj list"
  st_clock :: nat
  st_random :: "byte list"

definition store_look :: "store \<Rightarrow> objects" where
  "store_look w x = find (\<lambda>ob. place ob = x) (st_objects w)"

definition drop_at :: "kind \<times> nsname \<Rightarrow> store \<Rightarrow> store" where
  "drop_at x w = w\<lparr>st_objects := filter (\<lambda>ob. place ob \<noteq> x) (st_objects w)\<rparr>"

definition put_at :: "obj \<Rightarrow> store \<Rightarrow> store" where
  "put_at ob w = w\<lparr>st_objects := ob # st_objects (drop_at (place ob) w), st_clock := Suc (st_clock w)\<rparr>"

definition stamp :: "nat \<Rightarrow> bool \<Rightarrow> obj \<Rightarrow> obj" where
  "stamp t fresh = map_meta (\<lambda>m. m\<lparr>om_version := show_nat t, om_uid := (if fresh then show_nat t else om_uid m)\<rparr>)"

definition store_list :: "store \<Rightarrow> kind \<Rightarrow> string option \<Rightarrow> string gomap \<Rightarrow> obj list" where
  "store_list w k ns ls = remdups (filter (\<lambda>ob. store_look w (place ob) = Some ob \<and> obj_kind ob = k \<and>
     (ns = None \<or> ns = Some (fst (obj_key ob))) \<and> matching_labels ls (obj_labels ob)) (st_objects w))"

text \<open>A write of a Gateway that was read at another version is a conflict.\<close>

definition store_gateway :: "(gateway \<Rightarrow> gateway) \<Rightarrow> gateway \<Rightarrow> store \<Rightarrow> answer \<times> store" where
  "store_gateway h g w = (case store_look w (gateway_place g) of
     Some (OGateway g0) \<Rightarrow>
       if om_version (gw_meta g0) \<noteq> om_version (gw_meta g) then (Failed Conflict, w)
       else let ob = OGateway (h g0) in (Object ob, put_at ob w)
   | _ \<Rightarrow> (Failed NotFound, w))"

text \<open>An update that changes nothing is not stored.\<close>

definition unaltered :: "obj option \<Rightarrow> obj \<Rightarrow> bool" where
  "unaltered old ob \<longleftrightarrow> (case old of None \<Rightarrow> False | Some ob' \<Rightarrow> has_ip ob' \<and> strip ob = strip ob')"

definition stored_form :: "store \<Rightarrow> bool \<Rightarrow> obj \<Rightarrow> obj" where
  "stored_form w fresh ob = stamp (st_clock w) fresh (allocate (''10.96.0.'' @ show_nat (st_clock w)) ob)"

fun store_serve :: "store \<Rightarrow> call \<Rightarrow> answer \<times> store" where
  "store_serve w (Get k n) = (case store_look w (k, n) of Some ob \<Rightarrow> Object ob | None \<Rightarrow> Failed NotFound, w)"
| "store_serve w (ListObjs k ns ls) = (Objects (store_list w k ns ls), w)"
| "store_serve w (ApiServerList k ns ls) = (Objects (store_list w k ns ls), w)"
| "store_serve w (Create ob) =
     (if store_look w (place ob) \<noteq> None then (Failed AlreadyExists, w)
      else let ob' = stored_form w True (usual_defaults ob) in (Object ob', put_at ob' w))"
| "store_serve w (Upsert k n f) =
     (let ob = f (existing (store_look w) (k, n)); ob' = usual_defaults ob in
      if place ob \<noteq> (k, n) then (Failed (Unexpected ''MutateFn''), w)
      else if \<not> alterable (store_look w (k, n)) ob' then (Failed (Unexpected ''Invalid''), w)
      else if unaltered (store_look w (k, n)) ob' then (Done, w)
      else (Done, put_at (stored_form w (store_look w (k, n) = None) ob') w))"
| "store_serve w (Update (OGateway g)) =
     store_gateway (\<lambda>g0. with_status g0 (versioned (show_nat (st_clock w)) (om_generation (gw_meta g)) g)) g w"
| "store_serve w (StatusUpdate (OGateway g)) =
     store_gateway (\<lambda>g0. with_status g (versioned (show_nat (st_clock w)) (om_generation (gw_meta g0)) g0)) g w"
| "store_serve w (Delete k n) =
     (if store_look w (k, n) = None then (Failed NotFound, w) else (Done, drop_at (k, n) w))"
| "store_serve w (RecordEvent n s) = (Done, w)"
| "store_serve w Entropy = (RandomBytes (Some (take 32 (st_random w @ replicate 32 0))), w)"
| "store_serve w _ = (Failed (Unexpected ''unsupported''), w)"

lemma place_stamp [simp]: "place (stamp t fresh ob) = place ob"
  unfolding stamp_def by (rule map_meta_place) (simp add: meta_key_def)

lemma strip_stamp [simp]: "strip (stamp t fresh ob) = strip ob"
  by (cases ob) (simp_all add: strip_def stamp_def strip_meta_def)

lemma has_ip_stamp [simp]: "has_ip (stamp t fresh ob) = has_ip ob"
  by (cases ob) (simp_all add: stamp_def)

lemma stored_form: "place (stored_form w fresh ob) = place ob" "stamped ob (stored_form w fresh ob)"
proof -
  have "has_ip (allocate (c # cs) ob)" for c cs by (cases ob) simp_all
  then show "stamped ob (stored_form w fresh ob)" by (auto simp: stamped_def stored_form_def)
qed (simp add: stored_form_def)

lemma allocate_same: "has_ip ob' \<Longrightarrow> strip ob = strip ob' \<Longrightarrow> strip ob' = strip (allocate ip ob)"
  by (cases ob; cases ob') (auto simp: strip_def dest: arg_cong [where f = svc_cluster_ip])

lemma find_filter: "find P (filter Q xs) = find (\<lambda>x. Q x \<and> P x) xs"
  by (induction xs) auto

lemma find_nothing: "find (\<lambda>_. False) xs = None"
  by (induction xs) auto

lemma look_drop [simp]: "store_look (drop_at x w) = (store_look w)(x := None)"
proof
  fix y
  have "(\<lambda>ob. place ob \<noteq> x \<and> place ob = y) = (if x = y then (\<lambda>_. False) else (\<lambda>ob. place ob = y))" by auto
  then show "store_look (drop_at x w) y = ((store_look w)(x := None)) y"
    by (simp add: store_look_def drop_at_def find_filter find_nothing)
qed

lemma look_put [simp]: "store_look (put_at ob w) = (store_look w)(place ob \<mapsto> ob)"
proof
  fix y
  have "store_look (put_at ob w) y = (if place ob = y then Some ob else store_look (drop_at (place ob) w) y)"
    by (simp add: store_look_def put_at_def del: look_drop)
  then show "store_look (put_at ob w) y = ((store_look w)(place ob \<mapsto> ob)) y" by auto
qed

lemma look_place: "store_look w x = Some ob \<Longrightarrow> place ob = x"
  unfolding store_look_def by (auto simp: find_Some_iff)

lemma look_in: "store_look w x = Some ob \<Longrightarrow> ob \<in> set (st_objects w)"
  unfolding store_look_def by (auto simp: find_Some_iff)

lemma store_listed:
  "set (store_list w k ns ls) = listed (store_look w) k ns ls" "distinct (map obj_key (store_list w k ns ls))"
proof -
  show "set (store_list w k ns ls) = listed (store_look w) k ns ls"
  proof -
    have "store_look w (k, n) = Some ob \<longleftrightarrow> n = obj_key ob \<and> obj_kind ob = k \<and> store_look w (place ob) = Some ob \<and>
        ob \<in> set (st_objects w)" for n ob
      using look_place [of w "(k, n)" ob] look_in [of w "(k, n)" ob] by (auto simp: place_def)
    then show ?thesis by (cases ns) (auto simp: store_list_def listed_def)
  qed
  have "store_look w (k, obj_key ob) = Some ob" if "ob \<in> set (store_list w k ns ls)" for ob
    using that by (auto simp: store_list_def place_def)
  then have "inj_on obj_key (set (store_list w k ns ls))"
    by (metis inj_onI option.inject)
  then show "distinct (map obj_key (store_list w k ns ls))"
    by (simp add: distinct_map store_list_def)
qed

lemma store_gateway_ok:
  assumes "store_gateway h g w = (r, w')" "succeeded r" "\<And>g0. meta_key (gw_meta g0) = meta_key (gw_meta g) \<Longrightarrow>
      meta_key (gw_meta (h g0)) = meta_key (gw_meta g)"
  shows "\<exists>g0. store_look w (gateway_place g) = Some (OGateway g0) \<and> r = Object (OGateway (h g0)) \<and>
    store_look w' = (store_look w)(gateway_place g \<mapsto> OGateway (h g0))"
proof -
  obtain g0 where g0: "store_look w (gateway_place g) = Some (OGateway g0)" "r = Object (OGateway (h g0))"
    "w' = put_at (OGateway (h g0)) w"
    using assms(1,2)
    by (auto simp: store_gateway_def succeeded_def Let_def split: option.splits obj.splits if_splits)
  have "meta_key (gw_meta g0) = meta_key (gw_meta g)"
    using look_place [OF g0(1)] by (simp add: place_def gateway_place_def)
  then have "place (OGateway (h g0)) = gateway_place g"
    using assms(3) by (simp add: place_def gateway_place_def)
  with g0 show ?thesis by simp
qed

lemma place_blank: "k \<in> {KConfigMap, KService, KDeployment, KStatefulSet, KServiceAccount, KRole, KRoleBinding,
    KNetworkPolicy, KSecret} \<Longrightarrow> place (blank k n) = (k, n)"
  by (auto simp: place_def blank_def Let_def bare_meta_def meta_key_def)

lemma place_existing: "place (existing (store_look w) x) = x \<or> store_look w x = None"
  by (auto simp: existing_def dest: look_place split: option.splits)

interpretation store: api_server usual_defaults store_serve store_look
proof
  fix w k n ob
  assume "store_look w (k, n) = Some ob"
  then show "obj_kind ob = k \<and> obj_key ob = n" using look_place by (fastforce simp: place_def)
next
  fix w k n r w' and f :: "obj \<Rightarrow> obj"
  let ?ob = "usual_defaults (f (existing (store_look w) (k, n)))"
  assume u: "store_serve w (Upsert k n f) = (r, w')" "succeeded r"
  show "stored (k, n) ?ob (store_look w) (store_look w')"
  proof (cases "unaltered (store_look w (k, n)) ?ob")
    case True
    then obtain ob' where ob': "store_look w (k, n) = Some ob'" "has_ip ob'" "strip ?ob = strip ob'"
      by (auto simp: unaltered_def split: option.splits)
    have "w' = w" using True u by (auto simp: Let_def succeeded_def split: if_splits)
    moreover have "stamped ?ob ob'" using ob'(2) allocate_same [OF ob'(2,3)] by (auto simp: stamped_def)
    ultimately show ?thesis using ob'(1) unfolding stored_def by (metis fun_upd_triv)
  next
    case False
    then have "w' = put_at (stored_form w (store_look w (k, n) = None) ?ob) w" "place ?ob = (k, n)"
      using u by (auto simp: Let_def succeeded_def split: if_splits)
    then show ?thesis using stored_form [where w = w and ob = ?ob] by (auto simp: stored_def)
  qed
next
  fix w k n ob and f :: "obj \<Rightarrow> obj"
  assume "store_look w (k, n) = Some ob" "has_ip ob" "strip (usual_defaults (f ob)) = strip ob"
  then show "store_look (snd (store_serve w (Upsert k n f))) = store_look w"
    by (simp add: Let_def existing_def unaltered_def)
next
  fix w ob r w'
  assume "store_serve w (Create ob) = (r, w')" "succeeded r"
  then have "store_look w (place ob) = None" "w' = put_at (stored_form w True (usual_defaults ob)) w"
    by (auto simp: Let_def succeeded_def split: if_splits)
  then show "store_look w (obj_kind ob, obj_key ob) = None \<and>
      stored (obj_kind ob, obj_key ob) (usual_defaults ob) (store_look w) (store_look w')"
    using stored_form [where w = w and ob = "usual_defaults ob"] by (auto simp: stored_def place_def [symmetric])
next
  fix g w r w'
  assume "store_serve w (Update (OGateway g)) = (r, w')" "succeeded r"
  then show "gateway_stored g r (store_look w) (store_look w')"
    by (fastforce simp: gateway_stored_def dest!: store_gateway_ok)
next
  fix g w r w'
  assume "store_serve w (StatusUpdate (OGateway g)) = (r, w')" "succeeded r"
  then show "status_stored g (store_look w) (store_look w')"
    by (fastforce simp: status_stored_def dest!: store_gateway_ok)
qed (auto simp: store_listed dest: look_place elim!: is_read.elims split: if_splits option.splits)

end
