(* ===== verification/Gateway_Calls.thy ===== *)
theory Gateway_Calls
  imports Gateway_Modes
begin

text \<open>
  What the operations of the Gateway controller call, as a contract. A restriction on calls, together
  with a server it is kept against, is an instance of \<open>gateway_calls\<close> when it admits the reads, the
  owned children of the Gateway and the removal of Mode B; every operation of Mode A then stays
  within it. \<open>gateway_mode_b_calls\<close> adds what Mode B and the creation of keys need. The instances, and
  the properties that rest on them, are in \<open>Gateway_Safety\<close>.
\<close>

subsection \<open>Owned children\<close>

fun obj_meta :: "obj \<Rightarrow> object_meta option" where
  "obj_meta (OGateway x) = Some (gw_meta x)"
| "obj_meta (OSecret x) = Some (sec_meta x)"
| "obj_meta (OConfigMap x) = Some (cm_meta x)"
| "obj_meta (OService x) = Some (svc_meta x)"
| "obj_meta (ODeployment x) = Some (dep_meta x)"
| "obj_meta (OStatefulSet x) = Some (ss_meta x)"
| "obj_meta (OServiceAccount x) = Some (sac_meta x)"
| "obj_meta (ORole x) = Some (role_meta x)"
| "obj_meta (ORoleBinding x) = Some (rb_meta x)"
| "obj_meta (OJob x) = Some (job_meta x)"
| "obj_meta (ONetworkPolicy x) = Some (np_meta x)"
| "obj_meta _ = None"

definition owned_obj :: "string \<Rightarrow> obj \<Rightarrow> bool" where
  "owned_obj uid ob = (case obj_meta ob of None \<Rightarrow> False | Some m \<Rightarrow> owned_by_uid uid m)"

text \<open>A closure that leaves every object of its kind owned.\<close>

definition makes_owned :: "string \<Rightarrow> kind \<Rightarrow> (obj \<Rightarrow> obj) \<Rightarrow> bool" where
  "makes_owned uid k f \<longleftrightarrow> (\<forall>ob. obj_kind ob = k \<longrightarrow> obj_kind (f ob) = k \<and> owned_obj uid (f ob))"

definition child_name :: "gateway \<Rightarrow> string \<Rightarrow> bool" where
  "child_name g n \<longleftrightarrow> n = gw_name g \<or> has_prefix n (gw_name g @ ''-'')"

lemma adopt_owned: "om_owners w = [controller_reference g] \<Longrightarrow> owned_by_uid (gw_uid g) (adopt w m)"
  by (simp add: adopt_def owned_by_uid_def controller_reference_def)

named_theorems child_facts \<open>ownership and names of children\<close>

lemma put_owned [child_facts]:
  "om_owners (cm_meta c) = [controller_reference g] \<Longrightarrow> makes_owned (gw_uid g) KConfigMap (put_config_map c)"
  "om_owners (dep_meta d) = [controller_reference g] \<Longrightarrow> makes_owned (gw_uid g) KDeployment (put_deployment d)"
  "om_owners (sac_meta a) = [controller_reference g] \<Longrightarrow> makes_owned (gw_uid g) KServiceAccount (put_service_account a)"
  "om_owners (role_meta r) = [controller_reference g] \<Longrightarrow> makes_owned (gw_uid g) KRole (put_role r)"
  "om_owners (rb_meta b) = [controller_reference g] \<Longrightarrow> makes_owned (gw_uid g) KRoleBinding (put_role_binding b)"
  "om_owners (svc_meta s) = [controller_reference g] \<Longrightarrow> makes_owned (gw_uid g) KService (put_service s)"
  "om_owners (np_meta n) = [controller_reference g] \<Longrightarrow> makes_owned (gw_uid g) KNetworkPolicy (put_network_policy n)"
  "om_owners (ss_meta t) = [controller_reference g] \<Longrightarrow> makes_owned (gw_uid g) KStatefulSet (put_stateful_set t)"
  "om_owners (sec_meta x) = [controller_reference g] \<Longrightarrow> makes_owned (gw_uid g) KSecret (put_backend_secret x)"
  by (auto simp: makes_owned_def owned_obj_def put_config_map_def put_deployment_def put_service_account_def
      put_role_def put_role_binding_def put_service_def put_network_policy_def put_stateful_set_def
      put_backend_secret_def adopt_owned split: obj.splits)

lemma child_names [child_facts]:
  "child_name g (deployment_name (gw_name g))" "child_name g (service_name (gw_name g))"
  "child_name g (key_secret_name (gw_name g))" "child_name g (torrc_config_map_name (gw_name g))"
  "child_name g (network_policy_name (gw_name g))" "child_name g (vanity_rbac_name (gw_name g))"
  "child_name g (vanity_out_secret_name (gw_name g))" "child_name g (router_rbac_name (gw_name g))"
  "child_name g (frontend_name g)" "child_name g (backend_stateful_set_name g)"
  "child_name g (backend_headless_service_name g)" "child_name g (onionbalance_config_map_name g)"
  "child_name g (frontend_torrc_config_map_name g)" "child_name g (backend_torrc_config_map_name g)"
  "child_name g (backend_key_secret_name g i)"
  by (simp_all add: child_name_def has_prefix_iff deployment_name_def service_name_def key_secret_name_def
      torrc_config_map_name_def network_policy_name_def vanity_rbac_name_def vanity_out_secret_name_def
      router_rbac_name_def frontend_name_def backend_stateful_set_name_def backend_headless_service_name_def
      onionbalance_config_map_name_def frontend_torrc_config_map_name_def backend_torrc_config_map_name_def
      backend_key_secret_name_def)

text \<open>The metadata of what is built.\<close>

lemma built_metas [child_facts]:
  "build_torrc_config_map g pol auth inc = Inr c \<Longrightarrow>
     cm_meta c = child_meta g (torrc_config_map_name (gw_name g)) (child_labels (gw_name g))"
  "build_deployment g pol auth im = Inr d \<Longrightarrow>
     dep_meta d = child_meta g (deployment_name (gw_name g)) (child_labels (gw_name g))"
  "build_network_policy g bs cidrs tns = Inr n \<Longrightarrow>
     np_meta n = child_meta g (network_policy_name (gw_name g)) (child_labels (gw_name g))"
  by (auto simp: build_torrc_config_map_def result_iffs build_deployment_def Let_def build_network_policy_def
      split: list.splits)

lemma built_owners [child_facts]:
  "om_owners (sac_meta (build_service_account g)) = [controller_reference g]"
  "om_owners (role_meta (build_role g po)) = [controller_reference g]"
  "om_owners (rb_meta (build_role_binding g)) = [controller_reference g]"
  "om_owners (svc_meta (build_service g)) = [controller_reference g]"
  by (simp_all add: build_service_account_def build_role_def build_role_binding_def bind_role_def
      build_service_def Let_def)

lemma built_keys [child_facts]:
  "om_ns (sac_meta (build_service_account g)) = gw_ns g" "om_ns (role_meta (build_role g po)) = gw_ns g"
  "om_ns (rb_meta (build_role_binding g)) = gw_ns g" "om_ns (svc_meta (build_service g)) = gw_ns g"
  "om_name (sac_meta (build_service_account g)) = router_rbac_name (gw_name g)"
  "om_name (role_meta (build_role g po)) = router_rbac_name (gw_name g)"
  "om_name (rb_meta (build_role_binding g)) = router_rbac_name (gw_name g)"
  "om_name (svc_meta (build_service g)) = service_name (gw_name g)"
  by (simp_all add: build_service_account_def build_role_def build_role_binding_def bind_role_def
      build_service_def Let_def)

text \<open>Two views of one Gateway: the same namespace, name and uid.\<close>

definition same_gateway :: "gateway \<Rightarrow> gateway \<Rightarrow> bool" where
  "same_gateway g g' \<longleftrightarrow> meta_key (gw_meta g') = meta_key (gw_meta g) \<and> gw_uid g' = gw_uid g"

lemma same_gateway_edits [simp]:
  "same_gateway g g" "same_gateway g (annotate k v g') = same_gateway g g'"
  "same_gateway g (drop_annotation k g') = same_gateway g g'"
  "same_gateway g (set_finalizers h g') = same_gateway g g'"
  by (simp_all add: same_gateway_def annotate_def drop_annotation_def set_finalizers_def meta_key_def)

subsection \<open>The contract\<close>

definition gateway_write :: "gateway \<Rightarrow> call \<Rightarrow> bool" where
  "gateway_write g c \<longleftrightarrow> (\<exists>g'. same_gateway g g' \<and> (c = Update (OGateway g') \<or> c = PatchMeta (OGateway g')))"

locale gateway_calls =
  fixes E :: "call \<Rightarrow> answer \<Rightarrow> bool" and P :: "call \<Rightarrow> bool" and current :: "gateway \<Rightarrow> bool"
  assumes same_current: "current g \<Longrightarrow> same_gateway g g' \<Longrightarrow> current g'"
    and read_ok: "is_read c \<Longrightarrow> P c"
    and event_ok: "current g \<Longrightarrow> P (RecordEvent (meta_key (gw_meta g)) reason)"
    and child_ok: "current g \<Longrightarrow> k \<noteq> KSecret \<Longrightarrow> child_name g n \<Longrightarrow> makes_owned (gw_uid g) k f \<Longrightarrow>
      P (Upsert k (gw_ns g, n) f)"
    and removal_ok: "current g \<Longrightarrow> k \<noteq> KSecret \<Longrightarrow> child_name g n \<Longrightarrow> P (Delete k (gw_ns g, n))"
    and role_sweep_ok: "current g \<Longrightarrow> k \<in> {KRole, KRoleBinding} \<Longrightarrow>
      E (ListObjs k None (owner_uid_labels g)) (Objects obs) \<Longrightarrow> ob \<in> set obs \<Longrightarrow> obj_kind ob = k \<Longrightarrow>
      P (Delete k (obj_key ob))"
    and secret_sweep_ok: "current g \<Longrightarrow>
      E (ListObjs KSecret (Some (gw_ns g)) (backend_selector g)) (Objects obs) \<Longrightarrow> ob \<in> set obs \<Longrightarrow>
      obj_kind ob = KSecret \<Longrightarrow> P (Delete KSecret (obj_key ob))"
    and write_ok: "current g \<Longrightarrow> gateway_write g c \<Longrightarrow> P c"
    and written_current: "current g \<Longrightarrow> gateway_write g c \<Longrightarrow> E c (Object (OGateway g')) \<Longrightarrow> current g'"

context gateway_calls
begin

lemma gives_read_get: "gives E P every (get_obj k un key)"
  by (rule gives_get) (simp_all add: read_ok)

lemma gives_read_list: "gives E P every (list_objs k un ns ls)"
  by (rule gives_list) (simp_all add: read_ok)

lemma gives_event_on: "current g \<Longrightarrow> gives E P every (event_on R g reason)"
  unfolding event_on_def by (intro gives_intros event_ok)

lemma gives_upsert:
  "current g \<Longrightarrow> k \<noteq> KSecret \<Longrightarrow> om_ns m = gw_ns g \<Longrightarrow> child_name g (om_name m) \<Longrightarrow>
     makes_owned (gw_uid g) k f \<Longrightarrow> gives E P every (upsert k m f)"
  unfolding upsert_def by (intro gives_intros) (simp add: child_ok meta_key_def)

lemma gives_gateway:
  assumes "current g" "gateway_write g c"
  shows "gives E P current (write_gateway c)"
  using write_ok [OF assms] written_current [OF assms]
  by (auto simp: gives_def write_gateway_def un_gateway_def split: answer.splits option.splits obj.splits)

lemma gives_edit:
  assumes "current g" "same_gateway g g'"
  shows "gives E P current (write_gateway (Update (OGateway g')))"
    and "gives E P current (write_gateway (PatchMeta (OGateway g')))"
  using assms by (auto intro!: gives_gateway [OF assms(1)] simp: gateway_write_def)

lemma gives_policy: "gives E P every (effective_policy_from b g)"
  by (simp add: effective_policy_from_def gives_def read_ok split: sum.splits)

lemma gives_client_auth: "gives E P every (find_effective_client_auth g)"
  unfolding find_effective_client_auth_def
  by (intro gives_bindA_every gives_read_list gives_intros)

lemma gives_resolve: "gives E P every (resolve_backends order routes)"
  unfolding resolve_backends_def
proof (intro gives_bindA_every gives_foldA)
  fix x :: "http_route \<times> backend_ref" and st :: resolve_state
  have read: "gives E P every (read_backend ns ref s)" for ns ref s
    unfolding read_backend_def Let_def
    by (rule gives_bindP [OF gives_read_get]) (auto intro!: gives_intros)
  have "gives E P every (resolve_backend rt ref st)" for rt ref
    unfolding resolve_backend_def Let_def grants_in_def
    by (intro gives_intros gives_bindA_every read gives_read_list)
  then show "gives E P every ((case x of (rt, ref) \<Rightarrow> \<lambda>st. resolve_backend rt ref st) st)"
    by (cases x) simp
qed (intro gives_intros)+

lemma gives_network_policy:
  assumes "current g" shows "gives E P every (ensure_network_policy order R g routes)"
proof -
  have "gives E P every (built SelectorEmpty (build_network_policy g bs cidrs tns)
      (\<lambda>w. upsert KNetworkPolicy (np_meta w) (put_network_policy w)))" for bs cidrs tns
    by (cases "build_network_policy g bs cidrs tns")
      (auto intro!: gives_intros gives_upsert [OF assms] simp: child_facts)
  then show ?thesis
    unfolding ensure_network_policy_def
    by (intro gives_intros gives_bindA_every gives_resolve removal_ok assms child_facts) simp
qed

lemma gives_rbac:
  assumes "current g" shows "gives E P every (ensure_router_rbac g po)"
  unfolding ensure_router_rbac_def ensure_service_account_def ensure_role_def ensure_role_binding_def Let_def
  by (intro gives_bindA_every gives_upsert [OF assms]) (simp_all add: child_facts)

lemma gives_service:
  assumes "current g" shows "gives E P every (ensure_service g)"
  unfolding ensure_service_def Let_def by (intro gives_upsert [OF assms]) (simp_all add: child_facts)

lemma gives_torrc:
  assumes "current g" shows "gives E P every (ensure_torrc_config_map R g policy auth)"
  unfolding ensure_torrc_config_map_def
  by (cases "build_torrc_config_map g policy auth (gr_testing_include R)")
    (auto intro!: gives_intros gives_upsert [OF assms] simp: child_facts)

lemma gives_deployment:
  assumes "current g" shows "gives E P every (ensure_deployment R g policy auth)"
  unfolding ensure_deployment_def
  by (cases "build_deployment g policy auth (gr_images R)")
    (auto intro!: gives_intros gives_upsert [OF assms] simp: child_facts)

lemma gives_routes: "gives E P every (routes_for_gateway g)"
  unfolding routes_for_gateway_def by (intro gives_bindA_every gives_read_list gives_intros)

text \<open>Mode A apart from the key and the status.\<close>

lemma gives_provision_a:
  assumes "current g" "gives E P every (update_status (ev_now V) g kp)"
  shows "gives E P every (provision_mode_a V R g policy auth kp)"
  unfolding provision_mode_a_def
  by (intro gives_bindA_every gives_torrc gives_rbac gives_deployment gives_service gives_wrapA gives_routes
      gives_network_policy assms)

lemma gives_delete_children:
  assumes "current g" "\<And>k n. (k, n) \<in> set cs \<Longrightarrow> k \<noteq> KSecret \<and> child_name g n"
  shows "gives E P every (delete_children g cs)"
  unfolding delete_children_def
  by (intro gives_eachA gives_prod gives_intros) (use assms in \<open>auto intro: removal_ok\<close>)

lemma mode_b_children_ok: "(k, n) \<in> set (mode_b_children g) \<Longrightarrow> k \<noteq> KSecret \<and> child_name g n"
  by (auto simp: mode_b_children_def child_facts)

lemma gives_labelled_roles:
  assumes "current g" shows "gives E P every (delete_labelled_roles g keep)"
proof -
  have roles: "gives E P (\<lambda>rs. \<forall>x \<in> set rs. P (Delete KRole (meta_key (role_meta x))))
      (list_objs KRole un_role None (owner_uid_labels g))"
    using role_sweep_ok [OF assms, of KRole]
    by (intro gives_list) (fastforce simp: read_ok un_role_def split: obj.splits dest!: those_in)+
  have bindings: "gives E P (\<lambda>rs. \<forall>x \<in> set rs. P (Delete KRoleBinding (meta_key (rb_meta x))))
      (list_objs KRoleBinding un_role_binding None (owner_uid_labels g))"
    using role_sweep_ok [OF assms, of KRoleBinding]
    by (intro gives_list) (fastforce simp: read_ok un_role_binding_def split: obj.splits dest!: those_in)+
  show ?thesis
    unfolding delete_labelled_roles_def delete_outside_def
    by (rule gives_bindA [OF gives_wrapA [OF roles]], rule gives_bindA_every)
      (auto intro!: gives_intros gives_bindA [OF gives_wrapA [OF bindings]])
qed

lemma gives_backend_secrets:
  assumes "current g"
  shows "gives E P (\<lambda>ss. \<forall>s \<in> set ss. P (Delete KSecret (meta_key (sec_meta s))))
    (list_objs KSecret un_secret (Some (gw_ns g)) (backend_selector g))"
  using secret_sweep_ok [OF assms]
  by (intro gives_list) (fastforce simp: read_ok un_secret_def split: obj.splits dest!: those_in)+

lemma gives_cleanup_b:
  assumes "current g" shows "gives E P current (cleanup_mode_b_resources g)"
proof -
  have w: "gateway_write g (Update (OGateway
      (drop_annotation ann_pow_emitted (drop_annotation ann_last_replicas g))))"
    by (auto simp: gateway_write_def)
  show ?thesis
    unfolding cleanup_mode_b_resources_def
    by (rule gives_bindA_every [OF gives_delete_children [OF assms mode_b_children_ok]], assumption,
        rule gives_bindA_every [OF gives_labelled_roles [OF assms]],
        rule gives_bindA [OF gives_wrapA [OF gives_backend_secrets [OF assms]]])
      (auto intro!: gives_bindA_every gives_intros gives_gateway [OF assms w] assms)
qed

lemma gives_hold:
  assumes "current g" shows "gives E P current (hold_gateway g)"
  unfolding hold_gateway_def
  by (intro gives_intros gives_gateway [OF assms]) (auto simp: gateway_write_def assms)

end

subsection \<open>The whole reconciler\<close>

definition own_creation :: "gateway \<Rightarrow> obj \<Rightarrow> bool" where
  "own_creation g ob \<longleftrightarrow> obj_kind ob \<in> {KSecret, KJob} \<and> fst (obj_key ob) = gw_ns g \<and>
     child_name g (snd (obj_key ob)) \<and> owned_obj (gw_uid g) ob"

lemma creations [child_facts]:
  "own_creation g (OSecret (build_key_secret g kp))"
  "own_creation g (OSecret (build_vanity_out_secret g))"
  by (simp_all add: own_creation_def owned_obj_def build_key_secret_def build_vanity_out_secret_def
      meta_key_def child_names)

lemma job_creation [child_facts]:
  "vanity_job (vanity_config R g w) = Inr j \<Longrightarrow>
     own_creation g (OJob (j\<lparr>job_meta := (job_meta j)\<lparr>om_owners := [controller_reference g]\<rparr>\<rparr>))"
  by (auto simp: own_creation_def owned_obj_def vanity_job_def guardE_Inr_iff Let_def meta_key_def
      vanity_config_def child_names owned_by_uid_def controller_reference_def)

lemma built_ha [child_facts]:
  "om_owners (svc_meta (build_backend_headless_service g)) = [controller_reference g]"
  "om_owners (sac_meta (build_frontend_service_account g)) = [controller_reference g]"
  "om_owners (role_meta (build_frontend_role g p)) = [controller_reference g]"
  "om_owners (rb_meta (build_frontend_role_binding g)) = [controller_reference g]"
  "om_owners (cm_meta (build_frontend_torrc_config_map g inc)) = [controller_reference g]"
  "om_ns (svc_meta (build_backend_headless_service g)) = gw_ns g"
  "om_ns (sac_meta (build_frontend_service_account g)) = gw_ns g"
  "om_ns (role_meta (build_frontend_role g p)) = gw_ns g"
  "om_ns (rb_meta (build_frontend_role_binding g)) = gw_ns g"
  "om_ns (cm_meta (build_frontend_torrc_config_map g inc)) = gw_ns g"
  "om_name (svc_meta (build_backend_headless_service g)) = backend_headless_service_name g"
  "om_name (sac_meta (build_frontend_service_account g)) = frontend_name g"
  "om_name (role_meta (build_frontend_role g p)) = frontend_name g"
  "om_name (rb_meta (build_frontend_role_binding g)) = frontend_name g"
  "om_name (cm_meta (build_frontend_torrc_config_map g inc)) = frontend_torrc_config_map_name g"
  by (simp_all add: build_backend_headless_service_def build_frontend_service_account_def
      build_frontend_role_def build_frontend_role_binding_def build_frontend_torrc_config_map_def
      bind_role_def Let_def)

lemma built_ha_metas [child_facts]:
  "build_backend_torrc_config_map g pol auth inc = Inr c \<Longrightarrow>
     cm_meta c = child_meta g (backend_torrc_config_map_name g) (ha_labels g ha_role_backend)"
  "build_backend_stateful_set g p master im = Inr ss \<Longrightarrow>
     ss_meta ss = child_meta g (backend_stateful_set_name g) (ha_labels g ha_role_backend)"
  "build_frontend_deployment g p master im t = Inr d \<Longrightarrow>
     dep_meta d = child_meta g (frontend_name g) (ha_labels g ha_role_frontend)"
  "build_cross_ns_master_role g p = Inr r \<Longrightarrow>
     meta_key (role_meta r) = (sr_namespace (obp_master_key (obp_spec p)), cross_ns_master_role_name g)"
  "build_cross_ns_master_role_binding g p = Inr b \<Longrightarrow>
     meta_key (rb_meta b) = (sr_namespace (obp_master_key (obp_spec p)), cross_ns_master_role_name g)"
  "build_backend_key_secret bm g i ex en = Inr s \<Longrightarrow> \<exists>d. s = backend_key_secret g i d"
  by (auto simp: build_backend_torrc_config_map_def result_iffs build_backend_stateful_set_def Let_def
      build_frontend_deployment_def build_cross_ns_master_role_def build_cross_ns_master_role_binding_def
      bind_role_def build_backend_key_secret_def meta_key_def split: if_splits)

text \<open>The two sides of the grant a foreign master key needs.\<close>

definition grants_master :: "onion_balance_policy \<Rightarrow> reference_grant list \<Rightarrow> bool" where
  "grants_master p gs = allows gs
     \<lparr>fr_group = ''policy.torgateway.io'', fr_kind = ''OnionBalancePolicy'', fr_namespace = om_ns (obp_meta p)\<rparr>
     \<lparr>to_group = [], to_kind = ''Secret'', to_name = sr_name (obp_master_key (obp_spec p))\<rparr>"

locale gateway_key_calls = gateway_calls +
  assumes create_ok: "current g \<Longrightarrow> own_creation g ob \<Longrightarrow> P (Create ob)"
    and secret_removal_ok: "current g \<Longrightarrow> child_name g n \<Longrightarrow> P (Delete KSecret (gw_ns g, n))"
    and status_ok: "current g \<Longrightarrow> same_gateway g g' \<Longrightarrow> P (StatusUpdate (OGateway g'))"
    and refetched: "current g \<Longrightarrow> E (Get KGateway (meta_key (gw_meta g))) (Object (OGateway g')) \<Longrightarrow>
      current g' \<and> same_gateway g g'"
    and keyed: "E (Get k key) (Object ob) \<Longrightarrow> obj_key ob = key"

context gateway_key_calls
begin

lemma gives_programming:
  assumes "current g" shows "gives E P every (set_programming_condition now g reason msg)"
  unfolding set_programming_condition_def
  by (intro gives_intros status_ok [OF assms]) (simp add: same_gateway_def)

lemma gives_status:
  assumes "current g" shows "gives E P every (update_status now g kp)"
  unfolding update_status_def
  by (intro gives_intros status_ok [OF assms])
    (auto simp: next_status_def same_gateway_def Let_def split: prod.splits)

text \<open>Keys.\<close>

lemma gives_create: "current g \<Longrightarrow> own_creation g ob \<Longrightarrow> gives E P every (apiA (write_call (Create ob)))"
  by (intro gives_intros create_ok)

lemma gives_patch:
  assumes "current g"
  shows "gives E P current (clear_vanity_failed g)" "gives E P current (mark_vanity_failed g w)"
  unfolding clear_vanity_failed_def mark_vanity_failed_def
  by (simp_all add: gives_ok gives_wrapA gives_edit [OF assms] assms)

lemma current_drop: "current g \<Longrightarrow> current (drop_annotation k g)"
  by (erule same_current) simp

lemma gives_vanity_rbac:
  assumes "current g" shows "gives E P every (ensure_vanity_rbac g)"
  unfolding ensure_vanity_rbac_def Let_def
  by (intro gives_bindA_every gives_upsert [OF assms])
    (simp_all add: child_facts build_vanity_service_account_def build_vanity_role_def
      build_vanity_role_binding_def bind_role_def Let_def)

lemma gives_vanity_out:
  assumes "current g" shows "gives E P every (ensure_vanity_out_secret g)"
  unfolding ensure_vanity_out_secret_def
  by (rule gives_bindP [OF gives_read_get]) (auto intro!: gives_intros create_ok [OF assms] simp: child_facts)

lemma gives_vanity_job:
  assumes "current g" shows "gives E P every (create_vanity_job R g w)"
  unfolding create_vanity_job_def
  by (cases "vanity_job (vanity_config R g w)")
    (auto intro!: gives_intros create_ok [OF assms] simp: child_facts)

lemma gives_job_deletion:
  assumes "current g" "meta_key (job_meta j) = (gw_ns g, vanity_rbac_name (gw_name g))"
  shows "gives E P every (delete_vanity_job j)"
  unfolding delete_vanity_job_def assms(2)
  by (intro gives_intros removal_ok [OF assms(1)]) (simp_all add: child_facts)

lemma gives_promote:
  assumes "current g" "meta_key (job_meta j) = (gw_ns g, vanity_rbac_name (gw_name g))"
    "meta_key (sec_meta out) = (gw_ns g, vanity_out_secret_name (gw_name g))"
  shows "gives E P (\<lambda>(g', _). current g') (promote_vanity_key g out j)"
proof -
  have d: "always E P every (write_call (Delete KSecret (meta_key (sec_meta out))))"
    by (rule gives_always, rule gives_write) (simp add: assms(3) secret_removal_ok assms(1) child_facts)
  have rest: "gives E P (\<lambda>(g', _). current g')
      (okA (case r of Inr g' \<Rightarrow> g' | Inl _ \<Rightarrow> drop_annotation k g, KeyReady kp))"
    if "case r of Inl _ \<Rightarrow> True | Inr g' \<Rightarrow> current g'" for r :: "gateway_error + gateway" and k kp
    using that current_drop [OF assms(1)] by (auto intro!: gives_ok split: sum.splits)
  show ?thesis
    unfolding promote_vanity_key_def built_def
    by (intro gives_intros gives_bindA_every create_ok [OF assms(1)] child_facts
        gives_then [OF d] gives_then [OF gives_always [OF gives_job_deletion [OF assms(1,2)]]]
        gives_then [OF gives_patch(1) [OF assms(1), unfolded gives_def]] rest)
qed

lemma gives_harvest:
  assumes "current g"
  shows "gives E P (\<lambda>(g', _). current g') (run_vanity_harvest R g w)"
proof -
  let ?I = "\<lambda>(g', _ :: key_outcome). current g'"
  have pending: "gives E P ?I (okA (g', q))" if "current g'" for g' q
    using that by (simp add: gives_ok)
  have start: "gives E P ?I (bindA (create_vanity_job R g w) (\<lambda>_.
      bindA (event_on R g ''VanityHarvestStarted'') (\<lambda>_. okA (g, HarvestPending))))"
    by (intro gives_bindA_every gives_vanity_job gives_event_on pending assms)
  have stale: "gives E P ?I (bindA (delete_vanity_job j) (\<lambda>_.
      bindA (clear_vanity_failed g) (\<lambda>g'. okA (g', HarvestPending))))"
    if "meta_key (job_meta j) = (gw_ns g, vanity_rbac_name (gw_name g))" for j
    by (intro gives_bindA_every [OF gives_job_deletion [OF assms that]]
        gives_bindA [OF gives_patch(1) [OF assms]] pending)
  have failed: "gives E P ?I (bindA (mark_vanity_failed g w) (\<lambda>g'.
      bindA (event_on R g' ''VanityHarvestFailed'') (\<lambda>_. okA (g', HarvestFailed))))" for w
    by (intro gives_bindA [OF gives_patch(2) [OF assms]] gives_bindA_every gives_event_on pending)
  have job: "gives E P (\<lambda>j. meta_key (job_meta j) = (gw_ns g, vanity_rbac_name (gw_name g)))
      (get_obj KJob un_job (gw_ns g, vanity_rbac_name (gw_name g)))"
    by (rule gives_get) (auto simp: read_ok un_job_def dest: keyed split: obj.splits)
  have out: "gives E P (\<lambda>s. meta_key (sec_meta s) = (gw_ns g, vanity_out_secret_name (gw_name g)))
      (get_obj KSecret un_secret (gw_ns g, vanity_out_secret_name (gw_name g)))"
    by (rule gives_get) (auto simp: read_ok un_secret_def dest: keyed split: obj.splits)
  show ?thesis
    unfolding run_vanity_harvest_def
    by (intro gives_if pending assms gives_bindA_every gives_vanity_rbac gives_vanity_out gives_bindP [OF job])
      (auto intro!: gives_fail pending start stale failed gives_promote gives_bindA [OF gives_wrapA [OF out]] assms)
qed

lemma gives_key:
  assumes "current g" "gives E P (\<lambda>(g', _). current g') (fresh_key_secret V g)"
  shows "gives E P (\<lambda>(g', _). current g') (ensure_key_secret V R g policy)"
  unfolding ensure_key_secret_def
  by (rule gives_bindP [OF gives_read_get])
    (auto simp: built_def intro!: gives_intros gives_bindA_every gives_harvest gives_policy gives_event_on assms)

text \<open>Mode A.\<close>

lemma gives_mode_a:
  assumes "current g" "gives E P (\<lambda>(g', _). current g') (fresh_key_secret V g)"
  shows "gives E P every (reconcile_mode_a V R g)"
  unfolding reconcile_mode_a_def find_effective_policy_def
  by (intro gives_bindA_every [OF gives_wrapA [OF gives_policy]]
      gives_bindA_every [OF gives_wrapA [OF gives_client_auth]] gives_bindA [OF gives_key [OF assms]])
    (auto intro!: gives_programming gives_provision_a gives_status split: key_outcome.splits)

lemma gives_cleanup_a:
  assumes "current g" shows "gives E P every (cleanup_mode_a_resources g)"
  unfolding cleanup_mode_a_resources_def delete_children_def mode_a_children_def
  by (intro gives_eachA gives_prod gives_intros)
    (auto intro!: removal_ok secret_removal_ok assms simp: child_facts)

end

text \<open>Mode B, and keys made from the random source.\<close>

locale gateway_mode_b_calls = gateway_key_calls +
  fixes usable :: "gateway \<Rightarrow> onion_balance_policy \<Rightarrow> bool"
  assumes listed_usable: "current g \<Longrightarrow> E (ListObjs KObp (Some (gw_ns g)) []) (Objects obs) \<Longrightarrow>
      OObp p \<in> set obs \<Longrightarrow> usable g p"
    and entropy_ok: "P Entropy"
    and backend_key_ok: "current g \<Longrightarrow>
      P (Upsert KSecret (gw_ns g, backend_key_secret_name g i) (put_backend_secret (backend_key_secret g i d)))"
    and cross_role_ok: "current g \<Longrightarrow> usable g p \<Longrightarrow>
      E (ListObjs KGrant (Some (sr_namespace (obp_master_key (obp_spec p)))) []) (Objects obs) \<Longrightarrow>
      those (map un_grant obs) = Some gs \<Longrightarrow> grants_master p gs \<Longrightarrow> k \<in> {KRole, KRoleBinding} \<Longrightarrow>
      P (Upsert k (sr_namespace (obp_master_key (obp_spec p)), cross_ns_master_role_name g) f)"

context gateway_mode_b_calls
begin

lemma gives_entropy: "(\<And>b. gives E P I (k b)) \<Longrightarrow> gives E P I (read_entropy k)"
  by (simp add: read_entropy_def gives_def entropy_ok)

lemma gives_fresh:
  assumes "current g" shows "gives E P (\<lambda>(g', _). current g') (fresh_key_secret V g)"
  unfolding fresh_key_secret_def
  by (intro gives_entropy)
    (auto simp: built_def assms intro!: gives_intros gives_bindA_every create_ok [OF assms] child_facts
      split: sum.splits)

definition granted :: "onion_balance_policy \<Rightarrow> bool" where
  "granted p \<longleftrightarrow> (\<exists>obs gs. those (map un_grant obs) = Some gs \<and> grants_master p gs \<and>
     E (ListObjs KGrant (Some (sr_namespace (obp_master_key (obp_spec p)))) []) (Objects obs))"

lemma gives_cross_upsert:
  assumes "current g" "usable g p" "granted p" "k \<in> {KRole, KRoleBinding}"
    "meta_key m = (sr_namespace (obp_master_key (obp_spec p)), cross_ns_master_role_name g)"
  shows "gives E P every (upsert k m f)"
  using assms(3) unfolding upsert_def assms(5) granted_def
  by (auto intro!: gives_intros intro: cross_role_ok [OF assms(1,2) _ _ _ assms(4)])

lemma gives_cross_rbac:
  assumes "current g" "usable g p" shows "gives E P every (ensure_cross_ns_master_rbac g p)"
proof -
  have grants: "gives E P (\<lambda>ok. ok \<longrightarrow> granted p) (master_key_reference_grant_allows p)"
    unfolding master_key_reference_grant_allows_def Let_def
    by (rule gives_bindA [OF gives_list [where I = "\<lambda>gs. \<exists>obs. those (map un_grant obs) = Some gs \<and>
        E (ListObjs KGrant (Some (sr_namespace (obp_master_key (obp_spec p)))) []) (Objects obs)"]])
      (auto simp: read_ok granted_def grants_master_def intro!: gives_ok)
  show ?thesis
    unfolding ensure_cross_ns_master_rbac_def Let_def built_def ensure_ha_role_def ensure_ha_role_binding_def
    by (rule gives_bindA [OF gives_wrapA [OF grants]])
      (auto intro!: gives_intros gives_bindA_every gives_cross_upsert [OF assms] gives_labelled_roles assms
        simp: child_facts split: sum.splits)
qed

lemma gives_network_resources:
  assumes "current g" shows "gives E P every (ensure_mode_b_network_resources g p)"
  unfolding ensure_mode_b_network_resources_def ensure_ha_service_def ensure_ha_service_account_def
    ensure_ha_role_def ensure_ha_role_binding_def
  by (intro gives_bindA_every gives_upsert [OF assms]) (simp_all add: child_facts)

lemma gives_backend_key:
  assumes "current g" shows "gives E P every (ensure_backend_key_secret_for_index bm g i)"
proof -
  have put: "gives E P every (built KeyFailed (build_backend_key_secret bm g i ex en) ensure_backend_key_secret)"
    for ex en
  proof (cases "build_backend_key_secret bm g i ex en")
    case (Inr s)
    then obtain d where "s = backend_key_secret g i d" using built_ha_metas(6) by blast
    with Inr show ?thesis
      by (auto simp: ensure_backend_key_secret_def upsert_def backend_key_secret_def meta_key_def
          intro!: gives_intros backend_key_ok [OF assms, unfolded backend_key_secret_def])
  qed (simp add: gives_fail)
  show ?thesis
    unfolding ensure_backend_key_secret_for_index_def Let_def
    by (rule gives_bindP [OF gives_read_get]) (auto intro!: gives_intros put gives_entropy)
qed

lemma gives_gc:
  assumes "current g" shows "gives E P every (gc_backend_secrets_if_settled g ss n)"
proof -
  have "gives E P every (gc_orphan_backend_secrets g n)"
    unfolding gc_orphan_backend_secrets_def Let_def
    by (rule gives_bindA [OF gives_wrapA [OF gives_backend_secrets [OF assms]]]) (auto intro!: gives_intros)
  then show ?thesis
    unfolding gc_backend_secrets_if_settled_def
    by (intro gives_bindP [OF gives_read_get]) (auto intro!: gives_intros)
qed

lemma always_pow: "always E P every (pow_forced_off g)"
  unfolding pow_forced_off_def
  by (simp add: list_objs_def read_ok split: sum.splits)

lemma always_health: "always E P every (mode_b_health V g)"
  unfolding mode_b_health_def count_ready_backends_def
  by (auto simp: get_obj_def list_objs_def read_ok split: sum.splits)

lemma gives_refetch:
  "current g \<Longrightarrow> gives E P (\<lambda>g'. current g' \<and> same_gateway g g') (get_obj KGateway un_gateway (meta_key (gw_meta g)))"
  by (rule gives_get) (auto simp: read_ok un_gateway_def dest: refetched split: obj.splits)

lemma gives_status_b:
  assumes "current g" shows "gives E P every (update_status_mode_b V R g master p)"
proof -
  have ann: "gives E P current (annotate_mode_b V g p)"
    unfolding annotate_mode_b_def Let_def
    by (intro gives_retry gives_bindA [OF gives_refetch [OF assms]] gives_then [OF always_pow])
      (auto intro!: gives_edit)
  have pub: "gives E P every (publish_mode_b V g' master h)" if "current g'" for g' h
    unfolding publish_mode_b_def Let_def
    by (intro gives_prod gives_retry gives_bindA [OF gives_refetch [OF that]] gives_write)
      (auto intro!: status_ok simp: same_gateway_def)
  show ?thesis
    unfolding update_status_mode_b_def Let_def
    by (intro gives_bindA_every [OF gives_if [OF gives_event_on [OF assms]]] gives_ok TrueI
        gives_then [OF always_pow] gives_bindA [OF gives_if [OF gives_wrapA [OF ann]]] assms
        gives_then [OF always_health] gives_wrapA pub)
qed

lemma gives_built:
  "(\<And>x. r = Inr x \<Longrightarrow> gives E P I (k x)) \<Longrightarrow> gives E P I (built h r k)"
  by (cases r) (auto intro: gives_fail)

lemma gives_provision_b:
  assumes "current g" shows "gives E P every (provision_mode_b V R g p master)"
  unfolding provision_mode_b_def ensure_ha_config_map_def ensure_ha_stateful_set_def ensure_ha_deployment_def
    find_effective_policy_def
  by (intro gives_bindA_every gives_eachA gives_backend_key gives_network_resources gives_upsert [OF assms]
      gives_wrapA gives_policy gives_client_auth gives_built gives_rbac gives_gc gives_routes
      gives_network_policy gives_status_b assms) (simp_all add: child_facts)

lemma gives_mode_b:
  assumes "current g" "usable g p" shows "gives E P every (ensure_mode_b V R g p)"
  unfolding ensure_mode_b_def Let_def
  by (intro gives_bindA_every [OF gives_if [OF gives_cross_rbac [OF assms]]] gives_ok TrueI
      gives_bindP [OF gives_read_get])
    (auto intro!: gives_intros gives_bindA_every gives_event_on gives_programming gives_built
      gives_provision_b assms)

text \<open>The reconciler, once it has read the Gateway.\<close>

lemma first_named_in: "first_named name xs = Some x \<Longrightarrow> x \<in> set xs"
  unfolding first_named_def
  by (induction xs arbitrary: x rule: rev_induct)
    (auto simp: keep_better_def split: option.splits if_splits)

lemma gives_find_obp:
  assumes "current g"
  shows "gives E P (\<lambda>po. \<forall>p acc. po = Some (p, acc) \<longrightarrow> usable g p) (find_effective_onion_balance g)"
proof -
  have "gives E P (\<lambda>ps. \<forall>p \<in> set ps. usable g p) (list_objs KObp un_obp (Some (gw_ns g)) [])"
    using listed_usable [OF assms]
    by (intro gives_list) (fastforce simp: read_ok un_obp_def split: obj.splits dest!: those_in)+
  then show ?thesis
    unfolding find_effective_onion_balance_def
    by (rule gives_bindA) (auto intro!: gives_ok simp: select_obp_def dest!: first_named_in)
qed

lemma gives_managed:
  assumes "current g" shows "gives E P every (reconcile_managed V R g)"
  unfolding reconcile_managed_def
  by (rule gives_bindA [OF gives_wrapA [OF gives_find_obp [OF assms]]])
    (auto intro!: gives_intros gives_programming gives_bindA_every [OF gives_cleanup_a] gives_mode_b
      gives_bindA [OF gives_cleanup_b] gives_mode_a gives_fresh assms)

lemma gives_finalize:
  assumes "current g" shows "gives E P every (finalize_gateway g)"
proof -
  have release: "gives E P every (release_gateway g')" if "current g'" for g'
    unfolding release_gateway_def
    by (intro gives_retry gives_bindA [OF gives_refetch [OF that]] gives_intros)
      (auto intro: write_ok [OF that] simp: gateway_write_def)
  show ?thesis
    unfolding finalize_gateway_def
    by (intro gives_if gives_bindA [OF gives_cleanup_b [OF assms]] gives_wrapA release gives_ok TrueI)
qed

theorem gives_reconcile:
  assumes "\<And>g. E (Get KGateway key) (Object (OGateway g)) \<Longrightarrow> current g"
  shows "gives E P every (gateway_reconcile V R key)"
proof -
  have get: "gives E P current (get_obj KGateway un_gateway key)"
    by (rule gives_get) (auto simp: read_ok un_gateway_def dest: assms split: obj.splits)
  have class_ok: "gives E P every (gateway_class_managed_by_us n)" for n
    unfolding gateway_class_managed_by_us_def
    by (intro gives_intros gives_bindP [OF gives_read_get])
  show ?thesis
    unfolding gateway_reconcile_def
    by (rule gives_bindP [OF get])
      (auto intro!: gives_intros gives_bindA_every [OF gives_wrapA [OF class_ok]]
        gives_bindA [OF gives_wrapA [OF gives_hold]] gives_finalize gives_managed)
qed

end

end
