(* ===== verification/Provisioning.thy ===== *)
theory Provisioning
  imports Cluster Gateway_Calls
begin

text \<open>
  What the steps of Mode A do to a cluster whose server keeps its promises (\<open>Cluster\<close>): the children
  are written as they are built, the egress policy is exact, and the status is published. A child is
  settled when what is stored has the labels and owners of the child as it is built and its specification
  with the server's defaults (\<open>declared\<close>); this does not mention how the child is written. What is stored
  after a write is settled, and writing a settled child again changes nothing.
\<close>

subsection \<open>Changes and settled children\<close>

definition changes :: "(kind \<times> nsname) set \<Rightarrow> objects \<Rightarrow> objects \<Rightarrow> bool" where
  "changes K L L' \<longleftrightarrow> (\<forall>x. x \<notin> K \<longrightarrow> L' x = L x)"

lemma changes_refl [simp]: "changes K L L"
  by (simp add: changes_def)

lemma changes_trans: "changes K L L' \<Longrightarrow> changes K' L' L'' \<Longrightarrow> changes (K \<union> K') L L''"
  by (simp add: changes_def)

lemma changes_mono: "changes K L L' \<Longrightarrow> K \<subseteq> K' \<Longrightarrow> changes K' L L'"
  by (auto simp: changes_def)

lemma changes_look: "changes K L L' \<Longrightarrow> x \<notin> K \<Longrightarrow> L' x = L x"
  unfolding changes_def by blast

lemma changes_upd: "changes {x} L (L(x := v))"
  by (simp add: changes_def)

fun wanted :: "child_write \<Rightarrow> obj" where
  "wanted (WriteConfigMap w) = OConfigMap w"
| "wanted (WriteDeployment w) = ODeployment w"
| "wanted (WriteServiceAccount w) = OServiceAccount w"
| "wanted (WriteRole w) = ORole w"
| "wanted (WriteRoleBinding w) = ORoleBinding w"
| "wanted (WriteService w) = OService w"
| "wanted (WriteNetworkPolicy w) = ONetworkPolicy w"
| "wanted (WriteStatefulSet w) = OStatefulSet w"
| "wanted (WriteBackendSecret w) = OSecret w"

definition write_place :: "child_write \<Rightarrow> kind \<times> nsname" where
  "write_place x = place (wanted x)"

definition settled :: "(obj \<Rightarrow> obj) \<Rightarrow> child_write \<Rightarrow> objects \<Rightarrow> bool" where
  "settled fill x L \<longleftrightarrow> (\<exists>ob. L (write_place x) = Some ob \<and> declared fill (wanted x) ob)"

lemma settled_changes: "changes K L L' \<Longrightarrow> write_place x \<notin> K \<Longrightarrow> settled fill x L' = settled fill x L"
  by (simp add: settled_def changes_look)

fun backend_secret_write :: "child_write \<Rightarrow> bool" where
  "backend_secret_write (WriteBackendSecret _) = True"
| "backend_secret_write _ = False"

lemma closure_facts:
  assumes "obj_kind b = obj_kind (wanted x)" "\<not> backend_secret_write x"
  shows "same_spec (closure x b) (wanted x)" "obj_kind (closure x b) = obj_kind (wanted x)"
    "meta_of (closure x b) = adopt (meta_of (wanted x)) (meta_of b)"
  using assms by (cases x; cases b; simp add: put_defs same_spec_def)+

lemma same_spec_trans: "same_spec a b \<Longrightarrow> same_spec c b \<Longrightarrow> same_spec a c"
  by (cases a; cases b; simp add: same_spec_def; cases c; simp)

lemma same_spec_kind: "same_spec a b \<Longrightarrow> obj_kind a = obj_kind b"
  by (cases a; cases b; simp add: same_spec_def)

lemma same_spec_not_secret: "same_spec a b \<Longrightarrow> obj_kind a \<noteq> KSecret"
  by (cases a) (simp_all add: same_spec_def)

lemma strip_allocate:
  assumes "strip a = strip (allocate ip b)"
  shows "same_spec a c = same_spec b c" "obj_kind a = obj_kind b" "om_labels (meta_of a) = om_labels (meta_of b)"
    "om_owners (meta_of a) = om_owners (meta_of b)"
proof -
  have spec: "same_spec (map_meta h a) c = same_spec a c" for h a by (cases a; cases c; simp add: same_spec_def)
  have "same_spec (allocate ip b) c = same_spec b c" by (cases b; cases c; simp add: same_spec_def)
  then show "same_spec a c = same_spec b c" using assms spec unfolding strip_def by metis
  have "obj_kind (allocate ip b) = obj_kind b" "meta_of (allocate ip b) = meta_of b" by (cases b; simp)+
  then show "obj_kind a = obj_kind b" "om_labels (meta_of a) = om_labels (meta_of b)"
      "om_owners (meta_of a) = om_owners (meta_of b)"
    using strip_kind [OF assms] arg_cong [OF strip_eqD(2) [OF assms], of om_labels]
      arg_cong [OF strip_eqD(2) [OF assms], of om_owners] by (simp_all add: strip_meta_def)
qed

text \<open>What is not specification: the part of an object that only the server and other controllers write.\<close>

fun remainder :: "obj \<Rightarrow> string \<times> (string \<times> string) list \<times> nat" where
  "remainder (OService s) = (svc_cluster_ip s, [], 0)"
| "remainder (ODeployment d) = ([], dep_conditions d, 0)"
| "remainder (OStatefulSet s) = ([], [], ss_status_replicas s)"
| "remainder ob = ([], [], 0)"

lemma same_object:
  assumes "same_spec a b" "meta_of a = meta_of b" "remainder a = remainder b"
  shows "a = b"
  using assms by (cases a; cases b) (auto simp: same_spec_def)

lemma remainder_closure:
  assumes "has_ip b" "obj_kind b = obj_kind (wanted x)"
  shows "remainder (closure x b) = remainder b"
  using assms by (cases x; cases b; simp add: put_defs)

context defaulting
begin

lemma remainder_fill: "remainder (fill ob) = remainder ob"
  using fill_law [of ob] by (cases ob; cases "fill ob"; simp add: completes_def spec_kept_def)

text \<open>What is stored after a write is settled, and a write of a settled child changes nothing.\<close>

lemma written_declared:
  assumes "stamped (fill (closure x b)) a" "obj_kind b = obj_kind (wanted x)" "\<not> backend_secret_write x"
  shows "declared fill (wanted x) a"
proof -
  obtain ip where ip: "strip a = strip (allocate ip (fill (closure x b)))" "has_ip a"
    using assms(1) by (auto simp: stamped_def)
  show ?thesis
    using ip(2) closure_facts [OF assms(2,3)] fill_spec_law [OF closure_facts(1) [OF assms(2,3)]]
    by (simp add: declared_def strip_allocate [OF ip(1)] adopt_def)
qed

lemma declared_closure:
  assumes "declared fill (wanted x) ob" "\<not> backend_secret_write x"
  shows "fill (closure x ob) = ob"
proof (rule same_object)
  have ob: "obj_kind ob = obj_kind (wanted x)" "om_labels (meta_of ob) = om_labels (meta_of (wanted x))"
      "om_owners (meta_of ob) = om_owners (meta_of (wanted x))" "same_spec ob (fill (wanted x))" "has_ip ob"
    using assms(1) by (simp_all add: declared_def)
  note c = closure_facts [OF ob(1) assms(2)]
  show "same_spec (fill (closure x ob)) ob" by (rule same_spec_trans [OF fill_spec_law [OF c(1)] ob(4)])
  show "meta_of (fill (closure x ob)) = meta_of ob" using c(3) ob(2,3) by (simp add: adopt_def)
  show "remainder (fill (closure x ob)) = remainder ob"
    by (simp add: remainder_fill remainder_closure [OF ob(5,1)])
qed

end

subsection \<open>One write\<close>

definition put_child :: "child_write \<Rightarrow> (gateway_error, unit) act" where
  "put_child x = upsert (obj_kind (wanted x)) (meta_of (wanted x)) (closure x)"

lemma write_place_meta: "write_place x = (obj_kind (wanted x), meta_key (meta_of (wanted x)))"
  by (cases x) (simp_all add: write_place_def place_def)

lemma ensure_put:
  "ensure_service_account g = put_child (WriteServiceAccount (build_service_account g))"
  "ensure_role g po = put_child (WriteRole (build_role g po))"
  "ensure_role_binding g = put_child (WriteRoleBinding (build_role_binding g))"
  "ensure_service g = put_child (WriteService (build_service g))"
  "ensure_torrc_config_map R g policy auth =
     built BuildFailed (build_torrc_config_map g policy auth (gr_testing_include R)) (\<lambda>c. put_child (WriteConfigMap c))"
  "ensure_deployment R g policy auth =
     built BuildFailed (build_deployment g policy auth (gr_images R)) (\<lambda>d. put_child (WriteDeployment d))"
  by (simp_all add: put_child_def ensure_service_account_def ensure_role_def ensure_role_binding_def
      ensure_service_def ensure_torrc_config_map_def ensure_deployment_def Let_def)

context api_server
begin

lemma existing_kind: "obj_kind (existing (look w) (write_place x)) = obj_kind (wanted x)"
  using placed_law [of w "fst (write_place x)" "snd (write_place x)"]
  by (cases x)
    (auto simp: existing_def write_place_def place_def blank_def Let_def split: option.splits)

lemma exec_put:
  assumes "exec serve (put_child x) w = (Inr (), w')" "\<not> backend_secret_write x"
  shows "settled fill x (look w')" "changes {write_place x} (look w) (look w')"
proof -
  have "stored (write_place x) (fill (closure x (existing (look w) (write_place x)))) (look w) (look w')"
    using exec_upsert [OF assms(1) [unfolded put_child_def]] by (simp add: write_place_meta)
  then obtain ob where ob: "look w' = (look w)(write_place x \<mapsto> ob)"
    "stamped (fill (closure x (existing (look w) (write_place x)))) ob"
    by (auto simp: stored_def)
  then show "settled fill x (look w')" "changes {write_place x} (look w) (look w')"
    using written_declared [OF ob(2) existing_kind assms(2)] by (simp_all add: settled_def changes_upd)
qed

lemma settled_secret: "settled fill x L \<Longrightarrow> \<not> backend_secret_write x"
  by (cases x) (auto simp: settled_def declared_def dest: same_spec_kind same_spec_not_secret)

lemma exec_put_settled:
  assumes "exec serve (put_child x) w = (r, w')" "settled fill x (look w)"
  shows "look w' = look w"
proof -
  from assms(2) obtain ob where ob: "look w (write_place x) = Some ob" "declared fill (wanted x) ob"
    by (auto simp: settled_def)
  then have "has_ip ob" "strip (fill (closure x ob)) = strip ob"
    using declared_closure [OF ob(2) settled_secret [OF assms(2)]] by (simp_all add: declared_def)
  then show ?thesis
    using exec_upsert_same [OF assms(1) [unfolded put_child_def]] ob(1) by (simp add: write_place_meta)
qed

lemma exec_always_reads:
  assumes "always (\<lambda>c r. r = fst (serve w c)) is_read Q p"
  shows "Q (fst (exec serve p w)) \<and> snd (exec serve p w) = w"
  by (rule always_exec [where I = "\<lambda>u. u = w", OF assms refl]) (metis fst_conv snd_conv read_law)

text \<open>Deleting a list of objects.\<close>

lemma exec_delete_all:
  assumes "exec serve (eachA body ys) w = (Inr (), w')"
    and "\<And>y. y \<in> set ys \<Longrightarrow> body y = apiA (delete_if_present (fst (pl y)) (snd (pl y)))"
    and "\<And>y. y \<in> set ys \<Longrightarrow> fst (pl y) \<noteq> KGateway"
  shows "look w' = (\<lambda>x. if x \<in> pl ` set ys then None else look w x)"
  using assms
proof (induction ys arbitrary: w)
  case (Cons y ys)
  obtain u where u: "exec serve (delete_if_present (fst (pl y)) (snd (pl y))) w = (Inr (), u)"
    "exec serve (eachA body ys) u = (Inr (), w')"
    using Cons.prems(1,2) by (auto simp: exec_ok)
  have "look u = (look w)(pl y := None)"
    using exec_delete [OF u(1) Cons.prems(3)] by simp
  moreover have "look w' = (\<lambda>x. if x \<in> pl ` set ys then None else look u x)"
    using u(2) Cons.prems(2,3) by (intro Cons.IH) auto
  ultimately show ?case by auto
qed simp

end

subsection \<open>The egress policy\<close>

text \<open>What the server answers when asked for one object.\<close>

definition answer_at :: "objects \<Rightarrow> kind \<Rightarrow> nsname \<Rightarrow> answer" where
  "answer_at L k n = (case L (k, n) of Some ob \<Rightarrow> Object ob | None \<Rightarrow> Failed NotFound)"

definition lists_grants :: "objects \<Rightarrow> (string \<Rightarrow> reference_grant list) \<Rightarrow> bool" where
  "lists_grants L G \<longleftrightarrow> (\<forall>ns. OGrant ` set (G ns) = listed L KGrant (Some ns) [])"

definition lists_routes :: "objects \<Rightarrow> gateway \<Rightarrow> http_route list \<Rightarrow> bool" where
  "lists_routes L g rts \<longleftrightarrow> set rts = {rt. ORoute rt \<in> listed L KRoute None [] \<and>
     list_ex (\<lambda>pr. parent_ref_matches pr (gw_name g) (gw_ns g) (rt_ns rt)) (rt_parent_refs rt)}"

definition egress_place :: "gateway \<Rightarrow> kind \<times> nsname" where
  "egress_place g = (KNetworkPolicy, gw_ns g, network_policy_name (gw_name g))"

definition egress_settled :: "gateway_reconciler \<Rightarrow> gateway \<Rightarrow> objects \<Rightarrow> bool" where
  "egress_settled R g L \<longleftrightarrow>
     (if \<not> gr_network_policy_enabled R then L (egress_place g) = None
      else \<exists>np G rts. L (egress_place g) = Some (ONetworkPolicy np) \<and> lists_grants L G \<and> lists_routes L g rts \<and>
        exact_egress G (answer_at L) R g rts np \<and> om_owners (np_meta np) = [controller_reference g])"

lemma egress_inputs:
  assumes "changes K L L'" "\<And>k n. k \<in> {KGrant, KRoute, KService} \<Longrightarrow> (k, n) \<notin> K"
  shows "lists_grants L' G = lists_grants L G" "lists_routes L' g rts = lists_routes L g rts"
    "exact_egress G (answer_at L') R g rts np = exact_egress G (answer_at L) R g rts np"
proof -
  have same: "L' (k, n) = L (k, n)" if "k \<in> {KGrant, KRoute, KService}" for k n
    using assms(2) [OF that] changes_look [OF assms(1)] by blast
  have "resolves G (answer_at L') = resolves G (answer_at L)"
    by (intro ext) (simp add: resolves_def answer_at_def same)
  moreover from this have "last_for_service G (answer_at L') = last_for_service G (answer_at L)"
    by (intro ext) (simp only: last_for_service_def)
  ultimately show "lists_grants L' G = lists_grants L G" "lists_routes L' g rts = lists_routes L g rts"
      "exact_egress G (answer_at L') R g rts np = exact_egress G (answer_at L) R g rts np"
    by (simp_all add: exact_egress_def lists_grants_def lists_routes_def listed_def same)
qed

lemma egress_settled_changes:
  assumes "changes K L L'" "\<And>k n. k \<in> {KGrant, KRoute, KService} \<Longrightarrow> (k, n) \<notin> K" "egress_place g \<notin> K"
  shows "egress_settled R g L' = egress_settled R g L"
  using changes_look [OF assms(1,3)] egress_inputs [OF assms(1,2)] by (simp add: egress_settled_def)

text \<open>The rules of an exact policy name their protocols, so there is nothing to complete.\<close>

lemma exact_egress_protocols:
  "exact_egress G S R g routes np \<Longrightarrow> r \<in> set (np_egress np) \<Longrightarrow> p \<in> set (eg_ports r) \<Longrightarrow> pp_protocol p \<noteq> []"
proof -
  assume e: "exact_egress G S R g routes np" and p: "r \<in> set (np_egress np)" "p \<in> set (eg_ports r)"
  have "r \<in> {name_service_rule, api_server_rule, tor_rule (gr_pod_cidrs R) (gr_testing_namespace R)} \<or>
      (\<exists>ns svc q. r = service_port_rule ns svc q)"
    using e p(1) unfolding exact_egress_def by blast
  then show ?thesis
    using p(2) by (auto simp: name_service_rule_def api_server_rule_def tor_rule_def service_port_rule_def split: if_splits)
qed

lemma rules_complete:
  assumes "list_all2 egress_rule_kept rs rs'" "\<And>r p. r \<in> set rs \<Longrightarrow> p \<in> set (eg_ports r) \<Longrightarrow> pp_protocol p \<noteq> []"
  shows "rs' = rs"
proof -
  have ports: "list_all2 policy_port_kept ps ps' \<Longrightarrow> \<forall>p \<in> set ps. pp_protocol p \<noteq> [] \<Longrightarrow> ps' = ps" for ps ps'
    by (induction rule: list_all2_induct) (auto simp: policy_port_kept_def text_kept_def)
  from assms show ?thesis
  proof (induction rule: list_all2_induct)
    case (Cons x xs y ys)
    then have "\<forall>p \<in> set (eg_ports x). pp_protocol p \<noteq> []" "ys = xs" by auto
    moreover from this have "eg_to y = eg_to x" "eg_ports y = eg_ports x"
      using Cons.hyps(1) ports [of "eg_ports x" "eg_ports y"] by (simp_all add: egress_rule_kept_def)
    ultimately show ?case by simp
  qed simp
qed

context defaulting
begin

lemma declared_policy:
  assumes "declared fill (ONetworkPolicy np) ob" "exact_egress G S R g routes np"
  shows "\<exists>np'. ob = ONetworkPolicy np' \<and> same_rules np' np \<and> om_owners (np_meta np') = om_owners (np_meta np)"
proof -
  obtain np' where np': "ob = ONetworkPolicy np'" "om_owners (np_meta np') = om_owners (np_meta np)"
      "same_spec (ONetworkPolicy np') (fill (ONetworkPolicy np))"
    using assms(1) by (cases ob) (auto simp: declared_def)
  obtain f where f: "fill (ONetworkPolicy np) = ONetworkPolicy f" "np_pod_selector f = np_pod_selector np"
      "np_policy_types f = np_policy_types np" "list_all2 egress_rule_kept (np_egress np) (np_egress f)"
    using fill_law [of "ONetworkPolicy np"] assms(2)
    by (cases "fill (ONetworkPolicy np)") (auto simp: completes_def spec_kept_def exact_egress_def)
  from np' f rules_complete [OF f(4) exact_egress_protocols [OF assms(2)]] show ?thesis
    by (simp add: same_spec_def same_rules_def)
qed

end

context api_server
begin

lemma serve_answers: "\<exists>G. lists_grants (look w) G \<and>
    (\<forall>c r. r = fst (serve w c) \<longrightarrow> netpol_world G (answer_at (look w)) c r)"
proof -
  have "\<exists>gs. fst (serve w (ListObjs KGrant (Some ns) [])) = Objects (map OGrant gs) \<and>
      OGrant ` set gs = listed (look w) KGrant (Some ns) []" for ns
  proof -
    obtain obs where obs: "fst (serve w (ListObjs KGrant (Some ns) [])) = Objects obs"
      "set obs = listed (look w) KGrant (Some ns) []"
      using list_law by blast
    then have "\<forall>ob \<in> set obs. \<exists>x. ob = OGrant x"
      using placed_law by (fastforce simp: listed_def elim: obj_kind.elims)
    then obtain gs where "obs = map OGrant gs" by (metis ex_map_conv)
    with obs show ?thesis by auto
  qed
  then obtain G where "\<And>ns. fst (serve w (ListObjs KGrant (Some ns) [])) = Objects (map OGrant (G ns)) \<and>
      OGrant ` set (G ns) = listed (look w) KGrant (Some ns) []"
    by metis
  then show ?thesis
    by (intro exI [of _ G])
      (auto simp: lists_grants_def netpol_world_def grants_are_def snapshot_def get_law answer_at_def)
qed

lemma exec_resolve:
  assumes "exec serve (resolve_backends order rts) w = (Inr bs, u)"
  shows "u = w \<and> (\<exists>G. lists_grants (look w) G \<and> bs = order (map snd (wanted_backends G (answer_at (look w)) rts)))"
proof -
  obtain G where G: "lists_grants (look w) G"
    "\<And>c r. r = fst (serve w c) \<Longrightarrow> netpol_world G (answer_at (look w)) c r"
    using serve_answers by blast
  have "always (\<lambda>c r. r = fst (serve w c)) is_read (\<lambda>r. case r of Inl _ \<Rightarrow> True
      | Inr bs \<Rightarrow> bs = order (map snd (wanted_backends G (answer_at (look w)) rts))) (resolve_backends order rts)"
    by (rule always_resolve_backends) (use G(2) in auto)
  from exec_always_reads [OF this] assms G(1) show ?thesis by auto
qed

lemma exec_network_policy:
  assumes "exec serve (ensure_network_policy order R g rts) w = (Inr (), w')"
    and "lists_routes (look w) g rts" "\<And>xs. mset (order xs) = mset xs"
  shows "egress_settled R g (look w')" "changes {egress_place g} (look w) (look w')"
proof (atomize (full), cases "gr_network_policy_enabled R")
  case False
  then have "look w' = (look w)(egress_place g := None)"
    using assms(1) exec_delete by (auto simp: ensure_network_policy_def exec_ok egress_place_def)
  with False show "egress_settled R g (look w') \<and> changes {egress_place g} (look w) (look w')"
    by (simp add: egress_settled_def changes_upd)
next
  case True
  then obtain bs u where r: "exec serve (resolve_backends order rts) w = (Inr bs, u)"
    "exec serve (built SelectorEmpty (build_network_policy g bs (gr_pod_cidrs R) (gr_testing_namespace R))
       (\<lambda>np. upsert KNetworkPolicy (np_meta np) (put_network_policy np))) u = (Inr (), w')"
    using assms(1) by (auto simp: ensure_network_policy_def exec_bindA_ok exec_wrapA_ok)
  obtain G where G: "lists_grants (look w) G" "u = w"
    and bs: "bs = order (map snd (wanted_backends G (answer_at (look w)) rts))"
    using exec_resolve [OF r(1)] by blast
  obtain np where np: "build_network_policy g bs (gr_pod_cidrs R) (gr_testing_namespace R) = Inr np"
    and meta: "np_meta np = child_meta g (network_policy_name (gw_name g)) (child_labels (gw_name g))"
    and exact: "\<And>np'. same_rules np' np \<Longrightarrow> exact_egress G (answer_at (look w)) R g rts np'"
    using wanted_policy_exact [where order = order and G = G and S = "answer_at (look w)" and routes = rts
        and R = R and g = g, OF assms(3)] unfolding bs by blast
  have "exec serve (put_child (WriteNetworkPolicy np)) w = (Inr (), w')"
    using r(2) np G(2) by (simp add: put_child_def)
  from exec_put [OF this] have put: "settled fill (WriteNetworkPolicy np) (look w')" "changes {egress_place g} (look w) (look w')"
    by (simp_all add: write_place_meta meta egress_place_def meta_key_def)
  then obtain ob where ob: "look w' (egress_place g) = Some ob" "declared fill (ONetworkPolicy np) ob"
    by (auto simp: settled_def write_place_meta meta egress_place_def meta_key_def)
  obtain np' where np': "ob = ONetworkPolicy np'" "same_rules np' np" "om_owners (np_meta np') = om_owners (np_meta np)"
    using declared_policy [OF ob(2) exact [of np]] by (auto simp: same_rules_def)
  then have "exact_egress G (answer_at (look w)) R g rts np'" "om_owners (np_meta np') = [controller_reference g]"
    by (simp_all add: exact meta child_meta_def)
  moreover have "(k, n) \<notin> {egress_place g}" if "k \<in> {KGrant, KRoute, KService}" for k n
    using that by (auto simp: egress_place_def)
  note egress_inputs [OF put(2) this]
  ultimately have "egress_settled R g (look w')"
    using True ob(1) np'(1) G(1) assms(2) unfolding egress_settled_def by auto
  with put(2) show "egress_settled R g (look w') \<and> changes {egress_place g} (look w) (look w')" by simp
qed

end

subsection \<open>Provisioning\<close>

definition mode_a_writes :: "gateway \<Rightarrow> config_map \<Rightarrow> deployment \<Rightarrow> child_write list" where
  "mode_a_writes g c d =
     [WriteConfigMap c, WriteServiceAccount (build_service_account g), WriteRole (build_role g None),
      WriteRoleBinding (build_role_binding g), WriteDeployment d, WriteService (build_service g)]"

definition provisioned ::
    "(obj \<Rightarrow> obj) \<Rightarrow> gateway_reconciler \<Rightarrow> gateway \<Rightarrow> effective_service_policy \<Rightarrow> effective_client_auth \<Rightarrow>
     objects \<Rightarrow> bool" where
  "provisioned fill R g policy auth L \<longleftrightarrow>
     (\<exists>c d. build_torrc_config_map g policy auth (gr_testing_include R) = Inr c \<and>
        build_deployment g policy auth (gr_images R) = Inr d \<and>
        list_all (\<lambda>x. settled fill x L) (mode_a_writes g c d))"

definition mode_a_places :: "gateway \<Rightarrow> (kind \<times> nsname) set" where
  "mode_a_places g = (\<lambda>(k, n). (k, gw_ns g, n)) `
     {(KConfigMap, torrc_config_map_name (gw_name g)), (KServiceAccount, router_rbac_name (gw_name g)),
      (KRole, router_rbac_name (gw_name g)), (KRoleBinding, router_rbac_name (gw_name g)),
      (KDeployment, deployment_name (gw_name g)), (KService, service_name (gw_name g))}"

lemma mode_a_places:
  assumes "build_torrc_config_map g policy auth inc = Inr c" "build_deployment g policy auth im = Inr d"
  shows "write_place ` set (mode_a_writes g c d) = mode_a_places g" "distinct (map write_place (mode_a_writes g c d))"
  using assms by (auto simp: mode_a_writes_def mode_a_places_def write_place_meta child_facts meta_key_def)

lemma settled_all_changes:
  "changes K L L' \<Longrightarrow> write_place ` set xs \<inter> K = {} \<Longrightarrow> list_all (\<lambda>x. settled fill x L') xs = list_all (\<lambda>x. settled fill x L) xs"
  unfolding list_all_iff using settled_changes [of K L L'] by blast

lemma provisioned_changes:
  "changes K L L' \<Longrightarrow> mode_a_places g \<inter> K = {} \<Longrightarrow> provisioned fill R g policy auth L' = provisioned fill R g policy auth L"
  unfolding provisioned_def using settled_all_changes [of K L L'] mode_a_places(1) by metis

lemma bindA_assoc: "bindA (bindA p f) h = bindA p (\<lambda>x. bindA (f x) h)"
  unfolding bindA_def by (induction p) (auto split: sum.splits)

lemma bindA_okA: "bindA (okA x) f = f x"
  by (simp add: bindA_def)

lemma bindA_built: "bindA (built h r k) f = built h r (\<lambda>x. bindA (k x) f)"
  by (cases r) (simp_all add: bindA_def)

text \<open>The steps up to the egress policy, as a loop over the children.\<close>

lemma provision_children:
  "bindA (ensure_torrc_config_map R g policy auth) (\<lambda>_. bindA (ensure_router_rbac g None) (\<lambda>_.
     bindA (ensure_deployment R g policy auth) (\<lambda>_. bindA (ensure_service g) (\<lambda>_. p)))) =
   built BuildFailed (build_torrc_config_map g policy auth (gr_testing_include R)) (\<lambda>c.
     bindA (eachA put_child [WriteConfigMap c, WriteServiceAccount (build_service_account g),
        WriteRole (build_role g None), WriteRoleBinding (build_role_binding g)]) (\<lambda>_.
     built BuildFailed (build_deployment g policy auth (gr_images R)) (\<lambda>d.
       bindA (eachA put_child [WriteDeployment d, WriteService (build_service g)]) (\<lambda>_. p))))"
  by (simp add: ensure_put ensure_router_rbac_def bindA_assoc bindA_built bindA_okA)

context api_server
begin

lemma exec_puts:
  assumes "exec serve (eachA put_child xs) w = (Inr (), w')" "list_all (\<lambda>x. \<not> backend_secret_write x) xs"
    "distinct (map write_place xs)"
  shows "list_all (\<lambda>x. settled fill x (look w')) xs \<and> changes (write_place ` set xs) (look w) (look w')"
  using assms
proof (induction xs arbitrary: w)
  case (Cons x xs)
  obtain u where u: "exec serve (put_child x) w = (Inr (), u)" "exec serve (eachA put_child xs) u = (Inr (), w')"
    using Cons.prems(1) by (auto simp: exec_ok)
  have x: "settled fill x (look u)" "changes {write_place x} (look w) (look u)"
    using exec_put [OF u(1)] Cons.prems(2) by simp_all
  have xs: "list_all (\<lambda>x. settled fill x (look w')) xs" "changes (write_place ` set xs) (look u) (look w')"
    using Cons.IH [OF u(2)] Cons.prems(2,3) by simp_all
  have "settled fill x (look w')"
    using settled_changes [OF xs(2)] x(1) Cons.prems(3) by simp
  then show ?case
    using xs(1) changes_trans [OF x(2) xs(2)] by simp
qed simp

lemma exec_puts_settled:
  assumes "exec serve (eachA put_child xs) w = (r, w')" "list_all (\<lambda>x. settled fill x (look w)) xs"
  shows "look w' = look w"
  using assms
proof (induction xs arbitrary: w)
  case (Cons x xs)
  then show ?case
    by (auto simp: exec_bindA split: prod.splits sum.splits dest: exec_put_settled)
qed simp

lemma exec_routes:
  assumes "exec serve (routes_for_gateway g) w = (Inr rts, w')"
  shows "w' = w" "lists_routes (look w) g rts"
proof -
  obtain xs where xs: "exec serve (list_objs KRoute un_route None []) w = (Inr xs, w')"
    "rts = filter (\<lambda>rt. list_ex (\<lambda>pr. parent_ref_matches pr (gw_name g) (gw_ns g) (rt_ns rt)) (rt_parent_refs rt)) xs"
    using assms by (auto simp: routes_for_gateway_def exec_ok)
  have "un_route ob = Some x \<longleftrightarrow> ob = ORoute x" for ob x
    by (cases ob) (auto simp: un_route_def)
  from exec_list_ok [OF xs(1) this] xs(2) show "w' = w" "lists_routes (look w) g rts"
    by (auto simp: lists_routes_def)
qed

end

subsection \<open>Status\<close>

definition settled_gateway :: "time \<Rightarrow> key_pair \<Rightarrow> gateway \<Rightarrow> string \<Rightarrow> gateway" where
  "settled_gateway now kp g v =
     versioned v (om_generation (gw_meta g)) (fst (next_status now (onion_string (key_onion_address kp)) g))"

lemma next_status_shape: "fst (next_status now onion g) = with_status (fst (next_status now onion g)) g"
  by (cases g) (simp add: next_status_def with_status_def Let_def del: set_conditions.simps split: prod.splits)

lemma next_status_class: "gw_class (fst (next_status now onion g)) = gw_class g"
  by (subst next_status_shape) simp

lemma versioned_self [simp]: "versioned (om_version (gw_meta g)) (om_generation (gw_meta g)) g = g"
  by (cases g) (simp add: versioned_def)

lemma with_status_versioned: "with_status s (versioned v n g) = versioned v n (with_status s g)"
  by (simp add: with_status_def versioned_def)

lemma next_status_versioned:
  assumes "n = om_generation (gw_meta g)"
  shows "next_status now onion (versioned v n g) =
    (versioned v n (fst (next_status now onion g)), snd (next_status now onion g))"
proof -
  have cond: "gateway_condition now (versioned v n g) = gateway_condition now g"
    "accepted_gateway now (versioned v n g) = accepted_gateway now g"
    using assms by (simp_all add: gateway_condition_def accepted_gateway_def fun_eq_iff)
  have "wanted_listener_status now (versioned v n g) = wanted_listener_status now g"
    by (intro ext) (simp add: wanted_listener_status_def cond)
  then show ?thesis
    by (simp add: next_status_def Let_def cond del: set_conditions.simps split: prod.splits)
      (simp add: versioned_def)
qed

lemma settled_gateway_simps [simp]:
  "meta_key (gw_meta (settled_gateway now kp g v)) = meta_key (gw_meta g)"
  "gw_ns (settled_gateway now kp g v) = gw_ns g" "gw_name (settled_gateway now kp g v) = gw_name g"
  "gw_uid (settled_gateway now kp g v) = gw_uid g" "gw_class (settled_gateway now kp g v) = gw_class g"
  "gw_listeners (settled_gateway now kp g v) = gw_listeners g"
  "om_annotations (gw_meta (settled_gateway now kp g v)) = om_annotations (gw_meta g)"
  "om_finalizers (gw_meta (settled_gateway now kp g v)) = om_finalizers (gw_meta g)"
  "om_deleting (gw_meta (settled_gateway now kp g v)) = om_deleting (gw_meta g)"
  "gw_addresses (settled_gateway now kp g v) = [onion_status_address (onion_string (key_onion_address kp))]"
  by (simp_all add: settled_gateway_def next_status_parts(1,4,5) next_status_class)

lemma settled_gateway_again:
  "snd (next_status now' (onion_string (key_onion_address kp)) (settled_gateway now kp g v)) = False"
  unfolding settled_gateway_def
  by (subst next_status_versioned) (simp_all add: next_status_parts(5) next_status_again)

context api_server
begin

lemma exec_update_status:
  assumes "exec serve (update_status now g kp) w = (Inr (), w')" "look w (gateway_place g) = Some (OGateway g)"
  shows "\<exists>v. look w' = (look w)(gateway_place g \<mapsto> OGateway (settled_gateway now kp g v))"
proof -
  let ?onion = "onion_string (key_onion_address kp)"
  obtain g' changed where n: "next_status now ?onion g = (g', changed)" by fastforce
  have meta: "gateway_place g' = gateway_place g"
    using next_status_parts(5) [of now ?onion g] n by (simp add: gateway_place_def)
  show ?thesis
  proof (cases changed)
    case True
    then have "status_stored g' (look w) (look w')"
      using assms(1) n by (intro exec_status) (simp add: update_status_def exec_ok)
    then show ?thesis
      using assms(2) next_status_shape [of now ?onion g] n
      by (auto simp: status_stored_def meta settled_gateway_def with_status_versioned)
  next
    case False
    then have "g' = g" "w' = w"
      using n next_status_changed [of now ?onion g] assms(1) by (auto simp: update_status_def)
    then have "look w' = (look w)(gateway_place g \<mapsto> OGateway (settled_gateway now kp g (om_version (gw_meta g))))"
      using n assms(2) by (simp add: settled_gateway_def fun_upd_idem)
    then show ?thesis ..
  qed
qed

lemma provision_steps:
  assumes "exec serve (provision_mode_a V R g policy auth kp) w = (Inr (), w')"
  obtains c d u1 rts u3 where "build_torrc_config_map g policy auth (gr_testing_include R) = Inr c"
      "build_deployment g policy auth (gr_images R) = Inr d"
      "exec serve (eachA put_child (mode_a_writes g c d)) w = (Inr (), u1)" "lists_routes (look u1) g rts"
      "exec serve (ensure_network_policy (ev_order V) R g rts) u1 = (Inr (), u3)"
      "exec serve (update_status (ev_now V) g kp) u3 = (Inr (), w')"
proof -
  obtain c d u1 u2 rts u3 where "build_torrc_config_map g policy auth (gr_testing_include R) = Inr c"
      "build_deployment g policy auth (gr_images R) = Inr d"
      "exec serve (eachA put_child (mode_a_writes g c d)) w = (Inr (), u1)"
      "exec serve (routes_for_gateway g) u1 = (Inr rts, u2)"
      "exec serve (ensure_network_policy (ev_order V) R g rts) u2 = (Inr (), u3)"
      "exec serve (update_status (ev_now V) g kp) u3 = (Inr (), w')"
    using assms
    unfolding provision_mode_a_def provision_children exec_ok
    by (auto simp: mode_a_writes_def exec_ok)
  then show thesis using that exec_routes by blast
qed

lemma exec_provision:
  assumes "exec serve (provision_mode_a V R g policy auth kp) w = (Inr (), w')"
    and "look w (gateway_place g) = Some (OGateway g)" "\<And>xs. mset (ev_order V xs) = mset xs"
  shows "provisioned fill R g policy auth (look w') \<and> egress_settled R g (look w')
    \<and> (\<exists>v. look w' (gateway_place g) = Some (OGateway (settled_gateway (ev_now V) kp g v)))
    \<and> changes (mode_a_places g \<union> {egress_place g, gateway_place g}) (look w) (look w')"
proof -
  obtain c d u1 rts u3 where cd: "build_torrc_config_map g policy auth (gr_testing_include R) = Inr c"
      "build_deployment g policy auth (gr_images R) = Inr d"
    and puts: "exec serve (eachA put_child (mode_a_writes g c d)) w = (Inr (), u1)"
    and rest: "lists_routes (look u1) g rts"
      "exec serve (ensure_network_policy (ev_order V) R g rts) u1 = (Inr (), u3)"
      "exec serve (update_status (ev_now V) g kp) u3 = (Inr (), w')"
    by (rule provision_steps [OF assms(1)])
  have w1: "list_all (\<lambda>x. settled fill x (look u1)) (mode_a_writes g c d)" "changes (mode_a_places g) (look w) (look u1)"
    using exec_puts [OF puts _ mode_a_places(2) [OF cd]]
    unfolding mode_a_places(1) [OF cd] by (simp_all add: mode_a_writes_def)
  note np = exec_network_policy [OF rest(2,1) assms(3)]
  have keep: "gateway_place g \<notin> mode_a_places g \<union> {egress_place g}" "egress_place g \<notin> mode_a_places g"
    by (auto simp: gateway_place_def mode_a_places_def egress_place_def)
  have "look u3 (gateway_place g) = Some (OGateway g)"
    using changes_look [OF changes_trans [OF w1(2) np(2)] keep(1)] assms(2) by simp
  then obtain v where v: "look w' = (look u3)(gateway_place g \<mapsto> OGateway (settled_gateway (ev_now V) kp g v))"
    using exec_update_status [OF rest(3)] by blast
  have st: "changes {gateway_place g} (look u3) (look w')" unfolding v by (rule changes_upd)
  have "provisioned fill R g policy auth (look u1)"
    using w1(1) cd by (auto simp: provisioned_def)
  then have "provisioned fill R g policy auth (look w')"
    using provisioned_changes [OF changes_trans [OF np(2) st]] keep by auto
  moreover have "egress_settled R g (look w')"
    using np(1) egress_settled_changes [OF st] keep by (auto simp: gateway_place_def egress_place_def)
  moreover have "changes (mode_a_places g \<union> {egress_place g, gateway_place g}) (look w) (look w')"
    by (rule changes_mono [OF changes_trans [OF w1(2) changes_trans [OF np(2) st]]]) auto
  ultimately show ?thesis using v by auto
qed

end

end
