(* ===== verification/Convergence.thy ===== *)
theory Convergence
  imports Provisioning
begin

text \<open>
  Where the reconciliation of a Gateway leads. Against a server that keeps its promises (\<open>Cluster\<close>), a
  reconcile that returns without an error leaves the cluster as \<open>mode_a_done\<close> describes it, in terms of
  the objects and not of the calls; and a reconcile of such a cluster changes nothing but, at most, the
  egress policy, whose rules follow the order in which the cache lists the routes.
\<close>

subsection \<open>The key\<close>

definition key_place :: "gateway \<Rightarrow> kind \<times> nsname" where
  "key_place g = (KSecret, gw_ns g, key_secret_name (gw_name g))"

definition holds_key :: "objects \<Rightarrow> gateway \<Rightarrow> key_pair \<Rightarrow> bool" where
  "holds_key L g kp \<longleftrightarrow> (case L (key_place g) of
     Some (OSecret s) \<Rightarrow> \<not> matching_labels (backend_selector g) (om_labels (sec_meta s)) \<and>
       parse_files (data_entry (sec_data s) file_secret_key_name) (data_entry (sec_data s) file_public_key_name) = Inr kp
   | _ \<Rightarrow> False)"

text \<open>No key, and nothing that asks for a vanity search.\<close>

definition keyless :: "objects \<Rightarrow> gateway \<Rightarrow> bool" where
  "keyless L g \<longleftrightarrow> L (key_place g) = None \<and> \<not> parse_bool (gw_annotation g await_vanity_annotation) \<and>
     (\<forall>t. OTsp t \<in> listed L KTsp (Some (gw_ns g)) [] \<longrightarrow> tsp_vanity_prefix (tsp_spec t) = [])"

lemma child_labels_not_backend: "\<not> matching_labels (backend_selector g) (child_labels n)"
  by (simp add: matching_labels_def backend_selector_def child_labels_def gateway_label_key_def
      managed_by_label_key_def)

lemma selected_prefix:
  assumes "\<forall>t \<in> set ts. tsp_vanity_prefix (tsp_spec t) = []"
  shows "ep_vanity_prefix (from_tor_service_policy (select_tsp g ts)) = []"
proof (cases "select_tsp g ts")
  case None
  then show ?thesis by (simp add: from_tor_service_policy_def default_policy_def)
next
  case (Some t)
  then have "t \<in> set ts"
    using tsp_pick.pick_first_maximal tsp_pick.first_maximal_in
    unfolding select_tsp_def by fastforce
  with assms Some show ?thesis
    by (simp add: from_tor_service_policy_def Let_def split: option.splits)
qed

lemma un_iff:
  "un_tsp ob = Some t \<longleftrightarrow> ob = OTsp t" "un_tcap ob = Some c \<longleftrightarrow> ob = OTcap c" "un_obp ob = Some p \<longleftrightarrow> ob = OObp p"
  "un_secret ob = Some s \<longleftrightarrow> ob = OSecret s" "un_role ob = Some r \<longleftrightarrow> ob = ORole r"
  "un_role_binding ob = Some b \<longleftrightarrow> ob = ORoleBinding b" "un_gateway ob = Some g \<longleftrightarrow> ob = OGateway g"
  "un_gateway_class ob = Some gc \<longleftrightarrow> ob = OGatewayClass gc"
  by (cases ob; auto simp: un_defs)+

context api_server
begin

lemma exec_held_key:
  assumes "exec serve (ensure_key_secret V R g policy) w = (Inr (g', outcome), w')" "holds_key (look w) g kp"
  shows "g' = g" "outcome = KeyReady kp" "look w' = look w"
proof -
  obtain s where s: "look w (KSecret, gw_ns g, key_secret_name (gw_name g)) = Some (OSecret s)"
    "parse_files (data_entry (sec_data s) file_secret_key_name) (data_entry (sec_data s) file_public_key_name) = Inr kp"
    using assms(2) by (auto simp: holds_key_def key_place_def split: option.splits obj.splits)
  then show "g' = g" "outcome = KeyReady kp" "look w' = look w"
    using assms(1)
    by (auto simp: ensure_key_secret_def exec_bindP exec_get un_secret_def exec_ok split: if_splits dest: exec_silent(2))
qed

lemma exec_policy_from:
  assumes "exec serve (effective_policy_from b g) w = (Inr policy, w')"
    and "\<forall>t. OTsp t \<in> listed (look w) KTsp (Some (gw_ns g)) [] \<longrightarrow> tsp_vanity_prefix (tsp_spec t) = []"
  shows "ep_vanity_prefix policy = []" "w' = w"
proof -
  let ?c = "(if b then ApiServerList else ListObjs) KTsp (Some (gw_ns g)) []"
  obtain obs ts where obs: "fst (serve w ?c) = Objects obs" "set obs = listed (look w) KTsp (Some (gw_ns g)) []"
    "those (map un_tsp obs) = Some ts" "policy = from_tor_service_policy (select_tsp g ts)"
    using assms(1) list_law [of w KTsp "Some (gw_ns g)" "[]"] direct_list_law [of w KTsp "Some (gw_ns g)" "[]"]
    by (cases b) (auto simp: effective_policy_from_def decode_list_def result_iffs split: prod.splits option.splits)
  have "\<forall>t \<in> set ts. tsp_vanity_prefix (tsp_spec t) = []"
    using those_in [OF obs(3)] obs(2) assms(2) by (auto simp: un_iff)
  then show "ep_vanity_prefix policy = []" using selected_prefix obs(4) by simp
  show "w' = w"
    using assms(1) read_law [of ?c w] by (cases b) (auto simp: effective_policy_from_def split: prod.splits)
qed

lemma exec_fresh_key:
  assumes "exec serve (ensure_key_secret V R g policy) w = (Inr (g', outcome), w')" "keyless (look w) g"
    and "ep_vanity_prefix policy = []" "\<And>s. length (ev_bm V s) = 32"
  shows "g' = g \<and> (\<exists>kp. outcome = KeyReady kp \<and> holds_key (look w') g kp) \<and> changes {key_place g} (look w) (look w')"
proof -
  have none: "look w (KSecret, gw_ns g, key_secret_name (gw_name g)) = None"
    using assms(2) by (simp add: keyless_def key_place_def)
  obtain fresh u where u: "exec serve (effective_policy_from (gr_api_reader R) g) w = (Inr fresh, u)"
    "exec serve (if ep_vanity_prefix fresh \<noteq> [] then run_vanity_harvest R g (ep_vanity_prefix fresh)
       else if parse_bool (gw_annotation g await_vanity_annotation) then okA (g, AwaitingVanityPolicy)
       else fresh_key_secret V g) u = (Inr (g', outcome), w')"
    using assms(1,3) none by (auto simp: ensure_key_secret_def exec_bindP exec_get exec_ok)
  have "ep_vanity_prefix fresh = []" "u = w"
    using exec_policy_from [OF u(1)] assms(2) by (auto simp: keyless_def)
  then have "exec serve (fresh_key_secret V g) w = (Inr (g', outcome), w')"
    using u(2) assms(2) by (simp add: keyless_def)
  then obtain v b kp where kp: "generate_key_pair (ev_bm V) b = Inr kp" "g' = g" "outcome = KeyReady kp"
    "look v = look w" "exec serve (write_call (Create (OSecret (build_key_secret g kp)))) v = (Inr (), w')"
    using silent_law(2) [of w] by (auto simp: fresh_key_secret_def read_entropy_def exec_ok split: prod.splits)
  obtain ob where ob: "look w' = (look w)(key_place g \<mapsto> ob)" "strip ob = strip (OSecret (build_key_secret g kp))"
    using exec_create(2) [OF kp(5)] kp(4)
    by (auto simp: stored_def stamped_def key_place_def build_key_secret_def child_meta_def meta_key_def)
  obtain s where s: "ob = OSecret s" "sec_data s = key_secret_data kp" "om_labels (sec_meta s) = child_labels (gw_name g)"
    using strip_eqD [OF ob(2)] by (auto simp: build_key_secret_def child_meta_def strip_meta_def dest: arg_cong [of _ _ om_labels])
  have "parse_files (secret_key_file kp) (public_key_file kp) = Inr kp"
    using generated_well_formed [OF kp(1) assms(4)] by (simp add: parse_files_Inr)
  then have "holds_key (look w') g kp"
    by (simp add: holds_key_def ob(1) s child_labels_not_backend)
  with kp ob show ?thesis by (simp add: changes_upd)
qed

end

subsection \<open>Removing what Mode B left\<close>

definition mode_b_kinds :: "kind set" where
  "mode_b_kinds = {KDeployment, KStatefulSet, KService, KConfigMap, KServiceAccount, KRole, KRoleBinding}"

definition mode_b_reach :: "objects \<Rightarrow> gateway \<Rightarrow> (kind \<times> nsname) set" where
  "mode_b_reach L g = mode_b_kinds \<times> UNIV \<union> place ` listed L KSecret (Some (gw_ns g)) (backend_selector g) \<union> {gateway_place g}"

definition unannotated :: "gateway \<Rightarrow> bool" where
  "unannotated g \<longleftrightarrow> map_of (om_annotations (gw_meta g)) ann_last_replicas = None \<and>
     map_of (om_annotations (gw_meta g)) ann_pow_emitted = None"

definition mode_b_gone :: "objects \<Rightarrow> gateway \<Rightarrow> bool" where
  "mode_b_gone L g \<longleftrightarrow>
     list_all (\<lambda>(k, n). L (k, gw_ns g, n) = None) (mode_b_children g) \<and>
     listed L KRole None (owner_uid_labels g) = {} \<and> listed L KRoleBinding None (owner_uid_labels g) = {} \<and>
     listed L KSecret (Some (gw_ns g)) (backend_selector g) = {}"

text \<open>Two views of a Gateway that differ in annotations, finalizers and what the server stamps.\<close>

definition same_core :: "gateway \<Rightarrow> gateway \<Rightarrow> bool" where
  "same_core g h \<longleftrightarrow> meta_key (gw_meta h) = meta_key (gw_meta g) \<and> gw_uid h = gw_uid g \<and> gw_class h = gw_class g \<and>
     om_deleting (gw_meta h) = om_deleting (gw_meta g) \<and> gw_listeners h = gw_listeners g \<and>
     gw_annotation h await_vanity_annotation = gw_annotation g await_vanity_annotation"

lemma annotated: "(map_of (om_annotations (gw_meta g)) ann_last_replicas \<noteq> None \<or>
    map_of (om_annotations (gw_meta g)) ann_pow_emitted \<noteq> None) = (\<not> unannotated g)"
  by (simp add: unannotated_def)

lemma listed_changes: "changes K L L' \<Longrightarrow> (\<And>n. (k, n) \<notin> K) \<Longrightarrow> listed L' k ns ls = listed L k ns ls"
  unfolding listed_def changes_def by simp

lemma mode_b_gone_changes:
  assumes "changes K L L'" "\<And>k n. k \<in> insert KSecret mode_b_kinds \<Longrightarrow> (k, n) \<notin> K"
  shows "mode_b_gone L' g = mode_b_gone L g"
proof -
  have "listed L' k ns ls = listed L k ns ls" if "k \<in> insert KSecret mode_b_kinds" for k ns ls
    by (rule listed_changes [OF assms(1)]) (use assms(2) that in auto)
  moreover have "L' (k, n) = L (k, n)" if "k \<in> insert KSecret mode_b_kinds" for k n
    using changes_look [OF assms(1) assms(2) [OF that]] .
  ultimately show ?thesis by (simp add: mode_b_gone_def mode_b_kinds_def mode_b_children_def)
qed

lemma ann_distinct: "ann_last_replicas \<noteq> ann_pow_emitted" "await_vanity_annotation \<noteq> ann_pow_emitted"
  "await_vanity_annotation \<noteq> ann_last_replicas"
  by (simp_all add: ann_last_replicas_def ann_pow_emitted_def await_vanity_annotation_def)

lemma listed_delete: "listed (\<lambda>x. if x \<in> K then None else L x) k ns ls \<subseteq> listed L k ns ls"
  by (auto simp: listed_def split: if_splits)

lemma changes_delete: "changes K L (\<lambda>x. if x \<in> K then None else L x)"
  by (simp add: changes_def)

context api_server
begin

lemma listed_place: "ob \<in> listed (look w) k ns ls \<Longrightarrow> look w (place ob) = Some ob \<and> fst (place ob) = k"
  using placed_law by (fastforce simp: listed_def place_def)

text \<open>Deleting all that a listing returned leaves nothing to be listed.\<close>

lemma exec_sweep:
  assumes "exec serve (list_objs k un ns ls) w = (Inr xs, u)" "\<And>ob x. un ob = Some x \<longleftrightarrow> ob = mk x"
    and "exec serve (eachA body xs) u = (Inr (), w')" "k \<noteq> KGateway"
    and "\<And>x. body x = apiA (delete_if_present k (obj_key (mk x)))"
  shows "look w' = (\<lambda>x. if x \<in> place ` listed (look w) k ns ls then None else look w x)"
    "listed (look w') k ns ls = {}"
proof -
  note ls = exec_list_ok [OF assms(1,2)]
  have kinds: "obj_kind (mk x) = k" if "x \<in> set xs" for x
    using listed_place [of "mk x" w k ns ls] ls(2) that by (auto simp: place_def)
  have "look w' = (\<lambda>x. if x \<in> (\<lambda>x. place (mk x)) ` set xs then None else look w x)"
    unfolding ls(1) [symmetric]
    by (rule exec_delete_all [OF assms(3)]) (use assms(4,5) kinds in \<open>auto simp: place_def\<close>)
  moreover have "(\<lambda>x. place (mk x)) ` set xs = place ` listed (look w) k ns ls"
    using ls(2) by (metis image_image)
  ultimately show look: "look w' = (\<lambda>x. if x \<in> place ` listed (look w) k ns ls then None else look w x)"
    by simp
  show "listed (look w') k ns ls = {}"
  proof (rule ccontr)
    assume "listed (look w') k ns ls \<noteq> {}"
    then obtain ob where "ob \<in> listed (look w') k ns ls" by auto
    moreover from this have "look w' (place ob) = Some ob" using listed_place by blast
    moreover have "ob \<in> listed (look w) k ns ls"
      using calculation(1) listed_delete unfolding look by blast
    ultimately show False unfolding look by simp
  qed
qed

lemma listed_places: "place ` listed (look w) k ns ls \<subseteq> {k} \<times> UNIV"
proof (rule image_subsetI)
  show "place ob \<in> {k} \<times> UNIV" if "ob \<in> listed (look w) k ns ls" for ob
    using listed_place [OF that] by (simp add: mem_Times_iff)
qed

lemma exec_labelled_roles:
  assumes "exec serve (delete_labelled_roles g None) w = (Inr (), w')"
  shows "listed (look w') KRole None (owner_uid_labels g) = {} \<and> listed (look w') KRoleBinding None (owner_uid_labels g) = {}
    \<and> changes ({KRole, KRoleBinding} \<times> UNIV) (look w) (look w')
    \<and> (\<forall>x. look w' x = look w x \<or> look w' x = None)
    \<and> (listed (look w) KRole None (owner_uid_labels g) = {} \<longrightarrow>
       listed (look w) KRoleBinding None (owner_uid_labels g) = {} \<longrightarrow> look w' = look w)"
proof -
  obtain rs u1 u2 bs u3 where u: "exec serve (list_objs KRole un_role None (owner_uid_labels g)) w = (Inr rs, u1)"
    "exec serve (eachA (\<lambda>m. apiA (delete_if_present KRole (meta_key m))) (map role_meta rs)) u1 = (Inr (), u2)"
    "exec serve (list_objs KRoleBinding un_role_binding None (owner_uid_labels g)) u2 = (Inr bs, u3)"
    "exec serve (eachA (\<lambda>m. apiA (delete_if_present KRoleBinding (meta_key m))) (map rb_meta bs)) u3 = (Inr (), w')"
    using assms by (auto simp: delete_labelled_roles_def delete_outside_def exec_ok)
  have each: "eachA f (map h xs) = eachA (\<lambda>x. f (h x)) xs" for f :: "object_meta \<Rightarrow> (gateway_error, unit) act" and h xs
    by (induction xs) simp_all
  have r: "look u2 = (\<lambda>x. if x \<in> place ` listed (look w) KRole None (owner_uid_labels g) then None else look w x)"
      "listed (look u2) KRole None (owner_uid_labels g) = {}"
    by (rule exec_sweep [OF u(1) un_iff(5) u(2) [unfolded each]]; simp)+
  have b: "look w' = (\<lambda>x. if x \<in> place ` listed (look u2) KRoleBinding None (owner_uid_labels g) then None else look u2 x)"
      "listed (look w') KRoleBinding None (owner_uid_labels g) = {}"
    by (rule exec_sweep [OF u(3) un_iff(6) u(4) [unfolded each]]; simp)+
  have "listed (look w') KRole None ls \<subseteq> listed (look u2) KRole None ls" for ls
    using b(1) listed_delete by simp
  with r(2) have "listed (look w') KRole None (owner_uid_labels g) = {}" by auto
  moreover have "changes ({KRole} \<times> UNIV) (look w) (look u2)"
    unfolding r(1) by (rule changes_mono [OF changes_delete listed_places])
  moreover have "changes ({KRoleBinding} \<times> UNIV) (look u2) (look w')"
    unfolding b(1) by (rule changes_mono [OF changes_delete listed_places])
  ultimately have roles: "listed (look w') KRole None (owner_uid_labels g) = {}" and "changes ({KRole, KRoleBinding} \<times> UNIV) (look w) (look w')"
    using changes_mono [OF changes_trans, of _ "look w" "look u2" _ "look w'" "{KRole, KRoleBinding} \<times> UNIV"] by blast+
  moreover have "look w' x = look w x \<or> look w' x = None" for x
    unfolding b(1) r(1) by simp
  moreover have "look w' = look w" if e: "listed (look w) KRole None (owner_uid_labels g) = {}"
      "listed (look w) KRoleBinding None (owner_uid_labels g) = {}"
  proof -
    have "look u2 = look w" unfolding r(1) e by simp
    then show ?thesis unfolding b(1) by (simp add: e)
  qed
  ultimately show ?thesis using b(2) by blast
qed

lemma cleanup_steps:
  assumes "exec serve (cleanup_mode_b_resources g) w = (Inr g', w')"
  obtains u1 u2 u4 where
    "look u1 = (\<lambda>x. if x \<in> (\<lambda>(k, n). (k, gw_ns g, n)) ` set (mode_b_children g) then None else look w x)"
    "exec serve (delete_labelled_roles g None) u1 = (Inr (), u2)"
    "look u4 = (\<lambda>x. if x \<in> place ` listed (look u2) KSecret (Some (gw_ns g)) (backend_selector g) then None else look u2 x)"
    "listed (look u4) KSecret (Some (gw_ns g)) (backend_selector g) = {}"
    "exec serve (if \<not> unannotated g
       then apiA (write_gateway (Update (OGateway (drop_annotation ann_pow_emitted (drop_annotation ann_last_replicas g)))))
       else okA g) u4 = (Inr g', w')"
proof -
  obtain u1 u2 ss u3 u4 where
    u1: "exec serve (delete_children g (mode_b_children g)) w = (Inr (), u1)"
    and u2: "exec serve (delete_labelled_roles g None) u1 = (Inr (), u2)"
    and u3: "exec serve (list_objs KSecret un_secret (Some (gw_ns g)) (backend_selector g)) u2 = (Inr ss, u3)"
    and u4: "exec serve (eachA (\<lambda>s. apiA (delete_if_present KSecret (meta_key (sec_meta s)))) ss) u3 = (Inr (), u4)"
    and u5: "exec serve (if \<not> unannotated g
       then apiA (write_gateway (Update (OGateway (drop_annotation ann_pow_emitted (drop_annotation ann_last_replicas g)))))
       else okA g) u4 = (Inr g', w')"
    using assms by (auto simp: cleanup_mode_b_resources_def [unfolded annotated] exec_ok split del: if_split)
  have l1: "look u1 = (\<lambda>x. if x \<in> (\<lambda>(k, n). (k, gw_ns g, n)) ` set (mode_b_children g) then None else look w x)"
    by (rule exec_delete_all [OF u1 [unfolded delete_children_def]]) (auto simp: mode_b_children_def)
  have secrets: "look u4 = (\<lambda>x. if x \<in> place ` listed (look u2) KSecret (Some (gw_ns g)) (backend_selector g) then None
      else look u2 x)" "listed (look u4) KSecret (Some (gw_ns g)) (backend_selector g) = {}"
    by (rule exec_sweep [OF u3 un_iff(4) u4]; simp)+
  show thesis by (rule that [OF l1 u2 secrets u5])
qed

lemma exec_cleanup_mode_b:
  assumes "exec serve (cleanup_mode_b_resources g) w = (Inr g', w')" "look w (gateway_place g) = Some (OGateway g)"
    and "\<not> om_deleting (gw_meta g)"
  shows "mode_b_gone (look w') g \<and> changes (mode_b_reach (look w) g) (look w) (look w') \<and> same_core g g'
    \<and> unannotated g' \<and> om_finalizers (gw_meta g') = om_finalizers (gw_meta g)
    \<and> look w' (gateway_place g) = Some (OGateway g')"
proof -
  obtain u1 u2 u4 where l1: "look u1 = (\<lambda>x. if x \<in> (\<lambda>(k, n). (k, gw_ns g, n)) ` set (mode_b_children g) then None else look w x)"
    and u2: "exec serve (delete_labelled_roles g None) u1 = (Inr (), u2)"
    and secrets: "look u4 = (\<lambda>x. if x \<in> place ` listed (look u2) KSecret (Some (gw_ns g)) (backend_selector g) then None
      else look u2 x)" "listed (look u4) KSecret (Some (gw_ns g)) (backend_selector g) = {}"
    and u5: "exec serve (if \<not> unannotated g
       then apiA (write_gateway (Update (OGateway (drop_annotation ann_pow_emitted (drop_annotation ann_last_replicas g)))))
       else okA g) u4 = (Inr g', w')"
    by (rule cleanup_steps [OF assms(1)])
  let ?pl = "\<lambda>(k, n). (k, gw_ns g, n)"
  have kinds: "?pl ` set (mode_b_children g) \<subseteq> mode_b_kinds \<times> UNIV"
    by (auto simp: mode_b_children_def mode_b_kinds_def)
  note roles = exec_labelled_roles [OF u2]
  have c1: "changes (mode_b_kinds \<times> UNIV) (look w) (look u1)"
    unfolding l1 by (rule changes_mono [OF changes_delete kinds])
  have c2: "changes (mode_b_kinds \<times> UNIV) (look w) (look u2)"
    using changes_mono [OF changes_trans [OF c1], of "{KRole, KRoleBinding} \<times> UNIV" "look u2" "mode_b_kinds \<times> UNIV"] roles
    by (auto simp: mode_b_kinds_def)
  have same: "listed (look u2) KSecret (Some (gw_ns g)) (backend_selector g) =
      listed (look w) KSecret (Some (gw_ns g)) (backend_selector g)"
    by (rule listed_changes [OF c2]) (simp add: mode_b_kinds_def)
  have c3: "changes (place ` listed (look w) KSecret (Some (gw_ns g)) (backend_selector g)) (look u2) (look u4)"
    unfolding secrets(1) same by (rule changes_delete)
  have secret_kind: "(k, n) \<notin> place ` listed (look w) KSecret (Some (gw_ns g)) (backend_selector g)" if "k \<noteq> KSecret" for k n
    using listed_places that by blast
  have c4: "changes (mode_b_reach (look w) g - {gateway_place g}) (look w) (look u4)"
    by (rule changes_mono [OF changes_trans [OF c2 c3]])
      (auto simp: mode_b_reach_def gateway_place_def mode_b_kinds_def secret_kind)
  have gone: "mode_b_gone (look u4) g"
  proof -
    have "look u2 x = None \<Longrightarrow> look u4 x = None" for x unfolding secrets(1) by simp
    moreover have "look u2 x = None" if "x \<in> ?pl ` set (mode_b_children g)" for x
    proof -
      have "look u1 x = None" unfolding l1 using that by simp
      then show ?thesis using roles by metis
    qed
    ultimately have "list_all (\<lambda>(k, n). look u4 (k, gw_ns g, n) = None) (mode_b_children g)"
      unfolding list_all_iff by blast
    moreover have "listed (look u4) k None ls = listed (look u2) k None ls" if "k \<noteq> KSecret" for k ls
      by (rule listed_changes [OF c3]) (use secret_kind that in auto)
    ultimately show ?thesis using roles secrets(2) by (simp add: mode_b_gone_def)
  qed
  have here: "look u4 (gateway_place g) = Some (OGateway g)"
    using changes_look [OF c4, of "gateway_place g"] assms(2) by simp
  show ?thesis
  proof (cases "unannotated g")
    case True
    then have "g' = g" "w' = u4" using u5 by auto
    with True gone here changes_mono [OF c4] show ?thesis by (auto simp: same_core_def)
  next
    case False
    let ?h = "drop_annotation ann_pow_emitted (drop_annotation ann_last_replicas g)"
    have "exec serve (write_gateway (Update (OGateway ?h))) u4 = (Inr g', w')"
      using u5 False by (simp add: exec_ok)
    from exec_update [OF this] assms(3) obtain g0 v n where
      g': "g' = with_status g0 (versioned v n ?h)" "look w' = (look u4)(gateway_place g \<mapsto> OGateway g')"
      by (auto simp: drop_annotation_def gateway_place_def meta_key_def)
    have c5: "changes {gateway_place g} (look u4) (look w')" unfolding g'(2) by (rule changes_upd)
    have "mode_b_gone (look w') g"
      using gone by (subst mode_b_gone_changes [OF c5]) (auto simp: gateway_place_def mode_b_kinds_def)
    moreover have "changes (mode_b_reach (look w) g) (look w) (look w')"
      by (rule changes_mono [OF changes_trans [OF c4 c5]]) (auto simp: mode_b_reach_def)
    ultimately show ?thesis
      by (simp add: g' same_core_def unannotated_def drop_annotation_def gw_annotation_def map_index_def
          delete_conv' meta_key_def ann_distinct)
  qed
qed

end

context api_server
begin

lemma cleanup_only_deletes:
  assumes "exec serve (cleanup_mode_b_resources g) w = (Inr g', w')" "\<not> om_deleting (gw_meta g)" "x \<noteq> gateway_place g"
  shows "look w' x = look w x \<or> look w' x = None"
proof -
  obtain u1 u2 u4 where l1: "look u1 = (\<lambda>x. if x \<in> (\<lambda>(k, n). (k, gw_ns g, n)) ` set (mode_b_children g) then None else look w x)"
    and u2: "exec serve (delete_labelled_roles g None) u1 = (Inr (), u2)"
    and l4: "look u4 = (\<lambda>x. if x \<in> place ` listed (look u2) KSecret (Some (gw_ns g)) (backend_selector g) then None
      else look u2 x)"
    and u5: "exec serve (if \<not> unannotated g
       then apiA (write_gateway (Update (OGateway (drop_annotation ann_pow_emitted (drop_annotation ann_last_replicas g)))))
       else okA g) u4 = (Inr g', w')"
    by (rule cleanup_steps [OF assms(1)])
  let ?h = "drop_annotation ann_pow_emitted (drop_annotation ann_last_replicas g)"
  have h: "gateway_place ?h = gateway_place g" "\<not> om_deleting (gw_meta ?h)"
    using assms(2) by (simp_all add: drop_annotation_def gateway_place_def meta_key_def)
  have "look w' x = look u4 x"
  proof (cases "unannotated g")
    case False
    then have "exec serve (write_gateway (Update (OGateway ?h))) u4 = (Inr g', w')" using u5 by (simp add: exec_ok)
    from exec_update [OF this h(2)] show ?thesis using h(1) assms(3) by auto
  qed (use u5 in simp)
  moreover have "look u1 x = look w x \<or> look u1 x = None" unfolding l1 by simp
  moreover have "look u2 x = look u1 x \<or> look u2 x = None" using exec_labelled_roles [OF u2] by (elim conjE allE)
  moreover have "look u4 x = look u2 x \<or> look u4 x = None" unfolding l4 by simp
  ultimately show ?thesis by metis
qed

end

subsection \<open>A Gateway in Mode A\<close>

text \<open>Only the namespace, the name and the uid of a Gateway go into its children.\<close>

lemma same_gateway_children:
  assumes "same_gateway g h"
  shows "provisioned fill R h policy auth L = provisioned fill R g policy auth L" "egress_settled R h L = egress_settled R g L"
    "mode_b_gone L h = mode_b_gone L g" "holds_key L h kp = holds_key L g kp" "mode_a_places h = mode_a_places g"
    "select_tsp h ts = select_tsp g ts" "select_tcap h cs = select_tcap g cs" "gateway_place h = gateway_place g"
proof -
  have id: "gw_ns h = gw_ns g" "gw_name h = gw_name g" "gw_uid h = gw_uid g"
    using assms by (simp_all add: same_gateway_def meta_key_def)
  have meta: "child_meta h = child_meta g"
    by (intro ext) (simp add: child_meta_def controller_reference_def id)
  have "build_torrc_config_map h = build_torrc_config_map g" "build_deployment h = build_deployment g"
    by (intro ext; simp add: build_torrc_config_map_def build_deployment_def meta id tor_pod_volumes_def
        router_sidecar_def)+
  moreover have "mode_a_writes h = mode_a_writes g"
    by (intro ext) (simp add: mode_a_writes_def build_service_account_def build_role_def build_role_binding_def
        bind_role_def build_service_def meta id)
  ultimately show "provisioned fill R h policy auth L = provisioned fill R g policy auth L"
    by (simp add: provisioned_def)
  show "egress_settled R h L = egress_settled R g L"
    by (simp add: egress_settled_def egress_place_def lists_routes_def exact_egress_def controller_reference_def id)
  show "mode_b_gone L h = mode_b_gone L g"
    by (simp add: mode_b_gone_def mode_b_children_def frontend_name_def backend_stateful_set_name_def
        backend_headless_service_name_def onionbalance_config_map_name_def frontend_torrc_config_map_name_def
        backend_torrc_config_map_name_def owner_uid_labels_def backend_selector_def id)
  show "holds_key L h kp = holds_key L g kp"
    unfolding holds_key_def key_place_def backend_selector_def id ..
  show "mode_a_places h = mode_a_places g" by (simp add: mode_a_places_def id)
  show "select_tsp h ts = select_tsp g ts" "select_tcap h cs = select_tcap g cs" "gateway_place h = gateway_place g"
    by (simp_all add: select_tsp_def select_tcap_def gateway_place_def meta_key_def id)
qed

text \<open>The policies of the namespace, in some order.\<close>

definition lists_tsps :: "objects \<Rightarrow> gateway \<Rightarrow> tor_service_policy list \<Rightarrow> bool" where
  "lists_tsps L g ts \<longleftrightarrow> OTsp ` set ts = listed L KTsp (Some (gw_ns g)) [] \<and> distinct (map (\<lambda>p. om_name (tsp_meta p)) ts)"

definition lists_tcaps :: "objects \<Rightarrow> gateway \<Rightarrow> tor_client_auth_policy list \<Rightarrow> bool" where
  "lists_tcaps L g cs \<longleftrightarrow> OTcap ` set cs = listed L KTcap (Some (gw_ns g)) [] \<and> distinct (map (\<lambda>p. om_name (tcap_meta p)) cs)"

lemma lists_select:
  "lists_tsps L g ts \<Longrightarrow> lists_tsps L g ts' \<Longrightarrow> select_tsp g ts' = select_tsp g ts"
  "lists_tcaps L g cs \<Longrightarrow> lists_tcaps L g cs' \<Longrightarrow> select_tcap g cs' = select_tcap g cs"
proof -
  have wins: "wins name f xs = wins name f ys" if "set xs = set ys" for name :: "'p \<Rightarrow> string" and f xs ys
    by (intro ext) (simp add: wins_def that)
  have sel: "first_named name (filter f xs) = first_named name (filter f ys)"
    if "set xs = set ys" "distinct (map name xs)" "distinct (map name ys)" for name :: "'p \<Rightarrow> string" and f xs ys
    using first_named_wins [OF that(2), of f] first_named_wins [OF that(3), of f] wins [OF that(1)]
    by (metis option.exhaust)
  have inj: "inj OTsp" "inj OTcap" by (simp_all add: inj_def)
  show "lists_tsps L g ts \<Longrightarrow> lists_tsps L g ts' \<Longrightarrow> select_tsp g ts' = select_tsp g ts"
    unfolding lists_tsps_def select_tsp_def by (intro sel) (metis inj inj_image_eq_iff | simp)+
  show "lists_tcaps L g cs \<Longrightarrow> lists_tcaps L g cs' \<Longrightarrow> select_tcap g cs' = select_tcap g cs"
    unfolding lists_tcaps_def select_tcap_def by (intro sel) (metis inj inj_image_eq_iff | simp)+
qed

text \<open>
  The status of a Gateway that publishes an onion address: this address and no other; accepted and
  programmed, for the present generation; and for every listener an entry under its name that says the same.
  (Two listeners have different names; were there two of one name, they would show one count.)
\<close>

definition says :: "gateway \<Rightarrow> string \<Rightarrow> string \<Rightarrow> string \<Rightarrow> string \<Rightarrow> bool" where
  "says g ty status reason msg \<longleftrightarrow> (\<exists>c. find (\<lambda>c. cond_type c = ty) (gw_conditions g) = Some c \<and> cond_status c = status \<and>
     cond_reason c = reason \<and> cond_message c = msg \<and> cond_generation c = om_generation (gw_meta g))"

definition published :: "gateway \<Rightarrow> string \<Rightarrow> bool" where
  "published g onion \<longleftrightarrow>
     gw_addresses g = [\<lparr>sa_type = Some ''Hostname'', sa_value = onion\<rparr>] \<and>
     says g ''Accepted'' ''True'' ''Accepted'' ''Gateway accepted by tor-gateway'' \<and>
     says g ''Programmed'' ''True'' ''Programmed'' ''Tor pod provisioned; .onion published'' \<and>
     map lst_name (gw_listener_status g) = map ls_name (gw_listeners g) \<and>
     (\<forall>s \<in> set (gw_listener_status g). map (\<lambda>c. (cond_type c, cond_status c, cond_reason c)) (lst_conditions s) =
        [(''Accepted'', ''True'', ''Accepted''), (''Programmed'', ''True'', ''Programmed'')]) \<and>
     (\<forall>s \<in> set (gw_listener_status g). \<forall>s' \<in> set (gw_listener_status g).
        lst_name s = lst_name s' \<longrightarrow> lst_attached s = lst_attached s')"

lemma says_unchanged:
  "snd (set_condition (gw_conditions g) (gateway_condition now g ty status reason msg)) = (\<not> says g ty status reason msg)"
  by (auto simp: set_condition_unchanged says_def find_condition_def [symmetric] same_condition_def gateway_condition_def
      split: option.splits)

lemma two_unchanged: "snd (set_conditions cs [a, b]) = (snd (set_condition cs a) \<or> snd (set_condition cs b))"
  if "cond_type a \<noteq> cond_type b"
proof -
  have "snd (set_conditions cs [a, b]) = (snd (set_condition cs a) \<or> snd (set_condition (fst (set_condition cs a)) b))"
    by (simp split: prod.splits)
  then show ?thesis
    using set_condition_find_other [of "cond_type b" a cs] that by (simp only: set_condition_unchanged not_sym)
qed

lemma map_view_named:
  assumes "\<And>s. fst (view s) = name s"
  shows "map view ss = map (\<lambda>l. (lname l, f (lname l))) ls \<longleftrightarrow>
    map name ss = map lname ls \<and> (\<forall>s \<in> set ss. view s = (name s, f (name s)))"
proof -
  have "map view ss = map (\<lambda>l. (lname l, f (lname l))) ls \<longleftrightarrow>
      list_all2 (\<lambda>s l. name s = lname l \<and> view s = (name s, f (name s))) ss ls"
    unfolding list_eq_iff_nth_eq list_all2_conv_all_nth by (auto simp: prod_eq_iff assms)
  also have "\<dots> \<longleftrightarrow> map name ss = map lname ls \<and> (\<forall>s \<in> set ss. view s = (name s, f (name s)))"
    unfolding list_eq_iff_nth_eq list_all2_conv_all_nth all_set_conv_all_nth by auto
  finally show ?thesis .
qed

text \<open>A listener status shows what is wanted of it when names, conditions and counts agree.\<close>

lemma listeners_published:
  "equal_listener_status (gw_listener_status g) (map (wanted_listener_status now g) (gw_listeners g)) \<longleftrightarrow>
     map lst_name (gw_listener_status g) = map ls_name (gw_listeners g) \<and>
     (\<forall>s \<in> set (gw_listener_status g). map (\<lambda>c. (cond_type c, cond_status c, cond_reason c)) (lst_conditions s) =
        [(''Accepted'', ''True'', ''Accepted''), (''Programmed'', ''True'', ''Programmed'')]) \<and>
     (\<forall>s \<in> set (gw_listener_status g). \<forall>s' \<in> set (gw_listener_status g).
        lst_name s = lst_name s' \<longrightarrow> lst_attached s = lst_attached s')" (is "_ = ?r")
proof -
  let ?ss = "gw_listener_status g"
  let ?conds = "[(''Accepted'', ''True'', ''Accepted''), (''Programmed'', ''True'', ''Programmed'')]"
  have key: "condition_key = (\<lambda>c. (cond_type c, cond_status c, cond_reason c))"
    by (intro ext) (simp add: condition_key_def)
  have "equal_listener_status ?ss (map (wanted_listener_status now g) (gw_listeners g)) \<longleftrightarrow>
      map listener_status_view ?ss = map (\<lambda>l. (ls_name l, attached_of ?ss (ls_name l), ?conds)) (gw_listeners g)"
    by (simp add: listeners.eq_iff wanted_view o_def)
  also have "\<dots> \<longleftrightarrow> map lst_name ?ss = map ls_name (gw_listeners g) \<and>
      (\<forall>s \<in> set ?ss. listener_status_view s = (lst_name s, attached_of ?ss (lst_name s), ?conds))"
    (is "?a \<longleftrightarrow> ?b")
    by (rule map_view_named) (simp add: listener_status_view_def)
  also have "\<dots> \<longleftrightarrow> ?r"
  proof -
    have "(\<forall>s \<in> set ?ss. lst_attached s = attached_of ?ss (lst_name s)) \<longleftrightarrow>
        (\<forall>s \<in> set ?ss. \<forall>s' \<in> set ?ss. lst_name s = lst_name s' \<longrightarrow> lst_attached s = lst_attached s')"
      using attached_of_const [of ?ss] by metis
    then show ?thesis by (auto simp: listener_status_view_def key)
  qed
  finally show ?thesis .
qed

lemma published_iff: "published g onion \<longleftrightarrow> \<not> snd (next_status now onion g)"
proof -
  have "snd (set_conditions (gw_conditions g) [accepted_gateway now g, gateway_condition now g ''Programmed''
      condition_true ''Programmed'' ''Tor pod provisioned; .onion published'']) \<longleftrightarrow>
      \<not> (says g ''Accepted'' ''True'' ''Accepted'' ''Gateway accepted by tor-gateway'' \<and>
         says g ''Programmed'' ''True'' ''Programmed'' ''Tor pod provisioned; .onion published'')"
    by (simp only: two_unchanged [OF next_status_types], simp only: accepted_gateway_def says_unchanged de_Morgan_conj)
  then show ?thesis
    unfolding next_status_parts(6) listeners_published published_def onion_status_address_def by blast
qed

text \<open>
  What a reconcile leads to: the Gateway is held and publishes the address of its key, which a Secret
  holds; the children of Mode A are as they are built from the policies in effect, completed by the
  server's defaults; the egress policy is exact; and nothing of Mode B is left.
\<close>

definition mode_a_done :: "(obj \<Rightarrow> obj) \<Rightarrow> gateway_reconciler \<Rightarrow> objects \<Rightarrow> gateway \<Rightarrow> key_pair \<Rightarrow> bool" where
  "mode_a_done fill R L g kp \<longleftrightarrow>
     L (gateway_place g) = Some (OGateway g) \<and> held g \<and> unannotated g \<and>
     published g (onion_string (key_onion_address kp)) \<and>
     holds_key L g kp \<and> mode_b_gone L g \<and> egress_settled R g L \<and>
     (\<exists>ts cs. lists_tsps L g ts \<and> lists_tcaps L g cs \<and>
        provisioned fill R g (from_tor_service_policy (select_tsp g ts)) (client_auth_from (select_tcap g cs)) L)"

text \<open>A Gateway that is there, is not being deleted and is of our class; and one for which Mode A is meant.\<close>

definition managed :: "objects \<Rightarrow> gateway \<Rightarrow> bool" where
  "managed L g \<longleftrightarrow>
     L (gateway_place g) = Some (OGateway g) \<and> \<not> om_deleting (gw_meta g) \<and> gw_class g \<noteq> [] \<and>
     (case L (KGatewayClass, [], gw_class g) of Some (OGatewayClass gc) \<Rightarrow> gc_controller gc = controller_name | _ \<Rightarrow> False)"

definition for_mode_a :: "objects \<Rightarrow> gateway \<Rightarrow> bool" where
  "for_mode_a L g \<longleftrightarrow> managed L g \<and>
     (\<forall>p. OObp p \<in> listed L KObp (Some (gw_ns g)) [] \<longrightarrow> \<not> policy_targets (obp_target_refs (obp_spec p)) (gw_name g))"

lemma for_mode_a_managed: "for_mode_a L g \<Longrightarrow> managed L g"
  by (simp add: for_mode_a_def)

context api_server
begin

lemma exec_class:
  assumes "managed (look w) g"
  shows "exec serve (gateway_class_managed_by_us (gw_class g)) w = (Inr True, w)"
  using assms
  by (auto simp: managed_def gateway_class_managed_by_us_def exec_bindP exec_get un_gateway_class_def
      split: option.splits obj.splits)

lemma exec_hold:
  assumes "exec serve (hold_gateway g) w = (Inr g', w')" "managed (look w) g"
  shows "held g' \<and> same_core g g' \<and> changes {gateway_place g} (look w) (look w') \<and>
    look w' (gateway_place g) = Some (OGateway g') \<and> gw_addresses g' = gw_addresses g \<and>
    gw_listener_status g' = gw_listener_status g"
proof (cases "held g")
  case True
  then show ?thesis using assms by (auto simp: hold_gateway_def same_core_def managed_def)
next
  case False
  let ?h = "set_finalizers (\<lambda>fs. fs @ [finalizer_name]) g"
  have place: "gateway_place ?h = gateway_place g" by (simp add: set_finalizers_def gateway_place_def meta_key_def)
  have "exec serve (write_gateway (Update (OGateway ?h))) w = (Inr g', w')"
    using assms(1) False by (simp add: hold_gateway_def)
  from exec_update [OF this] assms(2) obtain v n where
    g': "g' = with_status g (versioned v n ?h)" "look w' = (look w)(gateway_place g \<mapsto> OGateway g')"
    unfolding place by (auto simp: set_finalizers_def managed_def)
  have "held g' \<and> same_core g g'"
    by (simp add: g'(1) same_core_def set_finalizers_def gw_annotation_def meta_key_def)
  moreover have "gw_addresses g' = gw_addresses g" "gw_listener_status g' = gw_listener_status g"
    by (simp_all add: g'(1))
  ultimately show ?thesis unfolding g'(2) by (simp add: changes_upd)
qed

lemma exec_no_pool:
  assumes "exec serve (find_effective_onion_balance g) w = (Inr po, w')"
    and "\<forall>p. OObp p \<in> listed (look w) KObp (Some (gw_ns g)) [] \<longrightarrow> \<not> policy_targets (obp_target_refs (obp_spec p)) (gw_name g)"
  shows "po = None" "w' = w"
proof -
  obtain ps where ps: "exec serve (list_objs KObp un_obp (Some (gw_ns g)) []) w = (Inr ps, w')"
    "po = map_option (\<lambda>p. (p, accepted_for_gw p (gw_name g))) (select_obp g ps)"
    using assms(1) by (auto simp: find_effective_onion_balance_def exec_ok)
  note ls = exec_list_ok [OF ps(1) un_iff(3)]
  have "\<not> policy_targets (obp_target_refs (obp_spec p)) (gw_name g)" if "p \<in> set ps" for p
    using assms(2) ls(2) that by blast
  then have "select_obp g ps = None"
    by (simp add: select_obp_def obp_pick.pick_None_iff filter_empty_conv)
  with ps ls show "po = None" "w' = w" by simp_all
qed

lemma names_distinct:
  assumes "distinct (map (\<lambda>x. meta_key (m x)) xs)" "\<forall>x \<in> set xs. om_ns (m x) = ns"
  shows "distinct (map (\<lambda>x. om_name (m x)) xs)"
  using assms by (auto simp: distinct_map inj_on_def meta_key_def)

lemma listed_ns: "ob \<in> listed (look w) k (Some ns) ls \<Longrightarrow> fst (obj_key ob) = ns"
  using placed_law by (fastforce simp: listed_def)

lemma exec_policies:
  assumes "exec serve (find_effective_policy g) w = (Inr policy, u)"
    and "exec serve (find_effective_client_auth g) u = (Inr auth, w')"
  shows "w' = w" "\<exists>ts cs. lists_tsps (look w) g ts \<and> lists_tcaps (look w) g cs \<and>
    policy = from_tor_service_policy (select_tsp g ts) \<and> auth = client_auth_from (select_tcap g cs)"
proof -
  have "find_effective_policy g = bindA (list_objs KTsp un_tsp (Some (gw_ns g)) []) (\<lambda>ts.
      okA (from_tor_service_policy (select_tsp g ts)))"
    by (simp add: find_effective_policy_def effective_policy_from_def list_objs_def bindA_def bindE_def)
      (intro ext, simp split: sum.splits)
  then obtain ts where ts: "exec serve (list_objs KTsp un_tsp (Some (gw_ns g)) []) w = (Inr ts, u)"
    "policy = from_tor_service_policy (select_tsp g ts)"
    using assms(1) by (auto simp: exec_ok)
  obtain cs where cs: "exec serve (list_objs KTcap un_tcap (Some (gw_ns g)) []) u = (Inr cs, w')"
    "auth = client_auth_from (select_tcap g cs)"
    using assms(2) by (auto simp: find_effective_client_auth_def exec_ok)
  note t = exec_list_ok [OF ts(1) un_iff(1)] and c = exec_list_ok [OF cs(1) un_iff(2)]
  have "lists_tsps (look w) g ts"
    using t names_distinct [of tsp_meta ts "gw_ns g"] listed_ns [of _ w KTsp "gw_ns g" "[]"]
    by (fastforce simp: lists_tsps_def meta_key_def)
  moreover have "lists_tcaps (look w) g cs"
    using c names_distinct [of tcap_meta cs "gw_ns g"] listed_ns [of _ u KTcap "gw_ns g" "[]"] t(1)
    by (fastforce simp: lists_tcaps_def meta_key_def)
  ultimately show "w' = w" "\<exists>ts cs. lists_tsps (look w) g ts \<and> lists_tcaps (look w) g cs \<and>
      policy = from_tor_service_policy (select_tsp g ts) \<and> auth = client_auth_from (select_tcap g cs)"
    using t(1) c(1) ts(2) cs(2) by auto
qed

end

lemma holds_key_changes:
  "changes K L L' \<Longrightarrow> key_place g \<notin> K \<Longrightarrow> holds_key L' g kp = holds_key L g kp"
  unfolding holds_key_def using changes_look [of K L L' "key_place g"] by simp

lemma holds_key_unique: "holds_key L g a \<Longrightarrow> holds_key L g b \<Longrightarrow> a = b"
  by (auto simp: holds_key_def split: option.splits obj.splits)

lemma same_core_gateway: "same_core g h \<Longrightarrow> same_gateway g h"
  by (simp add: same_core_def same_gateway_def)

lemma same_core_trans: "same_core g h \<Longrightarrow> same_core h k \<Longrightarrow> same_core g k"
  by (simp add: same_core_def)

lemma owner_uid_not_child: "\<not> matching_labels (owner_uid_labels g) (child_labels n)"
  by (simp add: matching_labels_def owner_uid_labels_def child_labels_def gateway_label_key_def
      managed_by_label_key_def)

text \<open>Writing the children of Mode A brings nothing of Mode B back.\<close>

lemma mode_a_places_fresh: "(k, n) \<in> set (mode_b_children g) \<Longrightarrow> (k, gw_ns g, n) \<notin> mode_a_places g"
  by (auto simp: mode_b_children_def mode_a_places_def frontend_name_def backend_stateful_set_name_def
      backend_headless_service_name_def onionbalance_config_map_name_def frontend_torrc_config_map_name_def
      backend_torrc_config_map_name_def deployment_name_def service_name_def torrc_config_map_name_def
      router_rbac_name_def)

lemma provisioned_labels:
  assumes "provisioned fill R g policy auth L" "x \<in> mode_a_places g" "L x = Some ob" "obj_kind ob = fst x" "fst x \<in> {KRole, KRoleBinding}"
  shows "obj_labels ob = child_labels (gw_name g)"
proof -
  obtain c d where "list_all (\<lambda>x. settled fill x L) (mode_a_writes g c d)"
    using assms(1) by (auto simp: provisioned_def)
  then have s: "settled fill (WriteRole (build_role g None)) L" "settled fill (WriteRoleBinding (build_role_binding g)) L"
    by (simp_all add: mode_a_writes_def)
  have "x = (KRole, gw_ns g, router_rbac_name (gw_name g)) \<or> x = (KRoleBinding, gw_ns g, router_rbac_name (gw_name g))"
    using assms(2,5) by (auto simp: mode_a_places_def)
  then show ?thesis
    using s assms(3,4)
    by (auto simp: settled_def declared_def write_place_meta meta_key_def obj_labels_def
        build_role_def build_role_binding_def bind_role_def child_meta_def Let_def)
qed

context api_server
begin

lemma listed_still_none:
  assumes "listed (look w) k ns ls = {}" "changes K (look w) (look w')"
    and "\<And>x ob. x \<in> K \<Longrightarrow> fst x = k \<Longrightarrow> look w' x = Some ob \<Longrightarrow> \<not> matching_labels ls (obj_labels ob)"
  shows "listed (look w') k ns ls = {}"
proof -
  have "\<not> (look w' (k, n) = Some ob \<and> (\<forall>m. ns = Some m \<longrightarrow> fst n = m) \<and> matching_labels ls (obj_labels ob))" for n ob
  proof (cases "(k, n) \<in> K")
    case False
    then have "look w' (k, n) = look w (k, n)" using changes_look [OF assms(2)] by blast
    with assms(1) show ?thesis by (cases n) (auto simp: listed_def)
  qed (use assms(3) [of "(k, n)" ob] in auto)
  then show ?thesis unfolding listed_def by blast
qed

lemma mode_b_stays_gone:
  assumes "mode_b_gone (look w) g" "changes (mode_a_places g \<union> {egress_place g, gateway_place g}) (look w) (look w')"
    and "provisioned fill R g policy auth (look w')"
  shows "mode_b_gone (look w') g"
proof -
  let ?K = "mode_a_places g \<union> {egress_place g, gateway_place g}"
  have kinds: "x \<in> ?K \<Longrightarrow> fst x \<noteq> KSecret" for x
    by (auto simp: mode_a_places_def egress_place_def gateway_place_def)
  have "look w' (k, gw_ns g, n) = None" if "(k, n) \<in> set (mode_b_children g)" for k n
  proof -
    have "(k, gw_ns g, n) \<notin> ?K"
      using mode_a_places_fresh [OF that] that by (auto simp: mode_b_children_def egress_place_def gateway_place_def)
    from changes_look [OF assms(2) this] assms(1) that show ?thesis
      by (auto simp: mode_b_gone_def list_all_iff)
  qed
  moreover have "listed (look w') k None (owner_uid_labels g) = {}" if k: "k \<in> {KRole, KRoleBinding}" for k
  proof (rule listed_still_none [OF _ assms(2)])
    show "listed (look w) k None (owner_uid_labels g) = {}" using assms(1) k by (auto simp: mode_b_gone_def)
    fix x ob assume x: "x \<in> ?K" "fst x = k" "look w' x = Some ob"
    then have "x \<in> mode_a_places g" using k by (auto simp: egress_place_def gateway_place_def)
    moreover have "obj_kind ob = fst x" using placed_law [of w' "fst x" "snd x" ob] x(3) by simp
    ultimately have "obj_labels ob = child_labels (gw_name g)"
      using provisioned_labels [OF assms(3)] x k by blast
    then show "\<not> matching_labels (owner_uid_labels g) (obj_labels ob)" by (simp add: owner_uid_not_child)
  qed
  moreover have "listed (look w') KSecret (Some (gw_ns g)) (backend_selector g) = {}"
    by (rule listed_still_none [OF _ assms(2)]) (use assms(1) kinds in \<open>auto simp: mode_b_gone_def\<close>)
  ultimately show ?thesis by (auto simp: mode_b_gone_def list_all_iff)
qed

end

context api_server
begin

lemma key_kept:
  assumes "holds_key (look w) g kp \<or> look w (key_place g) = None"
  shows "key_place g \<notin> mode_b_reach (look w) g"
proof
  assume "key_place g \<in> mode_b_reach (look w) g"
  then obtain ob where ob: "ob \<in> listed (look w) KSecret (Some (gw_ns g)) (backend_selector g)" "key_place g = place ob"
    by (auto simp: mode_b_reach_def key_place_def mode_b_kinds_def gateway_place_def)
  then have "look w (key_place g) = Some ob" "matching_labels (backend_selector g) (obj_labels ob)"
    using listed_place [OF ob(1)] by (simp_all add: listed_def)
  then show False
    using assms by (auto simp: holds_key_def obj_labels_def split: obj.splits)
qed

lemma holds_key_gone:
  assumes "holds_key (look w') g kp" "changes {key_place g} (look w) (look w')" "mode_b_gone (look w) g"
  shows "mode_b_gone (look w') g"
proof -
  have "listed (look w') KSecret (Some (gw_ns g)) (backend_selector g) = {}"
    by (rule listed_still_none [OF _ assms(2)])
      (use assms(1,3) in \<open>auto simp: mode_b_gone_def holds_key_def obj_labels_def split: obj.splits\<close>)
  moreover have "listed (look w') k None ls = listed (look w) k None ls" if "k \<noteq> KSecret" for k ls
    by (rule listed_changes [OF assms(2)]) (use that in \<open>simp add: key_place_def\<close>)
  moreover have "look w' (k, n) = look w (k, n)" if "k \<noteq> KSecret" for k n
    using changes_look [OF assms(2), of "(k, n)"] that by (simp add: key_place_def)
  ultimately show ?thesis
    using assms(3) by (simp add: mode_b_gone_def mode_b_children_def)
qed

lemma exec_mode_a_key:
  assumes "exec serve (ensure_key_secret V R g policy) w = (Inr (g', outcome), w')"
    and "holds_key (look w) g kp0 \<or> keyless (look w) g" "lists_tsps (look w) g ts"
    and "policy = from_tor_service_policy (select_tsp g ts)" "\<And>s. length (ev_bm V s) = 32"
  shows "g' = g \<and> (\<exists>kp. outcome = KeyReady kp \<and> holds_key (look w') g kp) \<and> changes {key_place g} (look w) (look w') \<and>
    (holds_key (look w) g kp0 \<longrightarrow> outcome = KeyReady kp0 \<and> look w' = look w)"
proof (cases "holds_key (look w) g kp0")
  case True
  from exec_held_key [OF assms(1) True] True show ?thesis by simp
next
  case False
  then have "keyless (look w) g" using assms(2) by simp
  moreover from this have "ep_vanity_prefix policy = []"
    unfolding assms(4) using assms(3) by (intro selected_prefix) (auto simp: keyless_def lists_tsps_def)
  ultimately show ?thesis using exec_fresh_key [OF assms(1) _ _ assms(5)] False by auto
qed

lemma mode_a_steps:
  assumes run: "exec serve (reconcile_mode_a V R g) w = (Inr (), w')"
    and key: "holds_key (look w) g kp0 \<or> keyless (look w) g" and V: "\<And>s. length (ev_bm V s) = 32"
  obtains ts cs kp u3 where "lists_tsps (look w) g ts" "lists_tcaps (look w) g cs" "holds_key (look u3) g kp"
    "changes {key_place g} (look w) (look u3)" "holds_key (look w) g kp0 \<longrightarrow> kp = kp0 \<and> look u3 = look w"
    "exec serve (provision_mode_a V R g (from_tor_service_policy (select_tsp g ts)) (client_auth_from (select_tcap g cs)) kp)
       u3 = (Inr (), w')"
proof -
  obtain policy auth u1 u2 g' outcome u3 where
    pol: "exec serve (find_effective_policy g) w = (Inr policy, u1)"
    "exec serve (find_effective_client_auth g) u1 = (Inr auth, u2)"
    and k: "exec serve (ensure_key_secret V R g policy) u2 = (Inr (g', outcome), u3)"
    and rest: "exec serve (case outcome of
         HarvestPending \<Rightarrow> set_programming_condition (ev_now V) g' reason_harvest_in_progress
           ''vanity .onion harvest in progress''
       | HarvestFailed \<Rightarrow> set_programming_condition (ev_now V) g' reason_harvest_failed
           ''vanity harvest exceeded its deadline; choose a shorter vanityPrefix''
       | AwaitingVanityPolicy \<Rightarrow> set_programming_condition (ev_now V) g' reason_awaiting_vanity_policy
           ''awaiting a TorServicePolicy with a vanityPrefix (torgateway.io/await-vanity=true)''
       | KeyReady kp \<Rightarrow> provision_mode_a V R g' policy auth kp) u3 = (Inr (), w')"
    using run by (auto simp: reconcile_mode_a_def exec_ok)
  obtain ts cs where sel: "u2 = w" "lists_tsps (look w) g ts" "lists_tcaps (look w) g cs"
    "policy = from_tor_service_policy (select_tsp g ts)" "auth = client_auth_from (select_tcap g cs)"
    using exec_policies [OF pol] by blast
  obtain kp where kp: "g' = g" "outcome = KeyReady kp" "holds_key (look u3) g kp" "changes {key_place g} (look w) (look u3)"
    "holds_key (look w) g kp0 \<longrightarrow> kp = kp0 \<and> look u3 = look w"
    using exec_mode_a_key [OF k [unfolded sel(1)] key sel(2,4) V] by auto
  show thesis
    by (rule that [OF sel(2,3) kp(3,4,5)]) (use rest kp(1,2) sel(4,5) in simp)
qed

lemma exec_mode_a:
  assumes run: "exec serve (reconcile_mode_a V R g) w = (Inr (), w')"
    and here: "look w (gateway_place g) = Some (OGateway g)"
    and key: "holds_key (look w) g kp0 \<or> keyless (look w) g"
    and gone: "mode_b_gone (look w) g" and g: "held g" "unannotated g"
    and V: "\<And>xs. mset (ev_order V xs) = mset xs" "\<And>s. length (ev_bm V s) = 32"
  shows "\<exists>h kp. mode_a_done fill R (look w') h kp \<and> same_core g h \<and> (holds_key (look w) g kp0 \<longrightarrow> kp = kp0) \<and>
    changes (mode_a_places g \<union> {key_place g, egress_place g, gateway_place g}) (look w) (look w')"
proof -
  obtain ts cs kp u3 where sel: "lists_tsps (look w) g ts" "lists_tcaps (look w) g cs"
    and kp: "holds_key (look u3) g kp" "changes {key_place g} (look w) (look u3)"
      "holds_key (look w) g kp0 \<longrightarrow> kp = kp0 \<and> look u3 = look w"
    and prov: "exec serve (provision_mode_a V R g (from_tor_service_policy (select_tsp g ts))
       (client_auth_from (select_tcap g cs)) kp) u3 = (Inr (), w')"
    by (rule mode_a_steps [OF run key V(2)])
  let ?policy = "from_tor_service_policy (select_tsp g ts)" and ?auth = "client_auth_from (select_tcap g cs)"
  have "look u3 (gateway_place g) = Some (OGateway g)"
    using changes_look [OF kp(2)] here by (simp add: gateway_place_def key_place_def)
  from exec_provision [OF prov this V(1)] obtain v where p: "provisioned fill R g ?policy ?auth (look w')" "egress_settled R g (look w')"
      "look w' (gateway_place g) = Some (OGateway (settled_gateway (ev_now V) kp g v))"
      "changes (mode_a_places g \<union> {egress_place g, gateway_place g}) (look u3) (look w')"
    by blast
  let ?h = "settled_gateway (ev_now V) kp g v"
  have same: "same_gateway g ?h" "same_core g ?h"
    by (simp_all add: same_gateway_def same_core_def gw_annotation_def)
  have "mode_b_gone (look u3) g"
    using gone holds_key_gone [OF kp(1,2)] by blast
  then have "mode_b_gone (look w') g" by (rule mode_b_stays_gone [OF _ p(4,1)])
  moreover have "holds_key (look w') g kp"
    using kp(1) holds_key_changes [OF p(4)] by (auto simp: key_place_def mode_a_places_def egress_place_def gateway_place_def)
  moreover have ch: "changes (mode_a_places g \<union> {key_place g, egress_place g, gateway_place g}) (look w) (look w')"
    by (rule changes_mono [OF changes_trans [OF kp(2) p(4)]]) auto
  have "lists_tsps (look w') g ts" "lists_tcaps (look w') g cs"
    using sel listed_changes [OF ch]
    by (auto simp: lists_tsps_def lists_tcaps_def mode_a_places_def key_place_def egress_place_def gateway_place_def)
  ultimately have "mode_a_done fill R (look w') ?h kp"
    using p g published_iff settled_gateway_again
    by (auto simp: mode_a_done_def same_gateway_children [OF same(1)] unannotated_def lists_tsps_def lists_tcaps_def)
  then show ?thesis using same(2) kp(3) ch by blast
qed

end

definition mode_a_reach :: "objects \<Rightarrow> gateway \<Rightarrow> (kind \<times> nsname) set" where
  "mode_a_reach L g = mode_b_reach L g \<union> mode_a_places g \<union> {key_place g, egress_place g}"

context api_server
begin

lemma mode_b_reach_kinds: "x \<in> mode_b_reach (look w) g \<Longrightarrow> fst x \<in> mode_b_kinds \<union> {KSecret, KGateway}"
  using listed_places [of w KSecret "Some (gw_ns g)" "backend_selector g"]
  unfolding mode_b_reach_def gateway_place_def by force

lemma reconcile_steps:
  assumes "exec serve (gateway_reconcile V R (meta_key (gw_meta g))) w = (Inr (), w')" "for_mode_a (look w) g"
  obtains g1 u1 g2 u2 where "exec serve (hold_gateway g) w = (Inr g1, u1)"
    "held g1 \<and> same_core g g1" "changes {gateway_place g} (look w) (look u1)" "look u1 (gateway_place g) = Some (OGateway g1)"
    "exec serve (cleanup_mode_b_resources g1) u1 = (Inr g2, u2)"
    "mode_b_gone (look u2) g1" "changes (mode_b_reach (look u1) g1) (look u1) (look u2)" "same_core g1 g2" "unannotated g2" "held g2"
    "look u2 (gateway_place g) = Some (OGateway g2)"
    "exec serve (reconcile_mode_a V R g2) u2 = (Inr (), w')"
proof -
  have g: "look w (KGateway, meta_key (gw_meta g)) = Some (OGateway g)" "\<not> om_deleting (gw_meta g)"
    using assms(2) by (auto simp: for_mode_a_def managed_def gateway_place_def)
  have "exec serve (bindA (apiA (hold_gateway g)) (\<lambda>g'. reconcile_managed V R g')) w = (Inr (), w')"
    using assms(1) exec_class [OF for_mode_a_managed [OF assms(2)]] g
    by (simp add: gateway_reconcile_def exec_bindP exec_get un_gateway_def exec_bindA exec_wrapA)
  then obtain g1 u1 where h: "exec serve (hold_gateway g) w = (Inr g1, u1)" "exec serve (reconcile_managed V R g1) u1 = (Inr (), w')"
    by (auto simp: exec_ok)
  note hold = exec_hold [OF h(1) for_mode_a_managed [OF assms(2)]]
  have place: "gateway_place g1 = gateway_place g" "gw_ns g1 = gw_ns g" "gw_name g1 = gw_name g" "\<not> om_deleting (gw_meta g1)"
    using hold g(2) by (auto simp: same_core_def gateway_place_def meta_key_def)
  have obp: "listed (look u1) KObp (Some (gw_ns g)) [] = listed (look w) KObp (Some (gw_ns g)) []"
    by (rule listed_changes [where K = "{gateway_place g}"]) (use hold in \<open>auto simp: gateway_place_def\<close>)
  obtain po v where po: "exec serve (find_effective_onion_balance g1) u1 = (Inr po, v)"
    using h(2) by (auto simp: reconcile_managed_def exec_ok)
  have "po = None" "v = u1"
    using exec_no_pool [OF po] assms(2) by (auto simp: place obp for_mode_a_def managed_def)
  then obtain g2 u2 where c: "exec serve (cleanup_mode_b_resources g1) u1 = (Inr g2, u2)"
    "exec serve (reconcile_mode_a V R g2) u2 = (Inr (), w')"
    using h(2) po by (auto simp: reconcile_managed_def exec_ok)
  note cl = exec_cleanup_mode_b [OF c(1)]
  show thesis
    by (rule that [OF h(1) _ _ _ c(1) _ _ _ _ _ _ c(2)]) (use cl hold place in auto)
qed

lemma key_before:
  assumes "same_core g g1" "changes {gateway_place g} (look w) (look u1)"
    "changes (mode_b_reach (look u1) g1) (look u1) (look u2)" "same_core g1 g2"
    and key: "holds_key (look w) g kp0 \<or> keyless (look w) g"
  shows "same_core g g2" "changes (mode_b_reach (look w) g) (look w) (look u2)"
    "listed (look u2) KTsp ns ls = listed (look w) KTsp ns ls"
    "holds_key (look u2) g2 kp0 \<or> keyless (look u2) g2" "holds_key (look u2) g2 kp0 = holds_key (look w) g kp0"
proof -
  show core: "same_core g g2" using assms(1,4) same_core_trans by blast
  have id: "gw_ns g1 = gw_ns g" "gw_name g1 = gw_name g" "gw_ns g2 = gw_ns g" "gw_name g2 = gw_name g"
      "gw_annotation g2 await_vanity_annotation = gw_annotation g await_vanity_annotation"
    using assms(1) core by (auto simp: same_core_def meta_key_def)
  have reach: "mode_b_reach (look u1) g1 = mode_b_reach (look w) g"
    using listed_changes [OF assms(2), of KSecret] id
    by (simp add: mode_b_reach_def gateway_place_def meta_key_def backend_selector_def)
  show ch: "changes (mode_b_reach (look w) g) (look w) (look u2)"
    by (rule changes_mono [OF changes_trans [OF assms(2) assms(3) [unfolded reach]]]) (auto simp: mode_b_reach_def)
  have kept: "look u2 (key_place g) = look w (key_place g)"
    using key key_kept [of w g kp0] changes_look [OF ch, of "key_place g"] by (auto simp: keyless_def)
  have tsps: "listed (look u2) KTsp ns ls = listed (look w) KTsp ns ls" for ns ls
    by (rule listed_changes [OF ch])
      (use mode_b_reach_kinds in \<open>fastforce simp: mode_b_kinds_def\<close>)
  then show "listed (look u2) KTsp ns ls = listed (look w) KTsp ns ls" .
  show "holds_key (look u2) g2 kp0 \<or> keyless (look u2) g2" "holds_key (look u2) g2 kp0 = holds_key (look w) g kp0"
    using key kept tsps same_gateway_children(4) [OF same_core_gateway [OF core], of "look u2"]
    by (auto simp: holds_key_def keyless_def key_place_def id)
qed

lemma exec_reconcile_mode_a:
  assumes run: "exec serve (gateway_reconcile V R (meta_key (gw_meta g))) w = (Inr (), w')" "for_mode_a (look w) g"
    and key: "holds_key (look w) g kp0 \<or> keyless (look w) g"
    and V: "\<And>xs. mset (ev_order V xs) = mset xs" "\<And>s. length (ev_bm V s) = 32"
  shows "\<exists>h kp. mode_a_done fill R (look w') h kp \<and> same_core g h \<and> (holds_key (look w) g kp0 \<longrightarrow> kp = kp0) \<and>
    changes (mode_a_reach (look w) g) (look w) (look w')"
proof -
  obtain g1 u1 g2 u2 where s: "held g1 \<and> same_core g g1" "changes {gateway_place g} (look w) (look u1)"
    "mode_b_gone (look u2) g1" "changes (mode_b_reach (look u1) g1) (look u1) (look u2)" "same_core g1 g2" "unannotated g2" "held g2"
    "look u2 (gateway_place g) = Some (OGateway g2)" "exec serve (reconcile_mode_a V R g2) u2 = (Inr (), w')"
    by (rule reconcile_steps [OF run]) blast
  have g1: "same_core g g1" using s(1) by simp
  note core = key_before(1) [OF g1 s(2,4,5) key] and ch = key_before(2) [OF g1 s(2,4,5) key]
    and key2 = key_before(4,5) [OF g1 s(2,4,5) key]
  have "mode_b_gone (look u2) g2" "look u2 (gateway_place g2) = Some (OGateway g2)"
    using s(3,8) same_gateway_children(3) [OF same_core_gateway [OF s(5)]]
      same_gateway_children(8) [OF same_core_gateway [OF core]] by simp_all
  from exec_mode_a [OF s(9) this(2) key2(1) this(1) s(7,6) V] obtain h kp where
    h: "mode_a_done fill R (look w') h kp" "same_core g2 h" "holds_key (look u2) g2 kp0 \<longrightarrow> kp = kp0"
    "changes (mode_a_places g2 \<union> {key_place g2, egress_place g2, gateway_place g2}) (look u2) (look w')"
    by blast
  have places: "mode_a_places g2 = mode_a_places g" "key_place g2 = key_place g" "egress_place g2 = egress_place g"
      "gateway_place g2 = gateway_place g"
    using same_gateway_children(5,8) [OF same_core_gateway [OF core]]
    using core by (simp_all add: key_place_def egress_place_def same_core_def meta_key_def)
  have "changes (mode_a_reach (look w) g) (look w) (look w')"
    by (rule changes_mono [OF changes_trans [OF ch h(4) [unfolded places]]]) (auto simp: mode_a_reach_def mode_b_reach_def)
  then show ?thesis using h same_core_trans [OF core] key2(2) by blast
qed

end

subsection \<open>A second time\<close>

context api_server
begin

lemma exec_cleanup_quiet:
  assumes "exec serve (cleanup_mode_b_resources g) w = (Inr g', w')" "mode_b_gone (look w) g" "unannotated g"
  shows "g' = g" "look w' = look w"
proof -
  obtain u1 u2 u4 where l1: "look u1 = (\<lambda>x. if x \<in> (\<lambda>(k, n). (k, gw_ns g, n)) ` set (mode_b_children g) then None else look w x)"
    and u2: "exec serve (delete_labelled_roles g None) u1 = (Inr (), u2)"
    and l4: "look u4 = (\<lambda>x. if x \<in> place ` listed (look u2) KSecret (Some (gw_ns g)) (backend_selector g) then None
      else look u2 x)"
    and u5: "exec serve (if \<not> unannotated g
       then apiA (write_gateway (Update (OGateway (drop_annotation ann_pow_emitted (drop_annotation ann_last_replicas g)))))
       else okA g) u4 = (Inr g', w')"
    by (rule cleanup_steps [OF assms(1)])
  have "look u1 = look w"
    using assms(2) unfolding l1 by (auto simp: mode_b_gone_def list_all_iff fun_eq_iff)
  moreover from this have "look u2 = look u1"
    using exec_labelled_roles [OF u2] assms(2) by (simp add: mode_b_gone_def)
  moreover from calculation have "look u4 = look u2"
    using assms(2) unfolding l4 by (simp add: mode_b_gone_def)
  ultimately show "g' = g" "look w' = look w" using u5 assms(3) by auto
qed

lemma exec_provision_quiet:
  assumes "exec serve (provision_mode_a V R g policy auth kp) w = (Inr (), w')" "provisioned fill R g policy auth (look w)"
    and "published g (onion_string (key_onion_address kp))" "\<And>xs. mset (ev_order V xs) = mset xs"
  shows "egress_settled R g (look w')" "changes {egress_place g} (look w) (look w')"
proof -
  obtain c d u1 rts u3 where cd: "build_torrc_config_map g policy auth (gr_testing_include R) = Inr c"
      "build_deployment g policy auth (gr_images R) = Inr d"
    and puts: "exec serve (eachA put_child (mode_a_writes g c d)) w = (Inr (), u1)"
    and rest: "lists_routes (look u1) g rts"
      "exec serve (ensure_network_policy (ev_order V) R g rts) u1 = (Inr (), u3)"
      "exec serve (update_status (ev_now V) g kp) u3 = (Inr (), w')"
    by (rule provision_steps [OF assms(1)])
  have "look u1 = look w"
    using exec_puts_settled [OF puts] assms(2) cd by (auto simp: provisioned_def)
  moreover have "w' = u3"
    using rest(3) assms(3) [unfolded published_iff [where now = "ev_now V"]] by (auto simp: update_status_def split: prod.splits)
  ultimately show "egress_settled R g (look w')" "changes {egress_place g} (look w) (look w')"
    using exec_network_policy [OF rest(2,1) assms(4)] by simp_all
qed

lemma exec_reconcile_quiet:
  assumes run: "exec serve (gateway_reconcile V R (meta_key (gw_meta g))) w = (Inr (), w')" "for_mode_a (look w) g"
    and settled: "mode_a_done fill R (look w) g kp"
    and V: "\<And>xs. mset (ev_order V xs) = mset xs" "\<And>s. length (ev_bm V s) = 32"
  shows "mode_a_done fill R (look w') g kp \<and> changes {egress_place g} (look w) (look w')"
proof -
  obtain g1 u1 g2 u2 where s: "exec serve (hold_gateway g) w = (Inr g1, u1)"
    "exec serve (cleanup_mode_b_resources g1) u1 = (Inr g2, u2)" "exec serve (reconcile_mode_a V R g2) u2 = (Inr (), w')"
    by (rule reconcile_steps [OF run]) blast
  note done_ = settled [unfolded mode_a_done_def]
  have w1: "g1 = g" "u1 = w" using s(1) done_ by (simp_all add: hold_gateway_def)
  have w2: "g2 = g" "look u2 = look w"
    using exec_cleanup_quiet [OF s(2) [unfolded w1]] done_ by simp_all
  obtain ts cs kp' u3 where m: "lists_tsps (look w) g ts" "lists_tcaps (look w) g cs" "kp' = kp" "look u3 = look w"
    "exec serve (provision_mode_a V R g (from_tor_service_policy (select_tsp g ts)) (client_auth_from (select_tcap g cs)) kp')
       u3 = (Inr (), w')"
    by (rule mode_a_steps [where ?kp0.0 = kp, OF s(3) [unfolded w2(1)] _ V(2)]) (use done_ w2(2) in auto)
  have prov: "provisioned fill R g (from_tor_service_policy (select_tsp g ts)) (client_auth_from (select_tcap g cs)) (look u3)"
    using done_ lists_select m(1,2,4) by metis
  have q: "egress_settled R g (look w')" "changes {egress_place g} (look w) (look w')"
    using exec_provision_quiet [OF m(5) prov _ V(1)] done_ m(3,4) by simp_all
  have away: "gateway_place g \<notin> {egress_place g}" "key_place g \<notin> {egress_place g}" "mode_a_places g \<inter> {egress_place g} = {}"
    by (auto simp: gateway_place_def egress_place_def key_place_def mode_a_places_def)
  have "mode_b_gone (look w') g"
    using done_ by (subst mode_b_gone_changes [OF q(2)]) (auto simp: egress_place_def mode_b_kinds_def)
  moreover have "listed (look w') k ns ls = listed (look w) k ns ls" if "k \<noteq> KNetworkPolicy" for k ns ls
    by (rule listed_changes [OF q(2)]) (use that in \<open>simp add: egress_place_def\<close>)
  ultimately have "mode_a_done fill R (look w') g kp"
    using settled q(1) changes_look [OF q(2) away(1)] holds_key_changes [OF q(2) away(2)]
      provisioned_changes [OF q(2) away(3)]
    by (simp add: mode_a_done_def lists_tsps_def lists_tcaps_def)
  with q(2) show ?thesis by simp
qed

end

end
