(* ===== verification/Progress.thy ===== *)
theory Progress
  imports Convergence
begin

text \<open>
  A reconcile ends well. Against a server whose writes do not fail either, the reconcile of a Gateway in
  Mode A returns without an error, from every cluster in which a key is there or may be made; together
  with \<open>Convergence\<close> this says what it returns to. The store of \<open>Cluster\<close> is such a server, and the
  witnesses run on it.
\<close>

subsection \<open>Returning without an error\<close>

definition returns :: "('w \<Rightarrow> call \<Rightarrow> answer \<times> 'w) \<Rightarrow> ('e, 'a) act \<Rightarrow> 'w \<Rightarrow> bool" where
  "returns serve p w \<longleftrightarrow> (case fst (exec serve p w) of Inr _ \<Rightarrow> True | Inl _ \<Rightarrow> False)"

lemma returnsI: "exec serve p w = (Inr x, u) \<Longrightarrow> returns serve p w"
  by (simp add: returns_def)

lemma returnsE: assumes "returns serve p w" obtains x u where "exec serve p w = (Inr x, u)"
  using assms that by (cases "exec serve p w") (auto simp: returns_def split: sum.splits)

lemma returns_okA [simp]: "returns serve (okA x) w"
  by (simp add: returns_def)

lemma returns_bindA: "returns serve p w \<Longrightarrow> (\<And>x u. exec serve p w = (Inr x, u) \<Longrightarrow> returns serve (f x) u) \<Longrightarrow>
    returns serve (bindA p f) w"
  by (auto simp: returns_def exec_bindA split: sum.splits prod.splits)

lemma returns_wrapA [simp]: "returns serve (wrapA h p) w = returns serve p w"
  by (auto simp: returns_def exec_wrapA mapErr_def split: sum.splits prod.splits)

lemma returns_eachA: "(\<And>y u. y \<in> set ys \<Longrightarrow> returns serve (body y) u) \<Longrightarrow> returns serve (eachA body ys) w"
  by (induction ys arbitrary: w) (auto intro!: returns_bindA)

lemma returns_foldA: "(\<And>y a u. y \<in> set ys \<Longrightarrow> returns serve (body y a) u) \<Longrightarrow> returns serve (foldA body ys a) w"
  by (induction ys arbitrary: a w) (auto intro!: returns_bindA)

subsection \<open>A server that does not fail\<close>

text \<open>Nothing fails that is asked for properly. An update that changes a field which may not be changed is not.\<close>

locale reliable_server = api_server +
  assumes upsert_ok: "place (f (existing (look w) (k, n))) = (k, n) \<Longrightarrow>
      alterable (look w (k, n)) (fill (f (existing (look w) (k, n)))) \<Longrightarrow> succeeded (fst (serve w (Upsert k n f)))"
    and create_ok: "look w (place ob) = None \<Longrightarrow> succeeded (fst (serve w (Create ob)))"
    and update_ok: "look w (gateway_place g) = Some (OGateway g0) \<Longrightarrow> om_version (gw_meta g0) = om_version (gw_meta g) \<Longrightarrow>
      succeeded (fst (serve w (Update (OGateway g))))"
    and status_ok: "look w (gateway_place g) = Some (OGateway g0) \<Longrightarrow> om_version (gw_meta g0) = om_version (gw_meta g) \<Longrightarrow>
      succeeded (fst (serve w (StatusUpdate (OGateway g))))"
    and delete_ok: "succeeded (fst (serve w (Delete k n))) \<or> fst (serve w (Delete k n)) = Failed NotFound"
    and direct_list_ok: "succeeded (fst (serve w (ApiServerList k ns ls)))"
    and entropy_ok: "\<exists>b. fst (serve w Entropy) = RandomBytes (Some b) \<and> length b = 32"

text \<open>A child that can be brought to its built form: the fields that may not be changed are as they are to be.\<close>

definition may_write :: "(obj \<Rightarrow> obj) \<Rightarrow> child_write \<Rightarrow> objects \<Rightarrow> bool" where
  "may_write fill x L \<longleftrightarrow> alterable (L (write_place x)) (fill (closure x (existing L (write_place x))))"

lemma may_write_changes: "changes K L L' \<Longrightarrow> write_place x \<notin> K \<Longrightarrow> may_write fill x L' = may_write fill x L"
  by (simp add: may_write_def existing_def changes_look)

definition unlocked :: "objects \<Rightarrow> gateway \<Rightarrow> bool" where
  "unlocked L g \<longleftrightarrow>
     (\<forall>d. L (KDeployment, gw_ns g, deployment_name (gw_name g)) = Some (ODeployment d) \<longrightarrow>
        dep_selector d = child_labels (gw_name g)) \<and>
     (\<forall>b. L (KRoleBinding, gw_ns g, router_rbac_name (gw_name g)) = Some (ORoleBinding b) \<longrightarrow>
        rb_role_group b = ''rbac.authorization.k8s.io'' \<and> rb_role_kind b = ''Role'' \<and>
        rb_role_name b = router_rbac_name (gw_name g))"

lemma unlocked_smaller:
  "unlocked L g \<Longrightarrow> (\<And>x. fst x \<in> {KDeployment, KRoleBinding} \<Longrightarrow> L' x = L x \<or> L' x = None) \<Longrightarrow> unlocked L' g"
proof -
  assume u: "unlocked L g" and smaller: "\<And>x. fst x \<in> {KDeployment, KRoleBinding} \<Longrightarrow> L' x = L x \<or> L' x = None"
  have "L (k, n) = Some ob" if "L' (k, n) = Some ob" "k \<in> {KDeployment, KRoleBinding}" for k n ob
    using smaller [of "(k, n)"] that by auto
  then show ?thesis using u by (simp add: unlocked_def)
qed

context defaulting
begin

lemma fill_fixed:
  "\<exists>s'. fill (OService s) = OService s' \<and> svc_cluster_ip s' = svc_cluster_ip s"
  "\<exists>d'. fill (ODeployment d) = ODeployment d' \<and> dep_selector d' = dep_selector d"
  "rb_role_group b \<noteq> [] \<Longrightarrow> \<exists>b'. fill (ORoleBinding b) = ORoleBinding b' \<and> rb_role_group b' = rb_role_group b \<and>
     rb_role_kind b' = rb_role_kind b \<and> rb_role_name b' = rb_role_name b"
proof -
  show "\<exists>s'. fill (OService s) = OService s' \<and> svc_cluster_ip s' = svc_cluster_ip s"
    using fill_law [of "OService s"] by (cases "fill (OService s)") (simp_all add: completes_def spec_kept_def)
  show "\<exists>d'. fill (ODeployment d) = ODeployment d' \<and> dep_selector d' = dep_selector d"
    using fill_law [of "ODeployment d"] by (cases "fill (ODeployment d)") (simp_all add: completes_def spec_kept_def)
  show "rb_role_group b \<noteq> [] \<Longrightarrow> \<exists>b'. fill (ORoleBinding b) = ORoleBinding b' \<and> rb_role_group b' = rb_role_group b \<and>
      rb_role_kind b' = rb_role_kind b \<and> rb_role_name b' = rb_role_name b"
    using fill_law [of "ORoleBinding b"]
    by (cases "fill (ORoleBinding b)") (simp_all add: completes_def spec_kept_def text_kept_def)
qed

text \<open>Only a Deployment and a RoleBinding have such fields among the children of Mode A.\<close>

lemma freely_written:
  assumes "obj_kind (wanted x) \<notin> {KDeployment, KStatefulSet, KRoleBinding}"
    and "\<And>ob. L (write_place x) = Some ob \<Longrightarrow> obj_kind ob = obj_kind (wanted x)"
  shows "may_write fill x L"
proof (cases "L (write_place x)")
  case (Some ob)
  show ?thesis
  proof (cases "obj_kind ob = KService")
    case True
    then obtain s want where s: "ob = OService s" "x = WriteService want"
      using assms(2) [OF Some] by (cases ob; cases x; simp)
    obtain t where t: "closure x ob = OService t" "svc_cluster_ip s \<noteq> [] \<Longrightarrow> svc_cluster_ip t = svc_cluster_ip s"
      unfolding s by (simp add: put_service_def)
    obtain s' where "fill (closure x ob) = OService s'" "svc_cluster_ip s \<noteq> [] \<Longrightarrow> svc_cluster_ip s' = svc_cluster_ip s"
      using fill_fixed(1) [of t] t by auto
    then show ?thesis by (auto simp: may_write_def alterable_def existing_def Some s(1) keeps_fixed_def)
  next
    case False
    then show ?thesis
      using assms(1) assms(2) [OF Some]
      by (cases ob) (simp_all add: may_write_def alterable_def existing_def Some keeps_fixed_def)
  qed
qed (simp add: may_write_def alterable_def)

lemma deployment_written:
  assumes "\<And>ob. L (write_place (WriteDeployment d)) = Some ob \<Longrightarrow> obj_kind ob = KDeployment"
    and "\<And>d0. L (write_place (WriteDeployment d)) = Some (ODeployment d0) \<Longrightarrow> dep_selector d0 = dep_selector d"
  shows "may_write fill (WriteDeployment d) L"
proof (cases "L (write_place (WriteDeployment d))")
  case (Some ob)
  from assms(1) [OF this] obtain d0 where "ob = ODeployment d0" by (cases ob; simp)
  with Some assms(2) [of d0] have d0: "ob = ODeployment d0" "dep_selector d0 = dep_selector d" by simp_all
  have "closure (WriteDeployment d) ob = ODeployment (d\<lparr>dep_meta := adopt (dep_meta d) (dep_meta d0),
      dep_conditions := dep_conditions d0\<rparr>)" by (simp add: d0 put_deployment_def)
  then obtain d' where "fill (closure (WriteDeployment d) ob) = ODeployment d'" "dep_selector d' = dep_selector d"
    using fill_fixed(2) [of "d\<lparr>dep_meta := adopt (dep_meta d) (dep_meta d0), dep_conditions := dep_conditions d0\<rparr>"] by auto
  then show ?thesis by (simp add: may_write_def alterable_def existing_def Some d0 keeps_fixed_def)
qed (simp add: may_write_def alterable_def)

lemma role_binding_written:
  assumes "\<And>ob. L (write_place (WriteRoleBinding b)) = Some ob \<Longrightarrow> obj_kind ob = KRoleBinding" "rb_role_group b \<noteq> []"
    and "\<And>b0. L (write_place (WriteRoleBinding b)) = Some (ORoleBinding b0) \<Longrightarrow>
      rb_role_group b0 = rb_role_group b \<and> rb_role_kind b0 = rb_role_kind b \<and> rb_role_name b0 = rb_role_name b"
  shows "may_write fill (WriteRoleBinding b) L"
proof (cases "L (write_place (WriteRoleBinding b))")
  case (Some ob)
  from assms(1) [OF this] obtain b0 where "ob = ORoleBinding b0" by (cases ob; simp)
  with Some assms(3) [of b0] have b0: "ob = ORoleBinding b0" "rb_role_group b0 = rb_role_group b"
      "rb_role_kind b0 = rb_role_kind b" "rb_role_name b0 = rb_role_name b" by simp_all
  have "closure (WriteRoleBinding b) ob = ORoleBinding (b\<lparr>rb_meta := adopt (rb_meta b) (rb_meta b0)\<rparr>)"
    by (simp add: b0 put_role_binding_def)
  then obtain b' where "fill (closure (WriteRoleBinding b) ob) = ORoleBinding b'" "rb_role_group b' = rb_role_group b"
      "rb_role_kind b' = rb_role_kind b" "rb_role_name b' = rb_role_name b"
    using fill_fixed(3) [of "b\<lparr>rb_meta := adopt (rb_meta b) (rb_meta b0)\<rparr>"] assms(2) by auto
  then show ?thesis by (simp add: may_write_def alterable_def existing_def Some b0 keeps_fixed_def)
qed (simp add: may_write_def alterable_def)

lemma mode_a_written:
  assumes "unlocked L g" "\<And>k n ob. L (k, n) = Some ob \<Longrightarrow> obj_kind ob = k"
    and "build_deployment g policy auth im = Inr d"
  shows "list_all (\<lambda>x. may_write fill x L) (mode_a_writes g c d)"
proof -
  have kind: "L (write_place x) = Some ob \<Longrightarrow> obj_kind ob = obj_kind (wanted x)" for x ob
    using assms(2) by (simp add: write_place_meta)
  have d: "dep_selector d = child_labels (gw_name g)" "meta_key (dep_meta d) = (gw_ns g, deployment_name (gw_name g))"
    using assms(3) by (auto simp: build_deployment_def guardE_def child_meta_def meta_key_def Let_def split: if_splits)
  have "may_write fill (WriteDeployment d) L"
    by (rule deployment_written) (use kind [of "WriteDeployment d"] assms(1) d in
        \<open>auto simp: write_place_meta unlocked_def\<close>)
  moreover have "may_write fill (WriteRoleBinding (build_role_binding g)) L"
    by (rule role_binding_written) (use kind [of "WriteRoleBinding (build_role_binding g)"] assms(1) in
        \<open>auto simp: write_place_meta unlocked_def build_role_binding_def bind_role_def Let_def child_meta_def meta_key_def\<close>)
  ultimately show ?thesis
    by (auto simp: mode_a_writes_def intro!: freely_written kind)
qed

end

lemma closure_place: "place (closure x ob) = place ob"
  by (cases x; cases ob) (simp_all add: put_defs place_def meta_key_def)

context reliable_server
begin

lemma returns_get:
  "look w (k, n) = Some ob \<Longrightarrow> un ob = Some x \<Longrightarrow> returns serve (bindP (get_obj k un n) f) w = returns serve (f (Inr x)) w"
  "look w (k, n) = None \<Longrightarrow> returns serve (bindP (get_obj k un n) f) w = returns serve (f (Inl NotFound)) w"
  by (simp_all add: returns_def exec_bindP exec_get)

lemma returns_write: "succeeded (fst (serve w c)) \<Longrightarrow> returns serve (write_call c) w"
  by (cases "serve w c") (auto simp: returns_def write_call_def succeeded_def split: answer.splits)

lemma returns_delete: "returns serve (delete_if_present k n) w"
  using delete_ok [of w k n]
  by (cases "serve w (Delete k n)") (auto simp: returns_def delete_if_present_def succeeded_def split: answer.splits)

lemma returns_put:
  assumes "may_write fill x (look w)"
  shows "returns serve (put_child x) w"
proof -
  have "place (existing (look w) (write_place x)) = write_place x"
    using placed_law [of w "fst (write_place x)" "snd (write_place x)"]
    by (cases x) (auto simp: existing_def write_place_def place_def blank_def bare_meta_def meta_key_def Let_def
        split: option.splits)
  then show ?thesis
    using assms unfolding put_child_def upsert_def returns_wrapA
    by (intro returns_write upsert_ok) (simp_all add: closure_place write_place_meta may_write_def)
qed

lemma returns_puts:
  assumes "list_all (\<lambda>x. may_write fill x (look w)) xs" "distinct (map write_place xs)"
    and "list_all (\<lambda>x. \<not> backend_secret_write x) xs"
  shows "returns serve (eachA put_child xs) w"
  using assms
proof (induction xs arbitrary: w)
  case (Cons x xs)
  have "returns serve (eachA put_child xs) u" if u: "exec serve (put_child x) w = (Inr (), u)" for u
  proof (rule Cons.IH)
    have "changes {write_place x} (look w) (look u)" using exec_put [OF u] Cons.prems(3) by simp
    then have "may_write fill y (look u)" if "y \<in> set xs" for y
      using may_write_changes [of "{write_place x}" "look w" "look u" y fill] Cons.prems(1,2) that
      by (auto simp: list_all_iff) (metis image_eqI)
    then show "list_all (\<lambda>x. may_write fill x (look u)) xs" by (simp add: list_all_iff)
  qed (use Cons.prems in auto)
  then show ?case using returns_put Cons.prems(1) by (auto intro!: returns_bindA)
qed simp

lemma returns_list:
  assumes "\<And>ob. obj_kind ob = k \<Longrightarrow> un ob \<noteq> None"
  shows "returns serve (list_objs k un ns ls) w"
proof -
  obtain obs where obs: "fst (serve w (ListObjs k ns ls)) = Objects obs" "set obs = listed (look w) k ns ls"
    using list_law by blast
  have "\<forall>ob \<in> set obs. un ob \<noteq> None"
    using assms placed_law obs(2) by (fastforce simp: listed_def)
  then have "those (map un obs) \<noteq> None" by (induction obs) (auto split: option.splits)
  then show ?thesis by (auto simp: returns_def exec_list decode_list_def obs(1) split: option.splits)
qed

lemma un_kinds:
  "obj_kind ob = KTsp \<Longrightarrow> un_tsp ob \<noteq> None" "obj_kind ob = KTcap \<Longrightarrow> un_tcap ob \<noteq> None"
  "obj_kind ob = KObp \<Longrightarrow> un_obp ob \<noteq> None" "obj_kind ob = KSecret \<Longrightarrow> un_secret ob \<noteq> None"
  "obj_kind ob = KRole \<Longrightarrow> un_role ob \<noteq> None" "obj_kind ob = KRoleBinding \<Longrightarrow> un_role_binding ob \<noteq> None"
  "obj_kind ob = KRoute \<Longrightarrow> un_route ob \<noteq> None" "obj_kind ob = KGrant \<Longrightarrow> un_grant ob \<noteq> None"
  "obj_kind ob = KService \<Longrightarrow> un_service ob \<noteq> None"
  by (cases ob; simp add: un_defs)+

lemma returns_resolve: "returns serve (resolve_backends order rts) w"
proof -
  have read: "returns serve (read_backend ns ref st) u" for ns ref st u
  proof (cases "look u (KService, ns, br_name ref)")
    case (Some ob)
    then obtain svc where "un_service ob = Some svc"
      using placed_law [OF Some] un_kinds(9) by blast
    with Some show ?thesis
      by (auto simp: read_backend_def Let_def returns_def exec_bindP exec_get split: option.splits)
  qed (simp add: read_backend_def Let_def returns_def exec_bindP exec_get)
  have "returns serve (grants_in ns cache) u" for ns cache u
    unfolding grants_in_def by (auto intro!: returns_bindA returns_list un_kinds split: option.splits)
  then have "returns serve (resolve_backend rt ref st) u" for rt ref st u
    unfolding resolve_backend_def Let_def by (auto intro!: returns_bindA read)
  then show ?thesis
    unfolding resolve_backends_def by (auto intro!: returns_bindA returns_foldA)
qed

end

context reliable_server
begin

lemma returns_network_policy:
  assumes "\<And>xs. mset (order xs) = mset xs"
  shows "returns serve (ensure_network_policy order R g rts) w"
proof (cases "gr_network_policy_enabled R")
  case True
  have "returns serve (built SelectorEmpty (build_network_policy g bs (gr_pod_cidrs R) (gr_testing_namespace R))
      (\<lambda>np. upsert KNetworkPolicy (np_meta np) (put_network_policy np))) u"
    if r: "exec serve (resolve_backends order rts) w = (Inr bs, u)" for bs u
  proof -
    obtain G where "bs = order (map snd (wanted_backends G (answer_at (look w)) rts))"
      using exec_resolve [OF r] by blast
    then obtain np where "build_network_policy g bs (gr_pod_cidrs R) (gr_testing_namespace R) = Inr np"
      using wanted_policy_exact [where order = order and R = R, OF assms] by metis
    then show ?thesis
      using returns_put [of "WriteNetworkPolicy np" u] freely_written [of "WriteNetworkPolicy np" "look u"]
        placed_law [of u KNetworkPolicy] by (simp add: put_child_def write_place_meta)
  qed
  with True show ?thesis
    by (auto simp: ensure_network_policy_def exec_wrapA_ok intro!: returns_bindA returns_resolve)
qed (simp add: ensure_network_policy_def returns_delete)

lemma returns_update_status:
  assumes "look w (gateway_place g) = Some (OGateway g)"
  shows "returns serve (update_status now g kp) w"
proof -
  have "succeeded (fst (serve w (StatusUpdate (OGateway (fst (next_status now onion g))))))" for onion
    using assms by (intro status_ok) (simp_all add: gateway_place_def next_status_parts)
  from returns_write [OF this, of "onion_string (key_onion_address kp)"] show ?thesis
    by (cases "next_status now (onion_string (key_onion_address kp)) g") (simp add: update_status_def)
qed

lemma returns_provision:
  assumes "build_torrc_config_map g policy auth (gr_testing_include R) = Inr c"
    and "build_deployment g policy auth (gr_images R) = Inr d"
    and "look w (gateway_place g) = Some (OGateway g)" "unlocked (look w) g" "\<And>xs. mset (ev_order V xs) = mset xs"
  shows "returns serve (provision_mode_a V R g policy auth kp) w"
proof -
  let ?rest = "bindA (apiA (routes_for_gateway g)) (\<lambda>routes.
     bindA (ensure_network_policy (ev_order V) R g routes) (\<lambda>_. update_status (ev_now V) g kp))"
  have tail: "returns serve ?rest u" if "look u (gateway_place g) = Some (OGateway g)" for u
  proof -
    have "returns serve (update_status (ev_now V) g kp) u'"
      if "exec serve (routes_for_gateway g) u = (Inr rts, u1)"
        "exec serve (ensure_network_policy (ev_order V) R g rts) u1 = (Inr (), u')" for rts u1 u'
      using exec_routes [OF that(1)] exec_network_policy(2) [OF that(2) _ assms(5)]
        \<open>look u (gateway_place g) = Some (OGateway g)\<close>
      by (intro returns_update_status) (auto simp: changes_look egress_place_def gateway_place_def)
    then show ?thesis
      by (auto simp: exec_wrapA_ok routes_for_gateway_def
          intro!: returns_bindA returns_network_policy assms(5) returns_list un_kinds)
  qed
  have "returns serve (eachA put_child (mode_a_writes g c d)) w"
    using placed_law [of w] by (intro returns_puts mode_a_written [OF assms(4) _ assms(2)] mode_a_places(2) [OF assms(1,2)])
      (auto simp: mode_a_writes_def)
  then obtain u where u: "exec serve (eachA put_child (mode_a_writes g c d)) w = (Inr (), u)"
    by (auto elim: returnsE)
  have "changes (mode_a_places g) (look w) (look u)"
    using exec_puts [OF u _ mode_a_places(2) [OF assms(1,2)]]
    unfolding mode_a_places(1) [OF assms(1,2)] by (simp add: mode_a_writes_def)
  from changes_look [OF this, of "gateway_place g"] assms(3) have "look u (gateway_place g) = Some (OGateway g)"
    by (auto simp: mode_a_places_def gateway_place_def)
  from tail [OF this] obtain w' where "exec serve ?rest u = (Inr (), w')" by (auto elim: returnsE)
  with u assms(1,2) show ?thesis
    unfolding provision_mode_a_def provision_children
    by (intro returnsI [where x = "()" and u = w']) (auto simp: exec_ok mode_a_writes_def)
qed

end

definition images_set :: "gateway_reconciler \<Rightarrow> bool" where
  "images_set R \<longleftrightarrow> im_tor (gr_images R) \<noteq> [] \<and> im_router (gr_images R) \<noteq> [] \<and> im_tor_init (gr_images R) \<noteq> []"

text \<open>The validation that the API server does for a log level.\<close>

definition valid_levels :: "objects \<Rightarrow> gateway \<Rightarrow> bool" where
  "valid_levels L g \<longleftrightarrow> (\<forall>t. OTsp t \<in> listed L KTsp (Some (gw_ns g)) [] \<longrightarrow>
     tsp_log_level (tsp_spec t) = [] \<or> valid_log_level (tsp_log_level (tsp_spec t)))"

lemma selected_level:
  assumes "\<forall>t \<in> set ts. tsp_log_level (tsp_spec t) = [] \<or> valid_log_level (tsp_log_level (tsp_spec t))"
  shows "valid_log_level (ep_log_level (from_tor_service_policy (select_tsp g ts)))"
proof (cases "select_tsp g ts")
  case None
  then show ?thesis by (simp add: from_tor_service_policy_def default_policy_def valid_log_level_def log_levels_def)
next
  case (Some t)
  then have "t \<in> set ts"
    using tsp_pick.pick_first_maximal tsp_pick.first_maximal_in
    unfolding select_tsp_def by fastforce
  with assms Some show ?thesis
    by (auto simp: from_tor_service_policy_def Let_def default_policy_def valid_log_level_def log_levels_def
        split: option.splits)
qed

context reliable_server
begin

lemma returns_event: "returns serve (event_on R g reason) w"
  by (auto simp: returns_def event_on_def record_event_def split: prod.splits)

lemma returns_policy_from: "returns serve (effective_policy_from b g) w"
proof -
  let ?c = "(if b then ApiServerList else ListObjs) KTsp (Some (gw_ns g)) []"
  obtain obs where obs: "fst (serve w ?c) = Objects obs" "set obs = listed (look w) KTsp (Some (gw_ns g)) []"
    using list_law [of w KTsp "Some (gw_ns g)" "[]"] direct_list_law [of w KTsp "Some (gw_ns g)" "[]"]
      direct_list_ok [of w KTsp "Some (gw_ns g)" "[]"]
    by (cases b) (auto simp: succeeded_def)
  have "\<forall>ob \<in> set obs. un_tsp ob \<noteq> None"
    using un_kinds(1) placed_law obs(2) by (fastforce simp: listed_def)
  then have "those (map un_tsp obs) \<noteq> None" by (induction obs) (auto split: option.splits)
  with obs(1) show ?thesis
    by (cases b) (auto simp: returns_def effective_policy_from_def decode_list_def split: prod.splits option.splits)
qed

lemma returns_fresh_key:
  assumes "look w (key_place g) = None"
  shows "returns serve (fresh_key_secret V g) w"
proof -
  obtain b where b: "fst (serve w Entropy) = RandomBytes (Some b)" "length b = 32"
    using entropy_ok by blast
  then obtain kp where kp: "generate_key_pair (ev_bm V) (Some b) = Inr kp"
    by (simp add: generate_key_pair_def expand_seed_def)
  have "place (OSecret (build_key_secret g kp)) = key_place g"
    by (simp add: place_def key_place_def build_key_secret_def child_meta_def meta_key_def)
  then have "returns serve (write_call (Create (OSecret (build_key_secret g kp)))) (snd (serve w Entropy))"
    using assms silent_law(2) [of w] by (intro returns_write create_ok) simp
  then have "returns serve (bindA (apiA (write_call (Create (OSecret (build_key_secret g kp))))) (\<lambda>_. okA (g, KeyReady kp)))
      (snd (serve w Entropy))"
    by (auto intro!: returns_bindA)
  then show ?thesis
    using b kp by (cases "serve w Entropy") (simp add: returns_def fresh_key_secret_def read_entropy_def)
qed

lemma returns_key:
  assumes "holds_key (look w) g kp \<or> keyless (look w) g" "keyless (look w) g \<Longrightarrow> ep_vanity_prefix policy = []"
  shows "returns serve (ensure_key_secret V R g policy) w"
proof (cases "holds_key (look w) g kp")
  case True
  then obtain s where s: "look w (KSecret, gw_ns g, key_secret_name (gw_name g)) = Some (OSecret s)"
    "parse_files (data_entry (sec_data s) file_secret_key_name) (data_entry (sec_data s) file_public_key_name) = Inr kp"
    by (auto simp: holds_key_def key_place_def split: option.splits obj.splits)
  show ?thesis
    unfolding ensure_key_secret_def by (subst returns_get(1) [OF s(1)])
      (auto simp: un_secret_def s(2) intro!: returns_bindA returns_event)
next
  case False
  then have k: "keyless (look w) g" "ep_vanity_prefix policy = []" using assms by auto
  then have none: "look w (KSecret, gw_ns g, key_secret_name (gw_name g)) = None"
    by (simp add: keyless_def key_place_def)
  have "returns serve (if ep_vanity_prefix fresh \<noteq> [] then run_vanity_harvest R g (ep_vanity_prefix fresh)
      else if parse_bool (gw_annotation g await_vanity_annotation) then okA (g, AwaitingVanityPolicy)
      else fresh_key_secret V g) u"
    if "exec serve (effective_policy_from (gr_api_reader R) g) w = (Inr fresh, u)" for fresh u
    using exec_policy_from [OF that] k(1) returns_fresh_key by (auto simp: keyless_def)
  then have "returns serve (bindA (apiA (effective_policy_from (gr_api_reader R) g)) (\<lambda>fresh.
      if ep_vanity_prefix fresh \<noteq> [] then run_vanity_harvest R g (ep_vanity_prefix fresh)
      else if parse_bool (gw_annotation g await_vanity_annotation) then okA (g, AwaitingVanityPolicy)
      else fresh_key_secret V g)) w"
    by (intro returns_bindA) (simp_all add: returns_policy_from exec_wrapA_ok)
  then show ?thesis
    unfolding ensure_key_secret_def by (subst returns_get(2) [OF none]) (simp add: k(2))
qed

lemma returns_mode_a:
  assumes "look w (gateway_place g) = Some (OGateway g)" "holds_key (look w) g kp \<or> keyless (look w) g"
    and "images_set R" "valid_levels (look w) g" "unlocked (look w) g"
    and V: "\<And>xs. mset (ev_order V xs) = mset xs" "\<And>s. length (ev_bm V s) = 32"
  shows "returns serve (reconcile_mode_a V R g) w"
proof -
  have "returns serve (find_effective_policy g) w" by (simp add: find_effective_policy_def returns_policy_from)
  moreover have "returns serve (find_effective_client_auth g) u" for u
    unfolding find_effective_client_auth_def by (auto intro!: returns_bindA returns_list un_kinds)
  ultimately obtain policy u1 auth u2 where pol: "exec serve (find_effective_policy g) w = (Inr policy, u1)"
    "exec serve (find_effective_client_auth g) u1 = (Inr auth, u2)"
    by (meson returnsE)
  obtain ts cs where sel: "u2 = w" "lists_tsps (look w) g ts" "policy = from_tor_service_policy (select_tsp g ts)"
    using exec_policies [OF pol] by blast
  have ts: "OTsp t \<in> listed (look w) KTsp (Some (gw_ns g)) []" if "t \<in> set ts" for t
    using sel(2) that by (auto simp: lists_tsps_def)
  have "ep_vanity_prefix policy = []" if "keyless (look w) g"
    unfolding sel(3) using ts that by (intro selected_prefix) (auto simp: keyless_def)
  then have "returns serve (ensure_key_secret V R g policy) w"
    by (intro returns_key [OF assms(2)])
  then obtain g' outcome u3 where k: "exec serve (ensure_key_secret V R g policy) w = (Inr (g', outcome), u3)"
    by (auto elim: returnsE)
  obtain kp' where kp: "g' = g" "outcome = KeyReady kp'" "changes {key_place g} (look w) (look u3)"
    using exec_mode_a_key [OF k assms(2) sel(2,3) V(2)] by auto
  have "valid_log_level (ep_log_level policy)"
    unfolding sel(3) using ts assms(4) by (intro selected_level) (auto simp: valid_levels_def)
  then obtain c d where "build_torrc_config_map g policy auth (gr_testing_include R) = Inr c"
      "build_deployment g policy auth (gr_images R) = Inr d"
    using build_torrc_config_map_ok assms(3) by (fastforce simp: build_deployment_def Let_def images_set_def)
  moreover have "look u3 (gateway_place g) = Some (OGateway g)"
    using changes_look [OF kp(3), of "gateway_place g"] assms(1) by (simp add: gateway_place_def key_place_def)
  moreover have "unlocked (look u3) g"
    by (rule unlocked_smaller [OF assms(5)], rule disjI1, rule changes_look [OF kp(3)]) (auto simp: key_place_def)
  ultimately have "returns serve (provision_mode_a V R g policy auth kp') u3"
    by (intro returns_provision V(1))
  then obtain w' where "exec serve (provision_mode_a V R g policy auth kp') u3 = (Inr (), w')"
    by (auto elim: returnsE)
  with pol k kp(1,2) sel(1) show ?thesis
    by (intro returnsI [where x = "()" and u = w']) (auto simp: reconcile_mode_a_def exec_ok)
qed

end

context reliable_server
begin

lemma returns_labelled_roles: "returns serve (delete_labelled_roles g None) w"
  unfolding delete_labelled_roles_def delete_outside_def
  by (auto intro!: returns_bindA returns_list un_kinds returns_eachA simp: returns_delete)

lemma returns_update:
  assumes "look w (gateway_place g) = Some (OGateway g0)" "om_version (gw_meta g0) = om_version (gw_meta g)"
    and "\<not> om_deleting (gw_meta g)"
  shows "returns serve (write_gateway (Update (OGateway g))) w"
proof -
  obtain r w' where r: "serve w (Update (OGateway g)) = (r, w')" by (cases "serve w (Update (OGateway g))")
  then have "gateway_stored g r (look w) (look w')"
    using update_ok [OF assms(1,2)] update_law [OF assms(3) r] by simp
  then show ?thesis
    by (auto simp: returns_def write_gateway_def r gateway_stored_def un_gateway_def)
qed

lemma returns_cleanup:
  assumes "look w (gateway_place g) = Some (OGateway g)" "\<not> om_deleting (gw_meta g)"
  shows "returns serve (cleanup_mode_b_resources g) w"
proof -
  have "returns serve (delete_children g (mode_b_children g)) w"
    unfolding delete_children_def by (intro returns_eachA) (auto simp: returns_delete)
  then obtain u1 where u1: "exec serve (delete_children g (mode_b_children g)) w = (Inr (), u1)" by (auto elim: returnsE)
  have "look u1 = (\<lambda>x. if x \<in> (\<lambda>(k, n). (k, gw_ns g, n)) ` set (mode_b_children g) then None else look w x)"
    by (rule exec_delete_all [OF u1 [unfolded delete_children_def]]) (auto simp: mode_b_children_def)
  then have l1: "look u1 (gateway_place g) = Some (OGateway g)"
    using assms(1) by (auto simp: gateway_place_def mode_b_children_def)
  obtain u2 where u2: "exec serve (delete_labelled_roles g None) u1 = (Inr (), u2)"
    using returns_labelled_roles [of g u1] by (auto elim: returnsE)
  have l2: "look u2 (gateway_place g) = Some (OGateway g)"
    using exec_labelled_roles [OF u2] l1 changes_look [of _ "look u1" "look u2" "gateway_place g"]
    by (auto simp: gateway_place_def)
  have "returns serve (list_objs KSecret un_secret (Some (gw_ns g)) (backend_selector g)) u2"
    by (intro returns_list un_kinds)
  then obtain ss u3 where u3: "exec serve (list_objs KSecret un_secret (Some (gw_ns g)) (backend_selector g)) u2 = (Inr ss, u3)"
    by (rule returnsE)
  have "returns serve (eachA (\<lambda>s. apiA (delete_if_present KSecret (meta_key (sec_meta s)))) ss) u3"
    by (intro returns_eachA) (simp add: returns_delete)
  then obtain u4 where u4: "exec serve (eachA (\<lambda>s. apiA (delete_if_present KSecret (meta_key (sec_meta s)))) ss) u3 = (Inr (), u4)"
    by (auto elim: returnsE)
  have l4: "look u4 = (\<lambda>x. if x \<in> place ` listed (look u2) KSecret (Some (gw_ns g)) (backend_selector g) then None else look u2 x)"
    by (rule exec_sweep [OF u3 un_iff(4) u4]; simp)
  have "gateway_place g \<notin> place ` listed (look u2) KSecret (Some (gw_ns g)) (backend_selector g)"
    using listed_places [of u2 KSecret] unfolding gateway_place_def by blast
  then have "look u4 (gateway_place g) = Some (OGateway g)" unfolding l4 using l2 by simp
  then have "returns serve (write_gateway (Update (OGateway (drop_annotation k (drop_annotation k' g))))) u4" for k k'
    using assms(2) by (intro returns_update) (auto simp: drop_annotation_def gateway_place_def meta_key_def)
  then have "returns serve (if \<not> unannotated g
       then apiA (write_gateway (Update (OGateway (drop_annotation ann_pow_emitted (drop_annotation ann_last_replicas g)))))
       else okA g) u4" by simp
  then obtain g' w' where "exec serve (if \<not> unannotated g
       then apiA (write_gateway (Update (OGateway (drop_annotation ann_pow_emitted (drop_annotation ann_last_replicas g)))))
       else okA g) u4 = (Inr g', w')" by (rule returnsE)
  with u1 u2 u3 u4 have "exec serve (cleanup_mode_b_resources g) w = (Inr g', w')"
    unfolding cleanup_mode_b_resources_def annotated exec_bindA_ok exec_wrapA_ok by blast
  then show ?thesis by (rule returnsI)
qed

end

context defaulting
begin

lemma declared_fixed:
  "declared fill (ODeployment a) (ODeployment b) \<Longrightarrow> dep_selector b = dep_selector a"
  "rb_role_group r \<noteq> [] \<Longrightarrow> declared fill (ORoleBinding r) (ORoleBinding s) \<Longrightarrow>
     rb_role_group s = rb_role_group r \<and> rb_role_kind s = rb_role_kind r \<and> rb_role_name s = rb_role_name r"
  using fill_fixed(2) [of a] fill_fixed(3) [of r] by (auto simp: declared_def same_spec_def)

lemma done_unlocked:
  assumes "mode_a_done fill R L g kp"
  shows "unlocked L g"
proof -
  obtain policy auth c d where cd: "build_torrc_config_map g policy auth (gr_testing_include R) = Inr c"
    "build_deployment g policy auth (gr_images R) = Inr d" "list_all (\<lambda>x. settled fill x L) (mode_a_writes g c d)"
    using assms by (auto simp: mode_a_done_def provisioned_def)
  have d: "dep_selector d = child_labels (gw_name g)" "meta_key (dep_meta d) = (gw_ns g, deployment_name (gw_name g))"
    using cd(2) by (auto simp: build_deployment_def guardE_def child_meta_def meta_key_def Let_def split: if_splits)
  have "settled fill (WriteDeployment d) L" "settled fill (WriteRoleBinding (build_role_binding g)) L"
    using cd(3) by (simp_all add: mode_a_writes_def)
  then show ?thesis
    using declared_fixed(1) [of d] declared_fixed(2) [of "build_role_binding g"] d
    by (auto simp: unlocked_def settled_def write_place_meta build_role_binding_def bind_role_def Let_def child_meta_def
        meta_key_def)
qed

lemma done_deployment:
  assumes "mode_a_done fill R L g kp"
  shows "\<exists>d. L (KDeployment, gw_ns g, deployment_name (gw_name g)) = Some (ODeployment d)"
proof -
  obtain policy auth c d where cd: "build_deployment g policy auth (gr_images R) = Inr d"
    "list_all (\<lambda>x. settled fill x L) (mode_a_writes g c d)"
    using assms by (auto simp: mode_a_done_def provisioned_def)
  have "meta_key (dep_meta d) = (gw_ns g, deployment_name (gw_name g))"
    using cd(1) by (auto simp: build_deployment_def guardE_def child_meta_def meta_key_def Let_def split: if_splits)
  moreover have "settled fill (WriteDeployment d) L" using cd(2) by (simp add: mode_a_writes_def)
  then obtain ob where "L (write_place (WriteDeployment d)) = Some ob" "obj_kind ob = KDeployment"
    by (auto simp: settled_def declared_def)
  ultimately show ?thesis by (cases ob; simp add: write_place_meta)
qed

end

context reliable_server
begin

lemma returns_hold:
  assumes "managed (look w) g"
  shows "returns serve (hold_gateway g) w"
  unfolding hold_gateway_def
  using assms by (auto intro!: returns_update [where ?g0.0 = g] simp: managed_def set_finalizers_def gateway_place_def meta_key_def)

lemma returns_reconcile:
  assumes g: "for_mode_a (look w) g" and key: "holds_key (look w) g kp0 \<or> keyless (look w) g"
    and R: "images_set R" "valid_levels (look w) g" "unlocked (look w) g"
    and V: "\<And>xs. mset (ev_order V xs) = mset xs" "\<And>s. length (ev_bm V s) = 32"
  shows "returns serve (gateway_reconcile V R (meta_key (gw_meta g))) w"
proof -
  have here: "look w (KGateway, meta_key (gw_meta g)) = Some (OGateway g)" "\<not> om_deleting (gw_meta g)"
    using g by (auto simp: for_mode_a_def managed_def gateway_place_def)
  obtain g1 u1 where u1: "exec serve (hold_gateway g) w = (Inr g1, u1)"
    using returns_hold [OF for_mode_a_managed [OF g]] by (rule returnsE)
  note hold = exec_hold [OF u1 for_mode_a_managed [OF g]]
  have p1: "gateway_place g1 = gateway_place g" "gw_ns g1 = gw_ns g" "gw_name g1 = gw_name g" "\<not> om_deleting (gw_meta g1)"
    using hold here(2) by (auto simp: same_core_def gateway_place_def meta_key_def)
  have "returns serve (find_effective_onion_balance g1) u1"
    unfolding find_effective_onion_balance_def by (auto intro!: returns_bindA returns_list un_kinds)
  then obtain po v where po: "exec serve (find_effective_onion_balance g1) u1 = (Inr po, v)" by (rule returnsE)
  have "listed (look u1) KObp (Some (gw_ns g)) [] = listed (look w) KObp (Some (gw_ns g)) []"
    by (rule listed_changes [where K = "{gateway_place g}"]) (use hold in \<open>auto simp: gateway_place_def\<close>)
  then have po: "exec serve (find_effective_onion_balance g1) u1 = (Inr None, u1)"
    using exec_no_pool [OF po] g po by (auto simp: p1 for_mode_a_def managed_def)
  have here1: "look u1 (gateway_place g1) = Some (OGateway g1)" using hold by (simp add: p1)
  obtain g2 u2 where u2: "exec serve (cleanup_mode_b_resources g1) u1 = (Inr g2, u2)"
    using returns_cleanup [OF here1 p1(4)] by (rule returnsE)
  note cl = exec_cleanup_mode_b [OF u2 here1 p1(4)]
  have kb: "same_core g g1" "changes {gateway_place g} (look w) (look u1)"
    "changes (mode_b_reach (look u1) g1) (look u1) (look u2)" "same_core g1 g2"
    using hold cl by simp_all
  note before = key_before [OF kb key]
  have "meta_key (gw_meta g2) = meta_key (gw_meta g)" using before(1) by (simp add: same_core_def)
  then have "gw_ns g2 = gw_ns g" "gateway_place g2 = gateway_place g1"
    using p1(1) by (simp_all add: gateway_place_def meta_key_def)
  then have "valid_levels (look u2) g2" "look u2 (gateway_place g2) = Some (OGateway g2)"
    using R(2) before(3) cl by (simp_all add: valid_levels_def)
  moreover have "unlocked (look u2) g2"
  proof -
    have "look u2 x = look w x \<or> look u2 x = None" if "fst x \<in> {KDeployment, KRoleBinding}" for x
    proof -
      have "x \<noteq> gateway_place g" using that by (auto simp: gateway_place_def)
      then have "look u1 x = look w x" "x \<noteq> gateway_place g1" using hold p1(1) changes_look [of "{gateway_place g}"] by auto
      then show ?thesis using cleanup_only_deletes [OF u2 p1(4)] by metis
    qed
    from unlocked_smaller [OF R(3) this] show ?thesis
      using \<open>meta_key (gw_meta g2) = meta_key (gw_meta g)\<close> by (simp add: unlocked_def meta_key_def)
  qed
  ultimately obtain w' where
    "exec serve (reconcile_mode_a V R g2) u2 = (Inr (), w')"
    using returns_mode_a [OF _ before(4) R(1) _ _ V] by (auto elim: returnsE)
  then have "exec serve (reconcile_managed V R g1) u1 = (Inr (), w')"
    using po u2 by (auto simp: reconcile_managed_def exec_ok)
  then have "exec serve (bindA (apiA (hold_gateway g)) (\<lambda>g'. reconcile_managed V R g')) w = (Inr (), w')"
    using u1 by (auto simp: exec_ok)
  then have "exec serve (gateway_reconcile V R (meta_key (gw_meta g))) w = (Inr (), w')"
    using exec_class [OF for_mode_a_managed [OF g]] here
    by (simp add: gateway_reconcile_def exec_bindP exec_get un_gateway_def exec_bindA exec_wrapA)
  then show ?thesis by (rule returnsI)
qed

end

interpretation store: reliable_server usual_defaults store_serve store_look
proof
  fix w and f :: "obj \<Rightarrow> obj" and k n
  assume "place (f (existing (store_look w) (k, n))) = (k, n)"
    "alterable (store_look w (k, n)) (usual_defaults (f (existing (store_look w) (k, n))))"
  then show "succeeded (fst (store_serve w (Upsert k n f)))"
    by (simp add: succeeded_def Let_def)
qed (auto simp: succeeded_def Let_def store_gateway_def)

subsection \<open>Mode A\<close>


text \<open>A cluster with a Gateway, its class, and a Service that a pool left behind.\<close>

definition calm_env :: env where
  "calm_env = \<lparr>ev_bm = (\<lambda>_. replicate 32 7), ev_order = (\<lambda>xs. xs), ev_now = 1, ev_text = (\<lambda>_. [])\<rparr>"

definition sample_store :: store where
  "sample_store =
     \<lparr>st_objects = [OGateway (sample_gateway ''shop''),
        OGatewayClass \<lparr>gc_name = ''tor'', gc_generation = 1, gc_controller = controller_name, gc_conditions = []\<rparr>,
        OService \<lparr>svc_meta = bare_meta ''web'' ''shop-backends'' [], svc_cluster_ip = [], svc_selector = [], svc_ports = []\<rparr>],
      st_clock = 1, st_random = []\<rparr>"

lemma sample_store_ready:
  "for_mode_a (store_look sample_store) (sample_gateway ''shop'')" "keyless (store_look sample_store) (sample_gateway ''shop'')"
  "images_set sample_reconciler" "valid_levels (store_look sample_store) (sample_gateway ''shop'')"
  "unlocked (store_look sample_store) (sample_gateway ''shop'')" "mset (ev_order calm_env xs) = mset xs" "length (ev_bm calm_env b) = 32"
proof -
  have none: "listed (store_look sample_store) k ns ls = {}" if "k \<notin> {KGateway, KGatewayClass, KService}" for k ns ls
    using that
    by (auto simp: listed_def store_look_def sample_store_def find_Some_iff place_def nth_Cons split: nat.splits)
  show "for_mode_a (store_look sample_store) (sample_gateway ''shop'')"
    using none [of KObp]
    by (simp add: for_mode_a_def managed_def gateway_place_def) (simp add: store_look_def sample_store_def place_def
        sample_gateway_def bare_meta_def meta_key_def)
  show "keyless (store_look sample_store) (sample_gateway ''shop'')"
    using none [of KTsp]
    by (simp add: keyless_def key_place_def) (simp add: store_look_def sample_store_def place_def
        sample_gateway_def bare_meta_def gw_annotation_def map_index_def parse_bool_def)
  show "images_set sample_reconciler" by (simp add: images_set_def sample_reconciler_def sample_images_def)
  show "valid_levels (store_look sample_store) (sample_gateway ''shop'')"
    using none [of KTsp] by (simp add: valid_levels_def)
  show "unlocked (store_look sample_store) (sample_gateway ''shop'')"
    by (simp add: unlocked_def store_look_def sample_store_def place_def)
qed (simp_all add: calm_env_def)


lemma sample_done:
  "\<exists>w h kp. exec store_serve (gateway_reconcile calm_env sample_reconciler (''web'', ''shop'')) sample_store = (Inr (), w)
    \<and> mode_a_done usual_defaults sample_reconciler (store_look w) h kp \<and> for_mode_a (store_look w) h \<and> valid_levels (store_look w) h
    \<and> meta_key (gw_meta h) = (''web'', ''shop'')"
proof -
  let ?g = "sample_gateway ''shop''" and ?L = "store_look sample_store"
  have key: "meta_key (gw_meta ?g) = (''web'', ''shop'')" by (simp add: meta_key_def)
  obtain w where run: "exec store_serve (gateway_reconcile calm_env sample_reconciler (''web'', ''shop'')) sample_store = (Inr (), w)"
    using store.returns_reconcile [OF sample_store_ready(1) disjI2 [OF sample_store_ready(2)] sample_store_ready(3-7)]
    unfolding key by (auto elim: returnsE)
  obtain h kp where h: "mode_a_done usual_defaults sample_reconciler (store_look w) h kp" "same_core ?g h"
    "changes (mode_a_reach ?L ?g) ?L (store_look w)"
    using store.exec_reconcile_mode_a [OF _ sample_store_ready(1) disjI2 [OF sample_store_ready(2)] sample_store_ready(6,7),
        unfolded key, OF run] by blast
  have inputs: "store_look w (k, n) = ?L (k, n)" if "k \<in> {KGatewayClass, KObp, KTsp}" for k n
  proof (rule changes_look [OF h(3)])
    show "(k, n) \<notin> mode_a_reach ?L ?g"
      using that store.mode_b_reach_kinds [of "(k, n)" sample_store ?g]
      by (auto simp: mode_a_reach_def mode_a_places_def key_place_def egress_place_def mode_b_kinds_def)
  qed
  have "for_mode_a (store_look w) h" "valid_levels (store_look w) h"
    using h(1,2) sample_store_ready(1,4) inputs
    by (auto simp: for_mode_a_def managed_def valid_levels_def mode_a_done_def same_core_def listed_def meta_key_def)
  with run h(1,2) show ?thesis unfolding same_core_def key by blast
qed



end
