(* ===== verification/Watches.thy ===== *)
theory Watches
  imports Progress
begin

text \<open>
  What wakes a controller up: the registrations of the six controllers (\<open>SetupWithManager\<close> in each file of
  \<open>internal/controller\<close>), and which objects are reconciled after an event on an object. A kind is
  registered with \<open>For\<close> (the object itself), \<open>Owns\<close> (the controller among its owners) or \<open>Watches\<close> (what a
  function computes). The property says that a change of a child wakes its Gateway up, and that the
  reconcile undoes it.
\<close>

subsection \<open>Registrations\<close>

record watch_setup =
  ws_name :: string
  ws_for :: kind
  ws_owns :: "kind list"
  ws_watches :: "(kind \<times> (obj \<Rightarrow> nsname list prog)) list"

text \<open>A mapping function gets an object of its kind; on any other the source returns nothing.\<close>

definition mapped :: "(obj \<Rightarrow> 'a option) \<Rightarrow> ('a \<Rightarrow> nsname list prog) \<Rightarrow> obj \<Rightarrow> nsname list prog" where
  "mapped un f ob = (case un ob of None \<Rightarrow> Ret [] | Some x \<Rightarrow> f x)"

definition gateway_setup :: watch_setup where
  "gateway_setup = \<lparr>ws_name = ''gateway'', ws_for = KGateway,
     ws_owns = [KDeployment, KStatefulSet, KConfigMap, KService, KSecret, KServiceAccount, KRole, KRoleBinding,
       KJob, KNetworkPolicy],
     ws_watches =
       [(KTsp, mapped un_tsp (\<lambda>p. Ret (gateways_for_service_policy p))),
        (KTcap, mapped un_tcap (\<lambda>p. Ret (gateways_for_client_auth_policy p))),
        (KObp, mapped un_obp (\<lambda>p. Ret (gateways_for_onion_balance_policy p))),
        (KRoute, mapped un_route (\<lambda>rt. Ret (gateways_for_http_route rt)))]\<rparr>"

definition httproute_setup :: watch_setup where
  "httproute_setup = \<lparr>ws_name = ''httproute'', ws_for = KRoute, ws_owns = [],
     ws_watches = [(KGrant, mapped un_grant httproutes_for_reference_grant)]\<rparr>"

definition gatewayclass_setup :: watch_setup where
  "gatewayclass_setup = \<lparr>ws_name = ''gatewayclass'', ws_for = KGatewayClass, ws_owns = [], ws_watches = []\<rparr>"

definition tsp_setup :: watch_setup where
  "tsp_setup = \<lparr>ws_name = ''torservicepolicy'', ws_for = KTsp, ws_owns = [], ws_watches = []\<rparr>"

definition tcap_setup :: watch_setup where
  "tcap_setup = \<lparr>ws_name = ''torclientauthpolicy'', ws_for = KTcap, ws_owns = [], ws_watches = []\<rparr>"

definition obp_setup :: watch_setup where
  "obp_setup = \<lparr>ws_name = ''onionbalancepolicy'', ws_for = KObp, ws_owns = [],
     ws_watches =
       [(KSecret, mapped un_secret obps_for_secret), (KGateway, mapped un_gateway obps_for_gateway),
        (KGrant, mapped un_grant obps_for_reference_grant), (KTsp, mapped un_tsp obps_for_tor_service_policy)]\<rparr>"

subsection \<open>Requests\<close>

text \<open>\<open>Owns\<close> follows the first owner marked as controller, when it is of the kind of \<open>For\<close>, in the
  namespace of the object. An update is an event on the old object and on the new one, a deletion on the
  last known one.\<close>

definition controller_request :: "obj \<Rightarrow> nsname list" where
  "controller_request ob =
     (case find (\<lambda>r. ow_controller r = Some True) (om_owners (meta_of ob)) of
        None \<Rightarrow> []
      | Some r \<Rightarrow> if ow_kind r = gateway_kind then [(om_ns (meta_of ob), ow_name r)] else [])"

definition requests :: "watch_setup \<Rightarrow> obj \<Rightarrow> nsname list prog" where
  "requests s ob =
     (if obj_kind ob = ws_for s then Ret [obj_key ob]
      else if obj_kind ob \<in> set (ws_owns s) then Ret (controller_request ob)
      else case map_of (ws_watches s) (obj_kind ob) of None \<Rightarrow> Ret [] | Some f \<Rightarrow> f ob)"

lemma gateway_requests [simp]:
  "requests gateway_setup (OGateway g) = Ret [meta_key (gw_meta g)]"
  "requests gateway_setup (OTsp t) = Ret (gateways_for_service_policy t)"
  "requests gateway_setup (OTcap c) = Ret (gateways_for_client_auth_policy c)"
  "requests gateway_setup (OObp p) = Ret (gateways_for_onion_balance_policy p)"
  "requests gateway_setup (ORoute rt) = Ret (gateways_for_http_route rt)"
  by (simp_all add: requests_def gateway_setup_def mapped_def un_defs)

text \<open>A Gateway is not reconciled when its class or a ReferenceGrant changes, although its reconcile reads
  both; policies and routes are not when the Gateway they name appears.\<close>

lemma not_watched:
  "requests gateway_setup (OGrant rg) = Ret []" "requests gateway_setup (OGatewayClass gc) = Ret []"
  "requests tsp_setup (OGateway g) = Ret []" "requests tcap_setup (OGateway g) = Ret []"
  "requests httproute_setup (OGateway g) = Ret []" "requests gatewayclass_setup (OGateway g) = Ret []"
  by (simp_all add: requests_def gateway_setup_def tsp_setup_def tcap_setup_def httproute_setup_def
      gatewayclass_setup_def)

lemma pool_requests:
  "requests obp_setup (OSecret s) = obps_for_secret s" "requests obp_setup (OGateway g) = obps_for_gateway g"
  "requests obp_setup (OGrant rg) = obps_for_reference_grant rg"
  "requests obp_setup (OTsp t) = obps_for_tor_service_policy t"
  "requests httproute_setup (OGrant rg) = httproutes_for_reference_grant rg"
  by (simp_all add: requests_def obp_setup_def httproute_setup_def mapped_def un_defs)

subsection \<open>Children wake their Gateway\<close>

lemma owned_requests:
  assumes "obj_kind ob \<in> set (ws_owns gateway_setup)" "om_owners (meta_of ob) = [controller_reference g]"
    and "om_ns (meta_of ob) = gw_ns g"
  shows "requests gateway_setup ob = Ret [meta_key (gw_meta g)]"
proof -
  have "obj_kind ob \<noteq> KGateway" using assms(1) by (auto simp: gateway_setup_def)
  with assms show ?thesis
    by (simp add: requests_def controller_request_def controller_reference_def gateway_setup_def meta_key_def
        gateway_kind_def)
qed

lemma settled_owners:
  assumes "settled fill x L" "L (write_place x) = Some ob"
  shows "om_owners (meta_of ob) = om_owners (meta_of (wanted x))" "obj_kind ob = obj_kind (wanted x)"
  using assms by (auto simp: settled_def declared_def)

definition child_places :: "gateway \<Rightarrow> (kind \<times> nsname) set" where
  "child_places g = insert (egress_place g) (mode_a_places g)"

lemma meta_of_key: "obj_kind ob \<notin> {KGatewayClass, KRoute, KGrant} \<Longrightarrow> obj_key ob = meta_key (meta_of ob)"
  by (cases ob) simp_all

lemma child_kinds: "x \<in> child_places g \<Longrightarrow> fst x \<in> set (ws_owns gateway_setup) \<and> fst (snd x) = gw_ns g"
  by (auto simp: child_places_def mode_a_places_def egress_place_def gateway_setup_def)

lemma mode_a_owners:
  assumes "build_torrc_config_map g policy auth inc = Inr c" "build_deployment g policy auth im = Inr d"
    and "x \<in> set (mode_a_writes g c d)"
  shows "om_owners (meta_of (wanted x)) = [controller_reference g]"
  using assms by (auto simp: mode_a_writes_def child_facts child_meta_def)

context api_server
begin

lemma child_requests:
  assumes "mode_a_done fill R (look w) g kp" "x \<in> child_places g" "look w x = Some ob"
  shows "requests gateway_setup ob = Ret [meta_key (gw_meta g)]"
proof (rule owned_requests)
  have at: "place ob = x" using placed_law [of w "fst x" "snd x" ob] assms(3) by (simp add: place_def)
  then show kind: "obj_kind ob \<in> set (ws_owns gateway_setup)"
    using child_kinds [OF assms(2)] by (auto simp: place_def)
  then have "obj_key ob = meta_key (meta_of ob)" by (intro meta_of_key) (auto simp: gateway_setup_def)
  then show "om_ns (meta_of ob) = gw_ns g"
    using at child_kinds [OF assms(2)] by (auto simp: place_def meta_key_def)
  show "om_owners (meta_of ob) = [controller_reference g]"
  proof (cases "x = egress_place g")
    case True
    then show ?thesis
      using assms(1,3) by (auto simp: mode_a_done_def egress_settled_def split: if_splits)
  next
    case False
    obtain policy auth c d where cd: "build_torrc_config_map g policy auth (gr_testing_include R) = Inr c"
      "build_deployment g policy auth (gr_images R) = Inr d" "list_all (\<lambda>x. settled fill x (look w)) (mode_a_writes g c d)"
      using assms(1) by (auto simp: mode_a_done_def provisioned_def)
    have "x \<in> write_place ` set (mode_a_writes g c d)"
      unfolding mode_a_places(1) [OF cd(1,2)] using assms(2) False by (simp add: child_places_def)
    with cd(3) obtain y where "y \<in> set (mode_a_writes g c d)" "write_place y = x" "settled fill y (look w)"
      by (auto simp: list_all_iff)
    then show ?thesis
      using settled_owners(1) [of fill y "look w" ob] mode_a_owners [OF cd(1,2)] assms(3) by simp
  qed
qed

lemma untouched_inputs:
  assumes "changes (child_places g) (look w) L"
  shows "for_mode_a L g = for_mode_a (look w) g" "holds_key L g kp = holds_key (look w) g kp"
    "valid_levels L g = valid_levels (look w) g"
proof -
  have kinds: "(k, n) \<notin> child_places g" if "k \<in> {KGateway, KGatewayClass, KObp, KTsp, KSecret}" for k n
    using that by (auto simp: child_places_def mode_a_places_def egress_place_def)
  then have same: "L (k, n) = look w (k, n)" if "k \<in> {KGateway, KGatewayClass, KObp, KTsp, KSecret}" for k n
    using that changes_look [OF assms] by blast
  show "for_mode_a L g = for_mode_a (look w) g" "valid_levels L g = valid_levels (look w) g"
    by (simp_all add: for_mode_a_def managed_def valid_levels_def listed_def gateway_place_def same)
  show "holds_key L g kp = holds_key (look w) g kp"
    by (rule holds_key_changes [OF assms]) (simp add: key_place_def kinds)
qed

end


text \<open>Somebody scales the Deployment up and empties its pods.\<close>

definition spoil :: "deployment \<Rightarrow> deployment" where
  "spoil d = d\<lparr>dep_replicas := 7, dep_pod := no_pod\<rparr>"


end
