(* ===== verification/Gateway_Safety.thy ===== *)
theory Gateway_Safety
  imports Gateway_Calls
begin

text \<open>
  The Gateway controller's safety: where it writes, that a key once made stays, that it does not fall
  back to a single pod while a pool is intended, and that it lets go of a Gateway only after the
  clean-up. Two instances of the contract of \<open>Gateway_Calls\<close> carry the first two.
\<close>

subsection \<open>A server that answers by name\<close>

text \<open>
  Documented behaviour of the API server: a read of a name, and a write, are answered with an object
  of that name; a listing holds objects of the wanted namespace that carry the wanted labels. \<open>G\<close> is
  the set of ReferenceGrants of each namespace, \<open>uid\<close> the uid of the Gateway \<open>key\<close>.
\<close>

definition api_world ::
    "(string \<Rightarrow> reference_grant list) \<Rightarrow> (kind \<Rightarrow> nsname \<Rightarrow> string gomap \<Rightarrow> bool) \<Rightarrow> nsname \<Rightarrow> string \<Rightarrow>
     call \<Rightarrow> answer \<Rightarrow> bool" where
  "api_world G carries key uid c r \<longleftrightarrow>
     grants_are G c r \<and>
     (\<forall>k n ob. c = Get k n \<and> r = Object ob \<longrightarrow> obj_key ob = n) \<and>
     (\<forall>x ob. (c = Update x \<or> c = PatchMeta x) \<and> r = Object ob \<longrightarrow> obj_key ob = obj_key x) \<and>
     (\<forall>g. r = Object (OGateway g) \<and> obj_key (OGateway g) = key \<longrightarrow> gw_uid g = uid) \<and>
     (\<forall>k ns ls obs ob. c = ListObjs k ns ls \<and> r = Objects obs \<and> ob \<in> set obs \<longrightarrow>
        carries k (obj_key ob) ls \<and> (\<forall>n. ns = Some n \<longrightarrow> fst (obj_key ob) = n))"

definition the_gateway :: "nsname \<Rightarrow> string \<Rightarrow> gateway \<Rightarrow> bool" where
  "the_gateway key uid g \<longleftrightarrow> meta_key (gw_meta g) = key \<and> gw_uid g = uid"

subsection \<open>Where the controller writes\<close>

text \<open>The names a Gateway's children have.\<close>

definition in_reach :: "nsname \<Rightarrow> nsname \<Rightarrow> bool" where
  "in_reach key n \<longleftrightarrow> fst n = fst key \<and> (snd n = snd key \<or> has_prefix (snd n) (snd key @ ''-''))"

text \<open>The one kind of object outside the Gateway's namespace: the role that lets the frontend read a
  master key whose namespace grants it.\<close>

definition granted_role :: "(string \<Rightarrow> reference_grant list) \<Rightarrow> nsname \<Rightarrow> kind \<Rightarrow> nsname \<Rightarrow> bool" where
  "granted_role G key k n \<longleftrightarrow>
     k \<in> {KRole, KRoleBinding} \<and> snd n = snd key @ ''-frontend-master-fetch'' \<and>
     (\<exists>p. om_ns (obp_meta p) = fst key \<and> grants_master p (G (fst n)))"

fun confined ::
    "(string \<Rightarrow> reference_grant list) \<Rightarrow> (kind \<Rightarrow> nsname \<Rightarrow> string gomap \<Rightarrow> bool) \<Rightarrow> nsname \<Rightarrow> string \<Rightarrow>
     call \<Rightarrow> bool" where
  "confined G carries key uid (Create ob) \<longleftrightarrow>
     obj_kind ob \<in> {KSecret, KJob} \<and> in_reach key (obj_key ob) \<and> owned_obj uid ob"
| "confined G carries key uid (Update ob) \<longleftrightarrow> obj_kind ob = KGateway \<and> obj_key ob = key"
| "confined G carries key uid (StatusUpdate ob) \<longleftrightarrow> obj_kind ob = KGateway \<and> obj_key ob = key"
| "confined G carries key uid (PatchMeta ob) \<longleftrightarrow> obj_kind ob = KGateway \<and> obj_key ob = key"
| "confined G carries key uid (Upsert k n f) \<longleftrightarrow>
     in_reach key n \<and> makes_owned uid k f \<or> granted_role G key k n"
| "confined G carries key uid (Delete k n) \<longleftrightarrow>
     in_reach key n \<or>
     k \<in> {KRole, KRoleBinding} \<and> carries k n
       [(''app.kubernetes.io/managed-by'', ''tor-gateway''), (''torgateway.io/owner-uid'', uid)] \<or>
     k = KSecret \<and> fst n = fst key \<and>
       carries k n [(gateway_label_key, snd key), (''torgateway.io/role'', ''backend'')]"
| "confined G carries key uid (RecordEvent n reason) \<longleftrightarrow> n = key"
| "confined G carries key uid _ \<longleftrightarrow> True"

lemma the_gateway_key: "the_gateway key uid g \<Longrightarrow> key = (gw_ns g, gw_name g) \<and> uid = gw_uid g"
  by (auto simp: the_gateway_def meta_key_def)

lemma in_reach_child: "child_name g n \<Longrightarrow> in_reach (gw_ns g, gw_name g) (gw_ns g, n)"
  by (simp add: in_reach_def child_name_def)

interpretation confined: gateway_mode_b_calls "api_world G carries key uid" "confined G carries key uid"
  "the_gateway key uid" "\<lambda>g p. om_ns (obp_meta p) = gw_ns g" for G carries key uid
proof
  note [simp] = the_gateway_def meta_key_def
  show "the_gateway key uid g'" if "the_gateway key uid g" "same_gateway g g'" for g g'
    using that by (simp add: same_gateway_def)
  show "confined G carries key uid c" if "is_read c" for c
    using that by (cases c) simp_all
  show "confined G carries key uid (RecordEvent (meta_key (gw_meta g)) reason)"
    if "the_gateway key uid g" for g reason
    using that by simp
  show "confined G carries key uid (Upsert k (gw_ns g, n) f)"
    if "the_gateway key uid g" "child_name g n" "makes_owned (gw_uid g) k f" for g k n f
    using that by (auto dest!: the_gateway_key intro: in_reach_child)
  show "confined G carries key uid (Delete k (gw_ns g, n))"
    if "the_gateway key uid g" "child_name g n" for g k n
    using that by (auto dest!: the_gateway_key intro: in_reach_child)
  show "confined G carries key uid (Delete k (obj_key ob))"
    if "the_gateway key uid g" "k \<in> {KRole, KRoleBinding}"
      "api_world G carries key uid (ListObjs k None (owner_uid_labels g)) (Objects obs)" "ob \<in> set obs"
    for g k obs ob
    using that by (auto simp: api_world_def owner_uid_labels_def)
  show "confined G carries key uid (Delete KSecret (obj_key ob))"
    if "the_gateway key uid g"
      "api_world G carries key uid (ListObjs KSecret (Some (gw_ns g)) (backend_selector g)) (Objects obs)"
      "ob \<in> set obs" for g obs ob
    using that by (auto simp: api_world_def backend_selector_def)
  show w: "confined G carries key uid c" if "the_gateway key uid g" "gateway_write g c" for g c
    using that by (auto simp: gateway_write_def same_gateway_def)
  show "the_gateway key uid g'" if "the_gateway key uid g" "gateway_write g c"
    "api_world G carries key uid c (Object (OGateway g'))" for g c g'
    using that by (auto simp: gateway_write_def same_gateway_def api_world_def)
  show "om_ns (obp_meta p) = gw_ns g" if "api_world G carries key uid (ListObjs KObp (Some (gw_ns g)) []) (Objects obs)"
    "OObp p \<in> set obs" for g obs p
    using that by (fastforce simp: api_world_def)
  show "confined G carries key uid Entropy" by simp
  show "confined G carries key uid (Upsert KSecret (gw_ns g, backend_key_secret_name g i)
      (put_backend_secret (backend_key_secret g i d)))" if "the_gateway key uid g" for g i d
    using that by (auto dest!: the_gateway_key intro: in_reach_child
        simp: child_facts backend_key_secret_def)
  show "confined G carries key uid (Create ob)" if "the_gateway key uid g" "own_creation g ob" for g ob
    using that by (cases "obj_key ob") (auto simp: own_creation_def dest!: the_gateway_key intro: in_reach_child)
  show "confined G carries key uid (Delete KSecret (gw_ns g, n))" if "the_gateway key uid g" "child_name g n" for g n
    using that by (auto dest!: the_gateway_key intro: in_reach_child)
  show "confined G carries key uid (Upsert k (sr_namespace (obp_master_key (obp_spec p)), cross_ns_master_role_name g) f)"
    if "the_gateway key uid g" "om_ns (obp_meta p) = gw_ns g"
      "api_world G carries key uid (ListObjs KGrant (Some (sr_namespace (obp_master_key (obp_spec p)))) []) (Objects obs)"
      "those (map un_grant obs) = Some gs" "grants_master p gs" "k \<in> {KRole, KRoleBinding}" for g p obs gs k f
  proof -
    have "decode_list un_grant (Objects obs) = Inr (G (sr_namespace (obp_master_key (obp_spec p))))"
      using that(3) by (simp add: api_world_def grants_are_def)
    then have "gs = G (sr_namespace (obp_master_key (obp_spec p)))"
      using that(4) by (simp add: decode_list_def)
    with that show ?thesis
      by (auto simp: granted_role_def cross_ns_master_role_name_def frontend_name_def)
  qed
  show "confined G carries key uid (StatusUpdate (OGateway g'))" if "the_gateway key uid g" "same_gateway g g'" for g g'
    using that by (simp add: same_gateway_def)
  show "the_gateway key uid g' \<and> same_gateway g g'" if "the_gateway key uid g"
    "api_world G carries key uid (Get KGateway (meta_key (gw_meta g))) (Object (OGateway g'))" for g g'
    using that by (auto simp: api_world_def same_gateway_def)
  show "obj_key ob = n" if "api_world G carries key uid (Get k n) (Object ob)" for k n ob
    using that unfolding api_world_def by blast
qed

text \<open>
  C1: The controller writes only where it may. Whatever a server that answers by name does, every call
  of a reconcile of Gateway \<open>key\<close> reads, or writes the Gateway itself, or writes a child of the
  Gateway's namespace whose name starts with the Gateway's and leaves it owned by the Gateway, so that
  deleting the Gateway collects it; or writes the role pair of the frontend in a namespace whose
  ReferenceGrants admit the master key's policy; and it deletes only children by name, roles labelled
  with the Gateway's uid, and Secrets labelled as backend keys of the Gateway.
\<close>

theorem gateway_writes_confined:
  "always (api_world G carries key uid) (confined G carries key uid) every (gateway_reconcile V R key)"
  by (rule gives_always, rule confined.gives_reconcile)
    (auto simp: api_world_def the_gateway_def simp del: split_paired_All)

subsection \<open>A key that exists stays\<close>

text \<open>
  The same server, in Mode A and with a key: no OnionBalancePolicy targets the Gateway, the key Secret
  is \<open>s\<close>, and it is not labelled as a backend key.
\<close>

definition key_name :: "nsname \<Rightarrow> nsname" where
  "key_name key = (fst key, key_secret_name (snd key))"

definition key_world ::
    "(string \<Rightarrow> reference_grant list) \<Rightarrow> (kind \<Rightarrow> nsname \<Rightarrow> string gomap \<Rightarrow> bool) \<Rightarrow> nsname \<Rightarrow> string \<Rightarrow>
     secret \<Rightarrow> call \<Rightarrow> answer \<Rightarrow> bool" where
  "key_world G carries key uid s c r \<longleftrightarrow>
     api_world G carries key uid c r \<and>
     (c = Get KSecret (key_name key) \<longrightarrow> r = Object (OSecret s)) \<and>
     \<not> carries KSecret (key_name key) [(gateway_label_key, snd key), (''torgateway.io/role'', ''backend'')] \<and>
     (\<forall>obs p. c = ListObjs KObp (Some (fst key)) [] \<and> r = Objects obs \<and> OObp p \<in> set obs \<longrightarrow>
        \<not> policy_targets (obp_target_refs (obp_spec p)) (snd key))"

definition secret_key_pair :: "secret \<Rightarrow> (key_error, key_pair) result" where
  "secret_key_pair s = parse_files (data_entry (sec_data s) file_secret_key_name)
     (data_entry (sec_data s) file_public_key_name)"

fun keeps_key :: "nsname \<Rightarrow> secret \<Rightarrow> call \<Rightarrow> bool" where
  "keeps_key key s (Create ob) \<longleftrightarrow> False"
| "keeps_key key s (Update ob) \<longleftrightarrow> obj_kind ob = KGateway"
| "keeps_key key s (PatchMeta ob) \<longleftrightarrow> obj_kind ob = KGateway"
| "keeps_key key s (StatusUpdate ob) \<longleftrightarrow> (\<exists>g kp. ob = OGateway g \<and> secret_key_pair s = Inr kp \<and>
     gw_addresses g = [onion_status_address (onion_string (key_onion_address kp))])"
| "keeps_key key s (Upsert k n f) \<longleftrightarrow> k \<noteq> KSecret"
| "keeps_key key s (Delete k n) \<longleftrightarrow> (k, n) \<noteq> (KSecret, key_name key)"
| "keeps_key key s Entropy \<longleftrightarrow> False"
| "keeps_key key s _ \<longleftrightarrow> True"

lemma key_world_api: "key_world G carries key uid s c r \<Longrightarrow> api_world G carries key uid c r"
  by (simp add: key_world_def)

interpretation kept: gateway_calls "key_world G carries key uid s" "keeps_key key s" "the_gateway key uid"
  for G carries key uid s
proof
  show "the_gateway key uid g'" if "the_gateway key uid g" "same_gateway g g'" for g g'
    using that by (rule confined.same_current)
  show "keeps_key key s c" if "is_read c" for c
    using that by (cases c) simp_all
  show "keeps_key key s c" if "gateway_write g c" for g c
    using that by (auto simp: gateway_write_def)
  show "the_gateway key uid g'" if "the_gateway key uid g" "gateway_write g c"
    "key_world G carries key uid s c (Object (OGateway g'))" for g c g'
    using that confined.written_current key_world_api by metis
  show "keeps_key key s (Delete KSecret (obj_key ob))"
    if "the_gateway key uid g" "ob \<in> set obs"
      "key_world G carries key uid s (ListObjs KSecret (Some (gw_ns g)) (backend_selector g)) (Objects obs)"
    for g obs ob
    using that by (auto simp: key_world_def api_world_def backend_selector_def dest!: the_gateway_key)
qed auto

lemma kept_key:
  assumes "the_gateway key uid g"
  shows "gives (key_world G carries key uid s) (keeps_key key s)
    (\<lambda>(g', out). g' = g \<and> (\<exists>kp. out = KeyReady kp \<and> secret_key_pair s = Inr kp)) (ensure_key_secret V R g policy)"
proof -
  have get: "r = Object (OSecret s)"
    if "key_world G carries key uid s (Get KSecret (gw_ns g, key_secret_name (gw_name g))) r" for r
    using that the_gateway_key [OF assms] by (simp add: key_world_def key_name_def)
  have got: "always (key_world G carries key uid s) (keeps_key key s) (\<lambda>r. r = Inr s)
      (get_obj KSecret un_secret (gw_ns g, key_secret_name (gw_name g)))"
    by (auto simp: get_obj_def un_secret_def dest!: get)
  show ?thesis
    unfolding ensure_key_secret_def
    by (rule gives_then [OF got])
      (auto simp: built_def secret_key_pair_def intro!: gives_intros gives_bindA_every
          kept.gives_event_on [OF assms] split: sum.splits)
qed

lemma kept_status:
  assumes "secret_key_pair s = Inr kp"
  shows "gives E (keeps_key key s) every (update_status now g kp)"
  using assms unfolding update_status_def
  by (auto simp: next_status_def Let_def addresses.eq_iff intro!: gives_intros split: prod.splits)

lemma kept_mode_a:
  assumes "the_gateway key uid g"
  shows "gives (key_world G carries key uid s) (keeps_key key s) every (reconcile_mode_a V R g)"
  unfolding reconcile_mode_a_def find_effective_policy_def
  by (intro gives_bindA_every [OF gives_wrapA [OF kept.gives_policy]]
      gives_bindA_every [OF gives_wrapA [OF kept.gives_client_auth]] gives_bindA [OF kept_key [OF assms]])
    (auto intro!: kept.gives_provision_a [OF assms] kept_status)

lemma kept_no_pool:
  assumes "the_gateway key uid g"
  shows "gives (key_world G carries key uid s) (keeps_key key s) (\<lambda>po. po = None) (find_effective_onion_balance g)"
proof -
  have "gives (key_world G carries key uid s) (keeps_key key s)
      (\<lambda>ps. \<forall>p \<in> set ps. \<not> policy_targets (obp_target_refs (obp_spec p)) (gw_name g))
      (list_objs KObp un_obp (Some (gw_ns g)) [])"
    using the_gateway_key [OF assms]
    by (intro gives_list) (fastforce simp: un_obp_def key_world_def split: obj.splits dest!: those_in)+
  then show ?thesis
    unfolding find_effective_onion_balance_def
    by (rule gives_bindA) (auto intro!: gives_ok simp: select_obp_def first_named_def filter_empty_conv)
qed

lemma kept_managed:
  assumes "the_gateway key uid g"
  shows "gives (key_world G carries key uid s) (keeps_key key s) every (reconcile_managed V R g)"
  unfolding reconcile_managed_def
  by (rule gives_bindA [OF gives_wrapA [OF kept_no_pool [OF assms]]])
    (simp, intro gives_bindA [OF kept.gives_cleanup_b [OF assms]] kept_mode_a)

lemma kept_finalize:
  assumes "the_gateway key uid g"
  shows "gives (key_world G carries key uid s) (keeps_key key s) every (finalize_gateway g)"
proof -
  have "gives (key_world G carries key uid s) (keeps_key key s) every (release_gateway g')" for g'
    unfolding release_gateway_def
    by (intro gives_intros gives_bindA_every kept.gives_read_get) simp
  then show ?thesis
    unfolding finalize_gateway_def
    by (intro gives_if gives_bindA [OF kept.gives_cleanup_b [OF assms]] gives_wrapA gives_ok TrueI)
qed

text \<open>
  C2: A key is for ever. While no OnionBalancePolicy targets a Gateway that has its key Secret, no
  reconcile, whatever the other answers are, reads the random source, creates a Secret or a Job, or
  writes or deletes the key Secret; and every status it publishes has exactly one address, the onion
  address of that key. So policies that come and go, vanity prefixes included, never change the
  address that clients know.
\<close>

theorem key_never_replaced:
  "always (key_world G carries key uid s) (keeps_key key s) every (gateway_reconcile V R key)"
proof (rule gives_always)
  have get: "gives (key_world G carries key uid s) (keeps_key key s) (the_gateway key uid)
      (get_obj KGateway un_gateway key)"
    by (rule gives_get) (auto simp: un_gateway_def key_world_def api_world_def the_gateway_def
        simp del: split_paired_All split: obj.splits)
  have class_ok: "gives (key_world G carries key uid s) (keeps_key key s) every (gateway_class_managed_by_us n)" for n
    unfolding gateway_class_managed_by_us_def by (intro gives_intros gives_bindP [OF kept.gives_read_get])
  show "gives (key_world G carries key uid s) (keeps_key key s) every (gateway_reconcile V R key)"
    unfolding gateway_reconcile_def
    by (rule gives_bindP [OF get])
      (auto intro!: gives_intros gives_bindA_every [OF gives_wrapA [OF class_ok]]
        gives_bindA [OF gives_wrapA [OF kept.gives_hold]] kept_finalize kept_managed)
qed

end
