(* ===== verification/Gateway_Lifecycle.thy ===== *)
theory Gateway_Lifecycle
  imports Gateway_Safety
begin

text \<open>
  When the Gateway controller must hold back: it keeps a Gateway until every child of Mode B is gone,
  refuses to run a single pod while a pool is intended but not accepted, and makes no random key while
  a vanity key is wanted or awaited. The garbage collector of backend keys deletes only keys beyond
  the pool.
\<close>

subsection \<open>The finalizer\<close>

lemma gives_never: "gives E P (\<lambda>_. False) p \<Longrightarrow> gives E P I (bindA p f)"
  by (erule gives_bindA) simp

lemma gives_eachA_never:
  assumes "x \<in> set xs" "gives E P (\<lambda>_. False) (body x)" "\<And>y. y \<in> set xs \<Longrightarrow> gives E P every (body y)"
  shows "gives E P (\<lambda>_. False) (eachA body xs)"
  using assms
proof (induction xs)
  case (Cons y ys)
  show ?case
  proof (cases "x = y")
    case True
    with Cons.prems(2) show ?thesis by (simp add: gives_never)
  next
    case False
    with Cons show ?thesis by (auto intro!: gives_bindA_every)
  qed
qed simp

lemma gives_delete_never:
  assumes "P (Delete k n)" "\<And>r. E (Delete k n) r \<Longrightarrow> \<exists>e. r = Failed e \<and> e \<noteq> NotFound"
  shows "gives E P (\<lambda>_. False) (delete_if_present k n)"
  using assms by (force simp: gives_def delete_if_present_def)

text \<open>
  A child of Mode B that stays: it has one of the names, or the listings that the clean-up makes
  contain it; and deleting it fails.
\<close>

definition swept :: "gateway \<Rightarrow> kind \<Rightarrow> call option" where
  "swept g k =
     (if k \<in> {KRole, KRoleBinding} then Some (ListObjs k None (owner_uid_labels g))
      else if k = KSecret then Some (ListObjs k (Some (gw_ns g)) (backend_selector g)) else None)"

definition named_child :: "gateway \<Rightarrow> kind \<Rightarrow> nsname \<Rightarrow> bool" where
  "named_child g k n \<longleftrightarrow> fst n = gw_ns g \<and> (k, snd n) \<in> set (mode_b_children g)"

definition lingers :: "gateway \<Rightarrow> kind \<Rightarrow> nsname \<Rightarrow> call \<Rightarrow> answer \<Rightarrow> bool" where
  "lingers g k n c r \<longleftrightarrow>
     (c = Delete k n \<longrightarrow> (\<exists>e. r = Failed e \<and> e \<noteq> NotFound)) \<and>
     (named_child g k n \<or>
      swept g k \<noteq> None \<and> (\<forall>obs. swept g k = Some c \<and> r = Objects obs \<longrightarrow>
        (\<exists>ob \<in> set obs. obj_key ob = n)))"

definition deletion_world :: "gateway \<Rightarrow> kind \<Rightarrow> nsname \<Rightarrow> call \<Rightarrow> answer \<Rightarrow> bool" where
  "deletion_world g k n c r \<longleftrightarrow>
     lingers g k n c r \<and> om_deleting (gw_meta g) \<and> held g \<and>
     (c = Get KGateway (meta_key (gw_meta g)) \<longrightarrow> r = Object (OGateway g))"

definition keeps_finalizer :: "call \<Rightarrow> bool" where
  "keeps_finalizer c \<longleftrightarrow> (\<forall>g. c = Update (OGateway g) \<or> c = PatchMeta (OGateway g) \<longrightarrow> held g)"

lemma keeps_simps [simp]:
  "keeps_finalizer (Get k n)" "keeps_finalizer (ListObjs k ns ls)" "keeps_finalizer (Delete k n)"
  by (simp_all add: keeps_finalizer_def)

lemma those_all: "those (map un obs) = Some xs \<Longrightarrow> ob \<in> set obs \<Longrightarrow> \<exists>x \<in> set xs. un ob = Some x"
  by (induction obs arbitrary: xs) (auto split: option.splits)

lemma lists_lingering:
  assumes "\<not> named_child g k n" "swept g k = Some (ListObjs k' ns ls)"
    and un: "\<And>ob x. un ob = Some x \<Longrightarrow> obj_key ob = key_of x"
  shows "gives (deletion_world g k n) keeps_finalizer (\<lambda>xs. \<exists>x \<in> set xs. key_of x = n) (list_objs k' un ns ls)"
proof (rule gives_list)
  fix obs xs
  assume "deletion_world g k n (ListObjs k' ns ls) (Objects obs)" "those (map un obs) = Some xs"
  with assms(1,2) obtain ob where "ob \<in> set obs" "obj_key ob = n"
    by (auto simp: deletion_world_def lingers_def)
  with those_all [OF \<open>those (map un obs) = Some xs\<close> \<open>ob \<in> set obs\<close>] un show "\<exists>x \<in> set xs. key_of x = n"
    by metis
qed simp

lemma delete_lingering: "gives (deletion_world g k n) keeps_finalizer (\<lambda>_. False) (delete_if_present k n)"
  by (rule gives_delete_never) (simp_all add: deletion_world_def lingers_def)

lemma plain_steps:
  "gives E keeps_finalizer every (delete_if_present k' m)"
  "gives E keeps_finalizer every (list_objs k' un ns ls)"
  "gives E keeps_finalizer every (get_obj k' un' m)"
  by (auto intro: gives_delete gives_list gives_get)

lemma each_lingering:
  assumes "x \<in> set xs" "key_of x = n"
  shows "gives (deletion_world g k n) keeps_finalizer (\<lambda>_. False)
    (eachA (\<lambda>x. wrapA h (delete_if_present k (key_of x))) xs)"
  by (rule gives_eachA_never [OF assms(1)])
    (simp_all add: assms(2) gives_wrapA delete_lingering plain_steps)

lemma outside_none: "delete_outside k None ms = eachA (\<lambda>m. apiA (delete_if_present k (meta_key m))) ms"
  by (simp add: delete_outside_def)

lemma each_plain: "gives E keeps_finalizer every (eachA (\<lambda>x. wrapA h (delete_if_present k (key_of x))) xs)"
  by (intro gives_eachA gives_wrapA plain_steps)

lemma roles_lingering:
  assumes "\<not> named_child g k n" "k \<in> {KRole, KRoleBinding}"
  shows "gives (deletion_world g k n) keeps_finalizer (\<lambda>_. False) (delete_labelled_roles g None)"
proof (cases "k = KRole")
  case True
  have l: "gives (deletion_world g k n) keeps_finalizer (\<lambda>rs. \<exists>x \<in> set rs. meta_key (role_meta x) = n)
      (list_objs KRole un_role None (owner_uid_labels g))"
    by (rule lists_lingering) (use assms True in \<open>auto simp: swept_def un_role_def split: obj.splits\<close>)
  have d: "gives (deletion_world g k n) keeps_finalizer (\<lambda>_. False)
      (eachA (\<lambda>m. apiA (delete_if_present KRole (meta_key m))) (map role_meta rs))"
    if "\<exists>x \<in> set rs. meta_key (role_meta x) = n" for rs
  proof -
    from that obtain x where "x \<in> set rs" and n: "meta_key (role_meta x) = n" by blast
    then have "role_meta x \<in> set (map role_meta rs)" by simp
    from each_lingering [where key_of = meta_key, OF this n] show ?thesis unfolding True .
  qed
  show ?thesis
    unfolding delete_labelled_roles_def outside_none
    by (rule gives_bindA [OF gives_wrapA [OF l]], rule gives_never, rule d)
next
  case False
  then have k: "k = KRoleBinding" using assms(2) by simp
  have l: "gives (deletion_world g k n) keeps_finalizer (\<lambda>bs. \<exists>x \<in> set bs. meta_key (rb_meta x) = n)
      (list_objs KRoleBinding un_role_binding None (owner_uid_labels g))"
    by (rule lists_lingering) (use assms k in \<open>auto simp: swept_def un_role_binding_def split: obj.splits\<close>)
  have d: "gives (deletion_world g k n) keeps_finalizer (\<lambda>_. False)
      (eachA (\<lambda>m. apiA (delete_if_present KRoleBinding (meta_key m))) (map rb_meta bs))"
    if "\<exists>x \<in> set bs. meta_key (rb_meta x) = n" for bs
  proof -
    from that obtain x where "x \<in> set bs" and n: "meta_key (rb_meta x) = n" by blast
    then have "rb_meta x \<in> set (map rb_meta bs)" by simp
    from each_lingering [where key_of = meta_key, OF this n] show ?thesis unfolding k .
  qed
  show ?thesis
    unfolding delete_labelled_roles_def outside_none
    by (rule gives_bindA_every [OF gives_wrapA [OF plain_steps(2)]], rule gives_bindA_every [OF each_plain],
        rule gives_bindA [OF gives_wrapA [OF l]], rule d)
qed

lemma roles_plain: "gives E keeps_finalizer every (delete_labelled_roles g None)"
  unfolding delete_labelled_roles_def outside_none
  by (intro gives_bindA_every gives_wrapA plain_steps each_plain)

lemma secrets_lingering:
  assumes "\<not> named_child g KSecret n"
  shows "gives (deletion_world g KSecret n) keeps_finalizer (\<lambda>ss. \<exists>x \<in> set ss. meta_key (sec_meta x) = n)
    (list_objs KSecret un_secret (Some (gw_ns g)) (backend_selector g))"
  by (rule lists_lingering) (use assms in \<open>auto simp: swept_def un_secret_def split: obj.splits\<close>)

lemma children_lingering:
  assumes "named_child g k n"
  shows "gives (deletion_world g k n) keeps_finalizer (\<lambda>_. False) (delete_children g (mode_b_children g))"
  unfolding delete_children_def
proof (rule gives_eachA_never)
  show "(k, snd n) \<in> set (mode_b_children g)" using assms by (simp add: named_child_def)
  have "(gw_ns g, snd n) = n" using assms by (cases n) (simp add: named_child_def)
  then show "gives (deletion_world g k n) keeps_finalizer (\<lambda>_. False)
      (case (k, snd n) of (k, m) \<Rightarrow> apiA (delete_if_present k (gw_ns g, m)))"
    by (simp add: gives_wrapA delete_lingering)
qed (auto intro!: gives_wrapA plain_steps)

lemma children_plain: "gives E keeps_finalizer every (delete_children g cs)"
  unfolding delete_children_def by (intro gives_eachA gives_prod gives_wrapA plain_steps)

text \<open>The clean-up does not succeed while a child lingers.\<close>

lemma cleanup_lingering: "gives (deletion_world g k n) keeps_finalizer (\<lambda>_. False) (cleanup_mode_b_resources g)"
proof -
  consider "named_child g k n" | "\<not> named_child g k n" "k \<in> {KRole, KRoleBinding}"
    | "\<not> named_child g k n" "k = KSecret" | "\<not> named_child g k n" "swept g k = None"
    by (cases "k = KSecret"; cases "k \<in> {KRole, KRoleBinding}") (auto simp: swept_def)
  then show ?thesis
  proof cases
    case 1
    show ?thesis unfolding cleanup_mode_b_resources_def by (rule gives_never [OF children_lingering [OF 1]])
  next
    case 2
    show ?thesis unfolding cleanup_mode_b_resources_def
      by (rule gives_bindA_every [OF children_plain], rule gives_never [OF roles_lingering [OF 2]])
  next
    case 3
    have d: "gives (deletion_world g KSecret n) keeps_finalizer (\<lambda>_. False)
        (eachA (\<lambda>s. apiA (delete_if_present KSecret (meta_key (sec_meta s)))) ss)"
      if "\<exists>x \<in> set ss. meta_key (sec_meta x) = n" for ss
      using that each_lingering [where key_of = "\<lambda>s. meta_key (sec_meta s)"] by blast
    show ?thesis unfolding cleanup_mode_b_resources_def 3(2)
      by (rule gives_bindA_every [OF children_plain], rule gives_bindA_every [OF roles_plain],
          rule gives_bindA [OF gives_wrapA [OF secrets_lingering [OF 3(1) [unfolded 3(2)]]]], rule gives_never, rule d)
  next
    case 4
    then have "\<not> deletion_world g k n c r" for c r by (simp add: deletion_world_def lingers_def)
    then have "gives (deletion_world g k n) keeps_finalizer (\<lambda>_. False) (delete_children g (mode_b_children g))"
      unfolding delete_children_def
      by (intro gives_eachA_never [of "(KDeployment, frontend_name g)"])
        (auto simp: mode_b_children_def intro!: gives_wrapA gives_delete_never plain_steps)
    then show ?thesis unfolding cleanup_mode_b_resources_def by (rule gives_never)
  qed
qed

text \<open>
  C7: A Gateway being deleted is let go only after the clean-up. As long as any child of Mode B
  lingers, that is, one of its nine named children, a labelled role or binding in whatever namespace,
  or a backend key Secret cannot be deleted, no reconcile writes the Gateway without its finalizer;
  so the role in a foreign namespace, which no owner reference collects, is never orphaned.
\<close>

theorem finalizer_waits:
  "always (deletion_world g k n) keeps_finalizer every (gateway_reconcile V R (meta_key (gw_meta g)))"
proof (rule gives_always)
  let ?E = "deletion_world g k n"
  have got: "always ?E keeps_finalizer (\<lambda>r. r = Inr g) (get_obj KGateway un_gateway (meta_key (gw_meta g)))"
    by (auto simp: get_obj_def deletion_world_def un_gateway_def)
  have class_ok: "gives ?E keeps_finalizer every (gateway_class_managed_by_us m)" for m
    unfolding gateway_class_managed_by_us_def by (intro gives_intros gives_bindP [OF plain_steps(3)])
  have fin: "gives ?E keeps_finalizer every (finalize_gateway g)"
    unfolding finalize_gateway_def by (intro gives_if gives_never [OF cleanup_lingering] gives_ok TrueI)
  show "gives ?E keeps_finalizer every (gateway_reconcile V R (meta_key (gw_meta g)))"
  proof (cases "om_deleting (gw_meta g)")
    case True
    then show ?thesis
      unfolding gateway_reconcile_def
      by (intro gives_then [OF got])
        (auto intro!: gives_bindA_every [OF gives_wrapA [OF class_ok]] gives_intros fin)
  next
    case False
    then have "\<not> ?E c r" for c r by (simp add: deletion_world_def)
    then show ?thesis unfolding gateway_reconcile_def get_obj_def by (simp add: gives_def)
  qed
qed

subsection \<open>No silent fallback\<close>

text \<open>
  A pool is intended but not accepted: the policy that wins for the Gateway, in what the server lists,
  has no accepted condition for it.
\<close>

definition pool_refused :: "string \<Rightarrow> onion_balance_policy list \<Rightarrow> bool" where
  "pool_refused name ps \<longleftrightarrow>
     (\<exists>p. first_named (\<lambda>p. om_name (obp_meta p))
            (filter (\<lambda>p. policy_targets (obp_target_refs (obp_spec p)) name) ps) = Some p \<and>
          \<not> accepted_for_gw p name)"

definition refusal_world :: "nsname \<Rightarrow> call \<Rightarrow> answer \<Rightarrow> bool" where
  "refusal_world key c r \<longleftrightarrow>
     (\<forall>g. (c = Get KGateway key \<or> (\<exists>g0. c = Update (OGateway g0))) \<and> r = Object (OGateway g) \<longrightarrow>
        meta_key (gw_meta g) = key \<and> \<not> om_deleting (gw_meta g)) \<and>
     (\<forall>obs ps. c = ListObjs KObp (Some (fst key)) [] \<and> r = Objects obs \<and> those (map un_obp obs) = Some ps \<longrightarrow>
        pool_refused (snd key) ps)"

definition refusal_call :: "nsname \<Rightarrow> call \<Rightarrow> bool" where
  "refusal_call key c \<longleftrightarrow>
     is_read c \<or>
     (\<exists>g. c = Update (OGateway g) \<and> meta_key (gw_meta g) = key \<and> held g) \<or>
     (\<exists>g cd. c = StatusUpdate (OGateway g) \<and> meta_key (gw_meta g) = key \<and>
        find_condition ''Programmed'' (gw_conditions g) = Some cd \<and>
        cond_status cd = condition_false \<and> cond_reason cd = ''PolicyNotAccepted'')"

lemma refusal_reads: "is_read c \<Longrightarrow> refusal_call key c"
  by (simp add: refusal_call_def)

lemma programmed_after:
  "\<exists>cd. find_condition ''Programmed'' (fst (set_conditions cs
       [accepted_gateway now g, gateway_condition now g ''Programmed'' st reason msg])) = Some cd \<and>
     cond_status cd = st \<and> cond_reason cd = reason"
proof -
  let ?c = "gateway_condition now g ''Programmed'' st reason msg"
  have "fst (set_conditions cs [accepted_gateway now g, ?c]) =
      fst (set_condition (fst (set_condition cs (accepted_gateway now g))) ?c)"
    by (simp split: prod.splits)
  then show ?thesis
    using set_condition_find [of ?c "fst (set_condition cs (accepted_gateway now g))"]
    by (simp add: gateway_condition_def split: option.splits)
qed

lemma refusal_status:
  assumes "meta_key (gw_meta g) = key"
  shows "gives E (refusal_call key) every (set_programming_condition now g ''PolicyNotAccepted'' msg)"
proof -
  have "refusal_call key (StatusUpdate (OGateway (g\<lparr>gw_conditions := fst (set_conditions (gw_conditions g)
      [accepted_gateway now g, gateway_condition now g ''Programmed'' condition_false ''PolicyNotAccepted'' msg])\<rparr>)))"
    using assms programmed_after [of "gw_conditions g" now g condition_false "''PolicyNotAccepted''" msg]
    by (auto simp: refusal_call_def)
  then show ?thesis
    unfolding set_programming_condition_def
    by (auto intro!: gives_intros split: prod.splits)
qed

text \<open>
  While the OnionBalancePolicy that wins for a Gateway is not
  accepted, a reconcile of the Gateway only reads, adds its finalizer, and publishes the Gateway as
  not programmed for the reason PolicyNotAccepted, whatever the server answers.
\<close>

lemma refusal_calls:
  "always (refusal_world key) (refusal_call key) every (gateway_reconcile V R key)"
proof (rule gives_always)
  let ?E = "refusal_world key" and ?P = "refusal_call key"
  define ok where "ok g \<longleftrightarrow> meta_key (gw_meta g) = key \<and> \<not> om_deleting (gw_meta g)" for g :: gateway
  have alive: "\<not> om_deleting (gw_meta g)" if "ok g" for g using that by (simp add: ok_def)
  have get: "gives ?E ?P ok (get_obj KGateway un_gateway key)"
    by (rule gives_get) (auto simp: ok_def refusal_reads un_gateway_def refusal_world_def split: obj.splits)
  have class_ok: "gives ?E ?P every (gateway_class_managed_by_us m)" for m
    unfolding gateway_class_managed_by_us_def
    by (intro gives_intros gives_bindP [OF gives_get]) (simp_all add: refusal_reads)
  have hold: "gives ?E ?P ok (hold_gateway g)" if "ok g" for g
  proof -
    have "?P (Update (OGateway (set_finalizers (\<lambda>fs. fs @ [finalizer_name]) g)))"
      using that by (simp add: ok_def refusal_call_def set_finalizers_def meta_key_def)
    moreover have "ok g'" if "?E (Update (OGateway g0)) (Object (OGateway g'))" for g0 g'
      using that by (auto simp: ok_def refusal_world_def)
    ultimately show ?thesis
      using that by (auto simp: hold_gateway_def write_gateway_def gives_def un_gateway_def
          split: answer.splits obj.splits option.splits)
  qed
  have managed: "gives ?E ?P every (reconcile_managed V R g)" if "ok g" for g
  proof -
    have g: "gw_ns g = fst key" "gw_name g = snd key" using that by (auto simp: ok_def meta_key_def)
    have "gives ?E ?P (pool_refused (gw_name g)) (list_objs KObp un_obp (Some (gw_ns g)) [])"
      by (rule gives_list) (auto simp: refusal_reads refusal_world_def g)
    then have "gives ?E ?P (\<lambda>po. \<exists>p. po = Some (p, False)) (find_effective_onion_balance g)"
      unfolding find_effective_onion_balance_def
      by (rule gives_bindA) (auto intro!: gives_ok simp: pool_refused_def select_obp_def)
    then show ?thesis
      unfolding reconcile_managed_def
      by (rule gives_bindA [OF gives_wrapA]) (use that in \<open>auto simp: ok_def intro!: refusal_status\<close>)
  qed
  show "gives ?E ?P every (gateway_reconcile V R key)"
    unfolding gateway_reconcile_def
    by (rule gives_bindP [OF get])
      (auto intro!: gives_intros gives_bindA_every [OF gives_wrapA [OF class_ok]]
        gives_bindA [OF gives_wrapA [OF hold]] managed simp: alive)
qed

subsection \<open>No random key while a vanity key is wanted\<close>

text \<open>
  A Gateway that waits: it carries the await-vanity annotation, or the authoritative listing of
  policies, straight from the API server when the controller can read it so, selects a prefix.
\<close>

definition waiting_world ::
    "(string \<Rightarrow> reference_grant list) \<Rightarrow> (kind \<Rightarrow> nsname \<Rightarrow> string gomap \<Rightarrow> bool) \<Rightarrow> gateway_reconciler \<Rightarrow>
     gateway \<Rightarrow> call \<Rightarrow> answer \<Rightarrow> bool" where
  "waiting_world G carries R g c r \<longleftrightarrow>
     api_world G carries (meta_key (gw_meta g)) (gw_uid g) c r \<and>
     (parse_bool (gw_annotation g await_vanity_annotation) \<or>
      (c = (if gr_api_reader R then ApiServerList else ListObjs) KTsp (Some (gw_ns g)) [] \<longrightarrow>
        (\<forall>ps. decode_list un_tsp r = Inr ps \<longrightarrow>
           ep_vanity_prefix (from_tor_service_policy (select_tsp g ps)) \<noteq> [])))"

interpretation no_entropy: gateway_key_calls "waiting_world G carries R g" "\<lambda>c. c \<noteq> Entropy"
  "the_gateway (meta_key (gw_meta g)) (gw_uid g)" for G carries R g
proof
  let ?current = "the_gateway (meta_key (gw_meta g)) (gw_uid g)"
  have api: "api_world G carries (meta_key (gw_meta g)) (gw_uid g) c r" if "waiting_world G carries R g c r" for c r
    using that by (simp add: waiting_world_def)
  show "?current g2" if "?current g1" "same_gateway g1 g2" for g1 g2
    using that by (rule confined.same_current)
  show "?current g2" if "?current g1" "gateway_write g1 c" "waiting_world G carries R g c (Object (OGateway g2))"
    for g1 c g2
    using that confined.written_current api by metis
  show "?current g2 \<and> same_gateway g1 g2" if "?current g1"
    "waiting_world G carries R g (Get KGateway (meta_key (gw_meta g1))) (Object (OGateway g2))" for g1 g2
    using that confined.refetched api by metis
  show "obj_key ob = n" if "waiting_world G carries R g (Get k n) (Object ob)" for k n ob
    using that confined.keyed api by metis
  show "c \<noteq> Entropy" if "gateway_write g1 c" for g1 c
    using that by (auto simp: gateway_write_def)
qed auto

lemma waiting_key:
  "gives (waiting_world G carries R g) (\<lambda>c. c \<noteq> Entropy)
     (\<lambda>(g', _). the_gateway (meta_key (gw_meta g)) (gw_uid g) g') (ensure_key_secret V R g policy)"
proof -
  let ?E = "waiting_world G carries R g" and ?P = "\<lambda>c. c \<noteq> Entropy"
  let ?I = "\<lambda>(g', _ :: key_outcome). the_gateway (meta_key (gw_meta g)) (gw_uid g) g'"
  have cur: "the_gateway (meta_key (gw_meta g)) (gw_uid g) g" by (simp add: the_gateway_def)
  have fresh: "gives ?E ?P (\<lambda>e. ep_vanity_prefix e \<noteq> [] \<or> parse_bool (gw_annotation g await_vanity_annotation))
      (effective_policy_from (gr_api_reader R) g)"
    by (auto simp: gives_def effective_policy_from_def waiting_world_def bindE_def split: sum.splits if_splits)
  have ok: "gives ?E ?P ?I (okA (g, q))" for q
    by (rule gives_ok) (simp add: cur)
  have decide: "gives ?E ?P ?I (if ep_vanity_prefix e \<noteq> [] then run_vanity_harvest R g (ep_vanity_prefix e)
      else if parse_bool (gw_annotation g await_vanity_annotation) then okA (g, AwaitingVanityPolicy)
      else fresh_key_secret V g)"
    if "ep_vanity_prefix e \<noteq> [] \<or> parse_bool (gw_annotation g await_vanity_annotation)" for e
    using that no_entropy.gives_harvest [OF cur] ok by auto
  show ?thesis
    unfolding ensure_key_secret_def
    by (rule gives_bindP [OF no_entropy.gives_read_get])
      (auto simp: built_def intro!: gives_intros gives_bindA_every no_entropy.gives_event_on
        no_entropy.gives_harvest cur gives_bindA [OF gives_wrapA [OF fresh]] decide split: sum.splits
        simp del: not_None_eq)
qed

text \<open>
  C29: A wanted vanity key is never pre-empted. While a Gateway awaits a vanity policy, or the
  authoritative listing of policies wants a prefix, a reconcile in Mode A never reads the random
  source, even if the cached listing is stale and shows no policy; the only key it may store is one
  that a harvest produced.
\<close>

theorem vanity_not_preempted:
  "always (waiting_world G carries R g) (\<lambda>c. c \<noteq> Entropy) every (reconcile_mode_a V R g)"
proof (rule gives_always)
  show "gives (waiting_world G carries R g) (\<lambda>c. c \<noteq> Entropy) every (reconcile_mode_a V R g)"
    unfolding reconcile_mode_a_def find_effective_policy_def
    by (intro gives_bindA_every [OF gives_wrapA [OF no_entropy.gives_policy]]
        gives_bindA_every [OF gives_wrapA [OF no_entropy.gives_client_auth]] gives_bindA [OF waiting_key])
      (auto intro!: no_entropy.gives_programming no_entropy.gives_provision_a no_entropy.gives_status
        split: key_outcome.splits)
qed

subsection \<open>Garbage collection of backend keys\<close>

definition settled :: "stateful_set \<Rightarrow> bool" where
  "settled cur \<longleftrightarrow> ss_replicas cur = Some (ss_status_replicas cur)"

text \<open>A server with a given set, a given listing of the backend Secrets, and deletions that succeed.\<close>

definition gc_answers :: "gateway \<Rightarrow> stateful_set \<Rightarrow> secret list \<Rightarrow> call \<Rightarrow> answer" where
  "gc_answers g cur secrets c = (case c of
     Get k n \<Rightarrow> Object (OStatefulSet cur)
   | ListObjs k ns ls \<Rightarrow> Objects (map OSecret secrets)
   | _ \<Rightarrow> Done)"

lemma decode_secrets [simp]: "decode_list un_secret (Objects (map OSecret ss)) = Inr ss"
  using those_map_un [of un_secret OSecret ss] by (simp add: decode_list_def un_secret_def)

lemma replay_wrapA [simp]: "replay A (wrapA h p) = (fst (replay A p), mapErr h (snd (replay A p)))"
  by (simp add: wrapA_def replay_bindP)

lemma replay_bindA: "replay A (bindA p f) = (case snd (replay A p) of
     Inl e \<Rightarrow> (fst (replay A p), Inl e)
   | Inr x \<Rightarrow> (fst (replay A p) @ fst (replay A (f x)), snd (replay A (f x))))"
  by (simp add: bindA_def replay_bindP split: sum.splits)

lemma replay_gc_loop:
  "replay (gc_answers g cur secrets) (eachA (\<lambda>s. let idx = backend_secret_index (om_name (sec_meta s)) (gw_name g) in
       if idx < 0 \<or> idx < int n then okA () else apiA (delete_if_present KSecret (meta_key (sec_meta s)))) ss) =
   (map (\<lambda>s. Delete KSecret (meta_key (sec_meta s)))
      (filter (\<lambda>s. int n \<le> backend_secret_index (om_name (sec_meta s)) (gw_name g)) ss), Inr ())"
  by (induction ss) (auto simp: replay_bindA delete_if_present_def gc_answers_def Let_def)

text \<open>
  C30: Garbage collection deletes exactly the keys beyond the pool. Given the stateful set and the
  listing of labelled Secrets, it deletes nothing while pods still start or stop, and otherwise
  exactly the listed Secrets whose index is at least the number of replicas; of the Secrets that the
  operator itself names, those are the keys of this Gateway, and never of another, from that index
  on, whatever prefix the Gateways' names share.
\<close>

theorem gc_exact:
  "(let (cs, r) = replay (gc_answers g cur secrets) (gc_backend_secrets_if_settled g ss n);
        deleted = {k. Delete KSecret k \<in> set cs}
    in r = Inr () \<and>
       deleted = (if settled cur then meta_key ` sec_meta ` {s \<in> set secrets.
          int n \<le> backend_secret_index (om_name (sec_meta s)) (gw_name g)} else {}))
   \<and> (\<forall>g' i. 2 ^ 63 \<le> int i \<or> (int n \<le> backend_secret_index (backend_key_secret_name g' i) (gw_name g)
        \<longleftrightarrow> gw_name g' = gw_name g \<and> n \<le> i))"
proof -
  have get: "gc_answers g cur secrets (Get k m) = Object (OStatefulSet cur)" for k m
    by (simp add: gc_answers_def)
  have listing: "gc_answers g cur secrets (ListObjs k ns ls) = Objects (map OSecret secrets)" for k ns ls
    by (simp add: gc_answers_def)
  have "replay (gc_answers g cur secrets) (gc_orphan_backend_secrets g n) =
      (ListObjs KSecret (Some (gw_ns g)) (backend_selector g) # map (\<lambda>s. Delete KSecret (meta_key (sec_meta s)))
        (filter (\<lambda>s. int n \<le> backend_secret_index (om_name (sec_meta s)) (gw_name g)) secrets), Inr ())"
    by (simp add: gc_orphan_backend_secrets_def replay_bindA replay_gc_loop listing)
  then have "replay (gc_answers g cur secrets) (gc_backend_secrets_if_settled g ss n) =
      (if settled cur then (Get KStatefulSet (meta_key (ss_meta ss)) #
          ListObjs KSecret (Some (gw_ns g)) (backend_selector g) # map (\<lambda>s. Delete KSecret (meta_key (sec_meta s)))
        (filter (\<lambda>s. int n \<le> backend_secret_index (om_name (sec_meta s)) (gw_name g)) secrets), Inr ())
       else ([Get KStatefulSet (meta_key (ss_meta ss))], Inr ()))"
    by (auto simp: gc_backend_secrets_if_settled_def replay_bindP get un_stateful_set_def settled_def)
  moreover have "2 ^ 63 \<le> int i \<or> (int n \<le> backend_secret_index (backend_key_secret_name g' i) (gw_name g)
      \<longleftrightarrow> gw_name g' = gw_name g \<and> n \<le> i)" for g' i
    using backend_secret_index_exact [of i g' g] by (cases "int i < 2 ^ 63") (auto simp: not_less)
  ultimately show ?thesis by auto
qed

end
