(* ===== verification/Refusal.thy ===== *)
theory Refusal
  imports Gateway_Lifecycle Progress
begin

text \<open>
  A Gateway whose OnionBalancePolicy is not accepted (\<open>reconcileManaged\<close> and \<open>setProgrammingCondition\<close> in
  \<open>internal/controller/gateway_controller.go\<close>): what a reconcile does to the cluster then, and that it says so in
  the status of the Gateway.
\<close>

subsection \<open>The policy that wins\<close>

definition intended_pool :: "objects \<Rightarrow> gateway \<Rightarrow> onion_balance_policy \<Rightarrow> bool" where
  "intended_pool L g p \<longleftrightarrow>
     OObp p \<in> listed L KObp (Some (gw_ns g)) [] \<and> policy_targets (obp_target_refs (obp_spec p)) (gw_name g) \<and>
     (\<forall>q. OObp q \<in> listed L KObp (Some (gw_ns g)) [] \<and> policy_targets (obp_target_refs (obp_spec q)) (gw_name g) \<longrightarrow>
        om_name (obp_meta p) \<le> om_name (obp_meta q))"

text \<open>Accepted for a Gateway: some ancestor of its name has a true condition of this type.\<close>

definition pool_accepted :: "onion_balance_policy \<Rightarrow> gateway \<Rightarrow> bool" where
  "pool_accepted p g \<longleftrightarrow> (\<exists>a \<in> set (obp_ancestors p). pr_name (an_ref a) = gw_name g \<and>
     (\<exists>c \<in> set (an_conditions a). cond_type c = ''Accepted'' \<and> cond_status c = ''True''))"

definition for_refusal :: "objects \<Rightarrow> gateway \<Rightarrow> onion_balance_policy \<Rightarrow> bool" where
  "for_refusal L g p \<longleftrightarrow> managed L g \<and> intended_pool L g p \<and> \<not> pool_accepted p g"

subsection \<open>The refusal is published\<close>

lemma says_after:
  fixes g :: gateway
  assumes "ty \<noteq> ''Accepted''"
    and cs: "gw_conditions h = fst (set_conditions (gw_conditions g) [accepted_gateway now g, gateway_condition now g ty st reason msg])"
    and gen: "om_generation (gw_meta h) = om_generation (gw_meta g)"
  shows "says h ''Accepted'' ''True'' ''Accepted'' ''Gateway accepted by tor-gateway'' \<and> says h ty st reason msg"
proof -
  let ?a = "accepted_gateway now g" and ?b = "gateway_condition now g ty st reason msg"
  have cs': "gw_conditions h = fst (set_condition (fst (set_condition (gw_conditions g) ?a)) ?b)"
    unfolding cs by (simp split: prod.splits)
  have ty: "cond_type ?a = ''Accepted''" "cond_type ?b = ty" by (simp_all add: accepted_gateway_def gateway_condition_def)
  have "find_condition ''Accepted'' (gw_conditions h) = find_condition ''Accepted'' (fst (set_condition (gw_conditions g) ?a))"
    unfolding cs' using set_condition_find_other [of "''Accepted''" ?b] assms(1) ty by simp
  moreover have "\<exists>c. find_condition ''Accepted'' (fst (set_condition (gw_conditions g) ?a)) = Some c \<and> same_condition c ?a"
    using set_condition_find [of ?a "gw_conditions g"] ty by (auto simp: same_condition_def split: option.splits)
  moreover have "\<exists>c. find_condition ty (gw_conditions h) = Some c \<and> same_condition c ?b"
    unfolding cs' using set_condition_find [of ?b] ty by (auto simp: same_condition_def split: option.splits)
  ultimately show ?thesis
    using gen
    by (auto simp: says_def find_condition_def [symmetric] same_condition_def accepted_gateway_def gateway_condition_def)
qed

context reliable_server
begin

lemma run_refusal:
  assumes "look w (gateway_place g) = Some (OGateway g)"
  shows "\<exists>w' h. exec serve (set_programming_condition now g reason msg) w = (Inr (), w')
    \<and> look w' = (look w)(gateway_place g \<mapsto> OGateway h) \<and> same_core g h \<and> om_finalizers (gw_meta h) = om_finalizers (gw_meta g)
    \<and> gw_addresses h = gw_addresses g \<and> gw_listener_status h = gw_listener_status g
    \<and> says h ''Accepted'' ''True'' ''Accepted'' ''Gateway accepted by tor-gateway'' \<and> says h ''Programmed'' ''False'' reason msg"
proof -
  let ?b = "gateway_condition now g ''Programmed'' condition_false reason msg"
  obtain cs changed where n: "set_conditions (gw_conditions g) [accepted_gateway now g, ?b] = (cs, changed)" by fastforce
  show ?thesis
  proof (cases changed)
    case False
    then have "\<not> snd (set_conditions (gw_conditions g) [accepted_gateway now g, ?b])" using n by simp
    then have "says g ''Accepted'' ''True'' ''Accepted'' ''Gateway accepted by tor-gateway''" "says g ''Programmed'' ''False'' reason msg"
      using two_unchanged [of "accepted_gateway now g" ?b "gw_conditions g"]
      by (simp_all add: accepted_gateway_def says_unchanged gateway_condition_def [of now g "''Programmed''"]
          gateway_condition_def [of now g "''Accepted''"] says_unchanged [unfolded gateway_condition_def])
    then show ?thesis
      using n False assms by (intro exI [of _ w] exI [of _ g]) (auto simp: set_programming_condition_def same_core_def)
  next
    case True
    let ?g' = "g\<lparr>gw_conditions := cs\<rparr>"
    have "succeeded (fst (serve w (StatusUpdate (OGateway ?g'))))"
      using assms by (intro status_ok) (simp_all add: gateway_place_def)
    then obtain w' where w': "exec serve (write_call (StatusUpdate (OGateway ?g'))) w = (Inr (), w')"
      using returns_write by (metis returnsE old.unit.exhaust)
    then obtain v where v: "look w' = (look w)(gateway_place g \<mapsto> OGateway (with_status ?g' (versioned v (om_generation (gw_meta g)) g)))"
      using exec_status assms by (fastforce simp: status_stored_def gateway_place_def)
    let ?h = "with_status ?g' (versioned v (om_generation (gw_meta g)) g)"
    have "gw_conditions ?h = fst (set_conditions (gw_conditions g) [accepted_gateway now g, ?b])" using n by simp
    from says_after [OF _ this] have "says ?h ''Accepted'' ''True'' ''Accepted'' ''Gateway accepted by tor-gateway'' \<and>
        says ?h ''Programmed'' ''False'' reason msg" by simp
    moreover have "exec serve (set_programming_condition now g reason msg) w = (Inr (), w')"
      using n True w' by (simp add: set_programming_condition_def exec_ok)
    moreover have "same_core g ?h" by (simp add: same_core_def gw_annotation_def)
    ultimately show ?thesis using v by (intro exI [of _ w'] exI [of _ ?h]) simp
  qed
qed

lemma run_winner:
  assumes "intended_pool (look w) g p"
  shows "exec serve (find_effective_onion_balance g) w = (Inr (Some (p, accepted_for_gw p (gw_name g))), w)"
proof -
  have "returns serve (list_objs KObp un_obp (Some (gw_ns g)) []) w" by (intro returns_list un_kinds)
  then obtain ps u where ps: "exec serve (list_objs KObp un_obp (Some (gw_ns g)) []) w = (Inr ps, u)" by (rule returnsE)
  note ls = exec_list_ok [OF ps un_iff(3)]
  have sel: "OObp q \<in> listed (look w) KObp (Some (gw_ns g)) [] \<longleftrightarrow> q \<in> set ps" for q using ls(2) by auto
  have p: "p \<in> set ps" "policy_targets (obp_target_refs (obp_spec p)) (gw_name g)"
    "\<And>q. q \<in> set ps \<Longrightarrow> policy_targets (obp_target_refs (obp_spec q)) (gw_name g) \<Longrightarrow> om_name (obp_meta p) \<le> om_name (obp_meta q)"
    using assms unfolding intended_pool_def sel by auto
  have "distinct (map (\<lambda>p. om_name (obp_meta p)) ps)"
    using ls(3) listed_ns [of "OObp q" w KObp "gw_ns g" "[]" for q] unfolding sel
    by (intro names_distinct [where ns = "gw_ns g"]) (auto simp: meta_key_def)
  then have "select_obp g ps = Some p"
    unfolding select_obp_def by (subst first_named_wins) (use p in \<open>auto simp: wins_def\<close>)
  then show ?thesis using ps ls(1) by (simp add: find_effective_onion_balance_def exec_bindA)
qed

lemma run_refused:
  assumes "for_refusal (look w) g p"
  shows "\<exists>w' h. exec serve (gateway_reconcile V R (meta_key (gw_meta g))) w = (Inr (), w')
    \<and> look w' = (look w)(gateway_place g \<mapsto> OGateway h) \<and> same_core g h \<and> held h
    \<and> gw_addresses h = gw_addresses g \<and> gw_listener_status h = gw_listener_status g
    \<and> says h ''Accepted'' ''True'' ''Accepted'' ''Gateway accepted by tor-gateway''
    \<and> says h ''Programmed'' ''False'' ''PolicyNotAccepted'' (''OnionBalancePolicy '' @ om_name (obp_meta p) @
         '' is not Accepted; refusing to fall back to Mode A while HA is intended'')"
proof -
  have m: "managed (look w) g" and pool: "intended_pool (look w) g p" and refused: "\<not> pool_accepted p g"
    using assms by (simp_all add: for_refusal_def)
  then have here: "look w (KGateway, meta_key (gw_meta g)) = Some (OGateway g)" "\<not> om_deleting (gw_meta g)"
    by (simp_all add: managed_def gateway_place_def)
  obtain g1 u1 where u1: "exec serve (hold_gateway g) w = (Inr g1, u1)"
    using returns_hold [OF m] by (rule returnsE)
  note hold = exec_hold [OF u1 m]
  have id: "gw_ns g1 = gw_ns g" "gw_name g1 = gw_name g" "gateway_place g1 = gateway_place g"
    using hold by (auto simp: same_core_def gateway_place_def meta_key_def)
  have "listed (look u1) KObp (Some (gw_ns g)) [] = listed (look w) KObp (Some (gw_ns g)) []"
    by (rule listed_changes [where K = "{gateway_place g}"]) (use hold in \<open>auto simp: gateway_place_def\<close>)
  then have "intended_pool (look u1) g1 p" using pool by (simp add: intended_pool_def id)
  moreover have "\<not> accepted_for_gw p (gw_name g1)"
    using refused by (auto simp: accepted_for_gw_def pool_accepted_def id list_ex_iff)
  ultimately have win: "exec serve (find_effective_onion_balance g1) u1 = (Inr (Some (p, False)), u1)"
    using run_winner by fastforce
  let ?msg = "''OnionBalancePolicy '' @ om_name (obp_meta p) @
      '' is not Accepted; refusing to fall back to Mode A while HA is intended''"
  obtain w' h where h: "exec serve (set_programming_condition (ev_now V) g1 ''PolicyNotAccepted'' ?msg) u1 = (Inr (), w')"
    "look w' = (look u1)(gateway_place g1 \<mapsto> OGateway h)" "same_core g1 h" "om_finalizers (gw_meta h) = om_finalizers (gw_meta g1)"
    "gw_addresses h = gw_addresses g1" "gw_listener_status h = gw_listener_status g1"
    "says h ''Accepted'' ''True'' ''Accepted'' ''Gateway accepted by tor-gateway''" "says h ''Programmed'' ''False'' ''PolicyNotAccepted'' ?msg"
    using run_refusal [of u1 g1 "ev_now V" "''PolicyNotAccepted''" ?msg] hold unfolding id by blast
  have "exec serve (reconcile_managed V R g1) u1 = (Inr (), w')"
    using win h(1) by (simp add: reconcile_managed_def exec_bindA exec_wrapA)
  then have "exec serve (bindA (apiA (hold_gateway g)) (\<lambda>g'. reconcile_managed V R g')) w = (Inr (), w')"
    using u1 by (auto simp: exec_ok)
  then have "exec serve (gateway_reconcile V R (meta_key (gw_meta g))) w = (Inr (), w')"
    using exec_class [OF m] here
    by (simp add: gateway_reconcile_def exec_bindP exec_get un_gateway_def exec_bindA exec_wrapA)
  moreover have "look w' = (look w)(gateway_place g \<mapsto> OGateway h)"
  proof
    fix x show "look w' x = ((look w)(gateway_place g \<mapsto> OGateway h)) x"
      using h(2) id(3) hold changes_look [of "{gateway_place g}" "look w" "look u1" x] by (cases "x = gateway_place g") auto
  qed
  moreover have "same_core g h" using hold h(3) same_core_trans by blast
  moreover have "held h" using hold h(4) by simp
  ultimately show ?thesis using h(5-8) hold by (intro exI [of _ w'] exI [of _ h]) simp
qed

end

text \<open>
  C6: No silent fallback to a single pod. While the OnionBalancePolicy that wins for a Gateway is not accepted, a
  reconcile of the Gateway only reads, adds its finalizer, and publishes the Gateway as not programmed for the
  reason PolicyNotAccepted, whatever the server answers; it creates, updates and deletes no child, so the pool that
  may be running keeps running and no second, different onion address appears. And it does publish this: against a
  server that keeps its promises the reconcile returns without an error, and then the Gateway is held, its status
  names the policy as the reason for not being programmed, the addresses and the listeners are as they were, and
  nothing but the Gateway has changed.
\<close>

theorem no_silent_fallback:
  "always (refusal_world key) (refusal_call key) every (gateway_reconcile V R key)
   \<and> (reliable_server fill serve look \<and> for_refusal (look w) g p \<longrightarrow>
       (\<exists>w' h. exec serve (gateway_reconcile V R (meta_key (gw_meta g))) w = (Inr (), w')
          \<and> look w' = (look w)(gateway_place g \<mapsto> OGateway h) \<and> same_core g h \<and> held h
          \<and> gw_addresses h = gw_addresses g \<and> gw_listener_status h = gw_listener_status g
          \<and> says h ''Accepted'' ''True'' ''Accepted'' ''Gateway accepted by tor-gateway''
          \<and> says h ''Programmed'' ''False'' ''PolicyNotAccepted'' (''OnionBalancePolicy '' @ om_name (obp_meta p) @
               '' is not Accepted; refusing to fall back to Mode A while HA is intended'')))"
proof (intro conjI impI refusal_calls)
  assume a: "reliable_server fill serve look \<and> for_refusal (look w) g p"
  show "\<exists>w' h. exec serve (gateway_reconcile V R (meta_key (gw_meta g))) w = (Inr (), w')
      \<and> look w' = (look w)(gateway_place g \<mapsto> OGateway h) \<and> same_core g h \<and> held h
      \<and> gw_addresses h = gw_addresses g \<and> gw_listener_status h = gw_listener_status g
      \<and> says h ''Accepted'' ''True'' ''Accepted'' ''Gateway accepted by tor-gateway''
      \<and> says h ''Programmed'' ''False'' ''PolicyNotAccepted'' (''OnionBalancePolicy '' @ om_name (obp_meta p) @
           '' is not Accepted; refusing to fall back to Mode A while HA is intended'')"
    by (rule reliable_server.run_refused [where fill = fill and look = look]) (use a in simp_all)
qed

text \<open>A cluster with a Gateway, its class, and a pool policy for it that nobody has accepted.\<close>

definition refused_obp :: onion_balance_policy where
  "refused_obp = sample_obp\<lparr>obp_ancestors := []\<rparr>"

definition refusal_store :: store where
  "refusal_store =
     \<lparr>st_objects = [OGateway (sample_gateway ''shop''),
        OGatewayClass \<lparr>gc_name = ''tor'', gc_generation = 1, gc_controller = controller_name, gc_conditions = []\<rparr>,
        OObp refused_obp],
      st_clock = 1, st_random = []\<rparr>"

theorem no_silent_fallback_witness:
  "\<exists>w' h. exec store_serve (gateway_reconcile calm_env sample_reconciler (''web'', ''shop'')) refusal_store = (Inr (), w')
     \<and> store_look w' = (store_look refusal_store)((KGateway, ''web'', ''shop'') \<mapsto> OGateway h)
     \<and> says h ''Programmed'' ''False'' ''PolicyNotAccepted''
         ''OnionBalancePolicy pol is not Accepted; refusing to fall back to Mode A while HA is intended''"
proof -
  let ?g = "sample_gateway ''shop''" and ?L = "store_look refusal_store"
  have key: "meta_key (gw_meta ?g) = (''web'', ''shop'')" by (simp add: meta_key_def)
  have "managed ?L ?g"
    by (simp add: managed_def gateway_place_def) (simp add: store_look_def refusal_store_def place_def sample_gateway_def
        bare_meta_def meta_key_def)
  moreover have "listed ?L KObp (Some ''web'') [] = {OObp refused_obp}"
  proof -
    have only: "?L (KObp, n) = (if n = (''web'', ''pol'') then Some (OObp refused_obp) else None)" for n
      by (simp add: store_look_def refusal_store_def place_def refused_obp_def sample_obp_def bare_meta_def meta_key_def)
    show ?thesis unfolding listed_def only by (auto simp: matching_labels_def)
  qed
  ultimately have "for_refusal ?L ?g refused_obp"
    by (auto simp: for_refusal_def intended_pool_def pool_accepted_def refused_obp_def sample_obp_def policy_targets_def)
  moreover have "om_name (obp_meta refused_obp) = ''pol''"
    by (simp add: refused_obp_def sample_obp_def bare_meta_def)
  ultimately show ?thesis
    using no_silent_fallback [where look = store_look and w = refusal_store and g = ?g and p = refused_obp
        and V = calm_env and R = sample_reconciler, THEN conjunct2] store.reliable_server_axioms
    by (simp add: key gateway_place_def) blast
qed

end
