(* ===== verification/Obrefresh_Main.thy ===== *)
theory Obrefresh_Main
  imports Refresher Cmd_Flags Resources_Ha
begin

text \<open>
  The command line of \<open>cmd/obrefresh\<close>, and the frontend pod that writes it: what the operator puts into
  the arguments of the sidecar is what the sidecar runs with. The flags are parsed by \<open>Cmd_Flags\<close>, the
  interval by \<open>Go_Duration\<close>; the rest of the command is in \<open>Refresher\<close>.
\<close>

definition obrefresh_flag_defaults :: "string gomap" where
  "obrefresh_flag_defaults =
     [(''gateway'', []), (''namespace'', []), (''gateway-uid'', []), (''config'', ''/etc/onionbalance/config.yaml''),
      (''pidfile'', ''/run/onionbalance/onionbalance.pid''), (''interval'', ''30s''), (''master-address'', []),
      (''master-key-path'', ''/etc/onionbalance/keys/hs_ed25519_secret_key''), (''healthcheck'', ''false'')]"

definition obrefresh_value_ok :: "string \<Rightarrow> string \<Rightarrow> bool" where
  "obrefresh_value_ok n v \<longleftrightarrow>
     (n = ''interval'' \<longrightarrow> parse_duration v \<noteq> None) \<and> (n = ''healthcheck'' \<longrightarrow> bool_value v \<noteq> None)"

definition obrefresh_flags_of :: "string gomap \<Rightarrow> obrefresh_flags" where
  "obrefresh_flags_of fl =
     \<lparr>of_gateway = flag_or_empty fl ''gateway'', of_namespace = flag_or_empty fl ''namespace'',
      of_gateway_uid = flag_or_empty fl ''gateway-uid'', of_config = flag_or_empty fl ''config'',
      of_pidfile = flag_or_empty fl ''pidfile'',
      of_interval = (case parse_duration (flag_or_empty fl ''interval'') of None \<Rightarrow> 0 | Some d \<Rightarrow> d),
      of_master_address = flag_or_empty fl ''master-address'',
      of_master_key_path = flag_or_empty fl ''master-key-path'',
      of_healthcheck = (bool_value (flag_or_empty fl ''healthcheck'') = Some True)\<rparr>"

definition parse_obrefresh_args :: "string list \<Rightarrow> obrefresh_flags option" where
  "parse_obrefresh_args args =
     map_option obrefresh_flags_of
       (go_flags_typed obrefresh_value_ok [''healthcheck''] obrefresh_flag_defaults args)"

text \<open>A run of the command, by its exit code.\<close>

definition obrefresh_run ::
    "string list \<Rightarrow> int option \<Rightarrow> int \<Rightarrow> bool \<Rightarrow> bool \<Rightarrow> (refresher_config \<Rightarrow> bool) \<Rightarrow> nat" where
  "obrefresh_run args mtime now in_cluster_ok client_ok run_ok =
     (case parse_obrefresh_args args of
        None \<Rightarrow> 2
      | Some fl \<Rightarrow> obrefresh_main fl mtime now in_cluster_ok client_ok run_ok)"

subsection \<open>The sidecar of the frontend pod\<close>

definition sidecar_flags :: "gateway \<Rightarrow> onion_balance_policy \<Rightarrow> onion_address \<Rightarrow> obrefresh_flags" where
  "sidecar_flags g p master =
     \<lparr>of_gateway = gw_name g, of_namespace = gw_ns g, of_gateway_uid = gw_uid g,
      of_config = ''/etc/onionbalance/config/config.yaml'', of_pidfile = ''/run/onionbalance/onionbalance.pid'',
      of_interval = obp_refresh_interval (obp_spec p), of_master_address = onion_string master,
      of_master_key_path = ''/etc/onionbalance/keys/hs_ed25519_secret_key'', of_healthcheck = False\<rparr>"

definition valid_duration :: "int \<Rightarrow> bool" where
  "valid_duration d \<longleftrightarrow> - (2 ^ 63) \<le> d \<and> d < 2 ^ 63"

lemma obrefresh_value_ok_simps [simp]:
  "n \<notin> {''interval'', ''healthcheck''} \<Longrightarrow> obrefresh_value_ok n v"
  "valid_duration d \<Longrightarrow> obrefresh_value_ok ''interval'' (duration_string d)"
  by (auto simp: obrefresh_value_ok_def valid_duration_def parse_duration_string)

lemma bool_value_simps [simp]: "bool_value ''true'' = Some True" "bool_value ''false'' = Some False"
  by (simp_all add: bool_value_def)

definition sidecar_settings :: "gateway \<Rightarrow> onion_balance_policy \<Rightarrow> onion_address \<Rightarrow> string gomap" where
  "sidecar_settings g p master =
     [(''gateway'', gw_name g), (''namespace'', gw_ns g), (''gateway-uid'', gw_uid g),
      (''master-address'', onion_string master), (''master-key-path'', ''/etc/onionbalance/keys/hs_ed25519_secret_key''),
      (''config'', ''/etc/onionbalance/config/config.yaml''), (''pidfile'', ''/run/onionbalance/onionbalance.pid''),
      (''interval'', duration_string (obp_refresh_interval (obp_spec p)))]"

lemma sidecar_args_eq: "ct_args (obrefresh_sidecar g p master images) = map flag_arg (sidecar_settings g p master)"
  by (simp add: obrefresh_sidecar_def sidecar_settings_def flag_arg_def)

lemma sidecar_args:
  assumes "valid_duration (obp_refresh_interval (obp_spec p))"
  shows "parse_obrefresh_args (ct_args (obrefresh_sidecar g p master images)) = Some (sidecar_flags g p master)"
proof -
  have d: "parse_duration (duration_string (obp_refresh_interval (obp_spec p))) = Some (obp_refresh_interval (obp_spec p))"
    using assms by (simp add: parse_duration_string valid_duration_def)
  have "\<forall>(n, v) \<in> set (sidecar_settings g p master).
      flag_name_ok n \<and> map_of obrefresh_flag_defaults n \<noteq> None \<and> obrefresh_value_ok n v"
    using assms by (simp add: sidecar_settings_def flag_name_ok_def obrefresh_flag_defaults_def)
  note typed_flags_args [where bools = "[''healthcheck'']", OF this]
  then show ?thesis
    by (simp add: parse_obrefresh_args_def sidecar_args_eq obrefresh_flags_of_def sidecar_flags_def d
        sidecar_settings_def obrefresh_flag_defaults_def flag_or_empty_def)
qed

text \<open>The probe of the sidecar runs the same binary in its other mode.\<close>

lemma healthcheck_args:
  assumes "valid_duration d"
  shows "obrefresh_run [''--healthcheck'', ''--interval='' @ duration_string d] mtime now ic cc run_ok = run_healthcheck mtime now d"
proof -
  let ?ok = obrefresh_value_ok and ?b = "[''healthcheck'']" and ?d = obrefresh_flag_defaults
  let ?args = "[''--interval='' @ duration_string d]"
  have parsed: "parse_duration (duration_string d) = Some d"
    using assms by (simp add: parse_duration_string valid_duration_def)
  have "go_flags_typed ?ok ?b ?d (''--healthcheck'' # ?args) =
      go_flags_typed ?ok ?b (AList.update ''healthcheck'' ''true'' ?d) ?args"
    using typed_flags_bool [of "''healthcheck''" ?d ?b ?ok ?args] by (simp add: obrefresh_flag_defaults_def)
  moreover have "go_flags_typed ?ok ?b (AList.update ''healthcheck'' ''true'' ?d) ?args =
      Some (AList.update ''interval'' (duration_string d) (AList.update ''healthcheck'' ''true'' ?d))"
    using typed_flags_args [of "[(''interval'', duration_string d)]" "AList.update ''healthcheck'' ''true'' ?d" ?ok ?b] assms
    by (simp add: flag_arg_def flag_name_ok_def obrefresh_flag_defaults_def)
  ultimately show ?thesis
    by (simp add: obrefresh_run_def parse_obrefresh_args_def obrefresh_flags_of_def obrefresh_main_def parsed
        obrefresh_flag_defaults_def flag_or_empty_def)
qed

lemma sidecar_setup:
  assumes "gw_name g \<noteq> []" "gw_ns g \<noteq> []" "gw_uid g \<noteq> []" "length (pub_key master) = 32"
    and "5 * second \<le> obp_refresh_interval (obp_spec p)"
  shows "obrefresh_setup (sidecar_flags g p master) True True = Inr
    \<lparr>rf_gateway_name = gw_name g, rf_gateway_namespace = gw_ns g,
     rf_master_key_path = ''/etc/onionbalance/keys/hs_ed25519_secret_key'',
     rf_config_path = ''/etc/onionbalance/config/config.yaml'', rf_pid_file = ''/run/onionbalance/onionbalance.pid'',
     rf_interval = obp_refresh_interval (obp_spec p), rf_master = master, rf_owner_uid = gw_uid g, rf_client = True,
     rf_healthcheck_file = healthcheck_file, rf_recorder = True\<rparr>"
proof -
  have "has_suffix (onion_string master) ''.onion''" "onion_string master \<noteq> []"
    using assms(4) by (auto simp: onion_string_def has_suffix_iff onion_suffix_def public_key_size_def)
  then show ?thesis
    using assms parse_address_trim [OF assms(4)]
    by (simp add: obrefresh_setup_def sidecar_flags_def new_refresher_def effective_interval_def min_interval_def second_def
        guardE_def)
qed

text \<open>
  C34: The frontend pod runs the refresher that its policy describes. Whatever the names are, \<open>obrefresh\<close>
  parses the arguments the operator gives to the sidecar back into the Gateway, its UID, the address of
  the master key and exactly the refresh interval of the policy, and its set-up succeeds with them; the
  configuration it writes is the file the onionbalance container is started with, on a volume it may
  write, and the pid file it reads is on a volume that container may write; the key path it puts into the
  configuration is below the directory that \<open>tor-init\<close> fetches the master key into. For an interval below
  \<open>2 ^ 62\<close> nanoseconds the probe fails exactly when the last success is more than two intervals old; for a
  longer one the product of the interval and two wraps around and the probe always fails.
\<close>

theorem frontend_refresher_configured:
  assumes "build_frontend_deployment g p master images t = Inr d"
    and "gw_name g \<noteq> []" "gw_ns g \<noteq> []" "gw_uid g \<noteq> []" "length (pub_key master) = 32"
    and "5 * second \<le> obp_refresh_interval (obp_spec p)" "obp_refresh_interval (obp_spec p) < 2 ^ 63"
  shows "\<exists>fetch ftor ob refresh fl cfg probe bin args.
     pod_init (dep_pod d) = [fetch] \<and> pod_containers (dep_pod d) = [ftor, ob, refresh]
   \<and> parse_obrefresh_args (ct_args refresh) = Some fl \<and> \<not> of_healthcheck fl
   \<and> obrefresh_setup fl True True = Inr cfg
   \<and> rf_gateway_name cfg = gw_name g \<and> rf_gateway_namespace cfg = gw_ns g \<and> rf_owner_uid cfg = gw_uid g
   \<and> rf_master cfg = master \<and> rf_interval cfg = obp_refresh_interval (obp_spec p)
   \<and> take 2 (ct_args ob) = [''-c'', rf_config_path cfg] \<and> writable_below refresh (rf_config_path cfg)
   \<and> writable_below refresh (rf_healthcheck_file cfg) \<and> writable_below ob (rf_pid_file cfg)
   \<and> has_prefix (rf_master_key_path cfg) (the (flag_eq_value ''--dst'' (ct_args fetch)) @ ''/'')
   \<and> ct_liveness refresh = Some probe \<and> pb_handler probe = ExecCommand (bin # args)
   \<and> (obp_refresh_interval (obp_spec p) < 2 ^ 62 \<longrightarrow>
        (\<forall>m now ic cc ok. obrefresh_run args (Some m) now ic cc ok = 0 \<longleftrightarrow>
           now - m \<le> 2 * obp_refresh_interval (obp_spec p)))
   \<and> (2 ^ 62 \<le> obp_refresh_interval (obp_spec p) \<longrightarrow>
        (\<forall>m now ic cc ok. m \<le> now \<longrightarrow> obrefresh_run args (Some m) now ic cc ok = 1))"
proof -
  have v: "valid_duration (obp_refresh_interval (obp_spec p))"
    using assms(6,7) by (simp add: valid_duration_def second_def)
  note parsed = sidecar_args [OF v, of g master images]
  note set_up = sidecar_setup [OF assms(2-6)]
  let ?r = "obrefresh_sidecar g p master images"
  obtain probe where probe: "ct_liveness ?r = Some probe" "pb_handler probe = ExecCommand
      [''/usr/local/bin/app'', ''--healthcheck'', ''--interval='' @ duration_string (obp_refresh_interval (obp_spec p))]"
    by (simp add: obrefresh_sidecar_def exec_probe_def)
  have paths: "take 2 (ct_args (onionbalance_container t images)) = [''-c'', ''/etc/onionbalance/config/config.yaml'']"
    "writable_below ?r ''/etc/onionbalance/config/config.yaml''" "writable_below ?r healthcheck_file"
    "writable_below (onionbalance_container t images) ''/run/onionbalance/onionbalance.pid''"
    "flag_eq_value ''--dst'' (ct_args (master_fetch_container g p images)) = Some ''/etc/onionbalance/keys''"
    by (simp_all add: onionbalance_container_def obrefresh_sidecar_def master_fetch_container_def blank_container_def
        writable_below_def healthcheck_file_def flag_eq_value_def has_prefix_def mount_rw_def mount_ro_def)
  have "0 \<le> obp_refresh_interval (obp_spec p)" using assms(6) by (simp add: second_def)
  note window = healthcheck_window(1) [OF this] healthcheck_window(2) [OF _ assms(7)]
  show ?thesis
    using parsed set_up probe paths frontend_deployment_pod [OF assms(1)] healthcheck_args [OF v] window
    by (simp add: frontend_pod_def sidecar_flags_def has_prefix_def)
qed

definition sample_master :: onion_address where
  "sample_master = \<lparr>pub_key = replicate 32 0\<rparr>"

theorem frontend_refresher_configured_witness:
  "\<exists>d refresh fl. build_frontend_deployment (sample_gateway ''shop'') sample_obp sample_master sample_images False = Inr d
     \<and> refresh \<in> set (pod_containers (dep_pod d)) \<and> parse_obrefresh_args (ct_args refresh) = Some fl
     \<and> (\<exists>cfg. obrefresh_setup fl True True = Inr cfg \<and> rf_interval cfg = 30 * second)"
proof -
  let ?g = "sample_gateway ''shop''"
  obtain d where d: "build_frontend_deployment ?g sample_obp sample_master sample_images False = Inr d"
    by (simp add: build_frontend_deployment_def sample_images_def Let_def)
  have h: "gw_name ?g \<noteq> []" "gw_ns ?g \<noteq> []" "gw_uid ?g \<noteq> []" "length (pub_key sample_master) = 32"
    "5 * second \<le> obp_refresh_interval (obp_spec sample_obp)" "obp_refresh_interval (obp_spec sample_obp) < 2 ^ 63"
    by (simp_all add: sample_master_def sample_obp_def second_def)
  have "obp_refresh_interval (obp_spec sample_obp) = 30 * second" by (simp add: sample_obp_def second_def)
  with frontend_refresher_configured [OF d h] d show ?thesis by (metis list.set_intros)
qed

end
