(* ===== verification/Policy_Schema.thy ===== *)
theory Policy_Schema
  imports Obrefresh_Main Gateway_Controller
begin

text \<open>
  The schema that the markers of \<open>api/v1alpha1\<close> declare for the three policies: what the API server fills
  in and refuses before a controller sees a policy, and how the stored policy is read into the Go
  struct. A manifest keeps for each optional field whether it is given; \<open>admit_*\<close> applies the defaults, then
  the validation, and \<open>decode_*\<close> gives absent fields their zero value. The validation of the third-party
  types inside (target references beyond group and kind, resource quantities) is left out, and so are
  objects stored under an earlier schema. The lengths of the schema count characters; the patterns
  leave only ASCII ones where they matter.
\<close>

subsection \<open>Target references\<close>

definition target_refs_ok :: "target_ref list \<Rightarrow> bool" where
  "target_refs_ok rs \<longleftrightarrow>
     1 \<le> length rs \<and> length rs \<le> 16 \<and>
     list_all (\<lambda>r. tr_group r = gateway_api_group \<and> tr_kind r = gateway_kind) rs"

definition given :: "'a \<Rightarrow> 'a option \<Rightarrow> 'a" where
  "given z v = (case v of None \<Rightarrow> z | Some x \<Rightarrow> x)"

lemma given_simps [simp]: "given z None = z" "given z (Some x) = x"
  by (simp_all add: given_def)

subsection \<open>TorServicePolicy\<close>

record tsp_manifest =
  tm_targets :: "target_ref list"
  tm_prefix :: "string option"
  tm_acknowledge :: "bool option"
  tm_level :: "string option"
  tm_pow :: "bool option"
  tm_resources :: "resource_requirements option"

definition tor_log_levels :: "string list" where
  "tor_log_levels = [''debug'', ''info'', ''notice'', ''warn'', ''err'']"

definition default_tsp :: "tsp_manifest \<Rightarrow> tsp_manifest" where
  "default_tsp m = m\<lparr>tm_level := Some (given ''notice'' (tm_level m)), tm_pow := Some (given True (tm_pow m))\<rparr>"

definition prefix_schema :: "string option \<Rightarrow> bool option \<Rightarrow> bool" where
  "prefix_schema pre ack \<longleftrightarrow>
     (case pre of None \<Rightarrow> True
      | Some p \<Rightarrow> list_all base32_char p \<and> length p \<le> 8 \<and> (length p \<le> 6 \<or> ack = Some True))"

definition tsp_schema :: "tsp_manifest \<Rightarrow> bool" where
  "tsp_schema m \<longleftrightarrow>
     target_refs_ok (tm_targets m) \<and> prefix_schema (tm_prefix m) (tm_acknowledge m) \<and>
     (case tm_level m of None \<Rightarrow> True | Some l \<Rightarrow> l \<in> set tor_log_levels)"

definition admit_tsp :: "tsp_manifest \<Rightarrow> tsp_manifest option" where
  "admit_tsp m = (if tsp_schema (default_tsp m) then Some (default_tsp m) else None)"

definition decode_tsp :: "tsp_manifest \<Rightarrow> tor_service_policy_spec" where
  "decode_tsp m =
     \<lparr>tsp_target_refs = tm_targets m, tsp_vanity_prefix = given [] (tm_prefix m),
      tsp_vanity_acknowledge = given False (tm_acknowledge m), tsp_log_level = given [] (tm_level m),
      tsp_pow = tm_pow m, tsp_resources = tm_resources m\<rparr>"

subsection \<open>TorClientAuthPolicy\<close>

record secret_ref_manifest =
  sm_name :: string
  sm_namespace :: "string option"

definition secret_ref_ok :: "secret_ref_manifest \<Rightarrow> bool" where
  "secret_ref_ok r \<longleftrightarrow> 1 \<le> length (sm_name r) \<and> length (sm_name r) \<le> 253"

definition decode_secret_ref :: "secret_ref_manifest \<Rightarrow> secret_ref" where
  "decode_secret_ref r = \<lparr>sr_name = sm_name r, sr_namespace = given [] (sm_namespace r)\<rparr>"

record tcap_manifest =
  am_targets :: "target_ref list"
  am_secret :: secret_ref_manifest
  am_mode :: "string option"

definition admit_tcap :: "tcap_manifest \<Rightarrow> tcap_manifest option" where
  "admit_tcap m =
     (let mode = given ''Strict'' (am_mode m) in
      if target_refs_ok (am_targets m) \<and> secret_ref_ok (am_secret m) \<and> mode \<in> {''Strict'', ''Audit''}
      then Some (m\<lparr>am_mode := Some mode\<rparr>) else None)"

definition decode_tcap :: "tcap_manifest \<Rightarrow> tor_client_auth_policy_spec" where
  "decode_tcap m =
     \<lparr>tcap_target_refs = am_targets m, tcap_clients_secret = decode_secret_ref (am_secret m),
      tcap_mode = given [] (am_mode m)\<rparr>"

subsection \<open>OnionBalancePolicy\<close>

text \<open>
  The format \<open>duration\<close> and the function of the same name in the validation rules belong to the API
  server: \<open>fmt\<close>, which reads at least what Go's \<open>ParseDuration\<close> reads. Decoding is by \<open>ParseDuration\<close> and fails on
  anything else.
\<close>

record obp_manifest =
  bm_targets :: "target_ref list"
  bm_replicas :: "int option"
  bm_interval :: "string option"
  bm_master :: secret_ref_manifest
  bm_backend_resources :: "resource_requirements option"
  bm_frontend_resources :: "resource_requirements option"

definition default_obp :: "obp_manifest \<Rightarrow> obp_manifest" where
  "default_obp m = m\<lparr>bm_replicas := Some (given 3 (bm_replicas m)), bm_interval := Some (given ''30s'' (bm_interval m))\<rparr>"

definition obp_schema :: "(string \<Rightarrow> int option) \<Rightarrow> obp_manifest \<Rightarrow> bool" where
  "obp_schema fmt m \<longleftrightarrow>
     target_refs_ok (bm_targets m) \<and> secret_ref_ok (bm_master m) \<and>
     (case bm_replicas m of None \<Rightarrow> False | Some n \<Rightarrow> 1 \<le> n \<and> n \<le> 12) \<and>
     (case bm_interval m of None \<Rightarrow> True
      | Some t \<Rightarrow> (case fmt t of None \<Rightarrow> False | Some d \<Rightarrow> 5 * second \<le> d))"

definition admit_obp :: "(string \<Rightarrow> int option) \<Rightarrow> obp_manifest \<Rightarrow> obp_manifest option" where
  "admit_obp fmt m = (if obp_schema fmt (default_obp m) then Some (default_obp m) else None)"

definition decode_obp :: "obp_manifest \<Rightarrow> onion_balance_policy_spec option" where
  "decode_obp m =
     (let spec = \<lambda>d. \<lparr>obp_target_refs = bm_targets m, obp_replicas = nat (given 0 (bm_replicas m)),
        obp_refresh_interval = d, obp_master_key = decode_secret_ref (bm_master m),
        obp_backend_resources = bm_backend_resources m, obp_frontend_resources = bm_frontend_resources m\<rparr>
      in case bm_interval m of None \<Rightarrow> Some (spec 0) | Some t \<Rightarrow> map_option spec (parse_duration t))"

subsection \<open>What an admitted policy is\<close>

lemma schema_levels: "l \<in> set tor_log_levels \<longleftrightarrow> valid_log_level l"
  by (simp add: tor_log_levels_def valid_log_level_def log_levels_def)

lemma notice_level: "valid_log_level ''notice''"
  by (simp add: valid_log_level_def log_levels_def)

lemma prefix_schema_acknowledged: "prefix_schema (Some p) (Some True) \<longleftrightarrow> p = [] \<or> vanity_prefix_ok p"
  by (cases p) (auto simp: prefix_schema_def vanity_prefix_ok_def)

lemma prefix_schema_ok: "prefix_schema p a \<Longrightarrow> given [] p = [] \<or> vanity_prefix_ok (given [] p)"
  by (cases p; cases "given [] p") (auto simp: prefix_schema_def vanity_prefix_ok_def)

lemma admitted_tsp:
  assumes "admit_tsp m = Some m'"
  shows "valid_log_level (tsp_log_level (decode_tsp m'))" "target_refs_ok (tsp_target_refs (decode_tsp m'))"
    "tsp_vanity_prefix (decode_tsp m') = [] \<or> vanity_prefix_ok (tsp_vanity_prefix (decode_tsp m'))"
    "tsp_pow (decode_tsp m') \<noteq> None"
  using assms prefix_schema_ok [of "tm_prefix m" "tm_acknowledge m"]
  by (auto simp: admit_tsp_def tsp_schema_def default_tsp_def decode_tsp_def schema_levels split: if_splits)

lemma admitted_tcap:
  assumes "admit_tcap m = Some m'"
  shows "tcap_mode (decode_tcap m') \<in> {client_auth_mode_strict, client_auth_mode_audit}"
    "tcap_target_refs (decode_tcap m') = am_targets m"
    "sr_name (tcap_clients_secret (decode_tcap m')) \<noteq> []"
  using assms
  by (auto simp: admit_tcap_def decode_tcap_def Let_def client_auth_mode_strict_def client_auth_mode_audit_def
      secret_ref_ok_def decode_secret_ref_def split: if_splits)

lemma admitted_obp:
  assumes "admit_obp fmt m = Some m'" "decode_obp m' = Some s" "\<And>t d. parse_duration t = Some d \<Longrightarrow> fmt t = Some d"
  shows "1 \<le> obp_replicas s" "obp_replicas s \<le> 12" "5 * second \<le> obp_refresh_interval s"
    "obp_refresh_interval s < 2 ^ 63" "sr_name (obp_master_key s) \<noteq> []"
proof -
  have "parse_duration t = Some d \<Longrightarrow> d < 2 ^ 63" for t d
    by (auto simp: parse_duration_def Let_def split: if_splits option.splits list.splits)
  then show "1 \<le> obp_replicas s" "obp_replicas s \<le> 12" "5 * second \<le> obp_refresh_interval s"
    "obp_refresh_interval s < 2 ^ 63" "sr_name (obp_master_key s) \<noteq> []"
    using assms
    by (auto simp: admit_obp_def obp_schema_def default_obp_def decode_obp_def Let_def secret_ref_ok_def
        decode_secret_ref_def split: if_splits option.splits)
qed

lemma target_refs_policy:
  "target_refs_ok rs \<Longrightarrow> policy_targets rs n \<longleftrightarrow> n \<in> tr_name ` set rs"
  by (auto simp: target_refs_ok_def policy_targets_def list_all_iff list_ex_iff)

lemma admitted_tsp_targets: "admit_tsp m = Some m' \<Longrightarrow> tsp_target_refs (decode_tsp m') = tm_targets m"
  by (auto simp: admit_tsp_def default_tsp_def decode_tsp_def split: if_splits)

lemma tsp_admission_exact:
  assumes "target_refs_ok (tm_targets m)"
  shows "admit_tsp (m\<lparr>tm_prefix := Some q, tm_acknowledge := Some True, tm_level := Some l\<rparr>) \<noteq> None \<longleftrightarrow>
    (q = [] \<or> vanity_prefix_ok q) \<and> valid_log_level l"
  using assms by (simp add: admit_tsp_def tsp_schema_def default_tsp_def schema_levels prefix_schema_acknowledged)


text \<open>The API server's format takes more than Go does: an interval such as \<open>1 day\<close> is admitted and stored, and
  no client of these types can decode it.\<close>

lemma admitted_undecodable:
  assumes "fmt ''1 day'' = Some d" "5 * second \<le> d" "target_refs_ok (bm_targets m)" "secret_ref_ok (bm_master m)"
  shows "\<exists>m'. admit_obp fmt (m\<lparr>bm_replicas := Some 3, bm_interval := Some ''1 day''\<rparr>) = Some m' \<and> decode_obp m' = None"
proof -
  have "parse_duration ''1 day'' = None"
    by (simp add: parse_duration_def parse_pieces.simps parse_piece_def split_fraction_def is_digit_def digit_value_def
        digit_alphabet_def upt_rec unit_char_def unit_nanos_def micro_sign_def)
  then show ?thesis using assms by (simp add: admit_obp_def obp_schema_def default_obp_def decode_obp_def Let_def)
qed

subsection \<open>Instances\<close>

lemma half_minute: "parse_duration ''30s'' = Some (30 * second)"
proof -
  have "(9::nat) = Suc (Suc (Suc (Suc (Suc (Suc (Suc (Suc (Suc 0))))))))" by simp
  then have "fmt_frac 9 30000000000 = ([], 30)" by (simp only: fmt_frac_def) simp
  moreover have "show_nat 30 = ''30''" by (simp add: show_nat.simps digit_char_def digit_alphabet_def)
  ultimately have "duration_string (30 * second) = ''30s''"
    by (simp add: second_def duration_string_def fmt_duration_def)
  then show ?thesis using parse_duration_string [of "30 * second"] by (simp add: second_def)
qed

definition sample_refs :: "target_ref list" where
  "sample_refs = [\<lparr>tr_group = gateway_api_group, tr_kind = gateway_kind, tr_name = ''shop''\<rparr>]"

definition sample_tsp_manifest :: tsp_manifest where
  "sample_tsp_manifest = \<lparr>tm_targets = sample_refs, tm_prefix = Some ''tor'', tm_acknowledge = None, tm_level = None,
     tm_pow = None, tm_resources = None\<rparr>"

definition sample_tcap_manifest :: tcap_manifest where
  "sample_tcap_manifest = \<lparr>am_targets = sample_refs, am_secret = \<lparr>sm_name = ''clients'', sm_namespace = None\<rparr>, am_mode = None\<rparr>"

definition sample_obp_manifest :: obp_manifest where
  "sample_obp_manifest = \<lparr>bm_targets = sample_refs, bm_replicas = None, bm_interval = None,
     bm_master = \<lparr>sm_name = ''master'', sm_namespace = None\<rparr>, bm_backend_resources = None, bm_frontend_resources = None\<rparr>"

lemma sample_refs_ok: "target_refs_ok sample_refs"
  by (simp add: target_refs_ok_def sample_refs_def)

lemma sample_admitted:
  "admit_tsp sample_tsp_manifest = Some (default_tsp sample_tsp_manifest)"
  "admit_tcap sample_tcap_manifest = Some (sample_tcap_manifest\<lparr>am_mode := Some ''Strict''\<rparr>)"
  "admit_obp parse_duration sample_obp_manifest = Some (default_obp sample_obp_manifest)"
  by (simp_all add: admit_tsp_def tsp_schema_def default_tsp_def sample_tsp_manifest_def sample_refs_ok prefix_schema_def
      base32_char_def tor_log_levels_def admit_tcap_def sample_tcap_manifest_def secret_ref_ok_def Let_def
      admit_obp_def obp_schema_def default_obp_def sample_obp_manifest_def half_minute second_def)


end
