(* ===== verification/Spec2Isabelle.thy ===== *)
theory Spec2Isabelle
  imports Client_Auth Router Refresher Tor_Init Vanity_Finalize Router_Process Manager Child_Names
    Call_Bounds Watches Httproute_Controller Refusal Policy_Schema
begin

text \<open>
  tor-gateway: onion services for the Kubernetes Gateway API, a Go program. This development models the
  program and proves what makes it correct; the file and function names below are those under
  \<open>src/\<close>.

  The program. The operator (\<open>cmd/manager\<close>, \<open>internal/controller\<close>) reconciles Gateways of its class. In
  Mode A a Gateway becomes one pod: an init container (\<open>cmd/tor-init\<close>) lays down the hidden-service key,
  tor publishes the onion service, and a router (\<open>cmd/router\<close>, \<open>internal/router\<close>) forwards its requests
  to the backends of the HTTPRoutes. In Mode B, which an accepted OnionBalancePolicy selects, a StatefulSet of
  such pods, each with a key of its own, stands behind an Onionbalance frontend that publishes one master
  address; a sidecar (\<open>cmd/obrefresh\<close>, \<open>internal/onionbalance\<close>) keeps the frontend's list of backends.
  A key with a wanted prefix is searched for by a Job (mkp224o and \<open>cmd/vanity-finalize\<close>) before the key
  Secret exists. The formats they share (addresses, key files, torrc, client authorization, directory
  modes) are \<open>internal/tor\<close>. The parts meet in objects of the cluster and in the files of a volume.
\<close>

text \<open>
  How the code is modelled. A struct is a \<open>record\<close>, an enumeration or an error value a \<open>datatype\<close>, a Go
  byte slice a list of 8-bit words, a Go string a list of characters, a Go map an association list. A
  function that may fail returns a \<open>result\<close>, \<open>Inl\<close> the error; every early return of the source is a branch.
  Code that talks to the API server is a program in the sense of \<open>Api_Prog\<close>: a result, or one call and
  what to do with any answer to it. Statements about programs come in five strengths:
  \<^item> \<open>always E P Q\<close>: whatever the server answers within \<open>E\<close>, every call satisfies \<open>P\<close> and the result \<open>Q\<close>
    (\<open>Api_Prog\<close>; \<open>gives\<close> in \<open>Api_Logic\<close> are its introduction rules), so it covers faults and interleavings;
  \<^item> \<open>replay A\<close>: the calls and the result against fixed answers \<open>A\<close>;
  \<^item> \<open>within\<close>: a bound on the number of calls and the last of them (\<open>Call_Bounds\<close>);
  \<^item> \<open>exec serve\<close>: the run against a server with a state (\<open>Cluster\<close>), whose promises are the locale
    \<open>api_server\<close>, and \<open>reliable_server\<close> when its writes do not fail (\<open>Progress\<close>);
  \<^item> \<open>returns\<close>: the run ends without an error.

  The theories, in the order of the code:
  \<^item> \<open>Prelude\<close>, \<open>Selection\<close>, \<open>Cmd_Flags\<close>, \<open>Go_Duration\<close>: strings, results, decimal numbers; the loop that
    picks the best candidate, as a locale that the router and the controllers interpret; command lines, and
    durations printed and parsed.
  \<^item> \<open>Digests\<close>, \<open>Base32\<close>, \<open>Onion_Address\<close> (\<open>internal/tor/onion.go\<close>), \<open>Hs_Keys\<close> (\<open>keys.go\<close>,
    \<open>master_key.go\<close>), \<open>Permissions\<close> (\<open>permissions.go\<close>), \<open>Torrc\<close> (\<open>torrc.go\<close>), \<open>Client_Auth\<close>
    (\<open>clientauth.go\<close>): round trips of the formats, refusal of malformed input, the lines of a torrc, and
    the repair of modes, with every error that can stop it.
  \<^item> \<open>Gateway_Api\<close>, \<open>Kube_Meta\<close>, \<open>Kube_Objects\<close> (\<open>api/v1alpha1\<close> and the fields used of Kubernetes and
    Gateway API types), \<open>Names\<close> (\<open>names.go\<close>), \<open>Child_Names\<close>, \<open>Conditions\<close> (\<open>setCondition\<close> and the
    comparisons before a status is written), \<open>Reference_Grants\<close> (\<open>referencegrant.go\<close>).
  \<^item> \<open>Policy_Schema\<close>: what the markers of \<open>api/v1alpha1\<close> make the API server fill in and refuse, and that the
    program can use every policy that gets through.
  \<^item> \<open>Router\<close> (\<open>internal/router\<close>): matching and precedence of routes, admission, the proxy's director, and
    what a failed listing leaves in place.
  \<^item> \<open>Onionbalance\<close>, \<open>Refresher\<close>, \<open>Obrefresh_Main\<close> (\<open>internal/onionbalance\<close>, \<open>cmd/obrefresh\<close>): which
    backends are listed, the text of config.yaml, the debouncing state machine as an inductive step relation (nothing is
    lost when rebuilds do not overlap; they are not kept from overlapping), and the command line that the frontend
    pod gives to the sidecar, with the 64-bit arithmetic of its probe.
  \<^item> \<open>Httproute_Controller\<close>, \<open>Policy_Controllers\<close>: the reconcilers that report acceptance, and whom an
    event requeues.
  \<^item> \<open>Resources\<close>, \<open>Resources_Ha\<close>, \<open>Network_Policy\<close>, \<open>Vanity\<close> (\<open>gateway_resources.go\<close>,
    \<open>gateway_resources_ha.go\<close>, \<open>network_policy.go\<close>, \<open>network_policy_resolve.go\<close>, \<open>vanity_resources.go\<close>): the
    objects built for a Gateway, that they fit each other, and that no Gateway or policy adds a line to a torrc.
  \<^item> \<open>Gateway_Upserts\<close>, \<open>Vanity_Controller\<close>, \<open>Gateway_Controller\<close>, \<open>Gateway_Modes\<close>
    (\<open>gateway_controller.go\<close>, \<open>vanity.go\<close>): the Gateway reconciler, whole: \<open>gateway_reconcile\<close>.
  \<^item> \<open>Gateway_Calls\<close>, \<open>Gateway_Safety\<close>, \<open>Gateway_Lifecycle\<close>, \<open>Gateway_Status\<close>, \<open>Call_Bounds\<close>: what it
    may call, when it must hold back, what it writes into objects, and that its loops end. \<open>Refusal\<close>: that it
    says so when it holds back.
  \<^item> \<open>Server_Defaults\<close>, \<open>Cluster\<close>, \<open>Provisioning\<close>, \<open>Convergence\<close>, \<open>Progress\<close>, \<open>Watches\<close>: what its calls make
    of a cluster. An API server completes what it is sent: \<open>completes\<close> says which blank fields it may fill in, the
    locale \<open>defaulting\<close> what is promised of that, and \<open>usual_defaults\<close> is an instance (restart policy, protocol,
    access mode and the like). \<open>declared\<close> compares an object with the one that is built: same labels, same owner,
    same specification up to those defaults. \<open>mode_a_done\<close> is the abstract specification of Mode A in these terms,
    with no closure or comparison of the program in it: a reconcile reaches
    it, the next one stays there, and a change of any child wakes the Gateway up and is undone.
  \<^item> \<open>Tor_Init\<close>, \<open>Vanity_Finalize\<close>, \<open>Router_Main\<close>, \<open>Manager\<close>: the other binaries, from their flags to
    their exit codes, over a volume of modes and contents; \<open>Router_Process\<close>: the router as a process, with
    its signal, its two listeners and their shutdown, as an inductive step relation.

  Bounds. \<open>retry_on_conflict 4\<close> is \<open>retry.RetryOnConflict\<close> with the default back-off of five attempts; with it
  the status update of Mode B ends within 31 calls. No definition uses fuel: the loops of the code run over
  lists, and a program is a well-founded tree of calls.

  Parameters stand for what is not in the repository: base-point multiplication of ed25519 (\<open>ev_bm\<close>, known by
  the length of its result), the order in which Go iterates a map (\<open>ev_order\<close>, an arbitrary permutation),
  the clock, the texts of API errors, the answers of the server, and the outcomes of the host's file system.

  Not modelled: the generated deep copies of \<open>api/v1alpha1\<close> (values are immutable here), the queue, caches and leader election of controller-runtime, tor, mkp224o and Onionbalance
  themselves, the header timeouts and sockets of the HTTP servers, log lines, and the end-to-end test helpers of
  \<open>test/utils\<close>. A read in \<open>Cluster\<close> is answered from the present objects, so the convergence theorems speak of a
  cache that has caught up; the safety theorems over \<open>always\<close> do not assume it.
\<close>

end
